(* ===== verification/Ledger_Prelude.thy ===== *)
theory Ledger_Prelude
  imports
    Complex_Main
    "HOL-Library.AList"
    "HOL-Library.Multiset"
    "HOL-Library.Char_ord"
    "HOL-Library.List_Lexorder"
    "HOL-Library.Product_Lexorder"
begin

text \<open>
  What the components of the ledger share: the types of the values they pass around (money,
  instants, calendar days), the Python string and dictionary operations the code uses, and
  the lemmas on stable sorting and on grouping that the component proofs rest on.

  \<^item> A \<open>Decimal\<close> is a rational number. Python's default context rounds a result to 28
    significant digits; the ledger's quantities, prices and fees stay far below that, and the
    one operation that can need more digits, the division of the weighted average cost, is
    modelled exactly.
  \<^item> A \<open>datetime\<close> (always UTC-aware in the code) is the number of microseconds since
    1970-01-01, a \<open>date\<close> the number of days, a \<open>timedelta\<close> a number of microseconds.
  \<^item> Strings are lists of ASCII characters.
  \<^item> A dictionary is an association list in insertion order: assigning to a present key keeps
    its place, a new key goes to the end, exactly what \<^const>\<open>AList.update\<close> does.
\<close>

section \<open>Values\<close>

type_synonym decimal = rat
type_synonym datetime = int
type_synonym date = int
type_synonym timedelta = int

abbreviation us_per_second :: int where "us_per_second \<equiv> 1000000"
abbreviation us_per_day :: int where "us_per_day \<equiv> 86400000000"

text \<open>\<open>value.date()\<close> and \<open>datetime.combine(d, time.min, tzinfo=UTC)\<close>.\<close>

definition date_of :: "datetime \<Rightarrow> date" where
  "date_of t = t div us_per_day"

definition day_start :: "date \<Rightarrow> datetime" where
  "day_start d = d * us_per_day"

lemma date_of_day_start [simp]: "date_of (day_start d) = d"
  by (simp add: date_of_def day_start_def)

lemma le_div_iff_mult_le:
  fixes d t k :: int
  assumes "0 < k"
  shows "d \<le> t div k \<longleftrightarrow> d * k \<le> t"
proof
  assume "d \<le> t div k"
  then have "d * k \<le> (t div k) * k" using assms by (simp add: mult_right_mono)
  also have "\<dots> \<le> t" using assms by (simp add: minus_mod_eq_div_mult [symmetric])
  finally show "d * k \<le> t" .
next
  assume "d * k \<le> t"
  then have "(d * k) div k \<le> t div k" using assms by (rule zdiv_mono1)
  then show "d \<le> t div k" using assms by simp
qed

lemma date_of_ge_iff: "day_start d \<le> t \<longleftrightarrow> d \<le> date_of t"
  by (simp add: date_of_def day_start_def le_div_iff_mult_le)

lemma date_of_less_iff: "t < day_start (d + 1) \<longleftrightarrow> date_of t \<le> d"
  using date_of_ge_iff [of "d + 1" t] by linarith

lemma date_of_mono: "s \<le> t \<Longrightarrow> date_of s \<le> date_of t"
  unfolding date_of_def by (rule zdiv_mono1) simp_all

text \<open>A value with at most \<open>k\<close> digits after the point.\<close>

definition decimal_places :: "nat \<Rightarrow> decimal \<Rightarrow> bool" where
  "decimal_places k q \<longleftrightarrow> q * 10 ^ k \<in> \<int>"

lemma decimal_places_floor: "decimal_places k q \<Longrightarrow> decimal_places k (q - of_int n)"
proof -
  assume "decimal_places k q"
  moreover have "(q - of_int n) * 10 ^ k = q * 10 ^ k - of_int (n * 10 ^ k)"
    by (simp add: left_diff_distrib)
  ultimately show ?thesis unfolding decimal_places_def by (metis Ints_diff Ints_of_int)
qed

lemma decimal_places_mono: "decimal_places j q \<Longrightarrow> j \<le> k \<Longrightarrow> decimal_places k q"
proof -
  assume "decimal_places j q" "j \<le> k"
  moreover from this have "q * 10 ^ k = (q * 10 ^ j) * of_int (10 ^ (k - j))"
    by (simp add: mult.assoc power_add [symmetric])
  ultimately show ?thesis unfolding decimal_places_def by (metis Ints_mult Ints_of_int)
qed

text \<open>\<open>x or Decimal("0")\<close> and \<open>a or b\<close> on optional strings: \<open>None\<close> and the empty string
  are both false.\<close>

fun dec0 :: "decimal option \<Rightarrow> decimal" where
  "dec0 None = 0"
| "dec0 (Some q) = q"

definition str_true :: "string option \<Rightarrow> bool" where
  "str_true s \<longleftrightarrow> s \<noteq> None \<and> s \<noteq> Some []"

definition str_or :: "string option \<Rightarrow> string option \<Rightarrow> string option" where
  "str_or a b = (if str_true a then a else b)"

definition str0 :: "string option \<Rightarrow> string" where
  "str0 s = (case s of None \<Rightarrow> [] | Some x \<Rightarrow> x)"

lemma str_true_simps [simp]:
  "\<not> str_true None" "\<not> str_true (Some [])" "str_true (Some (c # cs))"
  by (simp_all add: str_true_def)

lemma str0_simps [simp]: "str0 None = []" "str0 (Some x) = x"
  by (simp_all add: str0_def)

section \<open>Strings\<close>

definition py_space :: "char \<Rightarrow> bool" where
  "py_space c \<longleftrightarrow> (let n = (of_char c :: nat) in n = 32 \<or> (9 \<le> n \<and> n \<le> 13) \<or> (28 \<le> n \<and> n \<le> 31))"

definition py_lstrip :: "string \<Rightarrow> string" where
  "py_lstrip s = dropWhile py_space s"

definition py_rstrip :: "string \<Rightarrow> string" where
  "py_rstrip s = rev (dropWhile py_space (rev s))"

definition py_strip :: "string \<Rightarrow> string" where
  "py_strip s = py_rstrip (py_lstrip s)"

definition lower_char :: "char \<Rightarrow> char" where
  "lower_char c = (let n = (of_char c :: nat) in if 65 \<le> n \<and> n \<le> 90 then char_of (n + 32) else c)"

definition upper_char :: "char \<Rightarrow> char" where
  "upper_char c = (let n = (of_char c :: nat) in if 97 \<le> n \<and> n \<le> 122 then char_of (n - 32) else c)"

definition py_lower :: "string \<Rightarrow> string" where
  "py_lower s = map lower_char s"

definition py_upper :: "string \<Rightarrow> string" where
  "py_upper s = map upper_char s"

definition py_startswith :: "string \<Rightarrow> string \<Rightarrow> bool" where
  "py_startswith s p \<longleftrightarrow> take (length p) s = p"

definition py_endswith :: "string \<Rightarrow> string \<Rightarrow> bool" where
  "py_endswith s p \<longleftrightarrow> length p \<le> length s \<and> drop (length s - length p) s = p"

text \<open>\<open>str(n)\<close> of a non-negative integer, as the f-strings print it.\<close>

fun show_nat :: "nat \<Rightarrow> string" where
  "show_nat n = (if n < 10 then [char_of (48 + n)] else show_nat (n div 10) @ [char_of (48 + n mod 10)])"

declare show_nat.simps [simp del]

text \<open>\<open>repr(s)\<close> of a string without quotes or backslashes; also the text of a \<open>KeyError(s)\<close>.\<close>

definition py_repr :: "string \<Rightarrow> string" where
  "py_repr s = [CHR 0x27] @ s @ [CHR 0x27]"

section \<open>Dictionaries in insertion order\<close>

type_synonym ('k, 'v) dict = "('k \<times> 'v) list"

abbreviation dict_get :: "('k, 'v) dict \<Rightarrow> 'k \<Rightarrow> 'v option" where
  "dict_get d k \<equiv> map_of d k"

definition dict_get_or :: "('k, 'v) dict \<Rightarrow> 'k \<Rightarrow> 'v \<Rightarrow> 'v" where
  "dict_get_or d k v = (case map_of d k of None \<Rightarrow> v | Some w \<Rightarrow> w)"

abbreviation dict_set :: "'k \<Rightarrow> 'v \<Rightarrow> ('k, 'v) dict \<Rightarrow> ('k, 'v) dict" where
  "dict_set \<equiv> AList.update"

lemma dict_get_set [simp]:
  "map_of (dict_set k v d) k' = (if k' = k then Some v else map_of d k')"
  by (simp add: AList.update_conv')

lemma dict_get_or_set [simp]:
  "dict_get_or (dict_set k v d) k' w = (if k' = k then v else dict_get_or d k' w)"
  by (simp add: dict_get_or_def)

text \<open>\<open>d.setdefault(k, []).append(x)\<close> and the loop that groups a list by a key with it.\<close>

fun dict_append :: "'k \<Rightarrow> 'v \<Rightarrow> ('k, 'v list) dict \<Rightarrow> ('k, 'v list) dict" where
  "dict_append k x [] = [(k, [x])]"
| "dict_append k x ((k', xs) # d) =
     (if k = k' then (k', xs @ [x]) # d else (k', xs) # dict_append k x d)"

definition group_by :: "('v \<Rightarrow> 'k) \<Rightarrow> 'v list \<Rightarrow> ('k, 'v list) dict" where
  "group_by f xs = foldl (\<lambda>d x. dict_append (f x) x d) [] xs"

lemma map_of_dict_append:
  "map_of (dict_append k x d) k' =
     (if k' = k then Some ((case map_of d k of None \<Rightarrow> [] | Some xs \<Rightarrow> xs) @ [x]) else map_of d k')"
  by (induction k x d rule: dict_append.induct) auto

lemma set_keys_dict_append: "fst ` set (dict_append k x d) = insert k (fst ` set d)"
  by (induction k x d rule: dict_append.induct) auto

lemma distinct_dict_append:
  "distinct (map fst d) \<Longrightarrow> distinct (map fst (dict_append k x d))"
  by (induction k x d rule: dict_append.induct) (auto simp: set_keys_dict_append)

lemma mset_dict_append:
  "mset (concat (map snd (dict_append k x d))) = mset (concat (map snd d)) + {#x#}"
  by (induction k x d rule: dict_append.induct) auto

lemma group_by_snoc: "group_by f (xs @ [x]) = dict_append (f x) x (group_by f xs)"
  by (simp add: group_by_def)

lemma group_by_Nil [simp]: "group_by f [] = []"
  by (simp add: group_by_def)

lemma map_of_group_by:
  "map_of (group_by f xs) k =
     (let ys = filter (\<lambda>x. f x = k) xs in if ys = [] then None else Some ys)"
  by (induction xs rule: rev_induct) (auto simp: group_by_snoc map_of_dict_append Let_def)

lemma distinct_group_by: "distinct (map fst (group_by f xs))"
  by (induction xs rule: rev_induct) (simp_all add: group_by_snoc distinct_dict_append)

lemma keys_group_by: "fst ` set (group_by f xs) = f ` set xs"
  by (induction xs rule: rev_induct) (simp_all add: group_by_snoc set_keys_dict_append)

lemma mset_group_by: "mset (concat (map snd (group_by f xs))) = mset xs"
  by (induction xs rule: rev_induct) (simp_all add: group_by_snoc mset_dict_append)

lemma group_by_member:
  assumes "(k, ys) \<in> set (group_by f xs)"
  shows "ys = filter (\<lambda>x. f x = k) xs" and "ys \<noteq> []"
proof -
  have "map_of (group_by f xs) k = Some ys"
    by (rule map_of_is_SomeI [OF distinct_group_by assms])
  then show "ys = filter (\<lambda>x. f x = k) xs" and "ys \<noteq> []"
    by (auto simp: map_of_group_by Let_def split: if_splits)
qed

text \<open>\<open>list(dict.fromkeys(xs))\<close>: duplicates dropped, first occurrence kept.\<close>

fun first_seen :: "'a list \<Rightarrow> 'a list" where
  "first_seen [] = []"
| "first_seen (x # xs) = x # first_seen (filter (\<lambda>y. y \<noteq> x) xs)"

lemma set_first_seen [simp]: "set (first_seen xs) = set xs"
  by (induction xs rule: first_seen.induct) auto

lemma distinct_first_seen [simp]: "distinct (first_seen xs)"
  by (induction xs rule: first_seen.induct) auto

lemma first_seen_snoc:
  "first_seen (xs @ [x]) = (if x \<in> set xs then first_seen xs else first_seen xs @ [x])"
  by (induction xs rule: first_seen.induct) auto

lemma keys_dict_set:
  "map fst (dict_set k v d) = (if k \<in> fst ` set d then map fst d else map fst d @ [k])"
  by (simp add: update_keys)

lemma dict_set_fresh: "k \<notin> fst ` set d \<Longrightarrow> dict_set k v d = d @ [(k, v)]"
  by (induction d) auto

lemma dom_dict_set: "fst ` set (dict_set k v d) = insert k (fst ` set d)"
  using arg_cong [OF keys_dict_set [of k v d], of set] by (auto split: if_splits)

lemma dict_get_in_keys: "dict_get d k = Some v \<Longrightarrow> k \<in> fst ` set d"
  by (metis map_of_eq_None_iff option.distinct(1))

lemma dict_as_map:
  assumes "distinct (map fst d)" and "\<And>k. k \<in> set (map fst d) \<Longrightarrow> dict_get d k = Some (f k)"
  shows "d = map (\<lambda>k. (k, f k)) (map fst d)"
proof -
  have "p = (fst p, f (fst p))" if "p \<in> set d" for p
  proof -
    have "dict_get d (fst p) = Some (snd p)"
      using assms(1) that by (simp add: map_of_is_SomeI)
    moreover have "dict_get d (fst p) = Some (f (fst p))"
      using that by (intro assms(2)) simp
    ultimately show ?thesis by (cases p) simp
  qed
  then have "map id d = map (\<lambda>p. (fst p, f (fst p))) d" by (intro map_cong) simp_all
  then show ?thesis by (simp add: comp_def)
qed

section \<open>Lists\<close>

text \<open>\<open>max(xs, default=None)\<close> and \<open>min(xs, default=None)\<close>.\<close>

definition max_opt :: "'a::linorder list \<Rightarrow> 'a option" where
  "max_opt xs = (if xs = [] then None else Some (Max (set xs)))"

definition min_opt :: "'a::linorder list \<Rightarrow> 'a option" where
  "min_opt xs = (if xs = [] then None else Some (Min (set xs)))"

text \<open>The values of the rows that have one: \<open>[f(r) for r in rows if f(r) is not None]\<close>.\<close>

definition somes :: "'a option list \<Rightarrow> 'a list" where
  "somes xs = List.map_filter id xs"

lemma somes_simps [simp]:
  "somes [] = []" "somes (None # xs) = somes xs" "somes (Some x # xs) = x # somes xs"
  by (simp_all add: somes_def map_filter_simps)

lemma somes_append [simp]: "somes (xs @ ys) = somes xs @ somes ys"
proof (induction xs)
  case (Cons x xs)
  then show ?case by (cases x) simp_all
qed simp

lemma set_somes: "set (somes xs) = {x. Some x \<in> set xs}"
proof (induction xs)
  case (Cons x xs)
  then show ?case by (cases x) auto
qed simp

lemma max_opt_None [simp]: "max_opt xs = None \<longleftrightarrow> xs = []"
  by (simp add: max_opt_def)

lemma max_opt_Some: "max_opt xs = Some m \<Longrightarrow> m \<in> set xs \<and> (\<forall>x \<in> set xs. x \<le> m)"
  by (auto simp: max_opt_def split: if_splits)

lemma sum_list_mset_cong: "mset xs = mset ys \<Longrightarrow> sum_list (map f xs) = (sum_list (map f ys) :: 'b::comm_monoid_add)"
  by (metis mset_map sum_mset_sum_list)

text \<open>\<open>sorted(xs, key=f)\<close> is stable, and so is the library's insertion sort.\<close>

lemma filter_sort_key: "filter P (sort_key f xs) = sort_key f (filter P xs)"
  by (rule filter_sort)

lemma insort_key_cong:
  "f x = g x \<Longrightarrow> \<forall>y \<in> set ys. f y = g y \<Longrightarrow> insort_key f x ys = insort_key g x ys"
  by (induction ys) simp_all

lemma sort_key_cong: "\<forall>x \<in> set xs. f x = g x \<Longrightarrow> sort_key f xs = sort_key g xs"
proof (induction xs)
  case (Cons x xs)
  then have "insort_key f x (sort_key g xs) = insort_key g x (sort_key g xs)"
    by (intro insort_key_cong) simp_all
  with Cons show ?case by simp
qed simp

lemma map_of_map_snd: "map_of (map (\<lambda>(k, v). (k, f v)) d) k = map_option f (map_of d k)"
  by (induction d) auto

lemma sort_key_append_le:
  assumes "\<forall>x \<in> set xs. \<forall>y \<in> set ys. f x \<le> f y"
  shows "sort_key f (xs @ ys) = sort_key f xs @ sort_key f ys"
proof (rule properties_for_sort_key)
  fix k assume "k \<in> set (sort_key f xs @ sort_key f ys)"
  have "filter (\<lambda>x. f k = f x) (sort_key f zs) = filter (\<lambda>x. f k = f x) zs" for zs
    using sort_key_stable [of f "f k" zs] by (simp add: eq_commute)
  then show "filter (\<lambda>x. f k = f x) (sort_key f xs @ sort_key f ys) = filter (\<lambda>x. f k = f x) (xs @ ys)"
    by simp
qed (use assms in \<open>auto simp: sorted_append\<close>)

end
