(* ===== verification/Money.thy ===== *)
theory Money
  imports Ledger_Prelude
begin

text \<open>
  \<^verbatim>\<open>tt_ledger/money.py\<close>: the column type of every price, value, fee and P&L. Postgres stores the
  decimal itself, every other dialect an integer number of micro-units (ten to the \<open>scale\<close> per
  unit), rounded half to even by \<open>to_integral_value\<close>.
\<close>

datatype column_value = SQL_Null | SQL_Numeric decimal | SQL_Integer int

definition round_half_even :: "decimal \<Rightarrow> int" where
  "round_half_even q =
     (let f = \<lfloor>q\<rfloor>; r = q - of_int f in
      if r < 1 / 2 then f else if 1 / 2 < r then f + 1 else if even f then f else f + 1)"

definition process_bind_param :: "nat \<Rightarrow> string \<Rightarrow> decimal option \<Rightarrow> column_value" where
  "process_bind_param scale dialect value =
     (case value of
        None \<Rightarrow> SQL_Null
      | Some v \<Rightarrow>
          if dialect = ''postgresql'' then SQL_Numeric v
          else SQL_Integer (round_half_even (v * 10 ^ scale)))"

fun process_result_value :: "nat \<Rightarrow> string \<Rightarrow> column_value \<Rightarrow> decimal option" where
  "process_result_value scale dialect SQL_Null = None"
| "process_result_value scale dialect (SQL_Numeric v) =
     Some (if dialect = ''postgresql'' then v else v / 10 ^ scale)"
| "process_result_value scale dialect (SQL_Integer n) =
     Some (if dialect = ''postgresql'' then of_int n else of_int n / 10 ^ scale)"

section \<open>Rounding\<close>

lemma round_half_even_near: "\<bar>of_int (round_half_even q) - q\<bar> \<le> 1 / 2"
  using floor_correct [of q] by (auto simp: round_half_even_def Let_def abs_le_iff)

lemma round_half_even_of_int [simp]: "round_half_even (of_int n) = n"
  by (simp add: round_half_even_def)

lemma round_half_even_mono: "p \<le> q \<Longrightarrow> round_half_even p \<le> round_half_even q"
proof -
  assume "p \<le> q"
  then have "\<lfloor>p\<rfloor> \<le> \<lfloor>q\<rfloor>" by (rule floor_mono)
  then consider "\<lfloor>p\<rfloor> = \<lfloor>q\<rfloor>" | "\<lfloor>p\<rfloor> + 1 \<le> \<lfloor>q\<rfloor>" by linarith
  then show ?thesis
  proof cases
    case 1
    with \<open>p \<le> q\<close> show ?thesis by (auto simp: round_half_even_def Let_def)
  next
    case 2
    moreover have "round_half_even p \<le> \<lfloor>p\<rfloor> + 1" "\<lfloor>q\<rfloor> \<le> round_half_even q"
      by (auto simp: round_half_even_def Let_def)
    ultimately show ?thesis by linarith
  qed
qed

lemma stored_micro:
  assumes "dialect \<noteq> ''postgresql''"
  shows "process_result_value scale dialect (process_bind_param scale dialect (Some v))
       = Some (of_int (round_half_even (v * 10 ^ scale)) / 10 ^ scale)"
  using assms by (simp add: process_bind_param_def)

text \<open>
  A monetary value is read back as it was written exactly when the backend stores
  decimals or the value has no more digits after the point than the column's scale; \<open>None\<close> always
  is.
\<close>

theorem money_round_trip:
  "process_result_value scale dialect (process_bind_param scale dialect None) = None
   \<and> (process_result_value scale dialect (process_bind_param scale dialect (Some v)) = Some v
        \<longleftrightarrow> dialect = ''postgresql'' \<or> decimal_places scale v)"
proof -
  have "of_int (round_half_even (v * 10 ^ scale)) / 10 ^ scale = v \<longleftrightarrow> decimal_places scale v"
  proof
    assume "of_int (round_half_even (v * 10 ^ scale)) / 10 ^ scale = v"
    then have "v * 10 ^ scale = of_int (round_half_even (v * 10 ^ scale))" by (simp add: field_simps)
    then show "decimal_places scale v" unfolding decimal_places_def by (metis Ints_of_int)
  next
    assume "decimal_places scale v"
    then obtain n where "v * 10 ^ scale = of_int n" unfolding decimal_places_def by (rule Ints_cases)
    then show "of_int (round_half_even (v * 10 ^ scale)) / 10 ^ scale = v" by (simp add: field_simps)
  qed
  then show ?thesis
    by (cases "dialect = ''postgresql''") (simp_all add: process_bind_param_def)
qed

text \<open>
  On the other backends a value is never stored further off than half a micro-unit,
  comparisons survive storing, and storing what was read back changes nothing more.
\<close>

theorem money_error_bounded:
  assumes "process_result_value scale dialect (process_bind_param scale dialect (Some v)) = Some v'"
    and "process_result_value scale dialect (process_bind_param scale dialect (Some w)) = Some w'"
  shows "\<bar>v' - v\<bar> * 10 ^ scale \<le> 1 / 2
    \<and> (v \<le> w \<longrightarrow> v' \<le> w')
    \<and> process_bind_param scale dialect (Some v') = process_bind_param scale dialect (Some v)"
proof (cases "dialect = ''postgresql''")
  case True
  then show ?thesis using assms by (simp add: process_bind_param_def)
next
  case False
  let ?n = "\<lambda>x. of_int (round_half_even (x * 10 ^ scale)) :: decimal"
  have v: "v' = ?n v / 10 ^ scale" and w: "w' = ?n w / 10 ^ scale"
    using assms stored_micro [OF False] by simp_all
  have "\<bar>v' - v\<bar> * 10 ^ scale = \<bar>(v' - v) * 10 ^ scale\<bar>" by (simp add: abs_mult)
  also have "(v' - v) * 10 ^ scale = ?n v - v * 10 ^ scale" by (simp add: v left_diff_distrib)
  finally have "\<bar>v' - v\<bar> * 10 ^ scale \<le> 1 / 2" using round_half_even_near [of "v * 10 ^ scale"] by simp
  moreover have "v' \<le> w'" if "v \<le> w"
    using round_half_even_mono [of "v * 10 ^ scale" "w * 10 ^ scale"] that
    by (simp add: v w divide_right_mono mult_right_mono)
  moreover have "v' * 10 ^ scale = ?n v" by (simp add: v)
  ultimately show ?thesis using False by (simp add: process_bind_param_def)
qed

theorem money_error_bounded_witness:
  "process_result_value 2 ''sqlite'' (process_bind_param 2 ''sqlite'' (Some (1 / 8))) = Some (3 / 25)
   \<and> \<bar>3 / 25 - 1 / 8 :: decimal\<bar> * 10 ^ 2 \<le> 1 / 2"
proof -
  have "process_result_value 2 ''sqlite'' (process_bind_param 2 ''sqlite'' (Some (1 / 8))) = Some (3 / 25)"
    by code_simp
  with money_error_bounded [OF this this] show ?thesis by blast
qed

end
