(* ===== verification/Schema.thy ===== *)
theory Schema
  imports Money
begin

text \<open>
  The database schema, in its two descriptions: the ORM models of \<^verbatim>\<open>tt_ledger/schema/models.py\<close>
  (what \<open>create_all\<close> builds) and the Alembic migrations of \<^verbatim>\<open>tt_ledger/schema/migrations/versions\<close>
  (what \<open>upgrade head\<close> builds). A schema is the list of its tables; a migration is a list of DDL
  operations, each of which is rejected, as the databases reject it, when what it names is missing,
  exists already or is still referenced. SQLAlchemy and Alembic contribute their documented rules
  only: a column with a foreign key and no type takes the type of the column it references, an
  indexed column has the index \<open>ix_<table>_<column>\<close>, and a primary key has an identity column.
\<close>

section \<open>Tables\<close>

datatype column_type =
  VARCHAR nat | TEXT | INTEGER | BOOLEAN | DATETIME | DATE | MONEY nat | JSON_VALUE

record db_column =
  co_name :: string
  co_type :: column_type
  co_nullable :: bool

record db_index =
  ix_name :: string
  ix_columns :: "string list"
  ix_unique :: bool
  ix_where :: "string option"

text \<open>A foreign key is the column, the referenced table and the referenced column; a unique
  constraint covers one column. The primary key is the column \<open>id\<close> of every table.\<close>

record db_table =
  sc_name :: string
  sc_columns :: "db_column list"
  sc_foreign_keys :: "(string \<times> string \<times> string) list"
  sc_unique :: "string list"
  sc_indexes :: "db_index list"

type_synonym schema = "db_table list"

definition plain_index :: "string \<Rightarrow> string list \<Rightarrow> db_index" where
  "plain_index name cols = \<lparr> ix_name = name, ix_columns = cols, ix_unique = False, ix_where = None \<rparr>"

definition unique_index :: "string \<Rightarrow> string list \<Rightarrow> db_index" where
  "unique_index name cols = \<lparr> ix_name = name, ix_columns = cols, ix_unique = True, ix_where = None \<rparr>"

definition column :: "string \<Rightarrow> column_type \<Rightarrow> db_column" where
  "column name ty = \<lparr> co_name = name, co_type = ty, co_nullable = True \<rparr>"

definition required_column :: "string \<Rightarrow> column_type \<Rightarrow> db_column" where
  "required_column name ty = \<lparr> co_name = name, co_type = ty, co_nullable = False \<rparr>"

definition find_table :: "schema \<Rightarrow> string \<Rightarrow> db_table option" where
  "find_table s name = find (\<lambda>t. sc_name t = name) s"

section \<open>The ORM models\<close>

text \<open>One \<open>mapped_column(...)\<close>: no type where a \<open>ForeignKey\<close> stands instead.\<close>

record mapped_column =
  mc_name :: string
  mc_type :: "column_type option"
  mc_nullable :: bool
  mc_foreign_key :: "(string \<times> string) option"
  mc_index :: bool
  mc_unique :: bool

definition mapped :: "string \<Rightarrow> column_type \<Rightarrow> mapped_column" where
  "mapped name ty = \<lparr> mc_name = name, mc_type = Some ty, mc_nullable = False, mc_foreign_key = None,
     mc_index = False, mc_unique = False \<rparr>"

definition primary_key :: "string \<Rightarrow> mapped_column" where
  "primary_key name = mapped name INTEGER"

definition foreign_key :: "string \<Rightarrow> string \<times> string \<Rightarrow> mapped_column" where
  "foreign_key name target = \<lparr> mc_name = name, mc_type = None, mc_nullable = False,
     mc_foreign_key = Some target, mc_index = False, mc_unique = False \<rparr>"

definition null_ok :: "mapped_column \<Rightarrow> mapped_column" where
  "null_ok c = c\<lparr>mc_nullable := True\<rparr>"

definition indexed :: "mapped_column \<Rightarrow> mapped_column" where
  "indexed c = c\<lparr>mc_index := True\<rparr>"

definition unique_values :: "mapped_column \<Rightarrow> mapped_column" where
  "unique_values c = c\<lparr>mc_unique := True\<rparr>"

record model =
  md_tablename :: string
  md_columns :: "mapped_column list"
  md_table_args :: "db_index list"

definition accounts_model :: model where
  "accounts_model =
     \<lparr> md_tablename = ''accounts'',
       md_columns =
         [primary_key ''id'',
          indexed (unique_values (mapped ''nickname'' (VARCHAR 50))),
          unique_values (mapped ''account_number'' (VARCHAR 32)),
          indexed (mapped ''login'' (VARCHAR 64)),
          mapped ''env'' (VARCHAR 8),
          mapped ''source_system'' (VARCHAR 32),
          mapped ''is_active'' BOOLEAN,
          mapped ''created_at'' DATETIME,
          mapped ''updated_at'' DATETIME],
       md_table_args = [] \<rparr>"

definition securities_model :: model where
  "securities_model =
     \<lparr> md_tablename = ''securities'',
       md_columns =
         [primary_key ''id'',
          indexed (unique_values (mapped ''security_id'' (VARCHAR 64))),
          mapped ''product_type'' (VARCHAR 2),
          indexed (null_ok (mapped ''underlying'' (VARCHAR 32))),
          null_ok (mapped ''expiry'' DATE),
          null_ok (mapped ''strike'' (MONEY 6)),
          null_ok (mapped ''option_type'' (VARCHAR 1)),
          null_ok (mapped ''multiplier'' INTEGER),
          null_ok (mapped ''exchange'' (VARCHAR 16)),
          null_ok (mapped ''currency'' (VARCHAR 8)),
          indexed (null_ok (mapped ''tt_symbol'' TEXT)),
          null_ok (mapped ''occ_symbol'' TEXT),
          indexed (null_ok (mapped ''streamer_symbol'' TEXT)),
          mapped ''source_system'' (VARCHAR 32),
          null_ok (mapped ''metadata'' JSON_VALUE),
          mapped ''first_seen_at'' DATETIME,
          mapped ''last_updated_at'' DATETIME],
       md_table_args = [] \<rparr>"

definition orders_model :: model where
  "orders_model =
     \<lparr> md_tablename = ''orders'',
       md_columns =
         [primary_key ''id'',
          null_ok (mapped ''tt_order_id'' (VARCHAR 64)),
          indexed (null_ok (mapped ''oms_order_id'' (VARCHAR 64))),
          null_ok (mapped ''client_order_id'' (VARCHAR 64)),
          indexed (foreign_key ''account'' (''accounts'', ''nickname'')),
          null_ok (mapped ''account_number'' (VARCHAR 32)),
          mapped ''origin'' (VARCHAR 8),
          mapped ''ingest'' (VARCHAR 16),
          mapped ''source_system'' (VARCHAR 32),
          null_ok (foreign_key ''security_id'' (''securities'', ''security_id'')),
          indexed (null_ok (mapped ''underlying'' (VARCHAR 32))),
          null_ok (mapped ''order_type'' TEXT),
          null_ok (mapped ''time_in_force'' TEXT),
          null_ok (mapped ''gtc_date'' (VARCHAR 10)),
          null_ok (mapped ''price'' (MONEY 6)),
          null_ok (mapped ''stop_trigger'' (MONEY 6)),
          null_ok (mapped ''price_effect'' (VARCHAR 8)),
          null_ok (mapped ''average_fill_price'' (MONEY 6)),
          mapped ''is_complex'' BOOLEAN,
          null_ok (mapped ''complex_order_type'' TEXT),
          null_ok (mapped ''oms_status'' (VARCHAR 24)),
          null_ok (mapped ''tt_status'' TEXT),
          null_ok (mapped ''status_message'' TEXT),
          null_ok (mapped ''filled_quantity'' (MONEY 6)),
          null_ok (mapped ''remaining_quantity'' (MONEY 6)),
          indexed (null_ok (mapped ''signal_id'' (VARCHAR 128))),
          indexed (null_ok (mapped ''trace_id'' (VARCHAR 64))),
          indexed (null_ok (mapped ''strategy_id'' INTEGER)),
          indexed (null_ok (mapped ''trade_group_id'' INTEGER)),
          null_ok (mapped ''market_context_id'' INTEGER),
          null_ok (mapped ''received_at'' DATETIME),
          null_ok (mapped ''submitted_at'' DATETIME),
          null_ok (mapped ''filled_at'' DATETIME),
          null_ok (mapped ''terminal_at'' DATETIME),
          mapped ''created_at'' DATETIME,
          mapped ''updated_at'' DATETIME],
       md_table_args = [(unique_index ''uq_orders_tt_order_id'' [''tt_order_id''])\<lparr>ix_where := Some ''tt_order_id IS NOT NULL''\<rparr>] \<rparr>"

definition order_legs_model :: model where
  "order_legs_model =
     \<lparr> md_tablename = ''order_legs'',
       md_columns =
         [primary_key ''id'',
          indexed (foreign_key ''order_id'' (''orders'', ''id'')),
          mapped ''leg_index'' INTEGER,
          indexed (foreign_key ''security_id'' (''securities'', ''security_id'')),
          null_ok (mapped ''action'' (VARCHAR 20)),
          null_ok (mapped ''quantity'' (MONEY 6)),
          null_ok (mapped ''remaining_quantity'' (MONEY 6)),
          null_ok (mapped ''quantity_direction'' (VARCHAR 8)),
          null_ok (mapped ''price'' (MONEY 6)),
          null_ok (mapped ''fill_price'' (MONEY 6)),
          mapped ''created_at'' DATETIME,
          mapped ''updated_at'' DATETIME],
       md_table_args = [unique_index ''uq_order_legs_order_index'' [''order_id'', ''leg_index'']] \<rparr>"

definition order_fills_model :: model where
  "order_fills_model =
     \<lparr> md_tablename = ''order_fills'',
       md_columns =
         [primary_key ''id'',
          indexed (foreign_key ''order_id'' (''orders'', ''id'')),
          indexed (null_ok (foreign_key ''order_leg_id'' (''order_legs'', ''id''))),
          indexed (null_ok (mapped ''tt_order_id'' (VARCHAR 64))),
          unique_values (mapped ''fill_id'' (VARCHAR 64)),
          null_ok (mapped ''quantity'' (MONEY 6)),
          null_ok (mapped ''fill_price'' (MONEY 6)),
          null_ok (mapped ''filled_at'' DATETIME),
          null_ok (mapped ''destination_venue'' TEXT),
          null_ok (mapped ''ext_exec_id'' (VARCHAR 64)),
          null_ok (mapped ''ext_group_fill_id'' (VARCHAR 64))],
       md_table_args = [] \<rparr>"

definition positions_model :: model where
  "positions_model =
     \<lparr> md_tablename = ''positions'',
       md_columns =
         [primary_key ''id'',
          indexed (foreign_key ''account'' (''accounts'', ''nickname'')),
          indexed (foreign_key ''security_id'' (''securities'', ''security_id'')),
          mapped ''quantity'' (MONEY 6),
          mapped ''quantity_direction'' (VARCHAR 8),
          null_ok (mapped ''average_open_price'' (MONEY 6)),
          null_ok (mapped ''mark_price'' (MONEY 6)),
          null_ok (mapped ''close_price'' (MONEY 6)),
          null_ok (mapped ''unrealized_pnl'' (MONEY 6)),
          null_ok (mapped ''realized_day_gain'' (MONEY 6)),
          mapped ''multiplier'' INTEGER,
          null_ok (mapped ''expires_at'' DATETIME),
          indexed (null_ok (mapped ''strategy_id'' INTEGER)),
          indexed (null_ok (foreign_key ''opening_order_id'' (''orders'', ''id''))),
          indexed (null_ok (foreign_key ''trade_group_id'' (''trade_groups'', ''id''))),
          null_ok (mapped ''position_opened_at'' DATETIME),
          mapped ''first_seen_at'' DATETIME,
          mapped ''last_updated_at'' DATETIME],
       md_table_args = [unique_index ''uq_positions_account_security'' [''account'', ''security_id'']] \<rparr>"

definition closed_positions_model :: model where
  "closed_positions_model =
     \<lparr> md_tablename = ''closed_positions'',
       md_columns =
         [primary_key ''id'',
          indexed (foreign_key ''account'' (''accounts'', ''nickname'')),
          indexed (foreign_key ''security_id'' (''securities'', ''security_id'')),
          mapped ''quantity'' (MONEY 6),
          mapped ''quantity_direction'' (VARCHAR 8),
          null_ok (mapped ''average_open_price'' (MONEY 6)),
          null_ok (mapped ''average_close_price'' (MONEY 6)),
          null_ok (mapped ''realized_pnl'' (MONEY 6)),
          null_ok (mapped ''fees'' (MONEY 6)),
          null_ok (mapped ''pnl_net'' (MONEY 6)),
          null_ok (foreign_key ''opening_order_id'' (''orders'', ''id'')),
          null_ok (foreign_key ''closing_order_id'' (''orders'', ''id'')),
          indexed (null_ok (foreign_key ''trade_group_id'' (''trade_groups'', ''id''))),
          null_ok (mapped ''opened_at'' DATETIME),
          mapped ''closed_at'' DATETIME,
          null_ok (mapped ''holding_period_days'' INTEGER)],
       md_table_args = [] \<rparr>"

definition trade_groups_model :: model where
  "trade_groups_model =
     \<lparr> md_tablename = ''trade_groups'',
       md_columns =
         [primary_key ''id'',
          indexed (unique_values (mapped ''group_id'' (VARCHAR 36))),
          indexed (foreign_key ''account'' (''accounts'', ''nickname'')),
          mapped ''origin'' (VARCHAR 8),
          mapped ''source_system'' (VARCHAR 32),
          indexed (mapped ''review_status'' (VARCHAR 16)),
          mapped ''manually_attributed'' BOOLEAN,
          null_ok (mapped ''reviewed_at'' DATETIME),
          null_ok (mapped ''reviewed_by'' (VARCHAR 64)),
          indexed (null_ok (mapped ''underlying'' (VARCHAR 32))),
          null_ok (mapped ''security_id'' (VARCHAR 64)),
          null_ok (mapped ''strategy_type'' (VARCHAR 24)),
          mapped ''leg_count'' INTEGER,
          null_ok (mapped ''total_premium'' (MONEY 6)),
          null_ok (mapped ''quantity'' (MONEY 6)),
          null_ok (mapped ''total_fees'' (MONEY 6)),
          indexed (mapped ''status'' (VARCHAR 16)),
          null_ok (mapped ''realized_pnl'' (MONEY 6)),
          null_ok (mapped ''unrealized_pnl'' (MONEY 6)),
          null_ok (mapped ''max_profit'' (MONEY 6)),
          null_ok (mapped ''max_loss'' (MONEY 6)),
          null_ok (mapped ''initial_risk'' (MONEY 6)),
          null_ok (mapped ''profit_target'' (VARCHAR 32)),
          null_ok (mapped ''stop_loss'' (VARCHAR 32)),
          null_ok (mapped ''exit_strategy'' (VARCHAR 100)),
          null_ok (mapped ''structure'' JSON_VALUE),
          indexed (null_ok (foreign_key ''order_id'' (''orders'', ''id''))),
          indexed (null_ok (mapped ''strategy_id'' INTEGER)),
          indexed (null_ok (mapped ''bot_name'' (VARCHAR 64))),
          indexed (null_ok (mapped ''signal_id'' (VARCHAR 128))),
          null_ok (mapped ''executed_at'' DATETIME),
          null_ok (mapped ''closed_at'' DATETIME),
          mapped ''created_at'' DATETIME,
          mapped ''updated_at'' DATETIME],
       md_table_args = [] \<rparr>"

definition trade_group_events_model :: model where
  "trade_group_events_model =
     \<lparr> md_tablename = ''trade_group_events'',
       md_columns =
         [primary_key ''id'',
          indexed (foreign_key ''trade_group_id'' (''trade_groups'', ''id'')),
          mapped ''event_type'' (VARCHAR 16),
          mapped ''quantity_change'' (MONEY 6),
          mapped ''premium_change'' (MONEY 6),
          null_ok (mapped ''realized_pnl'' (MONEY 6)),
          mapped ''event_at'' DATETIME,
          null_ok (mapped ''notes'' TEXT),
          indexed (null_ok (foreign_key ''rolled_to_group_id'' (''trade_groups'', ''id''))),
          indexed (null_ok (foreign_key ''transaction_id'' (''transactions'', ''id''))),
          indexed (null_ok (foreign_key ''order_id'' (''orders'', ''id'')))],
       md_table_args = [] \<rparr>"

definition transactions_model :: model where
  "transactions_model =
     \<lparr> md_tablename = ''transactions'',
       md_columns =
         [primary_key ''id'',
          indexed (unique_values (mapped ''tt_transaction_id'' TEXT)),
          indexed (null_ok (mapped ''tt_order_id'' (VARCHAR 64))),
          indexed (foreign_key ''account'' (''accounts'', ''nickname'')),
          null_ok (mapped ''account_number'' (VARCHAR 32)),
          mapped ''source_system'' (VARCHAR 32),
          null_ok (mapped ''transaction_type'' TEXT),
          null_ok (mapped ''transaction_sub_type'' TEXT),
          null_ok (mapped ''action'' TEXT),
          null_ok (foreign_key ''security_id'' (''securities'', ''security_id'')),
          indexed (null_ok (mapped ''underlying'' (VARCHAR 32))),
          null_ok (mapped ''quantity'' (MONEY 6)),
          null_ok (mapped ''price'' (MONEY 6)),
          null_ok (mapped ''value'' (MONEY 6)),
          null_ok (mapped ''value_effect'' (VARCHAR 10)),
          null_ok (mapped ''net_value'' (MONEY 6)),
          null_ok (mapped ''net_value_effect'' (VARCHAR 10)),
          null_ok (mapped ''commission'' (MONEY 6)),
          null_ok (mapped ''clearing_fees'' (MONEY 6)),
          null_ok (mapped ''regulatory_fees'' (MONEY 6)),
          null_ok (mapped ''proprietary_index_option_fees'' (MONEY 6)),
          null_ok (mapped ''is_estimated_fee'' BOOLEAN),
          null_ok (mapped ''description'' TEXT),
          indexed (null_ok (foreign_key ''order_id'' (''orders'', ''id''))),
          indexed (null_ok (foreign_key ''order_leg_id'' (''order_legs'', ''id''))),
          indexed (null_ok (foreign_key ''position_id'' (''positions'', ''id''))),
          indexed (null_ok (foreign_key ''closed_position_id'' (''closed_positions'', ''id''))),
          indexed (null_ok (foreign_key ''trade_group_id'' (''trade_groups'', ''id''))),
          null_ok (mapped ''executed_at'' DATETIME),
          null_ok (mapped ''transaction_date'' DATE),
          mapped ''created_at'' DATETIME,
          mapped ''updated_at'' DATETIME],
       md_table_args = [plain_index ''ix_transactions_account_executed'' [''account'', ''executed_at''],
          plain_index ''ix_transactions_account_date'' [''account'', ''transaction_date'']] \<rparr>"

definition balance_snapshots_model :: model where
  "balance_snapshots_model =
     \<lparr> md_tablename = ''balance_snapshots'',
       md_columns =
         [primary_key ''id'',
          indexed (foreign_key ''account'' (''accounts'', ''nickname'')),
          mapped ''captured_at'' DATETIME,
          mapped ''source'' (VARCHAR 16),
          null_ok (mapped ''net_liquidating_value'' (MONEY 6)),
          null_ok (mapped ''cash_balance'' (MONEY 6)),
          null_ok (mapped ''equity_buying_power'' (MONEY 6)),
          null_ok (mapped ''derivative_buying_power'' (MONEY 6)),
          null_ok (mapped ''maintenance_requirement'' (MONEY 6)),
          null_ok (mapped ''pending_cash'' (MONEY 6)),
          null_ok (mapped ''day_trading_buying_power'' (MONEY 6)),
          null_ok (mapped ''raw'' JSON_VALUE),
          mapped ''created_at'' DATETIME],
       md_table_args = [unique_index ''uq_balance_snapshots_account_time_source'' [''account'', ''captured_at'', ''source'']] \<rparr>"

definition metadata_models :: "model list" where
  "metadata_models =
     [accounts_model, securities_model, orders_model, order_legs_model, order_fills_model, positions_model, closed_positions_model, trade_groups_model, trade_group_events_model, transactions_model, balance_snapshots_model]"

text \<open>The table a model stands for.\<close>

definition resolved_type :: "model list \<Rightarrow> mapped_column \<Rightarrow> column_type option" where
  "resolved_type ms c =
     (case mc_type c of
        Some ty \<Rightarrow> Some ty
      | None \<Rightarrow>
          (case mc_foreign_key c of
             None \<Rightarrow> None
           | Some (tbl, ref) \<Rightarrow>
               (case find (\<lambda>m. md_tablename m = tbl) ms of
                  None \<Rightarrow> None
                | Some m \<Rightarrow> (case find (\<lambda>c'. mc_name c' = ref) (md_columns m) of
                              None \<Rightarrow> None | Some c' \<Rightarrow> mc_type c'))))"

definition column_of :: "model list \<Rightarrow> mapped_column \<Rightarrow> db_column option" where
  "column_of ms c =
     map_option (\<lambda>ty. \<lparr> co_name = mc_name c, co_type = ty, co_nullable = mc_nullable c \<rparr>)
       (resolved_type ms c)"

definition implicit_index :: "string \<Rightarrow> mapped_column \<Rightarrow> db_index" where
  "implicit_index tbl c =
     \<lparr> ix_name = ''ix_'' @ tbl @ ''_'' @ mc_name c, ix_columns = [mc_name c],
       ix_unique = mc_unique c, ix_where = None \<rparr>"

definition table_of_model :: "model list \<Rightarrow> model \<Rightarrow> db_table option" where
  "table_of_model ms m =
     map_option (\<lambda>cols.
       \<lparr> sc_name = md_tablename m, sc_columns = cols,
         sc_foreign_keys = somes (map (\<lambda>c. map_option (\<lambda>(tbl, ref). (mc_name c, tbl, ref)) (mc_foreign_key c))
                                      (md_columns m)),
         sc_unique = map mc_name (filter (\<lambda>c. mc_unique c \<and> \<not> mc_index c) (md_columns m)),
         sc_indexes = md_table_args m
           @ map (implicit_index (md_tablename m)) (filter mc_index (md_columns m)) \<rparr>)
       (those (map (column_of ms) (md_columns m)))"

definition metadata_schema :: "schema option" where
  "metadata_schema = those (map (table_of_model metadata_models) metadata_models)"

section \<open>DDL\<close>

datatype ddl =
  Create_Table db_table
| Drop_Table string
| Create_Index string db_index
| Drop_Index string string
| Add_Column string db_column
| Drop_Column string string
| Alter_Type string string column_type

definition has_column :: "db_table \<Rightarrow> string \<Rightarrow> bool" where
  "has_column t c \<longleftrightarrow> c \<in> set (map co_name (sc_columns t))"

definition key_column :: "db_table \<Rightarrow> string \<Rightarrow> bool" where
  "key_column t c \<longleftrightarrow> c = ''id'' \<or> c \<in> set (sc_unique t)
     \<or> list_ex (\<lambda>ix. ix_unique ix \<and> ix_where ix = None \<and> ix_columns ix = [c]) (sc_indexes t)"

text \<open>A foreign key references an existing column whose values are unique.\<close>

definition reference_ok :: "schema \<Rightarrow> string \<times> string \<times> string \<Rightarrow> bool" where
  "reference_ok s fk =
     (case find_table s (fst (snd fk)) of
        None \<Rightarrow> False
      | Some t \<Rightarrow> has_column t (snd (snd fk)) \<and> key_column t (snd (snd fk)))"

definition references_ok :: "schema \<Rightarrow> bool" where
  "references_ok s = list_all (\<lambda>t. list_all (reference_ok s) (sc_foreign_keys t)) s"

text \<open>A table, or the unique index behind a key, cannot go while a foreign key depends on it.\<close>

definition references_table :: "schema \<Rightarrow> string \<Rightarrow> bool" where
  "references_table s name = list_ex (\<lambda>t. sc_name t \<noteq> name
     \<and> list_ex (\<lambda>fk. fst (snd fk) = name) (sc_foreign_keys t)) s"

definition references_column :: "schema \<Rightarrow> string \<Rightarrow> string \<Rightarrow> bool" where
  "references_column s name c = list_ex (\<lambda>t. list_ex (\<lambda>fk. snd fk = (name, c)) (sc_foreign_keys t)) s"

definition update_table :: "(db_table \<Rightarrow> db_table) \<Rightarrow> string \<Rightarrow> schema \<Rightarrow> schema" where
  "update_table f name s = map (\<lambda>t. if sc_name t = name then f t else t) s"

definition index_names :: "schema \<Rightarrow> string list" where
  "index_names s = concat (map (\<lambda>t. map ix_name (sc_indexes t)) s)"

text \<open>One operation; \<open>None\<close> is the database's refusal.\<close>

fun run_ddl :: "ddl \<Rightarrow> schema \<Rightarrow> schema option" where
  "run_ddl (Create_Table t) s =
     (if find_table s (sc_name t) = None \<and> list_all (reference_ok (s @ [t])) (sc_foreign_keys t)
      then Some (s @ [t]) else None)"
| "run_ddl (Drop_Table name) s =
     (if find_table s name = None \<or> references_table s name then None
      else Some (filter (\<lambda>t. sc_name t \<noteq> name) s))"
| "run_ddl (Create_Index name ix) s =
     (case find_table s name of None \<Rightarrow> None
      | Some t \<Rightarrow>
          if list_all (has_column t) (ix_columns ix) \<and> ix_name ix \<notin> set (index_names s)
          then Some (update_table (\<lambda>t. t\<lparr>sc_indexes := sc_indexes t @ [ix]\<rparr>) name s) else None)"
| "run_ddl (Drop_Index name ix) s =
     (case find_table s name of None \<Rightarrow> None
      | Some t \<Rightarrow>
          (case find (\<lambda>i. ix_name i = ix) (sc_indexes t) of
             None \<Rightarrow> None
           | Some i \<Rightarrow>
               if ix_unique i \<and> list_ex (\<lambda>c. ix_columns i = [c] \<and> references_column s name c) (ix_columns i)
               then None
               else Some (update_table (\<lambda>t. t\<lparr>sc_indexes := remove1 i (sc_indexes t)\<rparr>) name s)))"
| "run_ddl (Add_Column name c) s =
     (case find_table s name of None \<Rightarrow> None
      | Some t \<Rightarrow>
          if has_column t (co_name c) then None
          else Some (update_table (\<lambda>t. t\<lparr>sc_columns := sc_columns t @ [c]\<rparr>) name s))"
| "run_ddl (Drop_Column name c) s =
     (case find_table s name of None \<Rightarrow> None
      | Some t \<Rightarrow>
          if has_column t c \<and> \<not> references_column s name c
            \<and> list_all (\<lambda>i. c \<notin> set (ix_columns i)) (sc_indexes t) \<and> c \<notin> set (map fst (sc_foreign_keys t))
          then Some (update_table (\<lambda>t. t\<lparr>sc_columns := filter (\<lambda>k. co_name k \<noteq> c) (sc_columns t)\<rparr>) name s)
          else None)"
| "run_ddl (Alter_Type name c ty) s =
     (case find_table s name of None \<Rightarrow> None
      | Some t \<Rightarrow>
          if has_column t c
          then Some (update_table (\<lambda>t. t\<lparr>sc_columns :=
                 map (\<lambda>k. if co_name k = c then k\<lparr>co_type := ty\<rparr> else k) (sc_columns t)\<rparr>) name s)
          else None)"

fun run_all :: "ddl list \<Rightarrow> schema \<Rightarrow> schema option" where
  "run_all [] s = Some s"
| "run_all (op # ops) s = (case run_ddl op s of None \<Rightarrow> None | Some s' \<Rightarrow> run_all ops s')"

section \<open>The migrations\<close>

text \<open>\<open>op.create_table(...)\<close> and the \<open>batch_alter_table\<close> block that creates its indexes.\<close>

definition create_with :: "db_table \<Rightarrow> db_index list \<Rightarrow> ddl list" where
  "create_with t ixs = Create_Table t # map (Create_Index (sc_name t)) ixs"

text \<open>Each operation list is one \<open>upgrade\<close> or \<open>downgrade\<close> body, in its order; the initial
  revision is split by table.\<close>

definition table_0126_accounts :: db_table where
  "table_0126_accounts =
     \<lparr> sc_name = ''accounts'',
       sc_columns =
         [required_column ''id'' INTEGER,
          required_column ''nickname'' (VARCHAR 50),
          required_column ''account_number'' (VARCHAR 32),
          required_column ''login'' (VARCHAR 64),
          required_column ''env'' (VARCHAR 8),
          required_column ''source_system'' (VARCHAR 32),
          required_column ''is_active'' BOOLEAN,
          required_column ''created_at'' DATETIME,
          required_column ''updated_at'' DATETIME],
       sc_foreign_keys = [],
       sc_unique = [''account_number''], sc_indexes = [] \<rparr>"

definition indexes_0126_accounts :: "db_index list" where
  "indexes_0126_accounts =
     [plain_index ''ix_accounts_login'' [''login''],
      unique_index ''ix_accounts_nickname'' [''nickname'']]"

definition table_0126_securities :: db_table where
  "table_0126_securities =
     \<lparr> sc_name = ''securities'',
       sc_columns =
         [required_column ''id'' INTEGER,
          required_column ''security_id'' (VARCHAR 64),
          required_column ''product_type'' (VARCHAR 2),
          column ''underlying'' (VARCHAR 32),
          column ''expiry'' DATE,
          column ''strike'' (MONEY 6),
          column ''option_type'' (VARCHAR 1),
          column ''multiplier'' INTEGER,
          column ''exchange'' (VARCHAR 16),
          column ''currency'' (VARCHAR 8),
          column ''tt_symbol'' (VARCHAR 100),
          column ''occ_symbol'' (VARCHAR 32),
          column ''streamer_symbol'' (VARCHAR 50),
          required_column ''source_system'' (VARCHAR 32),
          column ''metadata'' JSON_VALUE,
          required_column ''first_seen_at'' DATETIME,
          required_column ''last_updated_at'' DATETIME],
       sc_foreign_keys = [],
       sc_unique = [], sc_indexes = [] \<rparr>"

definition indexes_0126_securities :: "db_index list" where
  "indexes_0126_securities =
     [unique_index ''ix_securities_security_id'' [''security_id''],
      plain_index ''ix_securities_streamer_symbol'' [''streamer_symbol''],
      plain_index ''ix_securities_tt_symbol'' [''tt_symbol''],
      plain_index ''ix_securities_underlying'' [''underlying'']]"

definition table_0126_orders :: db_table where
  "table_0126_orders =
     \<lparr> sc_name = ''orders'',
       sc_columns =
         [required_column ''id'' INTEGER,
          column ''tt_order_id'' (VARCHAR 64),
          column ''oms_order_id'' (VARCHAR 64),
          column ''client_order_id'' (VARCHAR 64),
          required_column ''account'' (VARCHAR 50),
          column ''account_number'' (VARCHAR 32),
          required_column ''origin'' (VARCHAR 8),
          required_column ''ingest'' (VARCHAR 16),
          required_column ''source_system'' (VARCHAR 32),
          column ''security_id'' (VARCHAR 64),
          column ''underlying'' (VARCHAR 32),
          column ''order_type'' (VARCHAR 24),
          column ''time_in_force'' (VARCHAR 16),
          column ''gtc_date'' (VARCHAR 10),
          column ''price'' (MONEY 6),
          column ''stop_trigger'' (MONEY 6),
          column ''price_effect'' (VARCHAR 8),
          column ''average_fill_price'' (MONEY 6),
          required_column ''is_complex'' BOOLEAN,
          column ''complex_order_type'' (VARCHAR 16),
          column ''oms_status'' (VARCHAR 24),
          column ''tt_status'' (VARCHAR 24),
          column ''status_message'' (VARCHAR 256),
          column ''filled_quantity'' (MONEY 6),
          column ''remaining_quantity'' (MONEY 6),
          column ''signal_id'' (VARCHAR 128),
          column ''trace_id'' (VARCHAR 64),
          column ''strategy_id'' INTEGER,
          column ''trade_group_id'' INTEGER,
          column ''market_context_id'' INTEGER,
          column ''received_at'' DATETIME,
          column ''submitted_at'' DATETIME,
          column ''filled_at'' DATETIME,
          column ''terminal_at'' DATETIME,
          required_column ''created_at'' DATETIME,
          required_column ''updated_at'' DATETIME],
       sc_foreign_keys =
         [(''account'', ''accounts'', ''nickname''),
          (''security_id'', ''securities'', ''security_id'')],
       sc_unique = [], sc_indexes = [] \<rparr>"

definition indexes_0126_orders :: "db_index list" where
  "indexes_0126_orders =
     [plain_index ''ix_orders_account'' [''account''],
      plain_index ''ix_orders_oms_order_id'' [''oms_order_id''],
      plain_index ''ix_orders_signal_id'' [''signal_id''],
      plain_index ''ix_orders_strategy_id'' [''strategy_id''],
      plain_index ''ix_orders_trace_id'' [''trace_id''],
      plain_index ''ix_orders_trade_group_id'' [''trade_group_id''],
      plain_index ''ix_orders_underlying'' [''underlying''],
      (unique_index ''uq_orders_tt_order_id'' [''tt_order_id''])\<lparr>ix_where := Some ''tt_order_id IS NOT NULL''\<rparr>]"

definition table_0126_order_legs :: db_table where
  "table_0126_order_legs =
     \<lparr> sc_name = ''order_legs'',
       sc_columns =
         [required_column ''id'' INTEGER,
          required_column ''order_id'' INTEGER,
          required_column ''leg_index'' INTEGER,
          required_column ''security_id'' (VARCHAR 64),
          column ''action'' (VARCHAR 20),
          column ''quantity'' (MONEY 6),
          column ''remaining_quantity'' (MONEY 6),
          column ''quantity_direction'' (VARCHAR 8),
          column ''price'' (MONEY 6),
          column ''fill_price'' (MONEY 6),
          required_column ''created_at'' DATETIME,
          required_column ''updated_at'' DATETIME],
       sc_foreign_keys =
         [(''order_id'', ''orders'', ''id''),
          (''security_id'', ''securities'', ''security_id'')],
       sc_unique = [], sc_indexes = [] \<rparr>"

definition indexes_0126_order_legs :: "db_index list" where
  "indexes_0126_order_legs =
     [plain_index ''ix_order_legs_order_id'' [''order_id''],
      plain_index ''ix_order_legs_security_id'' [''security_id'']]"

definition table_0126_trade_groups :: db_table where
  "table_0126_trade_groups =
     \<lparr> sc_name = ''trade_groups'',
       sc_columns =
         [required_column ''id'' INTEGER,
          required_column ''group_id'' (VARCHAR 36),
          required_column ''account'' (VARCHAR 50),
          required_column ''origin'' (VARCHAR 8),
          required_column ''source_system'' (VARCHAR 32),
          required_column ''review_status'' (VARCHAR 16),
          required_column ''manually_attributed'' BOOLEAN,
          column ''reviewed_at'' DATETIME,
          column ''reviewed_by'' (VARCHAR 64),
          column ''underlying'' (VARCHAR 32),
          column ''security_id'' (VARCHAR 64),
          column ''strategy_type'' (VARCHAR 24),
          required_column ''leg_count'' INTEGER,
          column ''total_premium'' (MONEY 6),
          column ''quantity'' (MONEY 6),
          column ''total_fees'' (MONEY 6),
          required_column ''status'' (VARCHAR 16),
          column ''realized_pnl'' (MONEY 6),
          column ''unrealized_pnl'' (MONEY 6),
          column ''max_profit'' (MONEY 6),
          column ''max_loss'' (MONEY 6),
          column ''profit_target'' (VARCHAR 32),
          column ''stop_loss'' (VARCHAR 32),
          column ''exit_strategy'' (VARCHAR 100),
          column ''order_id'' INTEGER,
          column ''strategy_id'' INTEGER,
          column ''bot_name'' (VARCHAR 64),
          column ''signal_id'' (VARCHAR 128),
          column ''executed_at'' DATETIME,
          column ''closed_at'' DATETIME,
          required_column ''created_at'' DATETIME,
          required_column ''updated_at'' DATETIME],
       sc_foreign_keys =
         [(''account'', ''accounts'', ''nickname''),
          (''order_id'', ''orders'', ''id'')],
       sc_unique = [], sc_indexes = [] \<rparr>"

definition indexes_0126_trade_groups :: "db_index list" where
  "indexes_0126_trade_groups =
     [plain_index ''ix_trade_groups_account'' [''account''],
      plain_index ''ix_trade_groups_bot_name'' [''bot_name''],
      unique_index ''ix_trade_groups_group_id'' [''group_id''],
      plain_index ''ix_trade_groups_order_id'' [''order_id''],
      plain_index ''ix_trade_groups_review_status'' [''review_status''],
      plain_index ''ix_trade_groups_signal_id'' [''signal_id''],
      plain_index ''ix_trade_groups_strategy_id'' [''strategy_id''],
      plain_index ''ix_trade_groups_underlying'' [''underlying'']]"

definition table_0126_closed_positions :: db_table where
  "table_0126_closed_positions =
     \<lparr> sc_name = ''closed_positions'',
       sc_columns =
         [required_column ''id'' INTEGER,
          required_column ''account'' (VARCHAR 50),
          required_column ''security_id'' (VARCHAR 64),
          required_column ''quantity'' (MONEY 6),
          required_column ''quantity_direction'' (VARCHAR 8),
          column ''average_open_price'' (MONEY 6),
          column ''average_close_price'' (MONEY 6),
          column ''realized_pnl'' (MONEY 6),
          column ''opening_order_id'' INTEGER,
          column ''closing_order_id'' INTEGER,
          column ''trade_group_id'' INTEGER,
          column ''opened_at'' DATETIME,
          required_column ''closed_at'' DATETIME,
          column ''holding_period_days'' INTEGER],
       sc_foreign_keys =
         [(''account'', ''accounts'', ''nickname''),
          (''closing_order_id'', ''orders'', ''id''),
          (''opening_order_id'', ''orders'', ''id''),
          (''security_id'', ''securities'', ''security_id''),
          (''trade_group_id'', ''trade_groups'', ''id'')],
       sc_unique = [], sc_indexes = [] \<rparr>"

definition indexes_0126_closed_positions :: "db_index list" where
  "indexes_0126_closed_positions =
     [plain_index ''ix_closed_positions_account'' [''account''],
      plain_index ''ix_closed_positions_security_id'' [''security_id''],
      plain_index ''ix_closed_positions_trade_group_id'' [''trade_group_id'']]"

definition table_0126_order_fills :: db_table where
  "table_0126_order_fills =
     \<lparr> sc_name = ''order_fills'',
       sc_columns =
         [required_column ''id'' INTEGER,
          required_column ''order_id'' INTEGER,
          column ''order_leg_id'' INTEGER,
          column ''tt_order_id'' (VARCHAR 64),
          required_column ''fill_id'' (VARCHAR 64),
          column ''quantity'' (MONEY 6),
          column ''fill_price'' (MONEY 6),
          column ''filled_at'' DATETIME,
          column ''destination_venue'' (VARCHAR 32),
          column ''ext_exec_id'' (VARCHAR 64),
          column ''ext_group_fill_id'' (VARCHAR 64)],
       sc_foreign_keys =
         [(''order_id'', ''orders'', ''id''),
          (''order_leg_id'', ''order_legs'', ''id'')],
       sc_unique = [''fill_id''], sc_indexes = [] \<rparr>"

definition indexes_0126_order_fills :: "db_index list" where
  "indexes_0126_order_fills =
     [plain_index ''ix_order_fills_order_id'' [''order_id''],
      plain_index ''ix_order_fills_order_leg_id'' [''order_leg_id''],
      plain_index ''ix_order_fills_tt_order_id'' [''tt_order_id'']]"

definition table_0126_positions :: db_table where
  "table_0126_positions =
     \<lparr> sc_name = ''positions'',
       sc_columns =
         [required_column ''id'' INTEGER,
          required_column ''account'' (VARCHAR 50),
          required_column ''security_id'' (VARCHAR 64),
          required_column ''quantity'' (MONEY 6),
          required_column ''quantity_direction'' (VARCHAR 8),
          column ''average_open_price'' (MONEY 6),
          column ''mark_price'' (MONEY 6),
          column ''close_price'' (MONEY 6),
          column ''unrealized_pnl'' (MONEY 6),
          column ''realized_day_gain'' (MONEY 6),
          required_column ''multiplier'' INTEGER,
          column ''expires_at'' DATETIME,
          column ''strategy_id'' INTEGER,
          column ''opening_order_id'' INTEGER,
          column ''trade_group_id'' INTEGER,
          column ''position_opened_at'' DATETIME,
          required_column ''first_seen_at'' DATETIME,
          required_column ''last_updated_at'' DATETIME],
       sc_foreign_keys =
         [(''account'', ''accounts'', ''nickname''),
          (''opening_order_id'', ''orders'', ''id''),
          (''security_id'', ''securities'', ''security_id''),
          (''trade_group_id'', ''trade_groups'', ''id'')],
       sc_unique = [], sc_indexes = [] \<rparr>"

definition indexes_0126_positions :: "db_index list" where
  "indexes_0126_positions =
     [plain_index ''ix_positions_account'' [''account''],
      plain_index ''ix_positions_opening_order_id'' [''opening_order_id''],
      plain_index ''ix_positions_security_id'' [''security_id''],
      plain_index ''ix_positions_strategy_id'' [''strategy_id''],
      plain_index ''ix_positions_trade_group_id'' [''trade_group_id''],
      unique_index ''uq_positions_account_security'' [''account'', ''security_id'']]"

definition table_0126_transactions :: db_table where
  "table_0126_transactions =
     \<lparr> sc_name = ''transactions'',
       sc_columns =
         [required_column ''id'' INTEGER,
          required_column ''tt_transaction_id'' (VARCHAR 64),
          column ''tt_order_id'' (VARCHAR 64),
          required_column ''account'' (VARCHAR 50),
          column ''account_number'' (VARCHAR 32),
          required_column ''source_system'' (VARCHAR 32),
          column ''transaction_type'' (VARCHAR 50),
          column ''transaction_sub_type'' (VARCHAR 50),
          column ''action'' (VARCHAR 30),
          column ''security_id'' (VARCHAR 64),
          column ''underlying'' (VARCHAR 32),
          column ''quantity'' (MONEY 6),
          column ''price'' (MONEY 6),
          column ''value'' (MONEY 6),
          column ''value_effect'' (VARCHAR 10),
          column ''net_value'' (MONEY 6),
          column ''net_value_effect'' (VARCHAR 10),
          column ''commission'' (MONEY 6),
          column ''clearing_fees'' (MONEY 6),
          column ''regulatory_fees'' (MONEY 6),
          column ''proprietary_index_option_fees'' (MONEY 6),
          column ''is_estimated_fee'' BOOLEAN,
          column ''description'' (VARCHAR 500),
          column ''order_id'' INTEGER,
          column ''order_leg_id'' INTEGER,
          column ''position_id'' INTEGER,
          column ''closed_position_id'' INTEGER,
          column ''trade_group_id'' INTEGER,
          column ''executed_at'' DATETIME,
          column ''transaction_date'' DATE,
          required_column ''created_at'' DATETIME,
          required_column ''updated_at'' DATETIME],
       sc_foreign_keys =
         [(''account'', ''accounts'', ''nickname''),
          (''closed_position_id'', ''closed_positions'', ''id''),
          (''order_id'', ''orders'', ''id''),
          (''order_leg_id'', ''order_legs'', ''id''),
          (''position_id'', ''positions'', ''id''),
          (''security_id'', ''securities'', ''security_id''),
          (''trade_group_id'', ''trade_groups'', ''id'')],
       sc_unique = [], sc_indexes = [] \<rparr>"

definition indexes_0126_transactions :: "db_index list" where
  "indexes_0126_transactions =
     [plain_index ''ix_transactions_account'' [''account''],
      plain_index ''ix_transactions_account_date'' [''account'', ''transaction_date''],
      plain_index ''ix_transactions_account_executed'' [''account'', ''executed_at''],
      plain_index ''ix_transactions_closed_position_id'' [''closed_position_id''],
      plain_index ''ix_transactions_order_id'' [''order_id''],
      plain_index ''ix_transactions_order_leg_id'' [''order_leg_id''],
      plain_index ''ix_transactions_position_id'' [''position_id''],
      plain_index ''ix_transactions_trade_group_id'' [''trade_group_id''],
      plain_index ''ix_transactions_tt_order_id'' [''tt_order_id''],
      unique_index ''ix_transactions_tt_transaction_id'' [''tt_transaction_id''],
      plain_index ''ix_transactions_underlying'' [''underlying'']]"

definition table_0126_trade_group_events :: db_table where
  "table_0126_trade_group_events =
     \<lparr> sc_name = ''trade_group_events'',
       sc_columns =
         [required_column ''id'' INTEGER,
          required_column ''trade_group_id'' INTEGER,
          required_column ''event_type'' (VARCHAR 16),
          required_column ''quantity_change'' (MONEY 6),
          required_column ''premium_change'' (MONEY 6),
          column ''realized_pnl'' (MONEY 6),
          required_column ''event_at'' DATETIME,
          column ''notes'' TEXT,
          column ''rolled_to_group_id'' INTEGER,
          column ''transaction_id'' INTEGER,
          column ''order_id'' INTEGER],
       sc_foreign_keys =
         [(''order_id'', ''orders'', ''id''),
          (''rolled_to_group_id'', ''trade_groups'', ''id''),
          (''trade_group_id'', ''trade_groups'', ''id''),
          (''transaction_id'', ''transactions'', ''id'')],
       sc_unique = [], sc_indexes = [] \<rparr>"

definition indexes_0126_trade_group_events :: "db_index list" where
  "indexes_0126_trade_group_events =
     [plain_index ''ix_trade_group_events_order_id'' [''order_id''],
      plain_index ''ix_trade_group_events_rolled_to_group_id'' [''rolled_to_group_id''],
      plain_index ''ix_trade_group_events_trade_group_id'' [''trade_group_id''],
      plain_index ''ix_trade_group_events_transaction_id'' [''transaction_id'']]"

definition upgrade_0126 :: "ddl list" where
  "upgrade_0126 =
     concat [create_with table_0126_accounts indexes_0126_accounts,
       create_with table_0126_securities indexes_0126_securities,
       create_with table_0126_orders indexes_0126_orders,
       create_with table_0126_order_legs indexes_0126_order_legs,
       create_with table_0126_trade_groups indexes_0126_trade_groups,
       create_with table_0126_closed_positions indexes_0126_closed_positions,
       create_with table_0126_order_fills indexes_0126_order_fills,
       create_with table_0126_positions indexes_0126_positions,
       create_with table_0126_transactions indexes_0126_transactions,
       create_with table_0126_trade_group_events indexes_0126_trade_group_events]"

definition downgrade_0126_trade_group_events :: "ddl list" where
  "downgrade_0126_trade_group_events =
     [Drop_Index ''trade_group_events'' ''ix_trade_group_events_transaction_id'',
      Drop_Index ''trade_group_events'' ''ix_trade_group_events_trade_group_id'',
      Drop_Index ''trade_group_events'' ''ix_trade_group_events_rolled_to_group_id'',
      Drop_Index ''trade_group_events'' ''ix_trade_group_events_order_id'',
      Drop_Table ''trade_group_events'']"

definition downgrade_0126_transactions :: "ddl list" where
  "downgrade_0126_transactions =
     [Drop_Index ''transactions'' ''ix_transactions_underlying'',
      Drop_Index ''transactions'' ''ix_transactions_tt_transaction_id'',
      Drop_Index ''transactions'' ''ix_transactions_tt_order_id'',
      Drop_Index ''transactions'' ''ix_transactions_trade_group_id'',
      Drop_Index ''transactions'' ''ix_transactions_position_id'',
      Drop_Index ''transactions'' ''ix_transactions_order_leg_id'',
      Drop_Index ''transactions'' ''ix_transactions_order_id'',
      Drop_Index ''transactions'' ''ix_transactions_closed_position_id'',
      Drop_Index ''transactions'' ''ix_transactions_account_executed'',
      Drop_Index ''transactions'' ''ix_transactions_account_date'',
      Drop_Index ''transactions'' ''ix_transactions_account'',
      Drop_Table ''transactions'']"

definition downgrade_0126_positions :: "ddl list" where
  "downgrade_0126_positions =
     [Drop_Index ''positions'' ''uq_positions_account_security'',
      Drop_Index ''positions'' ''ix_positions_trade_group_id'',
      Drop_Index ''positions'' ''ix_positions_strategy_id'',
      Drop_Index ''positions'' ''ix_positions_security_id'',
      Drop_Index ''positions'' ''ix_positions_opening_order_id'',
      Drop_Index ''positions'' ''ix_positions_account'',
      Drop_Table ''positions'']"

definition downgrade_0126_order_fills :: "ddl list" where
  "downgrade_0126_order_fills =
     [Drop_Index ''order_fills'' ''ix_order_fills_tt_order_id'',
      Drop_Index ''order_fills'' ''ix_order_fills_order_leg_id'',
      Drop_Index ''order_fills'' ''ix_order_fills_order_id'',
      Drop_Table ''order_fills'']"

definition downgrade_0126_closed_positions :: "ddl list" where
  "downgrade_0126_closed_positions =
     [Drop_Index ''closed_positions'' ''ix_closed_positions_trade_group_id'',
      Drop_Index ''closed_positions'' ''ix_closed_positions_security_id'',
      Drop_Index ''closed_positions'' ''ix_closed_positions_account'',
      Drop_Table ''closed_positions'']"

definition downgrade_0126_trade_groups :: "ddl list" where
  "downgrade_0126_trade_groups =
     [Drop_Index ''trade_groups'' ''ix_trade_groups_underlying'',
      Drop_Index ''trade_groups'' ''ix_trade_groups_strategy_id'',
      Drop_Index ''trade_groups'' ''ix_trade_groups_signal_id'',
      Drop_Index ''trade_groups'' ''ix_trade_groups_review_status'',
      Drop_Index ''trade_groups'' ''ix_trade_groups_order_id'',
      Drop_Index ''trade_groups'' ''ix_trade_groups_group_id'',
      Drop_Index ''trade_groups'' ''ix_trade_groups_bot_name'',
      Drop_Index ''trade_groups'' ''ix_trade_groups_account'',
      Drop_Table ''trade_groups'']"

definition downgrade_0126_order_legs :: "ddl list" where
  "downgrade_0126_order_legs =
     [Drop_Index ''order_legs'' ''ix_order_legs_security_id'',
      Drop_Index ''order_legs'' ''ix_order_legs_order_id'',
      Drop_Table ''order_legs'']"

definition downgrade_0126_orders :: "ddl list" where
  "downgrade_0126_orders =
     [Drop_Index ''orders'' ''uq_orders_tt_order_id'',
      Drop_Index ''orders'' ''ix_orders_underlying'',
      Drop_Index ''orders'' ''ix_orders_trade_group_id'',
      Drop_Index ''orders'' ''ix_orders_trace_id'',
      Drop_Index ''orders'' ''ix_orders_strategy_id'',
      Drop_Index ''orders'' ''ix_orders_signal_id'',
      Drop_Index ''orders'' ''ix_orders_oms_order_id'',
      Drop_Index ''orders'' ''ix_orders_account'',
      Drop_Table ''orders'']"

definition downgrade_0126_securities :: "ddl list" where
  "downgrade_0126_securities =
     [Drop_Index ''securities'' ''ix_securities_underlying'',
      Drop_Index ''securities'' ''ix_securities_tt_symbol'',
      Drop_Index ''securities'' ''ix_securities_streamer_symbol'',
      Drop_Index ''securities'' ''ix_securities_security_id'',
      Drop_Table ''securities'']"

definition downgrade_0126_accounts :: "ddl list" where
  "downgrade_0126_accounts =
     [Drop_Index ''accounts'' ''ix_accounts_nickname'',
      Drop_Index ''accounts'' ''ix_accounts_login'',
      Drop_Table ''accounts'']"

definition downgrade_0126 :: "ddl list" where
  "downgrade_0126 =
     concat [downgrade_0126_trade_group_events,
       downgrade_0126_transactions,
       downgrade_0126_positions,
       downgrade_0126_order_fills,
       downgrade_0126_closed_positions,
       downgrade_0126_trade_groups,
       downgrade_0126_order_legs,
       downgrade_0126_orders,
       downgrade_0126_securities,
       downgrade_0126_accounts]"

definition upgrade_8f3a :: "ddl list" where
  "upgrade_8f3a =
     [Create_Index ''order_legs'' (unique_index ''uq_order_legs_order_index'' [''order_id'', ''leg_index''])]"

definition downgrade_8f3a :: "ddl list" where
  "downgrade_8f3a =
     [Drop_Index ''order_legs'' ''uq_order_legs_order_index'']"

definition table_a1b2 :: db_table where
  "table_a1b2 =
     \<lparr> sc_name = ''balance_snapshots'',
       sc_columns =
         [required_column ''id'' INTEGER,
          required_column ''account'' (VARCHAR 50),
          required_column ''captured_at'' DATETIME,
          required_column ''source'' (VARCHAR 16),
          column ''net_liquidating_value'' (MONEY 6),
          column ''cash_balance'' (MONEY 6),
          column ''equity_buying_power'' (MONEY 6),
          column ''derivative_buying_power'' (MONEY 6),
          column ''maintenance_requirement'' (MONEY 6),
          column ''pending_cash'' (MONEY 6),
          column ''day_trading_buying_power'' (MONEY 6),
          column ''raw'' JSON_VALUE,
          required_column ''created_at'' DATETIME],
       sc_foreign_keys =
         [(''account'', ''accounts'', ''nickname'')],
       sc_unique = [], sc_indexes = [] \<rparr>"

definition indexes_a1b2 :: "db_index list" where
  "indexes_a1b2 =
     [plain_index ''ix_balance_snapshots_account'' [''account''],
      unique_index ''uq_balance_snapshots_account_time_source'' [''account'', ''captured_at'', ''source'']]"

definition upgrade_a1b2 :: "ddl list" where
  "upgrade_a1b2 = create_with table_a1b2 indexes_a1b2"

definition downgrade_a1b2 :: "ddl list" where
  "downgrade_a1b2 =
     [Drop_Table ''balance_snapshots'']"

definition upgrade_b2c3 :: "ddl list" where
  "upgrade_b2c3 =
     [Add_Column ''closed_positions'' (column ''fees'' (MONEY 6)),
      Add_Column ''closed_positions'' (column ''pnl_net'' (MONEY 6))]"

definition downgrade_b2c3 :: "ddl list" where
  "downgrade_b2c3 =
     [Drop_Column ''closed_positions'' ''pnl_net'',
      Drop_Column ''closed_positions'' ''fees'']"

definition upgrade_c3d4 :: "ddl list" where
  "upgrade_c3d4 =
     [Add_Column ''trade_groups'' (column ''structure'' JSON_VALUE)]"

definition downgrade_c3d4 :: "ddl list" where
  "downgrade_c3d4 =
     [Drop_Column ''trade_groups'' ''structure'']"

definition upgrade_d4e5 :: "ddl list" where
  "upgrade_d4e5 =
     [Add_Column ''trade_groups'' (column ''initial_risk'' (MONEY 6))]"

definition downgrade_d4e5 :: "ddl list" where
  "downgrade_d4e5 =
     [Drop_Column ''trade_groups'' ''initial_risk'']"

definition upgrade_f6a7 :: "ddl list" where
  "upgrade_f6a7 =
     [Create_Index ''trade_groups'' (plain_index ''ix_trade_groups_status'' [''status''])]"

definition downgrade_f6a7 :: "ddl list" where
  "downgrade_f6a7 =
     [Drop_Index ''trade_groups'' ''ix_trade_groups_status'']"

text \<open>The two revisions that widen columns run on every dialect but SQLite, which neither has the
  statement nor enforces a width.\<close>

definition needs_widening :: "string \<Rightarrow> bool" where
  "needs_widening dialect \<longleftrightarrow> dialect \<noteq> ''sqlite''"

definition widened_columns :: "(string \<times> string \<times> nat) list" where
  "widened_columns =
     [(''orders'', ''order_type'', 24),
      (''orders'', ''time_in_force'', 16),
      (''orders'', ''complex_order_type'', 16),
      (''orders'', ''tt_status'', 24),
      (''orders'', ''status_message'', 256),
      (''order_fills'', ''destination_venue'', 32),
      (''transactions'', ''transaction_type'', 50),
      (''transactions'', ''transaction_sub_type'', 50),
      (''transactions'', ''action'', 30),
      (''transactions'', ''description'', 500),
      (''securities'', ''tt_symbol'', 100),
      (''securities'', ''occ_symbol'', 32),
      (''securities'', ''streamer_symbol'', 50)]"

definition upgrade_e5f6 :: "string \<Rightarrow> ddl list" where
  "upgrade_e5f6 dialect =
     (if \<not> needs_widening dialect then []
      else map (\<lambda>(tbl, col, len). Alter_Type tbl col TEXT) widened_columns)"

definition downgrade_e5f6 :: "string \<Rightarrow> ddl list" where
  "downgrade_e5f6 dialect =
     (if \<not> needs_widening dialect then []
      else map (\<lambda>(tbl, col, len). Alter_Type tbl col (VARCHAR len)) widened_columns)"

definition upgrade_a7b8 :: "string \<Rightarrow> ddl list" where
  "upgrade_a7b8 dialect =
     (if \<not> needs_widening dialect then [] else [Alter_Type ''transactions'' ''tt_transaction_id'' TEXT])"

definition downgrade_a7b8 :: "string \<Rightarrow> ddl list" where
  "downgrade_a7b8 dialect =
     (if \<not> needs_widening dialect then [] else [Alter_Type ''transactions'' ''tt_transaction_id'' (VARCHAR 64)])"

section \<open>The revision chain\<close>

record migration =
  mg_revision :: string
  mg_down_revision :: "string option"
  mg_upgrade :: "string \<Rightarrow> ddl list"
  mg_downgrade :: "string \<Rightarrow> ddl list"

definition revision_0126 :: migration where
  "revision_0126 =
     \<lparr> mg_revision = ''0126b2d5742a'', mg_down_revision = None,
       mg_upgrade = \<lambda>_. upgrade_0126, mg_downgrade = \<lambda>_. downgrade_0126 \<rparr>"

definition revision_8f3a :: migration where
  "revision_8f3a =
     \<lparr> mg_revision = ''8f3a1c5e9b02'', mg_down_revision = Some ''0126b2d5742a'',
       mg_upgrade = \<lambda>_. upgrade_8f3a, mg_downgrade = \<lambda>_. downgrade_8f3a \<rparr>"

definition revision_a1b2 :: migration where
  "revision_a1b2 =
     \<lparr> mg_revision = ''a1b2c3d4e5f6'', mg_down_revision = Some ''8f3a1c5e9b02'',
       mg_upgrade = \<lambda>_. upgrade_a1b2, mg_downgrade = \<lambda>_. downgrade_a1b2 \<rparr>"

definition revision_b2c3 :: migration where
  "revision_b2c3 =
     \<lparr> mg_revision = ''b2c3d4e5f6a7'', mg_down_revision = Some ''a1b2c3d4e5f6'',
       mg_upgrade = \<lambda>_. upgrade_b2c3, mg_downgrade = \<lambda>_. downgrade_b2c3 \<rparr>"

definition revision_c3d4 :: migration where
  "revision_c3d4 =
     \<lparr> mg_revision = ''c3d4e5f6a8b9'', mg_down_revision = Some ''b2c3d4e5f6a7'',
       mg_upgrade = \<lambda>_. upgrade_c3d4, mg_downgrade = \<lambda>_. downgrade_c3d4 \<rparr>"

definition revision_d4e5 :: migration where
  "revision_d4e5 =
     \<lparr> mg_revision = ''d4e5f6a7c9b1'', mg_down_revision = Some ''c3d4e5f6a8b9'',
       mg_upgrade = \<lambda>_. upgrade_d4e5, mg_downgrade = \<lambda>_. downgrade_d4e5 \<rparr>"

definition revision_e5f6 :: migration where
  "revision_e5f6 =
     \<lparr> mg_revision = ''e5f6a7b8c2d3'', mg_down_revision = Some ''d4e5f6a7c9b1'',
       mg_upgrade = upgrade_e5f6, mg_downgrade = downgrade_e5f6 \<rparr>"

definition revision_f6a7 :: migration where
  "revision_f6a7 =
     \<lparr> mg_revision = ''f6a7b8c9d4e5'', mg_down_revision = Some ''e5f6a7b8c2d3'',
       mg_upgrade = \<lambda>_. upgrade_f6a7, mg_downgrade = \<lambda>_. downgrade_f6a7 \<rparr>"

definition revision_a7b8 :: migration where
  "revision_a7b8 =
     \<lparr> mg_revision = ''a7b8c9d0e5f6'', mg_down_revision = Some ''f6a7b8c9d4e5'',
       mg_upgrade = upgrade_a7b8, mg_downgrade = downgrade_a7b8 \<rparr>"

text \<open>The files of the versions directory, in the order a listing gives them.\<close>

definition versions :: "migration list" where
  "versions =
     [revision_0126, revision_8f3a, revision_a1b2, revision_a7b8, revision_b2c3, revision_c3d4,
      revision_d4e5, revision_e5f6, revision_f6a7]"

text \<open>\<open>upgrade_to_head\<close>: from the stamped revision, follow \<open>down_revision\<close> links to the next one
  until none follows. A database is its stamp and its schema; a refused operation refuses the whole
  upgrade, which runs in one transaction.\<close>

type_synonym stamped_schema = "string option \<times> schema"

fun upgrade_steps :: "nat \<Rightarrow> migration list \<Rightarrow> string \<Rightarrow> stamped_schema \<Rightarrow> stamped_schema option" where
  "upgrade_steps fuel revs dialect (stamp, s) =
     (case find (\<lambda>r. mg_down_revision r = stamp) revs of
        None \<Rightarrow> Some (stamp, s)
      | Some r \<Rightarrow>
          (case fuel of
             0 \<Rightarrow> None
           | Suc fuel' \<Rightarrow>
               (case run_all (mg_upgrade r dialect) s of
                  None \<Rightarrow> None
                | Some s' \<Rightarrow> upgrade_steps fuel' revs dialect (Some (mg_revision r), s'))))"

definition upgrade_to_head :: "string \<Rightarrow> stamped_schema \<Rightarrow> stamped_schema option" where
  "upgrade_to_head dialect db = upgrade_steps (length versions) versions dialect db"

end
