(* ===== verification/Schema_Runs.thy ===== *)
theory Schema_Runs
  imports Schema
begin

text \<open>
  The migrations evaluated: the schema each revision leaves (with the checks of its operations
  left out), that the checks of every upgrade and downgrade succeed there, and that the last schema
  is the one the ORM models declare. The tables of the initial revision are created by a general
  lemma, so that only its conditions are evaluated.
\<close>

section \<open>Creating a table with its indexes\<close>

lemma find_table_append: "find_table (s @ [t]) n = (case find_table s n of None \<Rightarrow> if sc_name t = n then Some t else None | Some u \<Rightarrow> Some u)"
  by (induction s) (simp_all add: find_table_def)

lemma find_table_None: "find_table s n = None \<longleftrightarrow> n \<notin> set (map sc_name s)"
  by (induction s) (auto simp: find_table_def)

lemma update_table_fresh: "n \<notin> set (map sc_name s) \<Longrightarrow> update_table f n s = s"
  by (induction s) (auto simp: update_table_def)

lemma run_all_append:
  "run_all (xs @ ys) s = (case run_all xs s of None \<Rightarrow> None | Some s' \<Rightarrow> run_all ys s')"
  by (induction xs arbitrary: s) (simp_all split: option.split)

lemma run_create_indexes:
  assumes "n \<notin> set (map sc_name s)" and "sc_name t = n"
    and "list_all (\<lambda>ix. list_all (has_column t) (ix_columns ix)) ixs"
    and "distinct (map ix_name ixs)" and "set (map ix_name ixs) \<inter> set (index_names (s @ [t])) = {}"
  shows "run_all (map (Create_Index n) ixs) (s @ [t]) = Some (s @ [t\<lparr>sc_indexes := sc_indexes t @ ixs\<rparr>])"
  using assms
proof (induction ixs arbitrary: t)
  case (Cons ix ixs)
  let ?t = "t\<lparr>sc_indexes := sc_indexes t @ [ix]\<rparr>"
  have table: "find_table (s @ [t]) n = Some t"
    using Cons.prems(1,2) by (simp add: find_table_append find_table_None [THEN iffD2])
  have "update_table (\<lambda>t. t\<lparr>sc_indexes := sc_indexes t @ [ix]\<rparr>) n (s @ [t]) = s @ [?t]"
    using Cons.prems(1,2) update_table_fresh [of n s] by (simp add: update_table_def)
  then have first: "run_ddl (Create_Index n ix) (s @ [t]) = Some (s @ [?t])"
    using Cons.prems table by simp
  have "run_all (map (Create_Index n) ixs) (s @ [?t]) = Some (s @ [?t\<lparr>sc_indexes := sc_indexes ?t @ ixs\<rparr>])"
    using Cons.prems by (intro Cons.IH) (auto simp: index_names_def has_column_def)
  then show ?case using first by simp
qed simp

lemma run_create_with:
  assumes "sc_name t \<notin> set (map sc_name s)" and "list_all (reference_ok (s @ [t])) (sc_foreign_keys t)"
    and "list_all (\<lambda>ix. list_all (has_column t) (ix_columns ix)) ixs"
    and "distinct (map ix_name ixs)" and "sc_indexes t = []" and "list_all (\<lambda>ix. ix_name ix \<notin> set (index_names s)) ixs"
  shows "run_all (create_with t ixs) s = Some (s @ [t\<lparr>sc_indexes := ixs\<rparr>])"
proof -
  have "run_ddl (Create_Table t) s = Some (s @ [t])"
    using assms(1,2) by (simp add: find_table_None)
  moreover have "run_all (map (Create_Index (sc_name t)) ixs) (s @ [t]) = Some (s @ [t\<lparr>sc_indexes := ixs\<rparr>])"
  proof -
    have "set (map ix_name ixs) \<inter> set (index_names (s @ [t])) = {}"
      using assms(5,6) by (auto simp: index_names_def list_all_iff)
    from run_create_indexes [OF assms(1) refl assms(3,4) this] show ?thesis by (simp add: assms(5))
  qed
  ultimately show ?thesis by (simp add: create_with_def)
qed

text \<open>A run of table creations.\<close>

definition with_indexes :: "db_table \<times> db_index list \<Rightarrow> db_table" where
  "with_indexes p = fst p\<lparr>sc_indexes := snd p\<rparr>"

fun creates_ok :: "schema \<Rightarrow> (db_table \<times> db_index list) list \<Rightarrow> bool" where
  "creates_ok s [] = True"
| "creates_ok s (p # ps) \<longleftrightarrow>
     sc_name (fst p) \<notin> set (map sc_name s) \<and> list_all (reference_ok (s @ [fst p])) (sc_foreign_keys (fst p))
   \<and> list_all (\<lambda>ix. list_all (has_column (fst p)) (ix_columns ix)) (snd p)
   \<and> sc_indexes (fst p) = [] \<and> creates_ok (s @ [with_indexes p]) ps"

lemma run_creates:
  assumes "creates_ok s ps" and "distinct (index_names s @ concat (map (map ix_name \<circ> snd) ps))"
  shows "run_all (concat (map (\<lambda>p. create_with (fst p) (snd p)) ps)) s = Some (s @ map with_indexes ps)"
  using assms
proof (induction ps arbitrary: s)
  case (Cons p ps)
  have names: "index_names (s @ [with_indexes p]) = index_names s @ map ix_name (snd p)"
    by (simp add: index_names_def with_indexes_def)
  have "run_all (create_with (fst p) (snd p)) s = Some (s @ [with_indexes p])"
    unfolding with_indexes_def using Cons.prems
    by (intro run_create_with) (auto simp: list_all_iff)
  moreover have "run_all (concat (map (\<lambda>p. create_with (fst p) (snd p)) ps)) (s @ [with_indexes p])
      = Some ((s @ [with_indexes p]) @ map with_indexes ps)"
    using Cons.prems by (intro Cons.IH) (simp_all add: names)
  ultimately show ?case by (simp add: run_all_append)
qed simp

section \<open>The state after each revision\<close>

definition creates_0126 :: "(db_table \<times> db_index list) list" where
  "creates_0126 =
     [(table_0126_accounts, indexes_0126_accounts),
      (table_0126_securities, indexes_0126_securities),
      (table_0126_orders, indexes_0126_orders),
      (table_0126_order_legs, indexes_0126_order_legs),
      (table_0126_trade_groups, indexes_0126_trade_groups),
      (table_0126_closed_positions, indexes_0126_closed_positions),
      (table_0126_order_fills, indexes_0126_order_fills),
      (table_0126_positions, indexes_0126_positions),
      (table_0126_transactions, indexes_0126_transactions),
      (table_0126_trade_group_events, indexes_0126_trade_group_events)]"

lemma upgrade_0126_creates: "upgrade_0126 = concat (map (\<lambda>p. create_with (fst p) (snd p)) creates_0126)"
  by (simp add: upgrade_0126_def creates_0126_def)

lemma distinct_0126: "distinct (concat (map (map ix_name \<circ> snd) creates_0126))"
  by code_simp

lemma creates_ok_0126: "creates_ok [] creates_0126"
  by code_simp

definition schema_0126 :: schema where
  "schema_0126 = map with_indexes creates_0126"

lemma run_0126: "run_all upgrade_0126 [] = Some schema_0126"
  unfolding upgrade_0126_creates schema_0126_def
  using run_creates [OF creates_ok_0126] distinct_0126 by (simp add: index_names_def)


text \<open>What each later revision leaves, with the checks of the operations left out.\<close>

definition add_index :: "string \<Rightarrow> db_index \<Rightarrow> schema \<Rightarrow> schema" where
  "add_index name ix = update_table (\<lambda>t. t\<lparr>sc_indexes := sc_indexes t @ [ix]\<rparr>) name"

definition add_columns :: "string \<Rightarrow> db_column list \<Rightarrow> schema \<Rightarrow> schema" where
  "add_columns name cs = update_table (\<lambda>t. t\<lparr>sc_columns := sc_columns t @ cs\<rparr>) name"

definition schema_8f3a :: schema where
  "schema_8f3a = add_index ''order_legs''
     (unique_index ''uq_order_legs_order_index'' [''order_id'', ''leg_index'']) schema_0126"

definition schema_a1b2 :: schema where
  "schema_a1b2 = schema_8f3a @ [with_indexes (table_a1b2, indexes_a1b2)]"

definition schema_b2c3 :: schema where
  "schema_b2c3 = add_columns ''closed_positions'' [column ''fees'' (MONEY 6), column ''pnl_net'' (MONEY 6)] schema_a1b2"

definition schema_c3d4 :: schema where
  "schema_c3d4 = add_columns ''trade_groups'' [column ''structure'' JSON_VALUE] schema_b2c3"

definition schema_d4e5 :: schema where
  "schema_d4e5 = add_columns ''trade_groups'' [column ''initial_risk'' (MONEY 6)] schema_c3d4"

definition schema_e5f6 :: "bool \<Rightarrow> schema" where
  "schema_e5f6 wide = (if wide then the (run_all (upgrade_e5f6 ''postgresql'') schema_d4e5) else schema_d4e5)"

definition schema_f6a7 :: "bool \<Rightarrow> schema" where
  "schema_f6a7 wide = add_index ''trade_groups'' (plain_index ''ix_trade_groups_status'' [''status'']) (schema_e5f6 wide)"

definition schema_a7b8 :: "bool \<Rightarrow> schema" where
  "schema_a7b8 wide =
     (if wide then the (run_all (upgrade_a7b8 ''postgresql'') (schema_f6a7 wide)) else schema_f6a7 wide)"

lemma widen_for: "\<not> needs_widening d \<Longrightarrow> upgrade_e5f6 d = []" "\<not> needs_widening d \<Longrightarrow> upgrade_a7b8 d = []"
    "\<not> needs_widening d \<Longrightarrow> downgrade_e5f6 d = []" "\<not> needs_widening d \<Longrightarrow> downgrade_a7b8 d = []"
    "needs_widening d \<Longrightarrow> upgrade_e5f6 d = upgrade_e5f6 ''postgresql''"
    "needs_widening d \<Longrightarrow> upgrade_a7b8 d = upgrade_a7b8 ''postgresql''"
    "needs_widening d \<Longrightarrow> downgrade_e5f6 d = downgrade_e5f6 ''postgresql''"
    "needs_widening d \<Longrightarrow> downgrade_a7b8 d = downgrade_a7b8 ''postgresql''"
  by (simp_all add: upgrade_e5f6_def upgrade_a7b8_def downgrade_e5f6_def downgrade_a7b8_def needs_widening_def)

lemma run_8f3a: "run_all upgrade_8f3a schema_0126 = Some schema_8f3a"
  by code_simp

lemma run_a1b2: "run_all upgrade_a1b2 schema_8f3a = Some schema_a1b2"
  by code_simp

lemma run_b2c3: "run_all upgrade_b2c3 schema_a1b2 = Some schema_b2c3"
  by code_simp

lemma run_c3d4: "run_all upgrade_c3d4 schema_b2c3 = Some schema_c3d4"
  by code_simp

lemma run_d4e5: "run_all upgrade_d4e5 schema_c3d4 = Some schema_d4e5"
  by code_simp

lemma run_e5f6_wide: "run_all (upgrade_e5f6 ''postgresql'') schema_d4e5 \<noteq> None"
  by code_simp

lemma run_f6a7_wide: "run_all upgrade_f6a7 (schema_e5f6 True) = Some (schema_f6a7 True)"
  by code_simp

lemma run_f6a7_narrow: "run_all upgrade_f6a7 (schema_e5f6 False) = Some (schema_f6a7 False)"
  by code_simp

lemma run_a7b8_wide: "run_all (upgrade_a7b8 ''postgresql'') (schema_f6a7 True) \<noteq> None"
  by code_simp

lemma undo_0126: "run_all downgrade_0126 schema_0126 = Some []"
  by code_simp

lemma undo_8f3a: "run_all downgrade_8f3a schema_8f3a = Some schema_0126"
  by code_simp

lemma undo_a1b2: "run_all downgrade_a1b2 schema_a1b2 = Some schema_8f3a"
  by code_simp

lemma undo_b2c3: "run_all downgrade_b2c3 schema_b2c3 = Some schema_a1b2"
  by code_simp

lemma undo_c3d4: "run_all downgrade_c3d4 schema_c3d4 = Some schema_b2c3"
  by code_simp

lemma undo_d4e5: "run_all downgrade_d4e5 schema_d4e5 = Some schema_c3d4"
  by code_simp

lemma undo_e5f6_wide: "run_all (downgrade_e5f6 ''postgresql'') (schema_e5f6 True) = Some schema_d4e5"
  by code_simp

lemma undo_f6a7_wide: "run_all downgrade_f6a7 (schema_f6a7 True) = Some (schema_e5f6 True)"
  by code_simp

lemma undo_f6a7_narrow: "run_all downgrade_f6a7 (schema_f6a7 False) = Some (schema_e5f6 False)"
  by code_simp

lemma undo_a7b8_wide: "run_all (downgrade_a7b8 ''postgresql'') (schema_a7b8 True) = Some (schema_f6a7 True)"
  by code_simp


section \<open>The two descriptions\<close>

text \<open>How a database keeps a type: SQLite gives every \<open>VARCHAR(n)\<close> the text affinity.\<close>

definition kept_type :: "string \<Rightarrow> column_type \<Rightarrow> column_type" where
  "kept_type dialect ty =
     (if dialect = ''sqlite'' then (case ty of VARCHAR n \<Rightarrow> TEXT | _ \<Rightarrow> ty) else ty)"

definition kept_columns :: "string \<Rightarrow> db_table \<Rightarrow> db_column list" where
  "kept_columns dialect t = map (\<lambda>c. c\<lparr>co_type := kept_type dialect (co_type c)\<rparr>) (sc_columns t)"

text \<open>The same table, whatever the order its columns, keys and indexes were declared in.\<close>

definition same_table :: "string \<Rightarrow> db_table \<Rightarrow> db_table \<Rightarrow> bool" where
  "same_table dialect t u \<longleftrightarrow>
     sc_name t = sc_name u
   \<and> length (sc_columns t) = length (sc_columns u) \<and> distinct (map co_name (sc_columns t))
   \<and> set (kept_columns dialect t) = set (kept_columns dialect u)
   \<and> set (sc_foreign_keys t) = set (sc_foreign_keys u) \<and> set (sc_unique t) = set (sc_unique u)
   \<and> length (sc_indexes t) = length (sc_indexes u) \<and> set (sc_indexes t) = set (sc_indexes u)"

definition same_schema :: "string \<Rightarrow> schema \<Rightarrow> schema \<Rightarrow> bool" where
  "same_schema dialect s s' \<longleftrightarrow>
     length s = length s' \<and> distinct (map sc_name s)
   \<and> list_all (\<lambda>t. case find_table s' (sc_name t) of None \<Rightarrow> False | Some u \<Rightarrow> same_table dialect t u) s"

lemma kept_columns_wide: "dialect \<noteq> ''sqlite'' \<Longrightarrow> kept_columns dialect = kept_columns ''postgresql''"
  by (intro ext) (simp add: kept_columns_def kept_type_def)

lemma same_schema_wide:
  assumes "dialect \<noteq> ''sqlite''"
  shows "same_schema dialect = same_schema ''postgresql''"
proof -
  have "same_table dialect = same_table ''postgresql''"
    by (intro ext) (simp add: same_table_def kept_columns_wide [OF assms])
  then show ?thesis by (intro ext) (simp add: same_schema_def cong: option.case_cong)
qed

definition metadata_tables :: schema where
  "metadata_tables = the metadata_schema"

lemma metadata_resolves: "metadata_schema \<noteq> None"
  by code_simp

lemma head_is_metadata_wide: "same_schema ''postgresql'' (schema_a7b8 True) metadata_tables"
  by code_simp

lemma head_is_metadata_narrow: "same_schema ''sqlite'' (schema_a7b8 False) metadata_tables"
  by code_simp

end
