(* ===== verification/Schema_Laws.thy ===== *)
theory Schema_Laws
  imports Schema_Runs
begin

text \<open>
  The two descriptions of the schema agree: the migration chain builds the tables the ORM models
  declare on every dialect, from any intermediate revision, and every downgrade undoes its upgrade.
\<close>

section \<open>Walking the chain\<close>

text \<open>\<open>upgrade +n\<close> from a given stamp, and \<open>downgrade -1\<close>.\<close>

definition upgrade_one :: "string \<Rightarrow> stamped_schema \<Rightarrow> stamped_schema option" where
  "upgrade_one dialect db =
     (case find (\<lambda>r. mg_down_revision r = fst db) versions of
        None \<Rightarrow> None
      | Some r \<Rightarrow> map_option (Pair (Some (mg_revision r))) (run_all (mg_upgrade r dialect) (snd db)))"

fun upgrade_by :: "nat \<Rightarrow> string \<Rightarrow> stamped_schema \<Rightarrow> stamped_schema option" where
  "upgrade_by 0 dialect db = Some db"
| "upgrade_by (Suc n) dialect db =
     (case upgrade_by n dialect db of None \<Rightarrow> None | Some db' \<Rightarrow> upgrade_one dialect db')"

definition downgrade_one :: "string \<Rightarrow> stamped_schema \<Rightarrow> stamped_schema option" where
  "downgrade_one dialect db =
     (case find (\<lambda>r. Some (mg_revision r) = fst db) versions of
        None \<Rightarrow> None
      | Some r \<Rightarrow> map_option (Pair (mg_down_revision r)) (run_all (mg_downgrade r dialect) (snd db)))"

definition chain :: "string \<Rightarrow> stamped_schema list" where
  "chain d =
     [(None, []),
      (Some ''0126b2d5742a'', schema_0126),
      (Some ''8f3a1c5e9b02'', schema_8f3a),
      (Some ''a1b2c3d4e5f6'', schema_a1b2),
      (Some ''b2c3d4e5f6a7'', schema_b2c3),
      (Some ''c3d4e5f6a8b9'', schema_c3d4),
      (Some ''d4e5f6a7c9b1'', schema_d4e5),
      (Some ''e5f6a7b8c2d3'', schema_e5f6 (needs_widening d)),
      (Some ''f6a7b8c9d4e5'', schema_f6a7 (needs_widening d)),
      (Some ''a7b8c9d0e5f6'', schema_a7b8 (needs_widening d))]"

lemma length_chain: "length (chain d) = 10"
  by (simp add: chain_def)

lemmas revision_defs = revision_0126_def revision_8f3a_def revision_a1b2_def revision_b2c3_def
  revision_c3d4_def revision_d4e5_def revision_e5f6_def revision_f6a7_def revision_a7b8_def

lemma run_e5f6: "run_all (upgrade_e5f6 d) schema_d4e5 = Some (schema_e5f6 (needs_widening d))"
  using run_e5f6_wide by (cases "needs_widening d") (auto simp: schema_e5f6_def widen_for)

lemma run_f6a7: "run_all upgrade_f6a7 (schema_e5f6 wide) = Some (schema_f6a7 wide)"
  using run_f6a7_wide run_f6a7_narrow by (cases wide) simp_all

lemma run_a7b8: "run_all (upgrade_a7b8 d) (schema_f6a7 (needs_widening d)) = Some (schema_a7b8 (needs_widening d))"
  using run_a7b8_wide by (cases "needs_widening d") (auto simp: schema_a7b8_def widen_for)

lemma undo_e5f6: "run_all (downgrade_e5f6 d) (schema_e5f6 (needs_widening d)) = Some schema_d4e5"
  using undo_e5f6_wide
  by (cases "needs_widening d") (simp_all add: widen_for(3,7) schema_e5f6_def [of False])

lemma undo_f6a7: "run_all downgrade_f6a7 (schema_f6a7 wide) = Some (schema_e5f6 wide)"
  using undo_f6a7_wide undo_f6a7_narrow by (cases wide) simp_all

lemma undo_a7b8: "run_all (downgrade_a7b8 d) (schema_a7b8 (needs_widening d)) = Some (schema_f6a7 (needs_widening d))"
  using undo_a7b8_wide
  by (cases "needs_widening d") (simp_all add: widen_for(4,8) schema_a7b8_def [of False])

lemma upgrade_chain:
  assumes "k < 9"
  shows "upgrade_one d (chain d ! k) = Some (chain d ! Suc k)"
proof -
  from assms have "k \<in> {0, 1, 2, 3, 4, 5, 6, 7, 8}" by auto
  then show ?thesis
    by (elim insertE emptyE)
      (simp_all add: chain_def upgrade_one_def versions_def revision_defs run_0126 run_8f3a run_a1b2
        run_b2c3 run_c3d4 run_d4e5 run_e5f6 run_f6a7 run_a7b8)
qed

lemma chain_end: "find (\<lambda>r. mg_down_revision r = fst (chain d ! 9)) versions = None"
  by (simp add: chain_def versions_def revision_defs)

lemma upgrade_one_end: "upgrade_one d (chain d ! 9) = None"
  using chain_end [of d] by (simp add: upgrade_one_def)

lemma upgrade_one_SomeD:
  assumes "upgrade_one d (stamp, s) = Some db"
  obtains r s' where "find (\<lambda>r. mg_down_revision r = stamp) versions = Some r"
    and "run_all (mg_upgrade r d) s = Some s'" and "db = (Some (mg_revision r), s')"
  using assms by (auto simp: upgrade_one_def split: option.splits)

lemma downgrade_chain:
  assumes "k < 9"
  shows "downgrade_one d (chain d ! Suc k) = Some (chain d ! k)"
proof -
  from assms have "k \<in> {0, 1, 2, 3, 4, 5, 6, 7, 8}" by auto
  then show ?thesis
    by (elim insertE emptyE)
      (simp_all add: chain_def downgrade_one_def versions_def revision_defs undo_0126 undo_8f3a undo_a1b2
        undo_b2c3 undo_c3d4 undo_d4e5 undo_e5f6 undo_f6a7 undo_a7b8)
qed

lemma upgrade_by_chain: "upgrade_by k d (None, []) = (if k < 10 then Some (chain d ! k) else None)"
proof (induction k)
  case 0
  show ?case by (simp add: chain_def)
next
  case (Suc k)
  consider "k < 9" | "k = 9" | "9 < k" by linarith
  then show ?case
    unfolding upgrade_by.simps(2) Suc.IH by cases (simp_all add: upgrade_chain upgrade_one_end)
qed

lemma upgrade_steps_chain:
  "k \<le> 9 \<Longrightarrow> 9 - k \<le> fuel \<Longrightarrow> upgrade_steps fuel versions d (chain d ! k) = Some (chain d ! 9)"
proof (induction fuel arbitrary: k)
  case 0
  then have "k = 9" by simp
  then show ?case using chain_end [of d] by (cases "chain d ! 9") simp
next
  case (Suc fuel)
  obtain stamp s where at_k: "chain d ! k = (stamp, s)" by (rule prod.exhaust)
  show ?case
  proof (cases "k = 9")
    case True
    then show ?thesis using chain_end [of d] at_k by simp
  next
    case False
    with Suc.prems have "k < 9" by simp
    obtain r s' where r: "find (\<lambda>r. mg_down_revision r = stamp) versions = Some r"
      "run_all (mg_upgrade r d) s = Some s'" "chain d ! Suc k = (Some (mg_revision r), s')"
      using upgrade_chain [OF \<open>k < 9\<close>, of d] unfolding at_k by (rule upgrade_one_SomeD)
    then show ?thesis using Suc.IH [of "Suc k"] Suc.prems \<open>k < 9\<close> at_k by (simp del: upgrade_steps.simps add: upgrade_steps.simps [of "Suc fuel"])
  qed
qed

lemma upgrade_to_head_chain: "k \<le> 9 \<Longrightarrow> upgrade_to_head d (chain d ! k) = Some (chain d ! 9)"
  unfolding upgrade_to_head_def by (rule upgrade_steps_chain) (simp_all add: versions_def)

text \<open>
  C39 (equivalence). From an empty database the migration chain succeeds on every dialect and leaves
  exactly the tables, columns, foreign keys, unique constraints and indexes the ORM models declare.
\<close>

theorem migrations_build_the_models:
  "\<exists>s ms. upgrade_to_head dialect (None, []) = Some (Some ''a7b8c9d0e5f6'', s)
     \<and> metadata_schema = Some ms \<and> same_schema dialect s ms"
proof -
  have "upgrade_to_head dialect (chain dialect ! 0) = Some (chain dialect ! 9)"
    by (rule upgrade_to_head_chain) simp
  then have "upgrade_to_head dialect (None, []) = Some (Some ''a7b8c9d0e5f6'', schema_a7b8 (needs_widening dialect))"
    by (simp add: chain_def)
  moreover have "metadata_schema = Some metadata_tables"
    using metadata_resolves by (simp add: metadata_tables_def)
  moreover have "same_schema dialect (schema_a7b8 (needs_widening dialect)) metadata_tables"
    using head_is_metadata_wide head_is_metadata_narrow
    by (cases "dialect = ''sqlite''") (simp_all add: needs_widening_def same_schema_wide [of dialect])
  ultimately show ?thesis by blast
qed


text \<open>
  Each revision's downgrade restores exactly the stamp and the schema the revision
  was applied to, on every dialect.
\<close>

theorem downgrade_undoes_upgrade:
  assumes "upgrade_by k dialect (None, []) = Some db" and "upgrade_one dialect db = Some db'"
  shows "downgrade_one dialect db' = Some db"
proof -
  from assms(1) have k: "k < 10" "db = chain dialect ! k" by (auto simp: upgrade_by_chain split: if_splits)
  moreover have "k \<noteq> 9" using assms(2) k(2) upgrade_one_end [of dialect] by auto
  ultimately have "k < 9" by simp
  then show ?thesis using assms(2) k(2) upgrade_chain [of k dialect] downgrade_chain [of k dialect] by simp
qed


theorem downgrade_undoes_upgrade_witness:
  "\<exists>db db'. upgrade_by 6 ''postgresql'' (None, []) = Some db \<and> upgrade_one ''postgresql'' db = Some db'
     \<and> downgrade_one ''postgresql'' db' = Some db"
proof -
  have "upgrade_by 6 ''postgresql'' (None, []) = Some (chain ''postgresql'' ! 6)"
    "upgrade_one ''postgresql'' (chain ''postgresql'' ! 6) = Some (chain ''postgresql'' ! 7)"
    using upgrade_chain [of 6 "''postgresql''"] by (simp_all add: upgrade_by_chain)
  with downgrade_undoes_upgrade [OF this] show ?thesis by blast
qed

end
