(* ===== verification/Table.thy ===== *)
theory Table
  imports Ledger_Prelude
begin

text \<open>
  \<open>_Table\<close> of \<^verbatim>\<open>tt_ledger/store/memory.py\<close>: one entity's rows under an auto-increment id,
  with an index on the natural key. The rows dictionary is kept in insertion order (which is id
  order), as \<open>all()\<close> exposes it. The contract the store and the repositories rely on, that a
  natural key names at most one row, that an upsert on a known key keeps its surrogate id and
  that other keys are untouched, is the locale \<open>keyed_table\<close>; its extension
  \<open>preserving_table\<close> adds the preserve-if-null columns of orders and transactions.
\<close>

section \<open>The table\<close>

record ('k, 'v) ptable =
  tb_rows :: "(nat, 'v) dict"
  tb_index :: "('k, nat) dict"
  tb_next_id :: nat

definition table_empty :: "('k, 'v) ptable" where
  "table_empty = \<lparr> tb_rows = [], tb_index = [], tb_next_id = 1 \<rparr>"

definition table_upsert :: "('v \<Rightarrow> 'k option) \<Rightarrow> 'v \<Rightarrow> ('k, 'v) ptable \<Rightarrow> nat \<times> ('k, 'v) ptable" where
  "table_upsert key_of row t =
     (let key = key_of row in
      case (case key of None \<Rightarrow> None | Some k \<Rightarrow> dict_get (tb_index t) k) of
        Some row_id \<Rightarrow> (row_id, t\<lparr>tb_rows := dict_set row_id row (tb_rows t)\<rparr>)
      | None \<Rightarrow>
          let row_id = tb_next_id t in
          (row_id,
           t\<lparr> tb_next_id := row_id + 1,
              tb_rows := dict_set row_id row (tb_rows t),
              tb_index := (case key of None \<Rightarrow> tb_index t | Some k \<Rightarrow> dict_set k row_id (tb_index t)) \<rparr>))"

definition table_insert :: "'v \<Rightarrow> ('k, 'v) ptable \<Rightarrow> nat \<times> ('k, 'v) ptable" where
  "table_insert row t =
     (tb_next_id t, t\<lparr> tb_next_id := tb_next_id t + 1, tb_rows := dict_set (tb_next_id t) row (tb_rows t) \<rparr>)"

definition table_get :: "('k, 'v) ptable \<Rightarrow> nat \<Rightarrow> 'v option" where
  "table_get t row_id = dict_get (tb_rows t) row_id"

definition table_get_by_key :: "('k, 'v) ptable \<Rightarrow> 'k \<Rightarrow> 'v option" where
  "table_get_by_key t key =
     (case dict_get (tb_index t) key of None \<Rightarrow> None | Some row_id \<Rightarrow> dict_get (tb_rows t) row_id)"

definition table_id_of :: "('k, 'v) ptable \<Rightarrow> 'k \<Rightarrow> nat option" where
  "table_id_of t key = dict_get (tb_index t) key"

definition table_all :: "('k, 'v) ptable \<Rightarrow> (nat \<times> 'v) list" where
  "table_all t = tb_rows t"

text \<open>The store mutates stored rows in place (\<open>txn.order_id = ...\<close> while walking \<open>all()\<close>).\<close>

definition table_modify :: "(nat \<Rightarrow> 'v \<Rightarrow> 'v) \<Rightarrow> ('k, 'v) ptable \<Rightarrow> ('k, 'v) ptable" where
  "table_modify f t = t\<lparr>tb_rows := map (\<lambda>(row_id, row). (row_id, f row_id row)) (tb_rows t)\<rparr>"

section \<open>The invariant\<close>

text \<open>Ids are handed out once and ascend; the index holds exactly the keys of the stored rows,
  each under the id of its row.\<close>

definition table_ok :: "('v \<Rightarrow> 'k option) \<Rightarrow> ('k, 'v) ptable \<Rightarrow> bool" where
  "table_ok key_of t \<longleftrightarrow>
     sorted_wrt (<) (map fst (tb_rows t))
   \<and> (\<forall>row_id \<in> fst ` set (tb_rows t). 0 < row_id \<and> row_id < tb_next_id t)
   \<and> 0 < tb_next_id t
   \<and> (\<forall>k row_id. dict_get (tb_index t) k = Some row_id \<longleftrightarrow>
        (\<exists>row. dict_get (tb_rows t) row_id = Some row \<and> key_of row = Some k))"

lemma table_ok_empty: "table_ok key_of table_empty"
  by (simp add: table_ok_def table_empty_def)

lemma table_ok_distinct: "table_ok key_of t \<Longrightarrow> distinct (map fst (tb_rows t))"
  by (simp add: table_ok_def strict_sorted_iff)

lemma table_ok_index:
  "table_ok key_of t \<Longrightarrow>
     dict_get (tb_index t) k = Some row_id \<longleftrightarrow>
     (\<exists>row. dict_get (tb_rows t) row_id = Some row \<and> key_of row = Some k)"
  by (simp add: table_ok_def)

lemma table_ok_id_less:
  "table_ok key_of t \<Longrightarrow> dict_get (tb_rows t) row_id = Some row \<Longrightarrow> row_id < tb_next_id t"
  using dict_get_in_keys [of "tb_rows t" row_id row] unfolding table_ok_def by blast

lemma table_ok_next_fresh: "table_ok key_of t \<Longrightarrow> dict_get (tb_rows t) (tb_next_id t) = None"
  using table_ok_id_less by fastforce

lemma table_ok_next_notin: "table_ok key_of t \<Longrightarrow> tb_next_id t \<notin> fst ` set (tb_rows t)"
  using table_ok_next_fresh by (simp add: map_of_eq_None_iff)

lemma table_ok_unique:
  assumes "table_ok key_of t" and "dict_get (tb_rows t) i = Some r" and "dict_get (tb_rows t) j = Some s"
    and "key_of r = Some k" and "key_of s = Some k"
  shows "i = j"
  using assms table_ok_index [OF assms(1), of k] by (metis option.inject)

text \<open>What one upsert does.\<close>

lemma table_upsert_known:
  assumes "key_of row = Some k" and "table_id_of t k = Some i"
  shows "table_upsert key_of row t = (i, t\<lparr>tb_rows := dict_set i row (tb_rows t)\<rparr>)"
  using assms by (simp add: table_upsert_def table_id_of_def)

lemma table_upsert_fresh:
  assumes "key_of row = Some k" and "table_id_of t k = None"
  shows "table_upsert key_of row t =
     (tb_next_id t,
      t\<lparr> tb_next_id := tb_next_id t + 1, tb_rows := dict_set (tb_next_id t) row (tb_rows t),
         tb_index := dict_set k (tb_next_id t) (tb_index t) \<rparr>)"
  using assms by (simp add: table_upsert_def table_id_of_def Let_def)

lemma table_upsert_keyless:
  assumes "key_of row = None"
  shows "table_upsert key_of row t =
     (tb_next_id t,
      t\<lparr> tb_next_id := tb_next_id t + 1, tb_rows := dict_set (tb_next_id t) row (tb_rows t) \<rparr>)"
  using assms by (simp add: table_upsert_def Let_def)

lemma table_ok_upsert:
  assumes ok: "table_ok key_of t"
  shows "table_ok key_of (snd (table_upsert key_of row t))"
proof (cases "key_of row")
  case None
  then show ?thesis
    using ok table_ok_next_notin [OF ok] table_ok_index [OF ok] table_ok_next_fresh [OF ok]
    by (auto simp: table_upsert_keyless table_ok_def keys_dict_set dom_dict_set sorted_wrt_append
        split: if_splits)
next
  case (Some k)
  show ?thesis
  proof (cases "table_id_of t k")
    case None
    have unused: "key_of r \<noteq> Some k" if "dict_get (tb_rows t) i = Some r" for i r
      using None that table_ok_index [OF ok, of k i] by (auto simp: table_id_of_def)
    from Some None ok unused table_ok_next_notin [OF ok] table_ok_index [OF ok]
      table_ok_next_fresh [OF ok]
    show ?thesis
      by (auto simp: table_upsert_fresh table_ok_def keys_dict_set dom_dict_set sorted_wrt_append
          table_id_of_def split: if_splits)
  next
    case (Some i)
    note known = table_upsert_known [of key_of, OF \<open>key_of row = Some k\<close> Some]
    obtain old where old: "dict_get (tb_rows t) i = Some old" "key_of old = Some k"
      using Some table_ok_index [OF ok] by (auto simp: table_id_of_def)
    then have keys: "map fst (dict_set i row (tb_rows t)) = map fst (tb_rows t)"
      by (simp add: keys_dict_set dict_get_in_keys)
    then have dom: "fst ` set (dict_set i row (tb_rows t)) = fst ` set (tb_rows t)"
      by (metis set_map)
    show ?thesis
      using ok old \<open>key_of row = Some k\<close> table_ok_index [OF ok]
      unfolding known table_ok_def by (auto simp: keys dom)
  qed
qed


text \<open>In-place mutation keeps the invariant when it does not touch the natural key.\<close>

lemma map_of_map_values:
  "map_of (map (\<lambda>(k, v). (k, f k v)) d) k = map_option (f k) (map_of d k)"
  by (induction d) auto

lemma table_get_modify [simp]: "table_get (table_modify f t) i = map_option (f i) (table_get t i)"
  by (simp add: table_get_def table_modify_def map_of_map_values)

lemma table_id_of_modify [simp]: "table_id_of (table_modify f t) k = table_id_of t k"
  by (simp add: table_id_of_def table_modify_def)

lemma table_get_by_key_modify:
  "table_get_by_key (table_modify f t) k =
     (case table_id_of t k of None \<Rightarrow> None | Some i \<Rightarrow> map_option (f i) (table_get t i))"
  by (simp add: table_get_by_key_def table_id_of_def table_get_def table_modify_def map_of_map_values
      split: option.split)

lemma table_all_modify: "table_all (table_modify f t) = map (\<lambda>(i, r). (i, f i r)) (table_all t)"
  by (simp add: table_all_def table_modify_def)

lemma table_ok_modify:
  assumes "table_ok key_of t" and "\<And>i r. key_of (f i r) = key_of r"
  shows "table_ok key_of (table_modify f t)"
proof -
  have keys: "map fst (map (\<lambda>(k, v). (k, f k v)) (tb_rows t)) = map fst (tb_rows t)"
    by (simp add: comp_def case_prod_beta)
  then have dom: "fst ` set (map (\<lambda>(k, v). (k, f k v)) (tb_rows t)) = fst ` set (tb_rows t)"
    by (metis set_map)
  have fields: "tb_rows (table_modify f t) = map (\<lambda>(k, v). (k, f k v)) (tb_rows t)"
    "tb_index (table_modify f t) = tb_index t" "tb_next_id (table_modify f t) = tb_next_id t"
    by (simp_all add: table_modify_def)
  show ?thesis
    using assms(1) unfolding table_ok_def fields keys dom map_of_map_values
    by (auto simp: assms(2))
qed

lemma table_ok_insert:
  assumes "table_ok key_of t" and "key_of row = None"
  shows "table_ok key_of (snd (table_insert row t))"
  using table_ok_upsert [OF assms(1), of row] assms(2)
  by (simp add: table_upsert_keyless table_insert_def)

text \<open>Reading back.\<close>

lemma table_get_by_key_ok:
  "table_ok key_of t \<Longrightarrow> table_get_by_key t k = Some r \<longleftrightarrow>
     (\<exists>i. table_get t i = Some r \<and> key_of r = Some k)"
  by (auto simp: table_get_by_key_def table_get_def table_ok_index split: option.split)
     (metis option.inject option.distinct(1) table_ok_index)+

lemma in_table_all: "table_ok key_of t \<Longrightarrow> (i, r) \<in> set (table_all t) \<longleftrightarrow> table_get t i = Some r"
  by (simp add: table_all_def table_get_def table_ok_distinct)

lemma table_upsert_get:
  assumes "table_ok key_of t"
  shows "table_get (snd (table_upsert key_of row t)) i =
     (if i = fst (table_upsert key_of row t) then Some row else table_get t i)"
  by (auto simp: table_upsert_def table_get_def Let_def split: option.splits)

lemma table_all_upsert:
  assumes ok: "table_ok key_of t" and "(i, r) \<in> set (table_all (snd (table_upsert key_of row t)))"
  shows "r = row \<or> (i, r) \<in> set (table_all t)"
  using assms(2) in_table_all [OF ok] in_table_all [OF table_ok_upsert [OF ok, of row]]
  by (auto simp: table_upsert_get [OF ok] split: if_splits)

lemma table_upsert_key:
  assumes "table_ok key_of t" and "key_of row = Some k"
  shows "table_get_by_key (snd (table_upsert key_of row t)) k = Some row"
    and "table_id_of (snd (table_upsert key_of row t)) k = Some (fst (table_upsert key_of row t))"
    and "k' \<noteq> k \<Longrightarrow> table_id_of (snd (table_upsert key_of row t)) k' = table_id_of t k'"
    and "table_id_of t k = Some i \<Longrightarrow> fst (table_upsert key_of row t) = i"
    and "table_id_of t k = None \<Longrightarrow> fst (table_upsert key_of row t) = tb_next_id t"
  using assms
  by (auto simp: table_upsert_def table_get_by_key_def table_id_of_def Let_def split: option.splits)

lemma table_upsert_other_key:
  assumes ok: "table_ok key_of t" and "key_of row = Some k" and "k' \<noteq> k"
  shows "table_get_by_key (snd (table_upsert key_of row t)) k' = table_get_by_key t k'"
proof -
  let ?t' = "snd (table_upsert key_of row t)" and ?i = "fst (table_upsert key_of row t)"
  have old: "key_of r \<noteq> Some k'" if "table_get t ?i = Some r" for r
  proof (cases "table_id_of t k")
    case None
    with that assms show ?thesis
      using table_ok_next_fresh [OF ok] by (simp add: table_upsert_key(5) table_get_def)
  next
    case (Some i)
    with that assms table_ok_index [OF ok, of k i] show ?thesis
      by (auto simp: table_upsert_key(4) table_get_def table_id_of_def)
  qed
  have "table_get ?t' i = Some r \<and> key_of r = Some k' \<longleftrightarrow> table_get t i = Some r \<and> key_of r = Some k'"
    for i r
    using assms(2,3) old [of r] by (auto simp: table_upsert_get [OF ok])
  then have "table_get_by_key ?t' k' = Some r \<longleftrightarrow> table_get_by_key t k' = Some r" for r
    unfolding table_get_by_key_ok [OF ok] table_get_by_key_ok [OF table_ok_upsert [OF ok, of row]]
    by (simp only:)
  then show ?thesis by (metis not_Some_eq)
qed

section \<open>The contract\<close>

text \<open>What the rest of the store uses of a natural-key table.\<close>

locale keyed_table =
  fixes key_of :: "'v \<Rightarrow> 'k option"
    and upsert :: "'v \<Rightarrow> 't \<Rightarrow> nat \<times> 't"
    and get_by_key :: "'t \<Rightarrow> 'k \<Rightarrow> 'v option"
    and id_of :: "'t \<Rightarrow> 'k \<Rightarrow> nat option"
    and entries :: "'t \<Rightarrow> (nat \<times> 'v) list"
    and invar :: "'t \<Rightarrow> bool"
  assumes upsert_invar: "invar t \<Longrightarrow> invar (snd (upsert r t))"
    and upsert_stored: "invar t \<Longrightarrow> key_of r = Some k \<Longrightarrow> get_by_key (snd (upsert r t)) k = Some r"
    and upsert_frame: "invar t \<Longrightarrow> key_of r = Some k \<Longrightarrow> k' \<noteq> k \<Longrightarrow>
          get_by_key (snd (upsert r t)) k' = get_by_key t k'"
    and upsert_id: "invar t \<Longrightarrow> key_of r = Some k \<Longrightarrow> id_of (snd (upsert r t)) k = Some (fst (upsert r t))"
    and upsert_id_stable: "invar t \<Longrightarrow> key_of r = Some k \<Longrightarrow> id_of t k = Some i \<Longrightarrow> fst (upsert r t) = i"
    and upsert_id_frame: "invar t \<Longrightarrow> key_of r = Some k \<Longrightarrow> k' \<noteq> k \<Longrightarrow>
          id_of (snd (upsert r t)) k' = id_of t k'"
    and entries_get: "invar t \<Longrightarrow> (\<exists>i. (i, r) \<in> set (entries t) \<and> key_of r = Some k) \<longleftrightarrow>
          get_by_key t k = Some r"
begin

fun upsert_all :: "'v list \<Rightarrow> 't \<Rightarrow> 't" where
  "upsert_all [] t = t"
| "upsert_all (r # rs) t = upsert_all rs (snd (upsert r t))"

lemma upsert_all_invar: "invar t \<Longrightarrow> invar (upsert_all rs t)"
  by (induction rs arbitrary: t) (simp_all add: upsert_invar)

lemma upsert_all_frame:
  "invar t \<Longrightarrow> \<forall>r \<in> set rs. key_of r \<noteq> None \<and> key_of r \<noteq> Some k \<Longrightarrow>
     get_by_key (upsert_all rs t) k = get_by_key t k"
  by (induction rs arbitrary: t) (auto simp: upsert_invar upsert_frame)

lemma upsert_all_id_stable:
  "invar t \<Longrightarrow> \<forall>r \<in> set rs. key_of r \<noteq> None \<Longrightarrow> id_of t k = Some i \<Longrightarrow>
     id_of (upsert_all rs t) k = Some i"
proof (induction rs arbitrary: t)
  case (Cons r rs)
  then obtain k' where k': "key_of r = Some k'" by auto
  have "id_of (snd (upsert r t)) k = Some i"
    using Cons.prems upsert_id [OF Cons.prems(1) k'] upsert_id_stable [OF Cons.prems(1) k']
      upsert_id_frame [OF Cons.prems(1) k', of k]
    by (cases "k = k'") auto
  with Cons show ?case by (simp add: upsert_invar)
qed simp

lemma upsert_all_last:
  assumes "invar t" and "\<forall>r \<in> set rs. key_of r \<noteq> None \<and> key_of r \<noteq> Some k" and "key_of r = Some k"
  shows "get_by_key (upsert_all (r # rs) t) k = Some r"
  using assms by (simp add: upsert_all_frame upsert_invar upsert_stored)

lemma entries_unique:
  "invar t \<Longrightarrow> (i, r) \<in> set (entries t) \<Longrightarrow> (j, s) \<in> set (entries t) \<Longrightarrow>
     key_of r = Some k \<Longrightarrow> key_of s = Some k \<Longrightarrow> r = s"
  using entries_get by (metis option.inject)

end

text \<open>The preserve-if-null columns: \<open>merge existing incoming\<close> keeps the existing value of a
  linkage column where the incoming row has none.\<close>

locale preserving_table = keyed_table key_of upsert get_by_key id_of entries invar
  for key_of :: "'v \<Rightarrow> 'k option"
    and upsert :: "'v \<Rightarrow> 't \<Rightarrow> nat \<times> 't"
    and get_by_key :: "'t \<Rightarrow> 'k \<Rightarrow> 'v option"
    and id_of :: "'t \<Rightarrow> 'k \<Rightarrow> nat option"
    and entries :: "'t \<Rightarrow> (nat \<times> 'v) list"
    and invar :: "'t \<Rightarrow> bool" +
  fixes merge :: "'v \<Rightarrow> 'v \<Rightarrow> 'v"
    and link :: "'v \<Rightarrow> 'l option"
  assumes merge_key: "key_of (merge e r) = key_of r"
    and merge_link: "link (merge e r) = (case link r of None \<Rightarrow> link e | Some l \<Rightarrow> Some l)"
begin

definition resync :: "'v \<Rightarrow> 't \<Rightarrow> nat \<times> 't" where
  "resync r t =
     upsert (case key_of r of None \<Rightarrow> r
             | Some k \<Rightarrow> (case get_by_key t k of None \<Rightarrow> r | Some e \<Rightarrow> merge e r)) t"

lemma resync_invar: "invar t \<Longrightarrow> invar (snd (resync r t))"
  by (simp add: resync_def upsert_invar)

lemma resync_stored:
  assumes "invar t" and "key_of r = Some k"
  shows "get_by_key (snd (resync r t)) k =
     Some (case get_by_key t k of None \<Rightarrow> r | Some e \<Rightarrow> merge e r)"
proof -
  let ?row = "case get_by_key t k of None \<Rightarrow> r | Some e \<Rightarrow> merge e r"
  have "key_of ?row = Some k"
    using assms(2) by (simp add: merge_key split: option.split)
  from upsert_stored [OF assms(1) this] show ?thesis
    by (simp add: resync_def assms(2))
qed

lemma resync_frame:
  assumes "invar t" and "key_of r = Some k" and "k' \<noteq> k"
  shows "get_by_key (snd (resync r t)) k' = get_by_key t k'"
  unfolding resync_def
  by (rule upsert_frame [OF assms(1) _ assms(3)]) (auto simp: assms merge_key split: option.split)

text \<open>A re-sync that knows no linkage never wipes one.\<close>

lemma resync_keeps_link:
  assumes "invar t" and "key_of r = Some k" and "get_by_key t k = Some e" and "link e = Some l"
    and "link r = None"
  shows "\<exists>s. get_by_key (snd (resync r t)) k = Some s \<and> link s = Some l"
  using assms by (simp add: resync_stored merge_link)

end

interpretation tbl: keyed_table key_of "table_upsert key_of" table_get_by_key table_id_of table_all
  "table_ok key_of" for key_of :: "'v \<Rightarrow> 'k option"
proof unfold_locales
  fix t :: "('k, 'v) ptable" and r :: 'v and k :: 'k
  assume ok: "table_ok key_of t"
  show "(\<exists>i. (i, r) \<in> set (table_all t) \<and> key_of r = Some k) \<longleftrightarrow> table_get_by_key t k = Some r"
    using ok by (simp add: in_table_all table_get_by_key_ok)
qed (simp_all add: table_ok_upsert table_upsert_key table_upsert_other_key)

end
