(* ===== verification/Sql_Engine.thy ===== *)
theory Sql_Engine
  imports Table Schema
begin

text \<open>
  What the statements of \<^verbatim>\<open>tt_ledger/store/sql.py\<close> mean: SQL's three-valued conditions, with
  SQLAlchemy's reading of a comparison with a Python value (\<open>column == None\<close> is \<open>IS NULL\<close>), a
  table as its rows in rowid order, \<open>SELECT\<close>, \<open>UPDATE\<close>, \<open>INSERT\<close>, and the helper \<open>_upsert\<close>, the
  one place where the store builds an \<open>INSERT ... ON CONFLICT DO UPDATE\<close> and splits it into
  statements. A table gives the row it inserts the rowid after its largest, as SQLite does.
\<close>

section \<open>Conditions\<close>

type_synonym tri = "bool option"

definition tri_and :: "tri \<Rightarrow> tri \<Rightarrow> tri" where
  "tri_and a b =
     (if a = Some False \<or> b = Some False then Some False
      else if a = None \<or> b = None then None else Some True)"

definition tri_or :: "tri \<Rightarrow> tri \<Rightarrow> tri" where
  "tri_or a b =
     (if a = Some True \<or> b = Some True then Some True
      else if a = None \<or> b = None then None else Some False)"

definition tri_not :: "tri \<Rightarrow> tri" where
  "tri_not a = map_option Not a"

text \<open>The terms of a \<open>WHERE\<close> clause hold when their conjunction is true, not merely not false.\<close>

definition holds :: "tri list \<Rightarrow> bool" where
  "holds cs \<longleftrightarrow> foldr tri_and cs (Some True) = Some True"

definition is_value :: "'a option \<Rightarrow> 'a option \<Rightarrow> tri" where
  "is_value col v = (case v of None \<Rightarrow> Some (col = None) | Some x \<Rightarrow> map_option (\<lambda>c. c = x) col)"

definition equals :: "'a option \<Rightarrow> 'a option \<Rightarrow> tri" where
  "equals a b = (case a of None \<Rightarrow> None | Some x \<Rightarrow> map_option (\<lambda>y. x = y) b)"

definition at_least :: "'a::linorder option \<Rightarrow> 'a \<Rightarrow> tri" where
  "at_least col v = map_option (\<lambda>c. v \<le> c) col"

definition less_than :: "'a::linorder option \<Rightarrow> 'a \<Rightarrow> tri" where
  "less_than col v = map_option (\<lambda>c. c < v) col"

definition is_in :: "'a option \<Rightarrow> 'a list \<Rightarrow> tri" where
  "is_in col vs = map_option (\<lambda>c. c \<in> set vs) col"

definition is_null :: "'a option \<Rightarrow> tri" where
  "is_null col = Some (col = None)"

definition is_not_null :: "'a option \<Rightarrow> tri" where
  "is_not_null col = Some (col \<noteq> None)"

text \<open>\<open>col LIKE '%suffix'\<close>, which compares ASCII letters without case.\<close>

definition like_suffix :: "string option \<Rightarrow> string \<Rightarrow> tri" where
  "like_suffix col suffix = map_option (\<lambda>c. py_endswith (py_lower c) (py_lower suffix)) col"

text \<open>A term the query adds only when its argument is given.\<close>

definition when_given :: "'a option \<Rightarrow> ('a \<Rightarrow> tri) \<Rightarrow> tri list" where
  "when_given arg c = (case arg of None \<Rightarrow> [] | Some x \<Rightarrow> [c x])"

named_theorems sql_conditions

lemma tri_and_true [simp]: "tri_and a b = Some True \<longleftrightarrow> a = Some True \<and> b = Some True"
  by (cases a; cases b) (auto simp: tri_and_def)

lemma tri_or_true: "tri_or a b = Some True \<longleftrightarrow> a = Some True \<or> b = Some True"
  by (cases a; cases b) (auto simp: tri_or_def)

lemma holds_simps [simp]: "holds []" "holds (c # cs) \<longleftrightarrow> c = Some True \<and> holds cs"
    "holds (cs @ ds) \<longleftrightarrow> holds cs \<and> holds ds"
  by (induction cs) (simp_all add: holds_def)

lemma holds_when_given [sql_conditions]:
  "holds (when_given arg c) \<longleftrightarrow> (case arg of None \<Rightarrow> True | Some x \<Rightarrow> c x = Some True)"
  by (simp add: when_given_def split: option.split)

lemma condition_true [sql_conditions]:
  "is_value col v = Some True \<longleftrightarrow> col = v"
  "equals a b = Some True \<longleftrightarrow> a = b \<and> a \<noteq> None"
  "at_least x l = Some True \<longleftrightarrow> (case x of None \<Rightarrow> False | Some c \<Rightarrow> l \<le> c)"
  "less_than x u = Some True \<longleftrightarrow> (case x of None \<Rightarrow> False | Some c \<Rightarrow> c < u)"
  "is_in y vs = Some True \<longleftrightarrow> (case y of None \<Rightarrow> False | Some c \<Rightarrow> c \<in> set vs)"
  "is_null z = Some True \<longleftrightarrow> z = None"
  "is_not_null z = Some True \<longleftrightarrow> z \<noteq> None"
  by (auto simp: is_value_def equals_def at_least_def less_than_def is_in_def is_null_def is_not_null_def
      split: option.split)

section \<open>Tables and statements\<close>

type_synonym 'v sql_table = "(nat \<times> 'v) list"

definition next_rowid :: "'v sql_table \<Rightarrow> nat" where
  "next_rowid t = (if t = [] then 1 else Max (set (map fst t)) + 1)"

definition select_where :: "(nat \<times> 'v \<Rightarrow> tri list) \<Rightarrow> 'v sql_table \<Rightarrow> 'v sql_table" where
  "select_where cs t = filter (\<lambda>p. holds (cs p)) t"

text \<open>\<open>UPDATE\<close>, with its row count.\<close>

definition update_where :: "(nat \<times> 'v \<Rightarrow> tri list) \<Rightarrow> (nat \<times> 'v \<Rightarrow> 'v) \<Rightarrow> 'v sql_table \<Rightarrow> nat \<times> 'v sql_table" where
  "update_where cs f t =
     (length (select_where cs t), map (\<lambda>p. (fst p, if holds (cs p) then f p else snd p)) t)"

definition insert_row :: "'v \<Rightarrow> 'v sql_table \<Rightarrow> nat \<times> 'v sql_table" where
  "insert_row row t = (next_rowid t, t @ [(next_rowid t, row)])"

text \<open>The row a unique index finds in conflict; a key with a null in it conflicts with none.\<close>

definition conflicting :: "('v \<Rightarrow> 'k option) \<Rightarrow> 'v \<Rightarrow> 'v sql_table \<Rightarrow> (nat \<times> 'v) option" where
  "conflicting key_of row t =
     (case key_of row of None \<Rightarrow> None | Some k \<Rightarrow> find (\<lambda>p. key_of (snd p) = Some k) t)"

definition insert_on_conflict ::
  "('v \<Rightarrow> 'k option) \<Rightarrow> ('v \<Rightarrow> 'v \<Rightarrow> 'v) \<Rightarrow> 'v \<Rightarrow> 'v sql_table \<Rightarrow> nat \<times> 'v sql_table" where
  "insert_on_conflict key_of update_cols row t =
     (case conflicting key_of row t of
        None \<Rightarrow> insert_row row t
      | Some (row_id, old) \<Rightarrow> (row_id, dict_set row_id (update_cols old row) t))"

text \<open>One multi-row statement returns the ids of its rows in the order of its \<open>VALUES\<close>.\<close>

fun insert_statement ::
  "('v \<Rightarrow> 'k option) \<Rightarrow> ('v \<Rightarrow> 'v \<Rightarrow> 'v) \<Rightarrow> 'v list \<Rightarrow> 'v sql_table \<Rightarrow> nat list \<times> 'v sql_table" where
  "insert_statement key_of update_cols [] t = ([], t)"
| "insert_statement key_of update_cols (row # rows) t =
     (let (row_id, t1) = insert_on_conflict key_of update_cols row t;
          (ids, t2) = insert_statement key_of update_cols rows t1
      in (row_id # ids, t2))"

section \<open>The upsert helper\<close>

definition MAX_BIND_PARAMS :: nat where
  "MAX_BIND_PARAMS = 30000"

text \<open>\<open>for start in range(0, len(rows), chunk_size)\<close>.\<close>

definition chunk_size :: "nat \<Rightarrow> nat" where
  "chunk_size columns = max 1 (MAX_BIND_PARAMS div max columns 1)"

definition chunks :: "nat \<Rightarrow> 'v list \<Rightarrow> 'v list list" where
  "chunks n rows = map (\<lambda>j. take n (drop (j * n) rows)) [0..<(length rows + n - 1) div n]"

fun run_chunks ::
  "('v \<Rightarrow> 'k option) \<Rightarrow> ('v \<Rightarrow> 'v \<Rightarrow> 'v) \<Rightarrow> 'v list list \<Rightarrow> 'v sql_table \<Rightarrow> nat list \<times> 'v sql_table" where
  "run_chunks key_of update_cols [] t = ([], t)"
| "run_chunks key_of update_cols (chunk # cs) t =
     (let (ids, t1) = insert_statement key_of update_cols chunk t;
          (ids', t2) = run_chunks key_of update_cols cs t1
      in (ids @ ids', t2))"

definition upsert_rows ::
  "model \<Rightarrow> ('v \<Rightarrow> 'k option) \<Rightarrow> ('v \<Rightarrow> 'v \<Rightarrow> 'v) \<Rightarrow> 'v list \<Rightarrow> 'v sql_table \<Rightarrow> nat list \<times> 'v sql_table" where
  "upsert_rows m key_of update_cols rows t =
     (if rows = [] then ([], t)
      else run_chunks key_of update_cols (chunks (chunk_size (length (md_columns m))) rows) t)"

text \<open>The columns set from the incoming row, and the coalesced ones.\<close>

definition coalesce :: "'a option \<Rightarrow> 'a option \<Rightarrow> 'a option" where
  "coalesce excluded existing = (case excluded of None \<Rightarrow> existing | Some x \<Rightarrow> Some x)"

definition excluded_row :: "'v \<Rightarrow> 'v \<Rightarrow> 'v" where
  "excluded_row existing row = row"

subsection \<open>Chunking\<close>

lemma chunk_size_pos [simp]: "0 < chunk_size c"
  by (simp add: chunk_size_def)

lemma concat_chunks_prefix:
  assumes "0 < n"
  shows "concat (map (\<lambda>j. take n (drop (j * n) rows)) [0..<k]) = take (k * n) rows"
  by (induction k) (simp_all add: take_add [symmetric] add.commute)

lemma concat_chunks:
  assumes "0 < n"
  shows "concat (chunks n rows) = rows"
proof -
  have "length rows \<le> ((length rows + n - 1) div n) * n"
    using div_mult_mod_eq [of "length rows + n - 1" n] mod_less_divisor [OF assms, of "length rows + n - 1"]
    by linarith
  then show ?thesis by (simp add: chunks_def concat_chunks_prefix [OF assms])
qed

lemma chunks_bounds:
  assumes "0 < n" and "c \<in> set (chunks n rows)"
  shows "c \<noteq> []" and "length c \<le> n"
proof -
  from assms(2) obtain j where j: "j < (length rows + n - 1) div n" "c = take n (drop (j * n) rows)"
    by (auto simp: chunks_def)
  from j(1) have "Suc j * n \<le> (length rows + n - 1) div n * n" by (intro mult_le_mono1) simp
  also have "\<dots> \<le> length rows + n - 1" by (rule div_times_less_eq_dividend)
  finally have "j * n < length rows" using assms(1) by simp
  then show "c \<noteq> []" using j(2) assms(1) by auto
  show "length c \<le> n" using j(2) by simp
qed

lemma insert_statement_append:
  "insert_statement key_of u (xs @ ys) t =
     (let (ids, t1) = insert_statement key_of u xs t; (ids', t2) = insert_statement key_of u ys t1
      in (ids @ ids', t2))"
  by (induction xs arbitrary: t) (simp_all add: Let_def case_prod_beta)

lemma run_chunks_concat: "run_chunks key_of u cs t = insert_statement key_of u (concat cs) t"
  by (induction cs arbitrary: t) (simp_all add: insert_statement_append Let_def case_prod_beta)

lemma upsert_rows_statement: "upsert_rows m key_of u rows t = insert_statement key_of u rows t"
  by (simp add: upsert_rows_def run_chunks_concat concat_chunks)

lemma length_insert_statement: "length (fst (insert_statement key_of u rows t)) = length rows"
  by (induction rows arbitrary: t) (simp_all add: Let_def case_prod_beta)


section \<open>The tables of the in-memory store as SQL tables\<close>

text \<open>The rows without the key index, each as the database gives it back (\<open>stored\<close> values of its
  columns); the ids agree when the next free id of the table is SQLite's next rowid.\<close>

definition rows_of :: "('v \<Rightarrow> 'v) \<Rightarrow> ('k, 'v) ptable \<Rightarrow> 'v sql_table" where
  "rows_of dec t = map (\<lambda>(row_id, row). (row_id, dec row)) (tb_rows t)"

definition dense :: "('k, 'v) ptable \<Rightarrow> bool" where
  "dense t \<longleftrightarrow> tb_next_id t = next_rowid (tb_rows t)"

lemma next_rowid_rows_of [simp]: "next_rowid (rows_of dec t) = next_rowid (tb_rows t)"
  by (simp add: rows_of_def next_rowid_def case_prod_beta comp_def)

lemma next_rowid_keys: "map fst t = map fst t' \<Longrightarrow> next_rowid t = next_rowid t'"
  by (cases t; cases t') (simp_all add: next_rowid_def)

lemma dense_empty: "dense table_empty"
  by (simp add: dense_def table_empty_def next_rowid_def)

lemma dense_modify: "dense (table_modify f t) = dense t"
proof -
  have "next_rowid (tb_rows (table_modify f t)) = next_rowid (tb_rows t)"
    by (rule next_rowid_keys) (simp add: table_modify_def case_prod_beta comp_def)
  then show ?thesis by (simp add: dense_def table_modify_def)
qed

lemma dense_insert:
  assumes "dense t" and ok: "table_ok key_of t"
  shows "dense (snd (table_insert row t))"
proof -
  have fresh: "tb_next_id t \<notin> fst ` set (tb_rows t)" by (rule table_ok_next_notin [OF ok])
  have "\<forall>i \<in> fst ` set (tb_rows t). i < tb_next_id t" using ok by (simp add: table_ok_def)
  then have "Max (insert (tb_next_id t) (fst ` set (tb_rows t))) = tb_next_id t"
    by (intro Max_eqI) (auto intro: less_imp_le)
  then show ?thesis
    using fresh by (simp add: dense_def table_insert_def next_rowid_def dom_dict_set update_Some_unfold)
qed

lemma dense_upsert:
  assumes "dense t" and ok: "table_ok key_of t"
  shows "dense (snd (table_upsert key_of row t))"
proof (cases "case key_of row of None \<Rightarrow> None | Some k \<Rightarrow> dict_get (tb_index t) k")
  case None
  then have "tb_rows (snd (table_upsert key_of row t)) = tb_rows (snd (table_insert row t))"
    "tb_next_id (snd (table_upsert key_of row t)) = tb_next_id (snd (table_insert row t))"
    by (simp_all add: table_upsert_def table_insert_def Let_def)
  then show ?thesis using dense_insert [OF assms, of row] by (simp add: dense_def)
next
  case (Some i)
  then obtain k where k: "key_of row = Some k" "dict_get (tb_index t) k = Some i"
    by (auto split: option.splits)
  then obtain r where "dict_get (tb_rows t) i = Some r" using table_ok_index [OF ok, of k i] by blast
  then have "i \<in> fst ` set (tb_rows t)" by (rule dict_get_in_keys)
  then have "map fst (dict_set i row (tb_rows t)) = map fst (tb_rows t)" by (simp add: keys_dict_set)
  then have "next_rowid (dict_set i row (tb_rows t)) = next_rowid (tb_rows t)" by (rule next_rowid_keys)
  moreover have "snd (table_upsert key_of row t) = t\<lparr>tb_rows := dict_set i row (tb_rows t)\<rparr>"
    using k by (simp add: table_upsert_def)
  ultimately show ?thesis using assms(1) by (simp add: dense_def)
qed

lemma map_dict_set: "map (\<lambda>(i, r). (i, f r)) (dict_set k v d) = dict_set k (f v) (map (\<lambda>(i, r). (i, f r)) d)"
  by (induction d) auto

text \<open>Looking a row up by a unique column finds what the index names.\<close>

lemma find_by_key:
  assumes ok: "table_ok key_of t" and key: "\<And>r. key_of (dec r) = key_of r"
  shows "find (\<lambda>p. key_of (snd p) = Some k) (rows_of dec t) =
     (case table_id_of t k of None \<Rightarrow> None | Some i \<Rightarrow> map_option (\<lambda>r. (i, dec r)) (table_get t i))"
proof (cases "table_id_of t k")
  case None
  have "key_of r \<noteq> Some k" if "(i, r) \<in> set (tb_rows t)" for i r
    using None that table_ok_index [OF ok, of k i] table_ok_distinct [OF ok]
    by (auto simp: table_id_of_def map_of_is_SomeI)
  then have "find (\<lambda>p. key_of (snd p) = Some k) (rows_of dec t) = None"
    by (auto simp: find_None_iff rows_of_def key)
  then show ?thesis by (simp add: None)
next
  case (Some i)
  then obtain r where r: "table_get t i = Some r" "key_of r = Some k"
    using table_ok_index [OF ok, of k i] by (auto simp: table_id_of_def table_get_def)
  have only: "j = i" if "(j, s) \<in> set (tb_rows t)" "key_of s = Some k" for j s
    using table_ok_unique [OF ok, of j s i r k] that r table_ok_distinct [OF ok]
    by (simp add: table_get_def)
  have "(i, r) \<in> set (tb_rows t)" using r(1) by (simp add: table_get_def map_of_SomeD)
  then have "(\<lambda>(i, r). (i, dec r)) (i, r) \<in> set (rows_of dec t)"
    unfolding rows_of_def set_map by (rule imageI)
  then have "(i, dec r) \<in> set (rows_of dec t)" by simp
  moreover have "key_of (snd (i, dec r)) = Some k" using r(2) by (simp add: key)
  ultimately have "find (\<lambda>p. key_of (snd p) = Some k) (rows_of dec t) \<noteq> None" unfolding find_None_iff by blast
  then obtain p where p: "find (\<lambda>p. key_of (snd p) = Some k) (rows_of dec t) = Some p" by blast
  then obtain j s where s: "(j, s) \<in> set (tb_rows t)" "p = (j, dec s)" "key_of s = Some k"
    by (auto simp: find_Some_iff rows_of_def key in_set_conv_nth case_prod_beta) (metis prod.collapse)
  then have "j = i" using only by blast
  then have "s = r" using s(1) r(1) table_ok_distinct [OF ok] by (simp add: table_get_def)
  then show ?thesis using Some r p s \<open>j = i\<close> by simp
qed

text \<open>One upsert of the in-memory table is one \<open>INSERT ... ON CONFLICT\<close>.\<close>

definition merged :: "('v \<Rightarrow> 'k option) \<Rightarrow> ('v \<Rightarrow> 'v \<Rightarrow> 'v) \<Rightarrow> ('k, 'v) ptable \<Rightarrow> 'v \<Rightarrow> 'v" where
  "merged key_of merge t row =
     (case key_of row of None \<Rightarrow> row
      | Some k \<Rightarrow> (case table_get_by_key t k of None \<Rightarrow> row | Some e \<Rightarrow> merge e row))"

lemma insert_on_conflict_sim:
  assumes ok: "table_ok key_of t" and "dense t" and key: "\<And>r. key_of (dec r) = key_of r"
    and merge_key: "\<And>e r. key_of (merge e r) = key_of r"
    and merge: "\<And>e r. u (dec e) (dec r) = dec (merge e r)"
  shows "insert_on_conflict key_of u (dec row) (rows_of dec t) =
     (fst (table_upsert key_of (merged key_of merge t row) t),
      rows_of dec (snd (table_upsert key_of (merged key_of merge t row) t)))"
proof -
  let ?row = "merged key_of merge t row"
  have same_key: "key_of ?row = key_of row"
    by (simp add: merged_def merge_key split: option.split)
  have fresh: "dict_set (tb_next_id t) r (tb_rows t) = tb_rows t @ [(tb_next_id t, r)]" for r
    by (rule dict_set_fresh [OF table_ok_next_notin [OF ok]])
  have rowid: "next_rowid (tb_rows t) = tb_next_id t" using assms(2) by (simp add: dense_def)
  have insert: "insert_row (dec r) (rows_of dec t)
      = (tb_next_id t, rows_of dec (t\<lparr>tb_rows := dict_set (tb_next_id t) r (tb_rows t)\<rparr>))" for r
    by (simp add: insert_row_def rowid) (simp add: rows_of_def fresh)
  show ?thesis
  proof (cases "key_of row")
    case None
    then have "?row = row" by (simp add: merged_def)
    then show ?thesis
      using None insert [of row] key
      by (simp add: insert_on_conflict_def conflicting_def table_upsert_keyless rows_of_def)
  next
    case (Some k)
    note conflict = find_by_key [OF ok, of dec k, OF key]
    show ?thesis
    proof (cases "table_id_of t k")
      case None
      then have "?row = row" using Some by (simp add: merged_def table_get_by_key_def table_id_of_def)
      then show ?thesis
        using None Some insert [of row] key conflict
        by (simp add: insert_on_conflict_def conflicting_def table_upsert_fresh rows_of_def)
    next
      case (Some i)
      obtain e where e: "table_get t i = Some e" "key_of e = Some k"
        using Some table_ok_index [OF ok, of k i] by (auto simp: table_id_of_def table_get_def)
      then have row: "?row = merge e row"
        using Some \<open>key_of row = Some k\<close> by (simp add: merged_def table_get_by_key_def table_id_of_def table_get_def)
      have "table_upsert key_of ?row t = (i, t\<lparr>tb_rows := dict_set i ?row (tb_rows t)\<rparr>)"
        using same_key Some \<open>key_of row = Some k\<close> by (intro table_upsert_known [of _ _ k]) simp_all
      moreover have "insert_on_conflict key_of u (dec row) (rows_of dec t)
          = (i, dict_set i (dec (merge e row)) (rows_of dec t))"
        using e Some conflict \<open>key_of row = Some k\<close>
        by (simp add: insert_on_conflict_def conflicting_def key merge)
      ultimately show ?thesis by (simp add: row rows_of_def map_dict_set)
    qed
  qed
qed

text \<open>Updating in place, and selecting.\<close>

lemma update_where_sim:
  assumes "\<And>p. p \<in> set (tb_rows t) \<Longrightarrow> holds (cs (fst p, dec (snd p))) \<longleftrightarrow> P (fst p) (snd p)"
    and "\<And>p. p \<in> set (tb_rows t) \<Longrightarrow> P (fst p) (snd p) \<Longrightarrow> f (fst p, dec (snd p)) = dec (g (fst p) (snd p))"
  shows "update_where cs f (rows_of dec t) =
     (length (filter (\<lambda>(i, r). P i r) (tb_rows t)),
      rows_of dec (table_modify (\<lambda>i r. if P i r then g i r else r) t))"
  using assms
  by (auto simp: update_where_def select_where_def rows_of_def table_modify_def filter_map comp_def
      case_prod_beta intro!: arg_cong [where f = length] filter_cong)

lemma select_where_sim:
  assumes "\<And>p. p \<in> set (tb_rows t) \<Longrightarrow> holds (cs (fst p, dec (snd p))) \<longleftrightarrow> P p"
  shows "select_where cs (rows_of dec t) = map (\<lambda>p. (fst p, dec (snd p))) (filter P (tb_rows t))"
proof -
  have "filter (\<lambda>p. holds (cs (fst p, dec (snd p)))) (tb_rows t) = filter P (tb_rows t)"
    using assms by (intro filter_cong) simp_all
  then show ?thesis by (simp add: select_where_def rows_of_def filter_map comp_def case_prod_beta)
qed

end
