(* ===== verification/Enums.thy ===== *)
theory Enums
  imports Ledger_Prelude
begin

text \<open>
  The domain enums of \<^verbatim>\<open>tt_ledger/enums.py\<close>. Each is a \<open>StrEnum\<close>: a member is its
  string value wherever the code stores it in a text column, so every enum comes with its
  \<open>value\<close> function and the fact that it is injective.
\<close>

datatype origin = ZTS | BROKER

fun origin_value :: "origin \<Rightarrow> string" where
  "origin_value ZTS = ''zts''"
| "origin_value BROKER = ''broker''"

datatype ingest = OMS_SUBMIT | ORDER_HISTORY | IMPORT

fun ingest_value :: "ingest \<Rightarrow> string" where
  "ingest_value OMS_SUBMIT = ''oms_submit''"
| "ingest_value ORDER_HISTORY = ''order_history''"
| "ingest_value IMPORT = ''import''"

datatype review_status = NEEDS_REVIEW | CONFIRMED | IGNORED | INVALID

fun review_status_value :: "review_status \<Rightarrow> string" where
  "review_status_value NEEDS_REVIEW = ''needs_review''"
| "review_status_value CONFIRMED = ''confirmed''"
| "review_status_value IGNORED = ''ignored''"
| "review_status_value INVALID = ''invalid''"

datatype order_status =
  OS_PENDING | OS_SUBMITTED | OS_WORKING | OS_FILLED
| OS_PARTIALLY_FILLED | OS_CANCELLED | OS_REJECTED | OS_EXPIRED

fun order_status_value :: "order_status \<Rightarrow> string" where
  "order_status_value OS_PENDING = ''pending''"
| "order_status_value OS_SUBMITTED = ''submitted''"
| "order_status_value OS_WORKING = ''working''"
| "order_status_value OS_FILLED = ''filled''"
| "order_status_value OS_PARTIALLY_FILLED = ''partially_filled''"
| "order_status_value OS_CANCELLED = ''cancelled''"
| "order_status_value OS_REJECTED = ''rejected''"
| "order_status_value OS_EXPIRED = ''expired''"

datatype group_status =
  GS_OPEN | GS_CLOSED | GS_EXPIRED | GS_ASSIGNED | GS_EXERCISED | GS_MIXED | GS_UNFILLED

fun group_status_value :: "group_status \<Rightarrow> string" where
  "group_status_value GS_OPEN = ''open''"
| "group_status_value GS_CLOSED = ''closed''"
| "group_status_value GS_EXPIRED = ''expired''"
| "group_status_value GS_ASSIGNED = ''assigned''"
| "group_status_value GS_EXERCISED = ''exercised''"
| "group_status_value GS_MIXED = ''mixed''"
| "group_status_value GS_UNFILLED = ''unfilled''"

datatype strategy_type =
  ST_SINGLE | ST_VERTICAL | ST_CALENDAR | ST_DIAGONAL | ST_IRON_CONDOR | ST_IRON_BUTTERFLY
| ST_STRADDLE | ST_STRANGLE | ST_BUTTERFLY | ST_CONDOR | ST_RATIO | ST_COVERED | ST_COLLAR
| ST_CUSTOM | ST_FUTURE | ST_FUTURE_SPREAD

fun strategy_value :: "strategy_type \<Rightarrow> string" where
  "strategy_value ST_SINGLE = ''single''"
| "strategy_value ST_VERTICAL = ''vertical''"
| "strategy_value ST_CALENDAR = ''calendar''"
| "strategy_value ST_DIAGONAL = ''diagonal''"
| "strategy_value ST_IRON_CONDOR = ''iron_condor''"
| "strategy_value ST_IRON_BUTTERFLY = ''iron_butterfly''"
| "strategy_value ST_STRADDLE = ''straddle''"
| "strategy_value ST_STRANGLE = ''strangle''"
| "strategy_value ST_BUTTERFLY = ''butterfly''"
| "strategy_value ST_CONDOR = ''condor''"
| "strategy_value ST_RATIO = ''ratio''"
| "strategy_value ST_COVERED = ''covered''"
| "strategy_value ST_COLLAR = ''collar''"
| "strategy_value ST_CUSTOM = ''custom''"
| "strategy_value ST_FUTURE = ''future''"
| "strategy_value ST_FUTURE_SPREAD = ''future_spread''"

datatype event_type =
  EV_ENTRY | EV_PARTIAL_EXIT | EV_FULL_EXIT | EV_ROLL | EV_ADJUSTMENT
| EV_EXPIRATION | EV_ASSIGNMENT | EV_EXERCISE

fun event_type_value :: "event_type \<Rightarrow> string" where
  "event_type_value EV_ENTRY = ''entry''"
| "event_type_value EV_PARTIAL_EXIT = ''partial_exit''"
| "event_type_value EV_FULL_EXIT = ''full_exit''"
| "event_type_value EV_ROLL = ''roll''"
| "event_type_value EV_ADJUSTMENT = ''adjustment''"
| "event_type_value EV_EXPIRATION = ''expiration''"
| "event_type_value EV_ASSIGNMENT = ''assignment''"
| "event_type_value EV_EXERCISE = ''exercise''"

text \<open>Stored text identifies the member.\<close>

lemma group_status_value_inject [simp]:
  "group_status_value a = group_status_value b \<longleftrightarrow> a = b"
  by (cases a; cases b) simp_all

lemma group_status_open_iff [simp]: "group_status_value a = ''open'' \<longleftrightarrow> a = GS_OPEN"
  by (cases a) simp_all

lemma event_type_value_inject [simp]:
  "event_type_value a = event_type_value b \<longleftrightarrow> a = b"
  by (cases a; cases b) simp_all

lemma strategy_value_inject [simp]: "strategy_value a = strategy_value b \<longleftrightarrow> a = b"
  by (cases a; cases b) simp_all

lemma order_status_value_inject [simp]:
  "order_status_value a = order_status_value b \<longleftrightarrow> a = b"
  by (cases a; cases b) simp_all

end
