(* ===== verification/Rows.thy ===== *)
theory Rows
  imports Enums
begin

text \<open>
  The row shapes of \<^verbatim>\<open>tt_ledger/rows.py\<close>: one record per dataclass, fields in the source's
  order (with a prefix per record, since field names are global constants here), and the pure
  functions of that module.

  The reconcile and replay code is duck-typed over \<open>TxnRow\<close> and \<open>ActivityRow\<close>: it reads only
  the fields both have. Those fields are the record \<open>ledger_row\<close>; \<open>txn_row\<close> and \<open>activity_row\<close>
  extend it with what is their own, and \<open>ledger_row.truncate\<close> is the view the shared code has
  of either. Surrogate ids are natural numbers; an opaque JSON column is a \<open>json\<close> value. A
  JSON number is an \<open>int\<close> or, read as \<open>float\<close>, the decimal its \<open>repr\<close> prints.
\<close>

datatype json =
  JNull | JBool bool | JInt int | JFloat decimal | JStr string | JList "json list" | JObj "(string \<times> json) list"

section \<open>Position-removing settlement events\<close>

definition POSITION_REMOVING_SUB_TYPES :: "string list" where
  "POSITION_REMOVING_SUB_TYPES =
     [''Expiration'', ''Assignment'', ''Exercise'', ''Cash Settled Assignment'', ''Cash Settled Exercise'']"

definition action_nets_as_trade :: "string option \<Rightarrow> bool" where
  "action_nets_as_trade action =
     (let verb = py_strip (str0 action)
      in py_endswith verb ''to Open'' \<or> py_endswith verb ''to Close'')"

definition is_position_removal :: "string option \<Rightarrow> string option \<Rightarrow> bool" where
  "is_position_removal action transaction_sub_type =
     (if action_nets_as_trade action then False
      else py_strip (str0 transaction_sub_type) \<in> set POSITION_REMOVING_SUB_TYPES)"

section \<open>Write shapes\<close>

record account_row =
  acct_nickname :: string
  acct_account_number :: string
  acct_login :: "string option"
  acct_env :: string
  acct_source_system :: string

record security_row =
  sec_security_id :: string
  sec_product_type :: string
  sec_underlying :: "string option"
  sec_expiry :: "date option"
  sec_strike :: "decimal option"
  sec_option_type :: "string option"
  sec_multiplier :: "int option"
  sec_exchange :: "string option"
  sec_currency :: "string option"
  sec_tt_symbol :: "string option"
  sec_occ_symbol :: "string option"
  sec_streamer_symbol :: "string option"
  sec_source_system :: string
  sec_metadata :: "json option"

record order_row =
  o_tt_order_id :: "string option"
  o_account :: string
  o_origin :: origin
  o_ingest :: ingest
  o_oms_order_id :: "string option"
  o_client_order_id :: "string option"
  o_account_number :: "string option"
  o_source_system :: string
  o_security_id :: "string option"
  o_underlying :: "string option"
  o_order_type :: "string option"
  o_time_in_force :: "string option"
  o_gtc_date :: "string option"
  o_price :: "decimal option"
  o_stop_trigger :: "decimal option"
  o_price_effect :: "string option"
  o_average_fill_price :: "decimal option"
  o_is_complex :: bool
  o_complex_order_type :: "string option"
  o_oms_status :: "string option"
  o_tt_status :: "string option"
  o_status_message :: "string option"
  o_filled_quantity :: "decimal option"
  o_remaining_quantity :: "decimal option"
  o_signal_id :: "string option"
  o_trace_id :: "string option"
  o_strategy_id :: "nat option"
  o_trade_group_id :: "nat option"
  o_market_context_id :: "nat option"
  o_received_at :: "datetime option"
  o_submitted_at :: "datetime option"
  o_filled_at :: "datetime option"
  o_terminal_at :: "datetime option"

record leg_row =
  lg_order_id :: nat
  lg_leg_index :: nat
  lg_security_id :: string
  lg_action :: "string option"
  lg_quantity :: "decimal option"
  lg_remaining_quantity :: "decimal option"
  lg_quantity_direction :: "string option"
  lg_price :: "decimal option"
  lg_fill_price :: "decimal option"

record fill_row =
  fl_fill_id :: string
  fl_order_id :: "nat option"
  fl_order_leg_id :: "nat option"
  fl_tt_order_id :: "string option"
  fl_quantity :: "decimal option"
  fl_fill_price :: "decimal option"
  fl_filled_at :: "datetime option"
  fl_destination_venue :: "string option"
  fl_ext_exec_id :: "string option"
  fl_ext_group_fill_id :: "string option"

text \<open>The fields \<open>TxnRow\<close> and \<open>ActivityRow\<close> share.\<close>

record ledger_row =
  r_tt_transaction_id :: string
  r_tt_order_id :: "string option"
  r_account :: string
  r_transaction_type :: "string option"
  r_transaction_sub_type :: "string option"
  r_action :: "string option"
  r_security_id :: "string option"
  r_underlying :: "string option"
  r_quantity :: "decimal option"
  r_price :: "decimal option"
  r_net_value :: "decimal option"
  r_net_value_effect :: "string option"
  r_commission :: "decimal option"
  r_clearing_fees :: "decimal option"
  r_regulatory_fees :: "decimal option"
  r_proprietary_index_option_fees :: "decimal option"
  r_order_id :: "nat option"
  r_trade_group_id :: "nat option"
  r_executed_at :: "datetime option"

record txn_row = ledger_row +
  t_account_number :: "string option"
  t_source_system :: string
  t_value :: "decimal option"
  t_value_effect :: "string option"
  t_is_estimated_fee :: "bool option"
  t_description :: "string option"
  t_order_leg_id :: "nat option"
  t_position_id :: "nat option"
  t_closed_position_id :: "nat option"
  t_transaction_date :: "date option"

record activity_row = ledger_row +
  a_origin :: "origin option"
  a_review_status :: "review_status option"
  a_order_trade_group_id :: "nat option"

record position_row =
  ps_account :: string
  ps_security_id :: string
  ps_quantity :: decimal
  ps_quantity_direction :: string
  ps_average_open_price :: "decimal option"
  ps_mark_price :: "decimal option"
  ps_close_price :: "decimal option"
  ps_unrealized_pnl :: "decimal option"
  ps_realized_day_gain :: "decimal option"
  ps_multiplier :: int
  ps_expires_at :: "datetime option"
  ps_strategy_id :: "nat option"
  ps_opening_order_id :: "nat option"
  ps_trade_group_id :: "nat option"
  ps_position_opened_at :: "datetime option"

record open_leg_row =
  ol_account :: string
  ol_security_id :: string
  ol_trade_group_id :: nat
  ol_net_open :: int
  ol_average_open_price :: "decimal option"
  ol_direction :: string

record closed_position_row =
  cp_account :: string
  cp_security_id :: string
  cp_quantity :: decimal
  cp_quantity_direction :: string
  cp_average_open_price :: "decimal option"
  cp_average_close_price :: "decimal option"
  cp_realized_pnl :: "decimal option"
  cp_fees :: "decimal option"
  cp_pnl_net :: "decimal option"
  cp_opening_order_id :: "nat option"
  cp_closing_order_id :: "nat option"
  cp_trade_group_id :: "nat option"
  cp_opened_at :: "datetime option"
  cp_closed_at :: "datetime option"
  cp_holding_period_days :: "int option"

record balance_row =
  bs_account :: string
  bs_captured_at :: datetime
  bs_source :: string
  bs_net_liquidating_value :: "decimal option"
  bs_cash_balance :: "decimal option"
  bs_equity_buying_power :: "decimal option"
  bs_derivative_buying_power :: "decimal option"
  bs_maintenance_requirement :: "decimal option"
  bs_pending_cash :: "decimal option"
  bs_day_trading_buying_power :: "decimal option"
  bs_raw :: "json option"

record trade_group_row =
  tg_group_id :: string
  tg_account :: string
  tg_origin :: origin
  tg_source_system :: string
  tg_review_status :: review_status
  tg_manually_attributed :: bool
  tg_reviewed_at :: "datetime option"
  tg_reviewed_by :: "string option"
  tg_underlying :: "string option"
  tg_security_id :: "string option"
  tg_strategy_type :: "string option"
  tg_leg_count :: nat
  tg_total_premium :: "decimal option"
  tg_quantity :: "decimal option"
  tg_total_fees :: "decimal option"
  tg_status :: string
  tg_realized_pnl :: "decimal option"
  tg_unrealized_pnl :: "decimal option"
  tg_max_profit :: "decimal option"
  tg_max_loss :: "decimal option"
  tg_initial_risk :: "decimal option"
  tg_profit_target :: "string option"
  tg_stop_loss :: "string option"
  tg_exit_strategy :: "string option"
  tg_structure :: "json option"
  tg_order_id :: "nat option"
  tg_strategy_id :: "nat option"
  tg_bot_name :: "string option"
  tg_signal_id :: "string option"
  tg_executed_at :: "datetime option"
  tg_closed_at :: "datetime option"

text \<open>\<open>TradeGroupRow(group_id=..., account=..., origin=...)\<close> with the class defaults.\<close>

definition trade_group_default :: "string \<Rightarrow> string \<Rightarrow> origin \<Rightarrow> trade_group_row" where
  "trade_group_default group_id account org =
     \<lparr> tg_group_id = group_id, tg_account = account, tg_origin = org,
       tg_source_system = ''tastytrade'', tg_review_status = NEEDS_REVIEW,
       tg_manually_attributed = False, tg_reviewed_at = None, tg_reviewed_by = None,
       tg_underlying = None, tg_security_id = None, tg_strategy_type = None, tg_leg_count = 1,
       tg_total_premium = None, tg_quantity = None, tg_total_fees = None, tg_status = ''open'',
       tg_realized_pnl = None, tg_unrealized_pnl = None, tg_max_profit = None,
       tg_max_loss = None, tg_initial_risk = None, tg_profit_target = None, tg_stop_loss = None,
       tg_exit_strategy = None, tg_structure = None, tg_order_id = None, tg_strategy_id = None,
       tg_bot_name = None, tg_signal_id = None, tg_executed_at = None, tg_closed_at = None \<rparr>"

record event_row =
  ev_trade_group_id :: nat
  ev_event_type :: string
  ev_quantity_change :: decimal
  ev_premium_change :: decimal
  ev_realized_pnl :: "decimal option"
  ev_event_at :: "datetime option"
  ev_notes :: "string option"
  ev_rolled_to_group_id :: "nat option"
  ev_transaction_id :: "nat option"
  ev_order_id :: "nat option"

definition event_default :: "nat \<Rightarrow> event_type \<Rightarrow> event_row" where
  "event_default pk ty =
     \<lparr> ev_trade_group_id = pk, ev_event_type = event_type_value ty, ev_quantity_change = 0,
       ev_premium_change = 0, ev_realized_pnl = None, ev_event_at = None, ev_notes = None,
       ev_rolled_to_group_id = None, ev_transaction_id = None, ev_order_id = None \<rparr>"

section \<open>Read shapes\<close>

record trade_row =
  tr_group_id :: string
  tr_account :: string
  tr_origin :: origin
  tr_source_system :: string
  tr_review_status :: review_status
  tr_manually_attributed :: bool
  tr_underlying :: "string option"
  tr_security_id :: "string option"
  tr_strategy_type :: "string option"
  tr_leg_count :: nat
  tr_total_premium :: "decimal option"
  tr_quantity :: "decimal option"
  tr_total_fees :: "decimal option"
  tr_status :: string
  tr_realized_pnl :: "decimal option"
  tr_unrealized_pnl :: "decimal option"
  tr_max_profit :: "decimal option"
  tr_max_loss :: "decimal option"
  tr_initial_risk :: "decimal option"
  tr_structure :: "json option"
  tr_order_id :: "nat option"
  tr_strategy_id :: "nat option"
  tr_bot_name :: "string option"
  tr_signal_id :: "string option"
  tr_executed_at :: "datetime option"
  tr_closed_at :: "datetime option"

record order_detail =
  od_order_pk :: nat
  od_order :: order_row
  od_legs :: "(nat \<times> leg_row) list"
  od_fills :: "fill_row list"

record transaction_detail =
  td_id :: nat
  td_row :: ledger_row
  td_description :: "string option"
  td_signal_id :: "string option"

section \<open>Inputs, filters, results\<close>

record fill_event =
  fe_tt_order_id :: string
  fe_status :: "string option"
  fe_average_fill_price :: "decimal option"
  fe_filled_quantity :: "decimal option"
  fe_remaining_quantity :: "decimal option"
  fe_filled_at :: "datetime option"

record order_filter =
  of_origin :: "origin option"
  of_account :: "string option"
  of_status :: "string option"
  of_underlying :: "string option"
  of_trade_group_id :: "nat option"
  of_oms_order_id :: "string option"
  of_unlinked :: bool
  of_start :: "date option"
  of_end :: "date option"

record trade_filter =
  tf_origin :: "origin option"
  tf_review_status :: "review_status option"
  tf_status :: "string option"
  tf_account :: "string option"
  tf_underlying :: "string option"
  tf_start :: "date option"
  tf_end :: "date option"

record activity_filter =
  af_account :: "string option"
  af_start :: "date option"
  af_end :: "date option"
  af_unreconciled_only :: bool

record transaction_query =
  tq_account :: "string option"
  tq_accounts :: "string list option"
  tq_start :: "date option"
  tq_end :: "date option"
  tq_start_at :: "datetime option"
  tq_end_at :: "datetime option"
  tq_underlying :: "string option"
  tq_transaction_type :: "string option"
  tq_trade_group_id :: "nat option"
  tq_limit :: nat
  tq_offset :: nat

record transaction_band_page =
  bp_rows :: "transaction_detail list"
  bp_band_total :: nat
  bp_row_total :: nat

record sync_result =
  sr_orders :: nat
  sr_transactions :: nat
  sr_positions :: nat
  sr_balances :: nat
  sr_fills :: nat
  sr_trade_groups :: nat
  sr_healed_groups :: nat
  sr_errors :: "string list"

definition sync_result0 :: sync_result where
  "sync_result0 = \<lparr> sr_orders = 0, sr_transactions = 0, sr_positions = 0, sr_balances = 0,
     sr_fills = 0, sr_trade_groups = 0, sr_healed_groups = 0, sr_errors = [] \<rparr>"

definition order_filter0 :: order_filter where
  "order_filter0 = \<lparr> of_origin = None, of_account = None, of_status = None, of_underlying = None,
     of_trade_group_id = None, of_oms_order_id = None, of_unlinked = False, of_start = None,
     of_end = None \<rparr>"

definition trade_filter0 :: trade_filter where
  "trade_filter0 = \<lparr> tf_origin = None, tf_review_status = None, tf_status = None,
     tf_account = None, tf_underlying = None, tf_start = None, tf_end = None \<rparr>"

definition activity_filter0 :: activity_filter where
  "activity_filter0 = \<lparr> af_account = None, af_start = None, af_end = None,
     af_unreconciled_only = False \<rparr>"

end
