(* ===== verification/Row_Functions.thy ===== *)
theory Row_Functions
  imports Rows
begin

text \<open>
  The computations of \<^verbatim>\<open>tt_ledger/rows.py\<close>: the read projections, the derived properties
  \<open>signed_net_open\<close>, \<open>pnl_net\<close> and \<open>total_fees\<close>, and \<open>fold_open_group_legs\<close>, the one
  netting and VWAP fold both stores share. The lemmas give the fold's value per leg: what each
  of its five accumulator slots holds after any sequence of records.
\<close>

section \<open>Derived properties and projections\<close>

definition signed_net_open :: "open_leg_row \<Rightarrow> int" where
  "signed_net_open l = (if ol_direction l = ''Short'' then - ol_net_open l else ol_net_open l)"

definition pnl_net :: "trade_row \<Rightarrow> decimal option" where
  "pnl_net t =
     (case tr_realized_pnl t of None \<Rightarrow> None
      | Some realized \<Rightarrow> Some (realized - dec0 (tr_total_fees t)))"

definition trade_group_to_row :: "trade_group_row \<Rightarrow> trade_row" where
  "trade_group_to_row tg =
     \<lparr> tr_group_id = tg_group_id tg, tr_account = tg_account tg, tr_origin = tg_origin tg,
       tr_source_system = tg_source_system tg, tr_review_status = tg_review_status tg,
       tr_manually_attributed = tg_manually_attributed tg, tr_underlying = tg_underlying tg,
       tr_security_id = tg_security_id tg, tr_strategy_type = tg_strategy_type tg,
       tr_leg_count = tg_leg_count tg, tr_total_premium = tg_total_premium tg,
       tr_quantity = tg_quantity tg, tr_total_fees = tg_total_fees tg, tr_status = tg_status tg,
       tr_realized_pnl = tg_realized_pnl tg, tr_unrealized_pnl = tg_unrealized_pnl tg,
       tr_max_profit = tg_max_profit tg, tr_max_loss = tg_max_loss tg,
       tr_initial_risk = tg_initial_risk tg, tr_structure = tg_structure tg,
       tr_order_id = tg_order_id tg, tr_strategy_id = tg_strategy_id tg,
       tr_bot_name = tg_bot_name tg, tr_signal_id = tg_signal_id tg,
       tr_executed_at = tg_executed_at tg, tr_closed_at = tg_closed_at tg \<rparr>"

text \<open>\<open>TransactionDetailRow.total_fees\<close>, the per-row twin of \<open>reconcile._row_fees\<close>.\<close>

definition detail_total_fees :: "transaction_detail \<Rightarrow> decimal" where
  "detail_total_fees t =
     dec0 (r_commission (td_row t)) + dec0 (r_clearing_fees (td_row t))
     + dec0 (r_regulatory_fees (td_row t)) + dec0 (r_proprietary_index_option_fees (td_row t))"

section \<open>fold_open_group_legs\<close>

text \<open>One input tuple \<open>(account, security_id, trade_group_id, action, sub_type, quantity, price)\<close>
  and the five accumulator slots \<open>[traded net, opening qty, sum of price * qty, signed opening
  qty, settlement removal]\<close>.\<close>

type_synonym leg_record =
  "string \<times> string option \<times> nat option \<times> string option \<times> string option \<times> decimal option \<times> decimal option"

type_synonym leg_key = "string \<times> string \<times> nat"
type_synonym leg_slot = "decimal \<times> decimal \<times> decimal \<times> decimal \<times> decimal"

definition leg_slot_step ::
  "string option \<Rightarrow> string option \<Rightarrow> decimal option \<Rightarrow> decimal option \<Rightarrow> leg_slot \<Rightarrow> leg_slot" where
  "leg_slot_step action sub_type quantity price slot =
     (case slot of (net, open_qty, notional, signed_open, removal) \<Rightarrow>
      let verb = py_strip (str0 action); qty = dec0 quantity in
      if py_endswith verb ''to Open'' then
        (net + qty, open_qty + qty,
         (case price of None \<Rightarrow> notional | Some p \<Rightarrow> notional + p * qty),
         signed_open + (if py_startswith (py_lower verb) ''sell'' then - qty else qty), removal)
      else if py_endswith verb ''to Close'' then
        (net - qty, open_qty, notional, signed_open, removal)
      else if is_position_removal action sub_type then
        (net, open_qty, notional, signed_open, max removal qty)
      else slot)"

definition leg_acc_step :: "(leg_key, leg_slot) dict \<Rightarrow> leg_record \<Rightarrow> (leg_key, leg_slot) dict" where
  "leg_acc_step acc rec =
     (case rec of (account, security_id, trade_group_id, action, sub_type, quantity, price) \<Rightarrow>
      (case (security_id, trade_group_id) of
         (Some sid, Some tg) \<Rightarrow>
           let slot = dict_get_or acc (account, sid, tg) (0, 0, 0, 0, 0)
           in dict_set (account, sid, tg) (leg_slot_step action sub_type quantity price slot) acc
       | _ \<Rightarrow> acc))"

text \<open>\<open>int(x)\<close> of a \<open>Decimal\<close> truncates toward zero.\<close>

definition py_int :: "decimal \<Rightarrow> int" where
  "py_int x = (if 0 \<le> x then \<lfloor>x\<rfloor> else \<lceil>x\<rceil>)"

definition leg_of_slot :: "leg_key \<Rightarrow> leg_slot \<Rightarrow> open_leg_row" where
  "leg_of_slot key slot =
     (case key of (account, sid, tg) \<Rightarrow> case slot of (net, open_qty, notional, signed_open, removal) \<Rightarrow>
      \<lparr> ol_account = account, ol_security_id = sid, ol_trade_group_id = tg,
        ol_net_open = py_int (net - removal),
        ol_average_open_price = (if open_qty \<noteq> 0 then Some (notional / open_qty) else None),
        ol_direction = (if signed_open < 0 then ''Short'' else ''Long'') \<rparr>)"

definition fold_open_group_legs :: "leg_record list \<Rightarrow> open_leg_row list" where
  "fold_open_group_legs records =
     map (\<lambda>(key, slot). leg_of_slot key slot) (foldl leg_acc_step [] records)"

section \<open>What the fold computes\<close>

definition leg_key_of :: "leg_record \<Rightarrow> leg_key option" where
  "leg_key_of rec =
     (case rec of (account, security_id, trade_group_id, _) \<Rightarrow>
      (case (security_id, trade_group_id) of (Some sid, Some tg) \<Rightarrow> Some (account, sid, tg) | _ \<Rightarrow> None))"

definition slot_step_of :: "leg_slot \<Rightarrow> leg_record \<Rightarrow> leg_slot" where
  "slot_step_of slot rec =
     (case rec of (_, _, _, action, sub_type, quantity, price) \<Rightarrow>
      leg_slot_step action sub_type quantity price slot)"

text \<open>One leg's slot depends on that leg's own records only.\<close>

definition leg_slot_of :: "leg_key \<Rightarrow> leg_record list \<Rightarrow> leg_slot" where
  "leg_slot_of key records =
     foldl slot_step_of (0, 0, 0, 0, 0) (filter (\<lambda>r. leg_key_of r = Some key) records)"

lemma leg_acc_step_alt:
  "leg_acc_step acc rec =
     (case leg_key_of rec of None \<Rightarrow> acc
      | Some key \<Rightarrow> dict_set key (slot_step_of (dict_get_or acc key (0, 0, 0, 0, 0)) rec) acc)"
  by (auto simp: leg_acc_step_def leg_key_of_def slot_step_of_def Let_def
      split: prod.splits option.splits)

lemma foldl_leg_acc:
  "dict_get (foldl leg_acc_step [] records) key =
     (if Some key \<in> leg_key_of ` set records then Some (leg_slot_of key records) else None)"
proof (induction records rule: rev_induct)
  case Nil
  then show ?case by simp
next
  case (snoc rec records)
  define acc where "acc = foldl leg_acc_step [] records"
  have get: "dict_get_or acc key (0, 0, 0, 0, 0) = leg_slot_of key records"
  proof (cases "Some key \<in> leg_key_of ` set records")
    case True
    with snoc show ?thesis by (simp add: acc_def dict_get_or_def)
  next
    case False
    then have none: "filter (\<lambda>r. leg_key_of r = Some key) records = []"
      by (force simp: filter_empty_conv)
    from False snoc show ?thesis by (simp add: acc_def dict_get_or_def leg_slot_of_def none)
  qed
  have step: "foldl leg_acc_step [] (records @ [rec]) = leg_acc_step acc rec"
    by (simp add: acc_def)
  show ?case
  proof (cases "leg_key_of rec = Some key")
    case True
    then show ?thesis
      unfolding step by (simp add: leg_acc_step_alt [of acc rec] get) (simp add: leg_slot_of_def)
  next
    case False
    with snoc show ?thesis
      unfolding step
      by (auto simp: leg_acc_step_alt [of acc rec] leg_slot_of_def acc_def [symmetric]
          split: option.splits)
  qed
qed

lemma distinct_leg_acc: "distinct (map fst (foldl leg_acc_step [] records))"
  by (induction records rule: rev_induct)
     (auto simp: leg_acc_step_alt distinct_update split: option.splits)

text \<open>The output has one row per leg, each computed from its own slot.\<close>

lemma set_fold_open_group_legs:
  "set (fold_open_group_legs records) =
     {leg_of_slot key (leg_slot_of key records) | key. Some key \<in> leg_key_of ` set records}"
proof -
  let ?acc = "foldl leg_acc_step [] records"
  have mem: "(key, slot) \<in> set ?acc \<longleftrightarrow>
      Some key \<in> leg_key_of ` set records \<and> slot = leg_slot_of key records" for key slot
  proof -
    have "(key, slot) \<in> set ?acc \<longleftrightarrow> dict_get ?acc key = Some slot"
      using map_of_eq_Some_iff [OF distinct_leg_acc] by metis
    then show ?thesis unfolding foldl_leg_acc by (simp add: eq_commute [of slot])
  qed
  have "set ?acc =
      (\<lambda>key. (key, leg_slot_of key records)) ` {key. Some key \<in> leg_key_of ` set records}"
    (is "_ = ?f ` ?K")
  proof (rule set_eqI)
    fix p show "p \<in> set ?acc \<longleftrightarrow> p \<in> ?f ` ?K"
      using mem [of "fst p" "snd p"] by (cases p) (simp only: image_iff fst_conv snd_conv, blast)
  qed
  then have "set (fold_open_group_legs records) =
      (\<lambda>key. leg_of_slot key (leg_slot_of key records)) ` ?K"
    by (simp add: fold_open_group_legs_def image_image del: image_Collect)
  then show ?thesis by (simp only: image_Collect) 
qed

definition leg_key_of_row :: "open_leg_row \<Rightarrow> leg_key" where
  "leg_key_of_row l = (ol_account l, ol_security_id l, ol_trade_group_id l)"

lemma leg_key_of_row_slot [simp]: "leg_key_of_row (leg_of_slot key slot) = key"
  by (simp add: leg_key_of_row_def leg_of_slot_def split: prod.split)

lemma map_key_fold_open_group_legs:
  "map leg_key_of_row (fold_open_group_legs records) = map fst (foldl leg_acc_step [] records)"
  by (simp add: fold_open_group_legs_def comp_def case_prod_beta)

lemma leg_slot_of_snoc:
  "leg_slot_of key (records @ [rec]) =
     (if leg_key_of rec = Some key then slot_step_of (leg_slot_of key records) rec
      else leg_slot_of key records)"
  by (simp add: leg_slot_of_def)

text \<open>A close, or a removal, changes neither the opening quantity nor the opening notional nor
  the signed opening quantity.\<close>

definition opens_leg :: "leg_record \<Rightarrow> bool" where
  "opens_leg rec =
     (case rec of (_, _, _, action, _) \<Rightarrow> py_endswith (py_strip (str0 action)) ''to Open'')"

lemma slot_step_non_open:
  assumes "\<not> opens_leg rec"
  shows "fst (snd (slot_step_of slot rec)) = fst (snd slot)"
    and "fst (snd (snd (slot_step_of slot rec))) = fst (snd (snd slot))"
    and "fst (snd (snd (snd (slot_step_of slot rec)))) = fst (snd (snd (snd slot)))"
  using assms
  by (auto simp: opens_leg_def slot_step_of_def leg_slot_step_def Let_def split: prod.splits)

lemma leg_of_slot_average:
  "ol_average_open_price (leg_of_slot key slot) =
     (if fst (snd slot) \<noteq> 0 then Some (fst (snd (snd slot)) / fst (snd slot)) else None)"
  by (simp add: leg_of_slot_def split: prod.split)

lemma leg_of_slot_direction:
  "ol_direction (leg_of_slot key slot) =
     (if fst (snd (snd (snd slot))) < 0 then ''Short'' else ''Long'')"
  by (simp add: leg_of_slot_def split: prod.split)

text \<open>The removal slot never goes below zero and never above the largest removal seen.\<close>

definition removal_of :: "leg_record \<Rightarrow> decimal option" where
  "removal_of rec =
     (case rec of (_, _, _, action, sub_type, quantity, _) \<Rightarrow>
      if is_position_removal action sub_type then Some (dec0 quantity) else None)"

definition traded_of :: "leg_record \<Rightarrow> decimal" where
  "traded_of rec =
     (case rec of (_, _, _, action, _, quantity, _) \<Rightarrow>
      let verb = py_strip (str0 action) in
      if py_endswith verb ''to Open'' then dec0 quantity
      else if py_endswith verb ''to Close'' then - dec0 quantity else 0)"

lemma slot_net_removal:
  "fst (slot_step_of slot rec) = fst slot + traded_of rec"
  "snd (snd (snd (snd (slot_step_of slot rec)))) =
     (case removal_of rec of None \<Rightarrow> snd (snd (snd (snd slot)))
      | Some q \<Rightarrow> max (snd (snd (snd (snd slot)))) q)"
  by (auto simp: slot_step_of_def leg_slot_step_def traded_of_def removal_of_def Let_def
      is_position_removal_def action_nets_as_trade_def split: prod.splits)

lemma leg_slot_of_net:
  "fst (leg_slot_of key records) =
     sum_list (map traded_of (filter (\<lambda>r. leg_key_of r = Some key) records))"
  by (induction records rule: rev_induct)
     (simp_all add: leg_slot_of_snoc slot_net_removal, simp add: leg_slot_of_def)

lemma leg_slot_of_removal:
  "snd (snd (snd (snd (leg_slot_of key records)))) =
     Max (set (0 # somes (map removal_of (filter (\<lambda>r. leg_key_of r = Some key) records))))"
proof (induction records rule: rev_induct)
  case Nil
  then show ?case by (simp add: leg_slot_of_def)
next
  case (snoc rec records)
  let ?S = "set (0 # somes (map removal_of (filter (\<lambda>r. leg_key_of r = Some key) records)))"
  have "Max (insert q ?S) = max q (Max ?S)" for q
    by (rule Max_insert) simp_all
  then show ?case
    using snoc
    by (auto simp: leg_slot_of_snoc slot_net_removal max.commute insert_commute [of 0]
        split: option.splits)
qed

text \<open>The legs come in the order their first records appear.\<close>

lemma keys_leg_acc:
  "map fst (foldl leg_acc_step [] records) = first_seen (somes (map leg_key_of records))"
proof (induction records rule: rev_induct)
  case Nil
  then show ?case by simp
next
  case (snoc rec records)
  define acc where "acc = foldl leg_acc_step [] records"
  have "fst ` set acc = set (somes (map leg_key_of records))"
    using arg_cong [OF snoc, of set] by (simp add: acc_def)
  with snoc show ?case
    by (auto simp: leg_acc_step_alt [of acc rec] acc_def [symmetric] keys_dict_set first_seen_snoc
        split: option.splits)
qed

definition opened_of :: "leg_record \<Rightarrow> decimal" where
  "opened_of rec = (if opens_leg rec then traded_of rec else 0)"

definition notional_of :: "leg_record \<Rightarrow> decimal" where
  "notional_of rec =
     (case rec of (_, _, _, _, _, _, price) \<Rightarrow> dec0 price * opened_of rec)"

definition signed_opened_of :: "leg_record \<Rightarrow> decimal" where
  "signed_opened_of rec =
     (case rec of (_, _, _, action, _) \<Rightarrow>
      if py_startswith (py_lower (py_strip (str0 action))) ''sell'' then - opened_of rec
      else opened_of rec)"

lemma slot_opening:
  "fst (snd (slot_step_of slot rec)) = fst (snd slot) + opened_of rec"
  "fst (snd (snd (slot_step_of slot rec))) = fst (snd (snd slot)) + notional_of rec"
  "fst (snd (snd (snd (slot_step_of slot rec)))) = fst (snd (snd (snd slot))) + signed_opened_of rec"
  by (auto simp: slot_step_of_def leg_slot_step_def opened_of_def traded_of_def opens_leg_def
      notional_of_def signed_opened_of_def Let_def split: prod.splits option.splits)

lemma leg_slot_of_opening:
  "fst (snd (leg_slot_of key records)) =
     sum_list (map opened_of (filter (\<lambda>r. leg_key_of r = Some key) records))"
  "fst (snd (snd (leg_slot_of key records))) =
     sum_list (map notional_of (filter (\<lambda>r. leg_key_of r = Some key) records))"
  "fst (snd (snd (snd (leg_slot_of key records)))) =
     sum_list (map signed_opened_of (filter (\<lambda>r. leg_key_of r = Some key) records))"
  by (induction records rule: rev_induct)
     (simp_all add: leg_slot_of_snoc slot_opening, simp_all add: leg_slot_of_def)

text \<open>The abstract value of one leg: totals over the leg's own records.\<close>

definition open_leg_spec :: "leg_record list \<Rightarrow> leg_key \<Rightarrow> open_leg_row" where
  "open_leg_spec records key =
     (let rs = filter (\<lambda>r. leg_key_of r = Some key) records;
          opened = sum_list (map opened_of rs)
      in \<lparr> ol_account = fst key, ol_security_id = fst (snd key), ol_trade_group_id = snd (snd key),
           ol_net_open = py_int (sum_list (map traded_of rs) - Max (set (0 # somes (map removal_of rs)))),
           ol_average_open_price =
             (if opened \<noteq> 0 then Some (sum_list (map notional_of rs) / opened) else None),
           ol_direction = (if sum_list (map signed_opened_of rs) < 0 then ''Short'' else ''Long'') \<rparr>)"

lemma leg_of_slot_spec: "leg_of_slot key (leg_slot_of key records) = open_leg_spec records key"
proof -
  obtain net open_qty notional signed removal
    where slot: "leg_slot_of key records = (net, open_qty, notional, signed, removal)"
    by (metis surj_pair)
  note parts = leg_slot_of_net [of key records] leg_slot_of_opening [of key records]
    leg_slot_of_removal [of key records]
  show ?thesis
    using parts unfolding slot
    by (auto simp: leg_of_slot_def open_leg_spec_def Let_def split: prod.split)
qed

text \<open>
  C12 (equivalence). The single-pass, insertion-ordered accumulator of \<open>fold_open_group_legs\<close>
  computes, for every (account, security, group) in first-seen order, exactly the declarative
  totals: net open is opening minus closing quantity minus the LARGEST settlement removal (once
  per leg, never the sum of the physical and cash-settled pair), the average price is the
  quantity-weighted mean of the opening fills alone, and the direction is the sign of the
  opening fills.
\<close>

theorem fold_open_group_legs_spec:
  "fold_open_group_legs records =
     map (open_leg_spec records) (first_seen (somes (map leg_key_of records)))"
proof -
  let ?acc = "foldl leg_acc_step [] records"
  have keys: "set (map fst ?acc) = {key. Some key \<in> leg_key_of ` set records}"
    unfolding keys_leg_acc by (simp add: set_somes)
  have "?acc = map (\<lambda>k. (k, leg_slot_of k records)) (map fst ?acc)"
    by (rule dict_as_map [OF distinct_leg_acc])
       (use keys in \<open>auto simp: foldl_leg_acc\<close>)
  then have "fold_open_group_legs records =
      map (\<lambda>k. leg_of_slot k (leg_slot_of k records)) (map fst ?acc)"
    unfolding fold_open_group_legs_def by (metis (no_types, lifting) case_prod_conv map_map map_eq_conv comp_apply)
  then show ?thesis by (simp add: leg_of_slot_spec keys_leg_acc)
qed

lemma open_leg_spec_key [simp]: "leg_key_of_row (open_leg_spec records key) = key"
  by (simp add: leg_key_of_row_def open_leg_spec_def Let_def)

lemma sum_non_opening:
  assumes "\<forall>r \<in> set closes. \<not> opens_leg r" and "\<And>r. \<not> opens_leg r \<Longrightarrow> f r = (0 :: decimal)"
  shows "sum_list (map f (filter P closes)) = 0"
  using assms(1) by (induction closes) (simp_all add: assms(2))

lemma open_leg_spec_append_closes:
  assumes "\<forall>r \<in> set closes. \<not> opens_leg r"
  shows "ol_average_open_price (open_leg_spec (records @ closes) key) =
           ol_average_open_price (open_leg_spec records key)"
    and "ol_direction (open_leg_spec (records @ closes) key) =
           ol_direction (open_leg_spec records key)"
proof -
  have "opened_of r = 0" "notional_of r = 0" "signed_opened_of r = 0" if "\<not> opens_leg r" for r
    using that by (auto simp: opened_of_def notional_of_def signed_opened_of_def split: prod.splits)
  note zero = this [THEN sum_non_opening [OF assms]]
  show "ol_average_open_price (open_leg_spec (records @ closes) key) =
      ol_average_open_price (open_leg_spec records key)"
    and "ol_direction (open_leg_spec (records @ closes) key) =
      ol_direction (open_leg_spec records key)"
    by (simp_all add: open_leg_spec_def Let_def zero)
qed

text \<open>
  Scaling out of a leg never moves its entry basis: when records that do not open
  (closes, settlements, cash rows) are appended, every leg of the old result is still there with
  the same average open price and the same direction.
\<close>

theorem scale_out_keeps_basis:
  assumes "\<forall>r \<in> set closes. \<not> opens_leg r" and "l \<in> set (fold_open_group_legs records)"
  shows "\<exists>l' \<in> set (fold_open_group_legs (records @ closes)).
           leg_key_of_row l' = leg_key_of_row l
         \<and> ol_average_open_price l' = ol_average_open_price l
         \<and> ol_direction l' = ol_direction l"
proof -
  obtain key where key: "l = open_leg_spec records key"
      "key \<in> set (somes (map leg_key_of records))"
    using assms(2) by (auto simp: fold_open_group_legs_spec)
  then have "open_leg_spec (records @ closes) key \<in> set (fold_open_group_legs (records @ closes))"
    by (auto simp: fold_open_group_legs_spec set_somes)
  then show ?thesis
    by (rule bexI [rotated]) (simp add: key open_leg_spec_append_closes [OF assms(1)])
qed

end
