(* ===== verification/Memory_Store.thy ===== *)
theory Memory_Store
  imports Table Row_Functions
begin

text \<open>
  \<open>InMemoryStore\<close> of \<^verbatim>\<open>tt_ledger/store/memory.py\<close>, the pure-Python implementation of the
  \<open>LedgerStore\<close> protocol (\<^verbatim>\<open>tt_ledger/store/base.py\<close>) and the store every other component
  is modelled over. A ledger is its eleven tables plus what the code takes from its environment:
  the clock (\<open>datetime.now(UTC)\<close>) and the supply of \<open>uuid.uuid4()\<close> strings.

  Every method is a function of the ledger; a writer returns the ledger it leaves. The Python
  store hands out references to its rows and mutates some of them in place; the callers modelled
  here read no field of a row they hold after the store has mutated it, so a row read is a value.
\<close>

section \<open>State\<close>

record ledger =
  st_accounts :: "(string, account_row) ptable"
  st_orders :: "(string, order_row) ptable"
  st_legs :: "(nat \<times> nat, leg_row) ptable"
  st_fills :: "(string, fill_row) ptable"
  st_transactions :: "(string, txn_row) ptable"
  st_securities :: "(string, security_row) ptable"
  st_positions :: "(string \<times> string, position_row) ptable"
  st_closed_positions ::
    "(string \<times> string \<times> datetime option \<times> datetime option, closed_position_row) ptable"
  st_trade_groups :: "(string, trade_group_row) ptable"
  st_events :: "(unit, event_row) ptable"
  st_balance_snapshots :: "(string \<times> datetime \<times> string, balance_row) ptable"
  env_now :: datetime
  env_uuid :: "nat \<Rightarrow> string"
  env_uuid_next :: nat

definition ledger_empty :: "datetime \<Rightarrow> (nat \<Rightarrow> string) \<Rightarrow> ledger" where
  "ledger_empty now uuid =
     \<lparr> st_accounts = table_empty, st_orders = table_empty, st_legs = table_empty,
       st_fills = table_empty, st_transactions = table_empty, st_securities = table_empty,
       st_positions = table_empty, st_closed_positions = table_empty,
       st_trade_groups = table_empty, st_events = table_empty,
       st_balance_snapshots = table_empty, env_now = now, env_uuid = uuid, env_uuid_next = 0 \<rparr>"

definition fresh_uuid :: "ledger \<Rightarrow> string \<times> ledger" where
  "fresh_uuid s = (env_uuid s (env_uuid_next s), s\<lparr>env_uuid_next := env_uuid_next s + 1\<rparr>)"

text \<open>The natural keys, as the constructor passes them to each table.\<close>

definition order_key :: "order_row \<Rightarrow> string option" where
  "order_key r = o_tt_order_id r"

definition leg_row_key :: "leg_row \<Rightarrow> (nat \<times> nat) option" where
  "leg_row_key r = Some (lg_order_id r, lg_leg_index r)"

definition txn_key :: "txn_row \<Rightarrow> string option" where
  "txn_key r = Some (r_tt_transaction_id r)"

definition security_key :: "security_row \<Rightarrow> string option" where
  "security_key r = Some (sec_security_id r)"

definition position_key :: "position_row \<Rightarrow> (string \<times> string) option" where
  "position_key r = Some (ps_account r, ps_security_id r)"

definition closed_position_key ::
  "closed_position_row \<Rightarrow> (string \<times> string \<times> datetime option \<times> datetime option) option" where
  "closed_position_key r = Some (cp_account r, cp_security_id r, cp_opened_at r, cp_closed_at r)"

definition trade_group_key :: "trade_group_row \<Rightarrow> string option" where
  "trade_group_key r = Some (tg_group_id r)"

definition balance_key :: "balance_row \<Rightarrow> (string \<times> datetime \<times> string) option" where
  "balance_key r = Some (bs_account r, bs_captured_at r, bs_source r)"

section \<open>Writes\<close>

definition upsert_account :: "account_row \<Rightarrow> ledger \<Rightarrow> ledger" where
  "upsert_account row s =
     s\<lparr>st_accounts := snd (table_upsert (\<lambda>r. Some (acct_nickname r)) row (st_accounts s))\<rparr>"

definition or_else :: "'a option \<Rightarrow> 'a option \<Rightarrow> 'a option" where
  "or_else a b = (case a of None \<Rightarrow> b | Some x \<Rightarrow> Some x)"

text \<open>The host-enrichment columns of an order survive a resync that does not know them.\<close>

definition order_preserve :: "order_row \<Rightarrow> order_row \<Rightarrow> order_row" where
  "order_preserve existing row =
     row\<lparr> o_oms_order_id := or_else (o_oms_order_id row) (o_oms_order_id existing),
          o_client_order_id := or_else (o_client_order_id row) (o_client_order_id existing),
          o_signal_id := or_else (o_signal_id row) (o_signal_id existing),
          o_trace_id := or_else (o_trace_id row) (o_trace_id existing),
          o_strategy_id := or_else (o_strategy_id row) (o_strategy_id existing),
          o_trade_group_id := or_else (o_trade_group_id row) (o_trade_group_id existing),
          o_market_context_id := or_else (o_market_context_id row) (o_market_context_id existing) \<rparr>"

definition upsert_order :: "order_row \<Rightarrow> ledger \<Rightarrow> nat \<times> ledger" where
  "upsert_order row s =
     (let existing = (if str_true (o_tt_order_id row)
                      then table_get_by_key (st_orders s) (str0 (o_tt_order_id row)) else None);
          row' = (case existing of None \<Rightarrow> row | Some e \<Rightarrow> order_preserve e row);
          (row_id, orders) = table_upsert order_key row' (st_orders s)
      in (row_id, s\<lparr>st_orders := orders\<rparr>))"

fun upsert_orders :: "order_row list \<Rightarrow> ledger \<Rightarrow> nat list \<times> ledger" where
  "upsert_orders [] s = ([], s)"
| "upsert_orders (row # rows) s =
     (let (row_id, s1) = upsert_order row s; (ids, s2) = upsert_orders rows s1
      in (row_id # ids, s2))"

fun upsert_legs :: "leg_row list \<Rightarrow> ledger \<Rightarrow> nat list \<times> ledger" where
  "upsert_legs [] s = ([], s)"
| "upsert_legs (row # rows) s =
     (let (row_id, legs) = table_upsert leg_row_key row (st_legs s);
          (ids, s2) = upsert_legs rows (s\<lparr>st_legs := legs\<rparr>)
      in (row_id # ids, s2))"

fun upsert_fills :: "fill_row list \<Rightarrow> ledger \<Rightarrow> ledger" where
  "upsert_fills [] s = s"
| "upsert_fills (row # rows) s =
     upsert_fills rows
       (s\<lparr>st_fills := snd (table_upsert (\<lambda>r. Some (fl_fill_id r)) row (st_fills s))\<rparr>)"

text \<open>The linkage columns of a transaction.\<close>

definition txn_preserve :: "txn_row \<Rightarrow> txn_row \<Rightarrow> txn_row" where
  "txn_preserve existing row =
     row\<lparr> r_order_id := or_else (r_order_id row) (r_order_id existing),
          t_order_leg_id := or_else (t_order_leg_id row) (t_order_leg_id existing),
          t_position_id := or_else (t_position_id row) (t_position_id existing),
          t_closed_position_id := or_else (t_closed_position_id row) (t_closed_position_id existing),
          r_trade_group_id := or_else (r_trade_group_id row) (r_trade_group_id existing) \<rparr>"

definition upsert_transaction :: "txn_row \<Rightarrow> ledger \<Rightarrow> ledger" where
  "upsert_transaction row s =
     (let row' = (case table_get_by_key (st_transactions s) (r_tt_transaction_id row) of
                    None \<Rightarrow> row | Some e \<Rightarrow> txn_preserve e row)
      in s\<lparr>st_transactions := snd (table_upsert txn_key row' (st_transactions s))\<rparr>)"

fun upsert_transactions :: "txn_row list \<Rightarrow> ledger \<Rightarrow> ledger" where
  "upsert_transactions [] s = s"
| "upsert_transactions (row # rows) s = upsert_transactions rows (upsert_transaction row s)"

definition upsert_security :: "security_row \<Rightarrow> ledger \<Rightarrow> ledger" where
  "upsert_security sec s =
     s\<lparr>st_securities := snd (table_upsert security_key sec (st_securities s))\<rparr>"

fun upsert_positions :: "position_row list \<Rightarrow> ledger \<Rightarrow> ledger" where
  "upsert_positions [] s = s"
| "upsert_positions (row # rows) s =
     upsert_positions rows (s\<lparr>st_positions := snd (table_upsert position_key row (st_positions s))\<rparr>)"

definition upsert_closed_position :: "closed_position_row \<Rightarrow> ledger \<Rightarrow> nat \<times> ledger" where
  "upsert_closed_position row s =
     (let (row_id, closed) = table_upsert closed_position_key row (st_closed_positions s)
      in (row_id, s\<lparr>st_closed_positions := closed\<rparr>))"

definition upsert_balance_snapshot :: "balance_row \<Rightarrow> ledger \<Rightarrow> ledger" where
  "upsert_balance_snapshot row s =
     s\<lparr>st_balance_snapshots := snd (table_upsert balance_key row (st_balance_snapshots s))\<rparr>"

section \<open>Linking and grouping\<close>

definition links_to_order :: "string \<Rightarrow> ledger \<Rightarrow> txn_row \<Rightarrow> bool" where
  "links_to_order account s txn \<longleftrightarrow>
     r_account txn = account \<and> r_order_id txn = None \<and>
     (case r_tt_order_id txn of None \<Rightarrow> False
      | Some tt \<Rightarrow> (case table_get_by_key (st_orders s) tt of None \<Rightarrow> False
                    | Some order \<Rightarrow> o_account order = account))"

definition link_transactions_to_orders :: "string \<Rightarrow> ledger \<Rightarrow> nat \<times> ledger" where
  "link_transactions_to_orders account s =
     (length (filter (\<lambda>(_, txn). links_to_order account s txn) (table_all (st_transactions s))),
      s\<lparr>st_transactions := table_modify
          (\<lambda>_ txn. if links_to_order account s txn
                   then txn\<lparr>r_order_id := table_id_of (st_orders s) (str0 (r_tt_order_id txn))\<rparr> else txn)
          (st_transactions s)\<rparr>)"

text \<open>\<open>by_order\<close>: the set of groups an order's member transactions are in.\<close>

definition groups_of_order :: "string \<Rightarrow> ledger \<Rightarrow> string \<Rightarrow> nat list" where
  "groups_of_order account s tt =
     remdups (somes (map (\<lambda>(_, txn).
        if r_account txn = account \<and> r_tt_order_id txn = Some tt then r_trade_group_id txn else None)
        (table_all (st_transactions s))))"

definition order_group_to_link :: "string \<Rightarrow> ledger \<Rightarrow> order_row \<Rightarrow> nat option" where
  "order_group_to_link account s order =
     (if o_account order \<noteq> account \<or> o_trade_group_id order \<noteq> None
         \<or> \<not> str_true (o_tt_order_id order) then None
      else (case groups_of_order account s (str0 (o_tt_order_id order)) of [g] \<Rightarrow> Some g | _ \<Rightarrow> None))"

definition link_orders_to_groups :: "string \<Rightarrow> ledger \<Rightarrow> nat \<times> ledger" where
  "link_orders_to_groups account s =
     (length (filter (\<lambda>(_, order). order_group_to_link account s order \<noteq> None) (table_all (st_orders s))),
      s\<lparr>st_orders := table_modify
          (\<lambda>_ order. case order_group_to_link account s order of None \<Rightarrow> order
             | Some g \<Rightarrow> order\<lparr>o_trade_group_id := Some g\<rparr>) (st_orders s)\<rparr>)"

definition closed_group_to_link :: "string \<Rightarrow> ledger \<Rightarrow> closed_position_row \<Rightarrow> nat option" where
  "closed_group_to_link account s cp =
     (if cp_account cp \<noteq> account \<or> cp_trade_group_id cp \<noteq> None then None
      else (case cp_closing_order_id cp of None \<Rightarrow> None
            | Some oid \<Rightarrow> (case table_get (st_orders s) oid of None \<Rightarrow> None
                           | Some order \<Rightarrow> o_trade_group_id order)))"

definition link_closed_positions_to_groups :: "string \<Rightarrow> ledger \<Rightarrow> nat \<times> ledger" where
  "link_closed_positions_to_groups account s =
     (length (filter (\<lambda>(_, cp). closed_group_to_link account s cp \<noteq> None)
        (table_all (st_closed_positions s))),
      s\<lparr>st_closed_positions := table_modify
          (\<lambda>_ cp. case closed_group_to_link account s cp of None \<Rightarrow> cp
             | Some g \<Rightarrow> cp\<lparr>cp_trade_group_id := Some g\<rparr>) (st_closed_positions s)\<rparr>)"

text \<open>The links argument becomes a dict by transaction id: the last entry of an id wins.\<close>

definition link_transactions_to_positions ::
  "(string \<times> nat option \<times> nat option) list \<Rightarrow> ledger \<Rightarrow> nat \<times> ledger" where
  "link_transactions_to_positions links s =
     (let by_id = map_of (rev links)
      in (length (filter (\<lambda>(_, txn). by_id (r_tt_transaction_id txn) \<noteq> None)
            (table_all (st_transactions s))),
          s\<lparr>st_transactions := table_modify
              (\<lambda>_ txn. case by_id (r_tt_transaction_id txn) of None \<Rightarrow> txn
                 | Some (position_id, closed_id) \<Rightarrow>
                     txn\<lparr>t_position_id := position_id, t_closed_position_id := closed_id\<rparr>)
              (st_transactions s)\<rparr>))"

definition upsert_trade_group :: "trade_group_row \<Rightarrow> ledger \<Rightarrow> nat \<times> ledger" where
  "upsert_trade_group tg s =
     (let (row_id, groups) = table_upsert trade_group_key tg (st_trade_groups s)
      in (row_id, s\<lparr>st_trade_groups := groups\<rparr>))"

definition add_trade_group_event :: "event_row \<Rightarrow> ledger \<Rightarrow> ledger" where
  "add_trade_group_event ev s =
     (let ev' = (if ev_event_at ev = None then ev\<lparr>ev_event_at := Some (env_now s)\<rparr> else ev)
      in s\<lparr>st_events := snd (table_insert ev' (st_events s))\<rparr>)"

definition attach_transactions_to_trade_group :: "string list \<Rightarrow> nat \<Rightarrow> ledger \<Rightarrow> ledger" where
  "attach_transactions_to_trade_group ids pk s =
     s\<lparr>st_transactions := table_modify
         (\<lambda>_ txn. if r_tt_transaction_id txn \<in> set ids then txn\<lparr>r_trade_group_id := Some pk\<rparr> else txn)
         (st_transactions s)\<rparr>"

definition move_transactions_to_group :: "nat list \<Rightarrow> nat option \<Rightarrow> ledger \<Rightarrow> ledger" where
  "move_transactions_to_group txn_ids pk s =
     s\<lparr>st_transactions := table_modify
         (\<lambda>row_id txn. if row_id \<in> set txn_ids then txn\<lparr>r_trade_group_id := pk\<rparr> else txn)
         (st_transactions s)\<rparr>"


section \<open>Reads\<close>

definition in_range :: "datetime option \<Rightarrow> date option \<Rightarrow> date option \<Rightarrow> bool" where
  "in_range value start until =
     (case value of
        None \<Rightarrow> start = None \<and> until = None
      | Some t \<Rightarrow>
          (case start of None \<Rightarrow> True | Some d \<Rightarrow> \<not> date_of t < d)
        \<and> (case until of None \<Rightarrow> True | Some d \<Rightarrow> \<not> d < date_of t))"

definition in_window :: "datetime option \<Rightarrow> transaction_query \<Rightarrow> bool" where
  "in_window value q =
     (if tq_start_at q \<noteq> None \<or> tq_end_at q \<noteq> None then
        (case value of
           None \<Rightarrow> False
         | Some t \<Rightarrow>
             (case tq_start_at q of None \<Rightarrow> True | Some a \<Rightarrow> \<not> t < a)
           \<and> (case tq_end_at q of None \<Rightarrow> True | Some b \<Rightarrow> \<not> b \<le> t))
      else in_range value (tq_start q) (tq_end q))"

definition get_order :: "ledger \<Rightarrow> string \<Rightarrow> order_row option" where
  "get_order s tt = table_get_by_key (st_orders s) tt"

definition get_position :: "ledger \<Rightarrow> string \<Rightarrow> string \<Rightarrow> position_row option" where
  "get_position s account sid = table_get_by_key (st_positions s) (account, sid)"

definition get_position_id :: "ledger \<Rightarrow> string \<Rightarrow> string \<Rightarrow> nat option" where
  "get_position_id s account sid = table_id_of (st_positions s) (account, sid)"

definition get_positions :: "ledger \<Rightarrow> string \<Rightarrow> position_row list" where
  "get_positions s account =
     filter (\<lambda>r. ps_account r = account) (map snd (table_all (st_positions s)))"

definition get_closed_positions :: "ledger \<Rightarrow> string \<Rightarrow> string option \<Rightarrow> closed_position_row list" where
  "get_closed_positions s account sid =
     filter (\<lambda>r. cp_account r = account \<and> (case sid of None \<Rightarrow> True | Some x \<Rightarrow> cp_security_id r = x))
       (map snd (table_all (st_closed_positions s)))"

text \<open>\<open>max(rows, key=f)\<close>: the first row with the largest key.\<close>

fun first_max :: "('a \<Rightarrow> 'b::linorder) \<Rightarrow> 'a \<Rightarrow> 'a list \<Rightarrow> 'a" where
  "first_max f best [] = best"
| "first_max f best (x # xs) = first_max f (if f best < f x then x else best) xs"

definition get_latest_balance :: "ledger \<Rightarrow> string \<Rightarrow> balance_row option" where
  "get_latest_balance s account =
     (case filter (\<lambda>r. bs_account r = account) (map snd (table_all (st_balance_snapshots s))) of
        [] \<Rightarrow> None
      | r # rs \<Rightarrow> Some (first_max bs_captured_at r rs))"

definition get_balances :: "ledger \<Rightarrow> string \<Rightarrow> date option \<Rightarrow> date option \<Rightarrow> balance_row list" where
  "get_balances s account start until =
     sort_key bs_captured_at
       (filter (\<lambda>r. bs_account r = account
             \<and> (case start of None \<Rightarrow> True | Some d \<Rightarrow> \<not> bs_captured_at r < day_start d)
             \<and> (case until of None \<Rightarrow> True | Some d \<Rightarrow> \<not> day_start d + us_per_day \<le> bs_captured_at r))
         (map snd (table_all (st_balance_snapshots s))))"

definition get_security :: "ledger \<Rightarrow> string \<Rightarrow> security_row option" where
  "get_security s sid = table_get_by_key (st_securities s) sid"

definition get_securities :: "ledger \<Rightarrow> string list \<Rightarrow> security_row list" where
  "get_securities s sids = somes (map (table_get_by_key (st_securities s)) (first_seen sids))"

definition get_trade_group :: "ledger \<Rightarrow> string \<Rightarrow> trade_group_row option" where
  "get_trade_group s gid = table_get_by_key (st_trade_groups s) gid"

definition get_trade_group_by_id :: "ledger \<Rightarrow> nat \<Rightarrow> trade_group_row option" where
  "get_trade_group_by_id s pk = table_get (st_trade_groups s) pk"

definition get_trade_group_id :: "ledger \<Rightarrow> string \<Rightarrow> nat option" where
  "get_trade_group_id s gid = table_id_of (st_trade_groups s) gid"

definition get_transactions_by_id :: "ledger \<Rightarrow> nat list \<Rightarrow> txn_row list" where
  "get_transactions_by_id s txn_ids =
     map snd (filter (\<lambda>(row_id, _). row_id \<in> set txn_ids) (table_all (st_transactions s)))"

text \<open>The sort key \<open>(t is None, t)\<close>: dated rows in time order, undated rows last.\<close>

definition time_key :: "datetime option \<Rightarrow> bool \<times> int" where
  "time_key t = (case t of None \<Rightarrow> (True, 0) | Some x \<Rightarrow> (False, x))"

definition get_group_transactions :: "ledger \<Rightarrow> nat \<Rightarrow> txn_row list" where
  "get_group_transactions s pk =
     sort_key (\<lambda>t. time_key (r_executed_at t))
       (filter (\<lambda>t. r_trade_group_id t = Some pk) (map snd (table_all (st_transactions s))))"

definition leg_record_of :: "txn_row \<Rightarrow> leg_record" where
  "leg_record_of t =
     (r_account t, r_security_id t, r_trade_group_id t, r_action t, r_transaction_sub_type t,
      r_quantity t, r_price t)"

definition open_group_ids :: "ledger \<Rightarrow> nat list" where
  "open_group_ids s =
     map fst (filter (\<lambda>(_, tg). tg_status tg = ''open'') (table_all (st_trade_groups s)))"

definition open_group_legs :: "ledger \<Rightarrow> string option \<Rightarrow> open_leg_row list" where
  "open_group_legs s account =
     fold_open_group_legs
       (map leg_record_of
         (filter (\<lambda>t. (case r_trade_group_id t of None \<Rightarrow> False | Some g \<Rightarrow> g \<in> set (open_group_ids s))
               \<and> (case account of None \<Rightarrow> True | Some a \<Rightarrow> r_account t = a))
           (map snd (table_all (st_transactions s)))))"

text \<open>\<open>net_open_by_group\<close>: quantities are truncated to integers row by row, removals collected
  apart and taken once per leg.\<close>

definition net_open_row :: "nat list \<Rightarrow> (nat \<times> string, int) dict \<times> (nat \<times> string, int) dict \<Rightarrow> txn_row
    \<Rightarrow> (nat \<times> string, int) dict \<times> (nat \<times> string, int) dict" where
  "net_open_row wanted acc txn =
     (case acc of (traded, removed) \<Rightarrow>
      (case (r_trade_group_id txn, r_security_id txn) of
         (Some g, Some sid) \<Rightarrow>
           if g \<notin> set wanted then acc
           else
             let action = py_strip (str0 (r_action txn));
                 qty = py_int (dec0 (r_quantity txn));
                 delta = (if py_endswith action ''to Open'' then qty
                          else if py_endswith action ''to Close'' then - qty else 0);
                 removed' =
                   (if \<not> py_endswith action ''to Open'' \<and> \<not> py_endswith action ''to Close''
                       \<and> is_position_removal (r_action txn) (r_transaction_sub_type txn)
                    then dict_set (g, sid) (max (dict_get_or removed (g, sid) 0) qty) removed
                    else removed)
             in (dict_set (g, sid) (dict_get_or traded (g, sid) 0 + delta) traded, removed')
       | _ \<Rightarrow> acc))"

definition net_open_by_group :: "ledger \<Rightarrow> nat list \<Rightarrow> (nat \<times> string, int) dict" where
  "net_open_by_group s pks =
     (case foldl (net_open_row pks) ([], []) (map snd (table_all (st_transactions s))) of
        (traded, removed) \<Rightarrow>
          map (\<lambda>(key, net). (key, net - dict_get_or removed key 0)) traded)"

definition order_matches :: "order_filter \<Rightarrow> order_row \<Rightarrow> bool" where
  "order_matches f row \<longleftrightarrow>
     (of_origin f = None \<or> of_origin f = Some (o_origin row))
   \<and> (of_account f = None \<or> of_account f = Some (o_account row))
   \<and> (of_status f = None \<or> o_oms_status row = of_status f)
   \<and> (of_underlying f = None \<or> o_underlying row = of_underlying f)
   \<and> (of_trade_group_id f = None \<or> o_trade_group_id row = of_trade_group_id f)
   \<and> (of_oms_order_id f = None \<or> o_oms_order_id row = of_oms_order_id f)
   \<and> (\<not> of_unlinked f \<or> o_trade_group_id row = None)
   \<and> in_range (o_submitted_at row) (of_start f) (of_end f)"

definition query_orders_with_ids :: "ledger \<Rightarrow> order_filter \<Rightarrow> (nat \<times> order_row) list" where
  "query_orders_with_ids s f =
     sort_key (\<lambda>(row_id, row). (time_key (o_received_at row), row_id))
       (filter (\<lambda>(_, row). order_matches f row) (table_all (st_orders s)))"

definition query_orders :: "ledger \<Rightarrow> order_filter \<Rightarrow> order_row list" where
  "query_orders s f = map snd (query_orders_with_ids s f)"

definition trade_matches :: "trade_filter \<Rightarrow> trade_group_row \<Rightarrow> bool" where
  "trade_matches f tg \<longleftrightarrow>
     (tf_origin f = None \<or> tf_origin f = Some (tg_origin tg))
   \<and> (tf_review_status f = None \<or> tf_review_status f = Some (tg_review_status tg))
   \<and> (tf_status f = None \<or> tf_status f = Some (tg_status tg))
   \<and> (tf_account f = None \<or> tf_account f = Some (tg_account tg))
   \<and> (tf_underlying f = None \<or> tg_underlying tg = tf_underlying f)
   \<and> in_range (tg_executed_at tg) (tf_start f) (tf_end f)"

definition unified_trades :: "ledger \<Rightarrow> trade_filter \<Rightarrow> trade_row list" where
  "unified_trades s f =
     map trade_group_to_row (filter (trade_matches f) (map snd (table_all (st_trade_groups s))))"

definition get_group_orders_with_ids :: "ledger \<Rightarrow> nat \<Rightarrow> (nat \<times> order_row) list" where
  "get_group_orders_with_ids s pk =
     sort_key (\<lambda>(row_id, row). (time_key (o_received_at row), row_id))
       (filter (\<lambda>(_, row). o_trade_group_id row = Some pk) (table_all (st_orders s)))"

definition get_legs_for_orders :: "ledger \<Rightarrow> nat list \<Rightarrow> (nat \<times> leg_row) list" where
  "get_legs_for_orders s order_ids =
     sort_key (\<lambda>(_, leg). (lg_order_id leg, lg_leg_index leg))
       (filter (\<lambda>(_, leg). lg_order_id leg \<in> set order_ids) (table_all (st_legs s)))"

definition get_fills_for_orders :: "ledger \<Rightarrow> nat list \<Rightarrow> fill_row list" where
  "get_fills_for_orders s order_ids =
     map snd (sort_key (\<lambda>(row_id, fill). (time_key (fl_filled_at fill), row_id))
       (filter (\<lambda>(_, fill). case fl_order_id fill of None \<Rightarrow> False | Some i \<Rightarrow> i \<in> set order_ids)
         (table_all (st_fills s))))"

definition transaction_matches :: "transaction_query \<Rightarrow> txn_row \<Rightarrow> bool" where
  "transaction_matches q txn \<longleftrightarrow>
     (tq_account q = None \<or> tq_account q = Some (r_account txn))
   \<and> (case tq_accounts q of None \<Rightarrow> True | Some accts \<Rightarrow> r_account txn \<in> set accts)
   \<and> in_window (r_executed_at txn) q
   \<and> (tq_underlying q = None \<or> r_underlying txn = tq_underlying q)
   \<and> (tq_transaction_type q = None \<or> r_transaction_type txn = tq_transaction_type q)
   \<and> (tq_trade_group_id q = None \<or> r_trade_group_id txn = tq_trade_group_id q)"

text \<open>Newest first: \<open>(executed_at is None, -timestamp, -id)\<close>.\<close>

definition newest_key :: "nat \<times> txn_row \<Rightarrow> bool \<times> int \<times> int" where
  "newest_key p =
     (case p of (row_id, txn) \<Rightarrow>
      (r_executed_at txn = None, - (case r_executed_at txn of None \<Rightarrow> 0 | Some t \<Rightarrow> t), - int row_id))"

definition transaction_detail_of :: "ledger \<Rightarrow> nat \<times> txn_row \<Rightarrow> transaction_detail" where
  "transaction_detail_of s p =
     (case p of (row_id, txn) \<Rightarrow>
      \<lparr> td_id = row_id, td_row = ledger_row.truncate txn, td_description = t_description txn,
        td_signal_id = (case r_order_id txn of None \<Rightarrow> None
                        | Some oid \<Rightarrow> (case table_get (st_orders s) oid of None \<Rightarrow> None
                                       | Some order \<Rightarrow> o_signal_id order)) \<rparr>)"

definition matched_transactions :: "ledger \<Rightarrow> transaction_query \<Rightarrow> (nat \<times> txn_row) list" where
  "matched_transactions s q =
     sort_key newest_key
       (filter (\<lambda>(_, txn). transaction_matches q txn) (table_all (st_transactions s)))"

definition query_transactions :: "ledger \<Rightarrow> transaction_query \<Rightarrow> transaction_detail list \<times> nat" where
  "query_transactions s q =
     (let matched = matched_transactions s q
      in (map (transaction_detail_of s) (take (tq_limit q) (drop (tq_offset q) matched)),
          length matched))"

text \<open>A band is a trade group, or a lone row; the keys \<open>f"g{pk}"\<close> and \<open>f"t{id}"\<close> are
  distinguished by their first letter, so they are a sum.\<close>

datatype band_key = Band_Group nat | Band_Row nat

definition band_of :: "transaction_detail \<Rightarrow> band_key" where
  "band_of row = (case r_trade_group_id (td_row row) of Some g \<Rightarrow> Band_Group g | None \<Rightarrow> Band_Row (td_id row))"

definition query_transaction_bands :: "ledger \<Rightarrow> transaction_query \<Rightarrow> transaction_band_page" where
  "query_transaction_bands s q =
     (let (all_rows, row_total) =
            query_transactions s
              (q\<lparr>tq_limit := length (table_all (st_transactions s)) + 1, tq_offset := 0\<rparr>);
          bands = group_by band_of all_rows;
          keys = map fst bands;
          page = take (tq_limit q) (drop (tq_offset q) keys)
      in \<lparr> bp_rows = concat (map (\<lambda>k. case dict_get bands k of None \<Rightarrow> [] | Some rows \<Rightarrow> rows) page),
           bp_band_total = length keys, bp_row_total = row_total \<rparr>)"

definition transaction_value_total :: "ledger \<Rightarrow> string \<Rightarrow> decimal" where
  "transaction_value_total s account =
     sum_list (map (\<lambda>t. dec0 (t_value t))
       (filter (\<lambda>t. r_account t = account \<and> t_value t \<noteq> None) (map snd (table_all (st_transactions s)))))"

definition get_open_position_groups :: "ledger \<Rightarrow> string option \<Rightarrow> (string \<times> string \<times> nat) list" where
  "get_open_position_groups s account =
     sort (remdups (somes (map (\<lambda>t.
        case (r_trade_group_id t, r_security_id t) of
          (Some g, Some sid) \<Rightarrow>
            if (case account of None \<Rightarrow> False | Some a \<Rightarrow> r_account t \<noteq> a) then None
            else (case table_get (st_trade_groups s) g of None \<Rightarrow> None
                  | Some tg \<Rightarrow> if tg_status tg = ''open'' then Some (r_account t, sid, g) else None)
        | _ \<Rightarrow> None) (map snd (table_all (st_transactions s))))))"

definition activity_matches :: "activity_filter \<Rightarrow> txn_row \<Rightarrow> bool" where
  "activity_matches f txn \<longleftrightarrow>
     (af_account f = None \<or> af_account f = Some (r_account txn))
   \<and> in_range (r_executed_at txn) (af_start f) (af_end f)
   \<and> (\<not> af_unreconciled_only f \<or> r_order_id txn = None)"

definition activity_of :: "ledger \<Rightarrow> txn_row \<Rightarrow> activity_row" where
  "activity_of s txn =
     (let order = (case r_order_id txn of None \<Rightarrow> None | Some oid \<Rightarrow> table_get (st_orders s) oid);
          grp = (case r_trade_group_id txn of None \<Rightarrow> None | Some g \<Rightarrow> table_get (st_trade_groups s) g)
      in ledger_row.extend (ledger_row.truncate txn)
           (activity_row.fields
             (case order of None \<Rightarrow> None | Some o' \<Rightarrow> Some (o_origin o'))
             (case grp of None \<Rightarrow> None | Some g \<Rightarrow> Some (tg_review_status g))
             (case order of None \<Rightarrow> None | Some o' \<Rightarrow> o_trade_group_id o')))"

definition account_activity :: "ledger \<Rightarrow> activity_filter \<Rightarrow> activity_row list" where
  "account_activity s f =
     map (activity_of s) (filter (activity_matches f) (map snd (table_all (st_transactions s))))"

end
