(* ===== verification/Sql_Store.thy ===== *)
theory Sql_Store
  imports Sql_Engine Memory_Store
begin

text \<open>
  \<open>SqlLedgerStore\<close> of \<^verbatim>\<open>tt_ledger/store/sql.py\<close> on SQLite, the default backend: every method of the
  \<open>LedgerStore\<close> protocol as the statements it executes over the eleven tables.

  A stored row is held as the database gives it back: its \<open>Money\<close> columns have been through the
  micro-unit integer of \<^verbatim>\<open>money.py\<close>. Timestamps are instants, as everywhere in the model (SQLite
  drops the time zone, which is UTC for every value the code writes). A method that violates a
  \<open>NOT NULL\<close> or a secondary \<open>UNIQUE\<close> constraint raises \<open>IntegrityError\<close>, and its transaction leaves
  the database as it was. Foreign keys are not enforced (SQLite's default). A query without
  \<open>ORDER BY\<close> returns its rows in rowid order here; nothing should depend on it.
\<close>

section \<open>State\<close>

record database =
  db_accounts :: "account_row sql_table"
  db_orders :: "order_row sql_table"
  db_legs :: "leg_row sql_table"
  db_fills :: "fill_row sql_table"
  db_transactions :: "txn_row sql_table"
  db_securities :: "security_row sql_table"
  db_positions :: "position_row sql_table"
  db_closed_positions :: "closed_position_row sql_table"
  db_trade_groups :: "trade_group_row sql_table"
  db_events :: "event_row sql_table"
  db_balance_snapshots :: "balance_row sql_table"
  db_now :: datetime

section \<open>What a money column gives back\<close>

definition stored_money :: "decimal option \<Rightarrow> decimal option" where
  "stored_money v = process_result_value 6 ''sqlite'' (process_bind_param 6 ''sqlite'' v)"

definition stored_amount :: "decimal \<Rightarrow> decimal" where
  "stored_amount v = (case stored_money (Some v) of None \<Rightarrow> 0 | Some w \<Rightarrow> w)"

definition stored_order :: "order_row \<Rightarrow> order_row" where
  "stored_order r =
     r\<lparr> o_price := stored_money (o_price r), o_stop_trigger := stored_money (o_stop_trigger r),
        o_average_fill_price := stored_money (o_average_fill_price r),
        o_filled_quantity := stored_money (o_filled_quantity r),
        o_remaining_quantity := stored_money (o_remaining_quantity r) \<rparr>"

definition stored_leg :: "leg_row \<Rightarrow> leg_row" where
  "stored_leg r =
     r\<lparr> lg_quantity := stored_money (lg_quantity r),
        lg_remaining_quantity := stored_money (lg_remaining_quantity r),
        lg_price := stored_money (lg_price r), lg_fill_price := stored_money (lg_fill_price r) \<rparr>"

definition stored_fill :: "fill_row \<Rightarrow> fill_row" where
  "stored_fill r =
     r\<lparr> fl_quantity := stored_money (fl_quantity r), fl_fill_price := stored_money (fl_fill_price r) \<rparr>"

definition stored_txn :: "txn_row \<Rightarrow> txn_row" where
  "stored_txn r =
     r\<lparr> r_quantity := stored_money (r_quantity r), r_price := stored_money (r_price r),
        r_net_value := stored_money (r_net_value r), r_commission := stored_money (r_commission r),
        r_clearing_fees := stored_money (r_clearing_fees r),
        r_regulatory_fees := stored_money (r_regulatory_fees r),
        r_proprietary_index_option_fees := stored_money (r_proprietary_index_option_fees r),
        t_value := stored_money (t_value r) \<rparr>"

definition stored_security :: "security_row \<Rightarrow> security_row" where
  "stored_security r = r\<lparr>sec_strike := stored_money (sec_strike r)\<rparr>"

definition stored_position :: "position_row \<Rightarrow> position_row" where
  "stored_position r =
     r\<lparr> ps_quantity := stored_amount (ps_quantity r),
        ps_average_open_price := stored_money (ps_average_open_price r),
        ps_mark_price := stored_money (ps_mark_price r),
        ps_close_price := stored_money (ps_close_price r),
        ps_unrealized_pnl := stored_money (ps_unrealized_pnl r),
        ps_realized_day_gain := stored_money (ps_realized_day_gain r) \<rparr>"

definition stored_closed_position :: "closed_position_row \<Rightarrow> closed_position_row" where
  "stored_closed_position r =
     r\<lparr> cp_quantity := stored_amount (cp_quantity r),
        cp_average_open_price := stored_money (cp_average_open_price r),
        cp_average_close_price := stored_money (cp_average_close_price r),
        cp_realized_pnl := stored_money (cp_realized_pnl r), cp_fees := stored_money (cp_fees r),
        cp_pnl_net := stored_money (cp_pnl_net r) \<rparr>"

definition stored_trade_group :: "trade_group_row \<Rightarrow> trade_group_row" where
  "stored_trade_group r =
     r\<lparr> tg_total_premium := stored_money (tg_total_premium r), tg_quantity := stored_money (tg_quantity r),
        tg_total_fees := stored_money (tg_total_fees r), tg_realized_pnl := stored_money (tg_realized_pnl r),
        tg_unrealized_pnl := stored_money (tg_unrealized_pnl r), tg_max_profit := stored_money (tg_max_profit r),
        tg_max_loss := stored_money (tg_max_loss r), tg_initial_risk := stored_money (tg_initial_risk r) \<rparr>"

definition stored_event :: "event_row \<Rightarrow> event_row" where
  "stored_event r =
     r\<lparr> ev_quantity_change := stored_amount (ev_quantity_change r),
        ev_premium_change := stored_amount (ev_premium_change r),
        ev_realized_pnl := stored_money (ev_realized_pnl r) \<rparr>"

definition stored_balance :: "balance_row \<Rightarrow> balance_row" where
  "stored_balance r =
     r\<lparr> bs_net_liquidating_value := stored_money (bs_net_liquidating_value r),
        bs_cash_balance := stored_money (bs_cash_balance r),
        bs_equity_buying_power := stored_money (bs_equity_buying_power r),
        bs_derivative_buying_power := stored_money (bs_derivative_buying_power r),
        bs_maintenance_requirement := stored_money (bs_maintenance_requirement r),
        bs_pending_cash := stored_money (bs_pending_cash r),
        bs_day_trading_buying_power := stored_money (bs_day_trading_buying_power r) \<rparr>"

section \<open>Writes\<close>

text \<open>\<open>login\<close> is a required column and \<open>account_number\<close> unique.\<close>

definition sql_upsert_account :: "account_row \<Rightarrow> database \<Rightarrow> string + database" where
  "sql_upsert_account row db =
     (if acct_login row = None
         \<or> list_ex (\<lambda>(_, a). acct_account_number a = acct_account_number row
                         \<and> acct_nickname a \<noteq> acct_nickname row) (db_accounts db)
      then Inl ''IntegrityError''
      else Inr (db\<lparr>db_accounts :=
             snd (upsert_rows accounts_model (\<lambda>r. Some (acct_nickname r)) excluded_row [row] (db_accounts db))\<rparr>))"

text \<open>The host-enrichment columns of an order are coalesced.\<close>

definition order_update_cols :: "order_row \<Rightarrow> order_row \<Rightarrow> order_row" where
  "order_update_cols existing row =
     row\<lparr> o_oms_order_id := coalesce (o_oms_order_id row) (o_oms_order_id existing),
          o_client_order_id := coalesce (o_client_order_id row) (o_client_order_id existing),
          o_signal_id := coalesce (o_signal_id row) (o_signal_id existing),
          o_trace_id := coalesce (o_trace_id row) (o_trace_id existing),
          o_strategy_id := coalesce (o_strategy_id row) (o_strategy_id existing),
          o_trade_group_id := coalesce (o_trade_group_id row) (o_trade_group_id existing),
          o_market_context_id := coalesce (o_market_context_id row) (o_market_context_id existing) \<rparr>"

definition sql_upsert_orders :: "order_row list \<Rightarrow> database \<Rightarrow> nat list \<times> database" where
  "sql_upsert_orders rows db =
     (let (ids, t) = upsert_rows orders_model o_tt_order_id order_update_cols (map stored_order rows) (db_orders db)
      in (ids, db\<lparr>db_orders := t\<rparr>))"

definition sql_upsert_legs :: "leg_row list \<Rightarrow> database \<Rightarrow> nat list \<times> database" where
  "sql_upsert_legs rows db =
     (let (ids, t) = upsert_rows order_legs_model (\<lambda>r. Some (lg_order_id r, lg_leg_index r)) excluded_row
                       (map stored_leg rows) (db_legs db)
      in (ids, db\<lparr>db_legs := t\<rparr>))"

text \<open>\<open>order_id\<close> is a required column; one bad row rejects the whole call.\<close>

definition sql_upsert_fills :: "fill_row list \<Rightarrow> database \<Rightarrow> string + database" where
  "sql_upsert_fills rows db =
     (if list_ex (\<lambda>r. fl_order_id r = None) rows then Inl ''IntegrityError''
      else Inr (db\<lparr>db_fills :=
             snd (upsert_rows order_fills_model (\<lambda>r. Some (fl_fill_id r)) excluded_row
                   (map stored_fill rows) (db_fills db))\<rparr>))"

definition txn_update_cols :: "txn_row \<Rightarrow> txn_row \<Rightarrow> txn_row" where
  "txn_update_cols existing row =
     row\<lparr> r_order_id := coalesce (r_order_id row) (r_order_id existing),
          t_order_leg_id := coalesce (t_order_leg_id row) (t_order_leg_id existing),
          t_position_id := coalesce (t_position_id row) (t_position_id existing),
          t_closed_position_id := coalesce (t_closed_position_id row) (t_closed_position_id existing),
          r_trade_group_id := coalesce (r_trade_group_id row) (r_trade_group_id existing) \<rparr>"

definition sql_upsert_transactions :: "txn_row list \<Rightarrow> database \<Rightarrow> database" where
  "sql_upsert_transactions rows db =
     db\<lparr>db_transactions :=
       snd (upsert_rows transactions_model (\<lambda>r. Some (r_tt_transaction_id r)) txn_update_cols
             (map stored_txn rows) (db_transactions db))\<rparr>"

definition sql_upsert_security :: "security_row \<Rightarrow> database \<Rightarrow> database" where
  "sql_upsert_security sec db =
     db\<lparr>db_securities :=
       snd (upsert_rows securities_model (\<lambda>r. Some (sec_security_id r)) excluded_row
             [stored_security sec] (db_securities db))\<rparr>"

definition sql_upsert_positions :: "position_row list \<Rightarrow> database \<Rightarrow> database" where
  "sql_upsert_positions rows db =
     db\<lparr>db_positions :=
       snd (upsert_rows positions_model (\<lambda>r. Some (ps_account r, ps_security_id r)) excluded_row
             (map stored_position rows) (db_positions db))\<rparr>"

definition sql_upsert_balance_snapshot :: "balance_row \<Rightarrow> database \<Rightarrow> database" where
  "sql_upsert_balance_snapshot row db =
     db\<lparr>db_balance_snapshots :=
       snd (upsert_rows balance_snapshots_model (\<lambda>r. Some (bs_account r, bs_captured_at r, bs_source r))
             excluded_row [stored_balance row] (db_balance_snapshots db))\<rparr>"

text \<open>No unique constraint here: a SELECT decides between UPDATE and INSERT. \<open>closed_at\<close> is a
  required column, for either statement.\<close>

definition sql_upsert_closed_position :: "closed_position_row \<Rightarrow> database \<Rightarrow> string + nat \<times> database" where
  "sql_upsert_closed_position row db =
     (let data = stored_closed_position row;
          existing = select_where
            (\<lambda>(_, r). [is_value (Some (cp_account r)) (Some (cp_account row)),
                       is_value (Some (cp_security_id r)) (Some (cp_security_id row)),
                       is_value (cp_opened_at r) (cp_opened_at row),
                       is_value (cp_closed_at r) (cp_closed_at row)]) (db_closed_positions db)
      in if cp_closed_at row = None then Inl ''IntegrityError''
         else Inr (case existing of
             (row_id, _) # _ \<Rightarrow>
               (row_id, db\<lparr>db_closed_positions :=
                  snd (update_where (\<lambda>(i, _). [is_value (Some i) (Some row_id)]) (\<lambda>_. data) (db_closed_positions db))\<rparr>)
           | [] \<Rightarrow>
               (let (row_id, t) = insert_row data (db_closed_positions db)
                in (row_id, db\<lparr>db_closed_positions := t\<rparr>))))"

section \<open>Linking and grouping\<close>

text \<open>The value a subquery has for a joined column: the right-hand side of an \<open>UPDATE ... FROM\<close>.\<close>

definition join_on :: "'k option \<Rightarrow> ('k \<times> 'w) list \<Rightarrow> 'w option" where
  "join_on col sub = map_option snd (find (\<lambda>q. equals col (Some (fst q)) = Some True) sub)"

text \<open>\<open>GROUP BY tt_order_id HAVING count(distinct trade_group_id) = 1\<close>, with \<open>min(trade_group_id)\<close>.\<close>

definition agreed_groups :: "string \<Rightarrow> database \<Rightarrow> (string \<times> nat) list" where
  "agreed_groups account db =
     somes (map (\<lambda>(tt, members).
         let groups = somes (map (\<lambda>(_, txn). r_trade_group_id txn) members)
         in if length (remdups groups) = 1 then Some (tt, Min (set groups)) else None)
       (group_by (\<lambda>(_, txn). str0 (r_tt_order_id txn))
         (select_where (\<lambda>(_, txn). [is_value (Some (r_account txn)) (Some account),
              is_not_null (r_tt_order_id txn), is_not_null (r_trade_group_id txn)]) (db_transactions db))))"

definition sql_link_orders_to_groups :: "string \<Rightarrow> database \<Rightarrow> nat \<times> database" where
  "sql_link_orders_to_groups account db =
     (let sub = agreed_groups account db;
          (n, t) = update_where
            (\<lambda>(_, r). [is_value (Some (o_account r)) (Some account), is_null (o_trade_group_id r),
                       is_not_null (join_on (o_tt_order_id r) sub)])
            (\<lambda>(_, r). r\<lparr>o_trade_group_id := join_on (o_tt_order_id r) sub\<rparr>) (db_orders db)
      in (n, db\<lparr>db_orders := t\<rparr>))"

definition sql_link_closed_positions_to_groups :: "string \<Rightarrow> database \<Rightarrow> nat \<times> database" where
  "sql_link_closed_positions_to_groups account db =
     (let sub = map (\<lambda>(oid, r). (oid, o_trade_group_id r))
            (select_where (\<lambda>(_, r). [is_value (Some (o_account r)) (Some account),
                                     is_not_null (o_trade_group_id r)]) (db_orders db));
          (n, t) = update_where
            (\<lambda>(_, r). [is_value (Some (cp_account r)) (Some account), is_null (cp_trade_group_id r),
                       is_not_null (join_on (cp_closing_order_id r) sub)])
            (\<lambda>(_, r). r\<lparr>cp_trade_group_id := (case join_on (cp_closing_order_id r) sub of None \<Rightarrow> None | Some g \<Rightarrow> g)\<rparr>)
            (db_closed_positions db)
      in (n, db\<lparr>db_closed_positions := t\<rparr>))"

text \<open>An \<open>executemany\<close>: one UPDATE per link, in order; the count is the number of links.\<close>

definition sql_link_transactions_to_positions ::
  "(string \<times> nat option \<times> nat option) list \<Rightarrow> database \<Rightarrow> nat \<times> database" where
  "sql_link_transactions_to_positions links db =
     (length links,
      db\<lparr>db_transactions :=
        foldl (\<lambda>t (tt, position_id, closed_id).
                 snd (update_where (\<lambda>(_, txn). [is_value (Some (r_tt_transaction_id txn)) (Some tt)])
                   (\<lambda>(_, txn). txn\<lparr>t_position_id := position_id, t_closed_position_id := closed_id\<rparr>) t))
          (db_transactions db) links\<rparr>)"

definition sql_link_transactions_to_orders :: "string \<Rightarrow> database \<Rightarrow> nat \<times> database" where
  "sql_link_transactions_to_orders account db =
     (let pending = map (\<lambda>(i, txn). (i, str0 (r_tt_order_id txn)))
            (select_where (\<lambda>(_, txn). [is_value (Some (r_account txn)) (Some account),
                 is_null (r_order_id txn), is_not_null (r_tt_order_id txn)]) (db_transactions db));
          tt_ids = first_seen (map snd pending);
          id_by_tt_order_id = map (\<lambda>(i, r). (str0 (o_tt_order_id r), i))
            (select_where (\<lambda>(_, r). [is_value (Some (o_account r)) (Some account),
                 is_in (o_tt_order_id r) tt_ids]) (db_orders db));
          updates = somes (map (\<lambda>(i, tt). map_option (Pair i) (dict_get id_by_tt_order_id tt)) pending)
      in if pending = [] then (0, db)
         else (length updates,
           db\<lparr>db_transactions :=
             foldl (\<lambda>t (i, oid). snd (update_where (\<lambda>(j, _). [is_value (Some j) (Some i)])
                      (\<lambda>(_, txn). txn\<lparr>r_order_id := Some oid\<rparr>) t))
               (db_transactions db) updates\<rparr>))"

definition sql_upsert_trade_group :: "trade_group_row \<Rightarrow> database \<Rightarrow> nat \<times> database" where
  "sql_upsert_trade_group tg db =
     (let (ids, t) = upsert_rows trade_groups_model (\<lambda>r. Some (tg_group_id r)) excluded_row
                       [stored_trade_group tg] (db_trade_groups db)
      in (hd ids, db\<lparr>db_trade_groups := t\<rparr>))"

definition sql_add_trade_group_event :: "event_row \<Rightarrow> database \<Rightarrow> database" where
  "sql_add_trade_group_event ev db =
     (let data = (if ev_event_at ev = None then ev\<lparr>ev_event_at := Some (db_now db)\<rparr> else ev)
      in db\<lparr>db_events := snd (insert_row (stored_event data) (db_events db))\<rparr>)"

definition sql_attach_transactions_to_trade_group :: "string list \<Rightarrow> nat \<Rightarrow> database \<Rightarrow> nat \<times> database" where
  "sql_attach_transactions_to_trade_group tt_ids pk db =
     (if tt_ids = [] then (0, db)
      else (let (n, t) = update_where (\<lambda>(_, txn). [is_in (Some (r_tt_transaction_id txn)) tt_ids])
                           (\<lambda>(_, txn). txn\<lparr>r_trade_group_id := Some pk\<rparr>) (db_transactions db)
            in (n, db\<lparr>db_transactions := t\<rparr>)))"

definition sql_move_transactions_to_group :: "nat list \<Rightarrow> nat option \<Rightarrow> database \<Rightarrow> nat \<times> database" where
  "sql_move_transactions_to_group txn_ids pk db =
     (if txn_ids = [] then (0, db)
      else (let (n, t) = update_where (\<lambda>(i, _). [is_in (Some i) txn_ids])
                           (\<lambda>(_, txn). txn\<lparr>r_trade_group_id := pk\<rparr>) (db_transactions db)
            in (n, db\<lparr>db_transactions := t\<rparr>)))"

section \<open>Reads by key\<close>

definition first_row :: "'v sql_table \<Rightarrow> (nat \<times> 'v) option" where
  "first_row t = (case t of [] \<Rightarrow> None | p # _ \<Rightarrow> Some p)"

definition sql_get_order :: "database \<Rightarrow> string \<Rightarrow> order_row option" where
  "sql_get_order db tt =
     map_option snd (first_row (select_where (\<lambda>(_, r). [is_value (o_tt_order_id r) (Some tt)]) (db_orders db)))"

definition position_row_of :: "database \<Rightarrow> string \<Rightarrow> string \<Rightarrow> (nat \<times> position_row) option" where
  "position_row_of db account sid =
     first_row (select_where (\<lambda>(_, r). [is_value (Some (ps_account r)) (Some account),
       is_value (Some (ps_security_id r)) (Some sid)]) (db_positions db))"

definition sql_get_position :: "database \<Rightarrow> string \<Rightarrow> string \<Rightarrow> position_row option" where
  "sql_get_position db account sid = map_option snd (position_row_of db account sid)"

definition sql_get_position_id :: "database \<Rightarrow> string \<Rightarrow> string \<Rightarrow> nat option" where
  "sql_get_position_id db account sid = map_option fst (position_row_of db account sid)"

definition sql_get_positions :: "database \<Rightarrow> string \<Rightarrow> position_row list" where
  "sql_get_positions db account =
     map snd (select_where (\<lambda>(_, r). [is_value (Some (ps_account r)) (Some account)]) (db_positions db))"

definition sql_get_closed_positions :: "database \<Rightarrow> string \<Rightarrow> string option \<Rightarrow> closed_position_row list" where
  "sql_get_closed_positions db account sid =
     map snd (select_where (\<lambda>(_, r). is_value (Some (cp_account r)) (Some account)
         # when_given sid (\<lambda>x. is_value (Some (cp_security_id r)) (Some x))) (db_closed_positions db))"

definition sql_get_latest_balance :: "database \<Rightarrow> string \<Rightarrow> balance_row option" where
  "sql_get_latest_balance db account =
     map_option snd (first_row (take 1 (sort_key (\<lambda>(_, r). - bs_captured_at r)
       (select_where (\<lambda>(_, r). [is_value (Some (bs_account r)) (Some account)]) (db_balance_snapshots db)))))"

definition sql_get_balances :: "database \<Rightarrow> string \<Rightarrow> date option \<Rightarrow> date option \<Rightarrow> balance_row list" where
  "sql_get_balances db account start until =
     map snd (sort_key (\<lambda>(_, r). bs_captured_at r)
       (select_where (\<lambda>(_, r). is_value (Some (bs_account r)) (Some account)
           # when_given start (\<lambda>d. at_least (Some (bs_captured_at r)) (day_start d))
           @ when_given until (\<lambda>d. less_than (Some (bs_captured_at r)) (day_start d + us_per_day)))
         (db_balance_snapshots db)))"

definition sql_get_security :: "database \<Rightarrow> string \<Rightarrow> security_row option" where
  "sql_get_security db sid =
     map_option snd (first_row (select_where (\<lambda>(_, r). [is_value (Some (sec_security_id r)) (Some sid)])
       (db_securities db)))"

definition sql_get_securities :: "database \<Rightarrow> string list \<Rightarrow> security_row list" where
  "sql_get_securities db sids =
     (if sids = [] then []
      else map snd (select_where (\<lambda>(_, r). [is_in (Some (sec_security_id r)) (first_seen sids)]) (db_securities db)))"

definition trade_group_row_of :: "database \<Rightarrow> string \<Rightarrow> (nat \<times> trade_group_row) option" where
  "trade_group_row_of db gid =
     first_row (select_where (\<lambda>(_, r). [is_value (Some (tg_group_id r)) (Some gid)]) (db_trade_groups db))"

definition sql_get_trade_group :: "database \<Rightarrow> string \<Rightarrow> trade_group_row option" where
  "sql_get_trade_group db gid = map_option snd (trade_group_row_of db gid)"

definition sql_get_trade_group_by_id :: "database \<Rightarrow> nat \<Rightarrow> trade_group_row option" where
  "sql_get_trade_group_by_id db pk =
     map_option snd (first_row (select_where (\<lambda>(i, _). [is_value (Some i) (Some pk)]) (db_trade_groups db)))"

definition sql_get_trade_group_id :: "database \<Rightarrow> string \<Rightarrow> nat option" where
  "sql_get_trade_group_id db gid = map_option fst (trade_group_row_of db gid)"

definition sql_get_transactions_by_id :: "database \<Rightarrow> nat list \<Rightarrow> txn_row list" where
  "sql_get_transactions_by_id db txn_ids =
     (if txn_ids = [] then []
      else map snd (select_where (\<lambda>(i, _). [is_in (Some i) txn_ids]) (db_transactions db)))"

section \<open>Ordered and filtered reads\<close>

text \<open>Sort keys: \<open>ASC\<close> with the nulls first, as SQLite puts them unasked; \<open>ASC NULLS LAST\<close>;
  \<open>DESC NULLS LAST\<close>.\<close>

definition asc :: "datetime option \<Rightarrow> bool \<times> int" where
  "asc col = (case col of None \<Rightarrow> (False, 0) | Some t \<Rightarrow> (True, t))"

definition asc_nulls_last :: "datetime option \<Rightarrow> bool \<times> int" where
  "asc_nulls_last col = (case col of None \<Rightarrow> (True, 0) | Some t \<Rightarrow> (False, t))"

definition desc_nulls_last :: "datetime option \<Rightarrow> bool \<times> int" where
  "desc_nulls_last col = (case col of None \<Rightarrow> (True, 0) | Some t \<Rightarrow> (False, - t))"

definition sql_get_group_transactions :: "database \<Rightarrow> nat \<Rightarrow> txn_row list" where
  "sql_get_group_transactions db pk =
     map snd (sort_key (\<lambda>(_, txn). asc (r_executed_at txn))
       (select_where (\<lambda>(_, txn). [is_value (r_trade_group_id txn) (Some pk)]) (db_transactions db)))"

text \<open>A day range on a nullable instant.\<close>

definition day_conditions :: "datetime option \<Rightarrow> date option \<Rightarrow> date option \<Rightarrow> tri list" where
  "day_conditions col start until =
     when_given start (\<lambda>d. at_least col (day_start d))
     @ when_given until (\<lambda>d. less_than col (day_start d + us_per_day))"

definition order_conditions :: "order_filter \<Rightarrow> nat \<times> order_row \<Rightarrow> tri list" where
  "order_conditions f p =
     (case p of (_, r) \<Rightarrow>
        when_given (of_origin f) (\<lambda>v. is_value (Some (origin_value (o_origin r))) (Some (origin_value v)))
      @ when_given (of_account f) (\<lambda>v. is_value (Some (o_account r)) (Some v))
      @ when_given (of_status f) (\<lambda>v. is_value (o_oms_status r) (Some v))
      @ when_given (of_underlying f) (\<lambda>v. is_value (o_underlying r) (Some v))
      @ when_given (of_trade_group_id f) (\<lambda>v. is_value (o_trade_group_id r) (Some v))
      @ when_given (of_oms_order_id f) (\<lambda>v. is_value (o_oms_order_id r) (Some v))
      @ (if of_unlinked f then [is_null (o_trade_group_id r)] else [])
      @ day_conditions (o_submitted_at r) (of_start f) (of_end f))"

definition sql_query_orders :: "database \<Rightarrow> order_filter \<Rightarrow> order_row list" where
  "sql_query_orders db f = map snd (select_where (order_conditions f) (db_orders db))"

definition sql_query_orders_with_ids :: "database \<Rightarrow> order_filter \<Rightarrow> (nat \<times> order_row) list" where
  "sql_query_orders_with_ids db f =
     sort_key (\<lambda>(i, r). (asc_nulls_last (o_received_at r), i)) (select_where (order_conditions f) (db_orders db))"

definition sql_unified_trades :: "database \<Rightarrow> trade_filter \<Rightarrow> trade_row list" where
  "sql_unified_trades db f =
     map (\<lambda>(_, r). trade_group_to_row r)
       (select_where (\<lambda>(_, r).
            when_given (tf_origin f) (\<lambda>v. is_value (Some (origin_value (tg_origin r))) (Some (origin_value v)))
          @ when_given (tf_review_status f)
              (\<lambda>v. is_value (Some (review_status_value (tg_review_status r))) (Some (review_status_value v)))
          @ when_given (tf_status f) (\<lambda>v. is_value (Some (tg_status r)) (Some v))
          @ when_given (tf_account f) (\<lambda>v. is_value (Some (tg_account r)) (Some v))
          @ when_given (tf_underlying f) (\<lambda>v. is_value (tg_underlying r) (Some v))
          @ day_conditions (tg_executed_at r) (tf_start f) (tf_end f)) (db_trade_groups db))"

definition sql_get_group_orders_with_ids :: "database \<Rightarrow> nat \<Rightarrow> (nat \<times> order_row) list" where
  "sql_get_group_orders_with_ids db pk =
     sort_key (\<lambda>(i, r). (asc_nulls_last (o_received_at r), i))
       (select_where (\<lambda>(_, r). [is_value (o_trade_group_id r) (Some pk)]) (db_orders db))"

definition sql_get_legs_for_orders :: "database \<Rightarrow> nat list \<Rightarrow> (nat \<times> leg_row) list" where
  "sql_get_legs_for_orders db order_ids =
     (if order_ids = [] then []
      else sort_key (\<lambda>(_, leg). (lg_order_id leg, lg_leg_index leg))
             (select_where (\<lambda>(_, leg). [is_in (Some (lg_order_id leg)) order_ids]) (db_legs db)))"

definition sql_get_fills_for_orders :: "database \<Rightarrow> nat list \<Rightarrow> fill_row list" where
  "sql_get_fills_for_orders db order_ids =
     (if order_ids = [] then []
      else map snd (sort_key (\<lambda>(i, fill). (asc_nulls_last (fl_filled_at fill), i))
             (select_where (\<lambda>(_, fill). [is_in (fl_order_id fill) order_ids]) (db_fills db))))"

section \<open>Transaction pages\<close>

definition transaction_conditions :: "transaction_query \<Rightarrow> nat \<times> txn_row \<Rightarrow> tri list" where
  "transaction_conditions q p =
     (case p of (_, txn) \<Rightarrow>
        when_given (tq_account q) (\<lambda>v. is_value (Some (r_account txn)) (Some v))
      @ when_given (tq_accounts q) (\<lambda>vs. is_in (Some (r_account txn)) vs)
      @ (case tq_start_at q of
           Some t \<Rightarrow> [at_least (r_executed_at txn) t]
         | None \<Rightarrow> when_given (tq_start q) (\<lambda>d. at_least (r_executed_at txn) (day_start d)))
      @ (case tq_end_at q of
           Some t \<Rightarrow> [less_than (r_executed_at txn) t]
         | None \<Rightarrow> when_given (tq_end q) (\<lambda>d. less_than (r_executed_at txn) (day_start d + us_per_day)))
      @ when_given (tq_underlying q) (\<lambda>v. is_value (r_underlying txn) (Some v))
      @ when_given (tq_transaction_type q) (\<lambda>v. is_value (r_transaction_type txn) (Some v))
      @ when_given (tq_trade_group_id q) (\<lambda>v. is_value (r_trade_group_id txn) (Some v)))"

text \<open>A transaction outer-joined with its order.\<close>

definition detail_row :: "database \<Rightarrow> nat \<times> txn_row \<Rightarrow> transaction_detail" where
  "detail_row db p =
     (case p of (i, txn) \<Rightarrow>
      \<lparr> td_id = i, td_row = ledger_row.truncate txn, td_description = t_description txn,
        td_signal_id = (case join_on (r_order_id txn) (db_orders db) of None \<Rightarrow> None | Some r \<Rightarrow> o_signal_id r) \<rparr>)"

definition page_of :: "transaction_query \<Rightarrow> 'a list \<Rightarrow> 'a list" where
  "page_of q rows = take (tq_limit q) (drop (tq_offset q) rows)"

definition sql_query_transactions :: "database \<Rightarrow> transaction_query \<Rightarrow> transaction_detail list \<times> nat" where
  "sql_query_transactions db q =
     (let matched = select_where (transaction_conditions q) (db_transactions db)
      in (map (detail_row db)
            (page_of q (sort_key (\<lambda>(i, txn). (desc_nulls_last (r_executed_at txn), - int i)) matched)),
          length matched))"

text \<open>The \<open>CASE\<close> column \<open>band\<close>: a trade group, or the lone row.\<close>

definition band_column :: "nat \<times> txn_row \<Rightarrow> band_key" where
  "band_column p =
     (case p of (i, txn) \<Rightarrow> (case r_trade_group_id txn of Some g \<Rightarrow> Band_Group g | None \<Rightarrow> Band_Row i))"

definition band_ts :: "(nat \<times> txn_row) list \<Rightarrow> datetime option" where
  "band_ts rows = max_opt (somes (map (\<lambda>(_, txn). r_executed_at txn) rows))"

definition band_id :: "(nat \<times> txn_row) list \<Rightarrow> nat" where
  "band_id rows = Max (set (map fst rows))"

definition band_order :: "band_key \<times> (nat \<times> txn_row) list \<Rightarrow> (bool \<times> int) \<times> int" where
  "band_order b = (desc_nulls_last (band_ts (snd b)), - int (band_id (snd b)))"

definition sql_query_transaction_bands :: "database \<Rightarrow> transaction_query \<Rightarrow> transaction_band_page" where
  "sql_query_transaction_bands db q =
     (let base = select_where (transaction_conditions q) (db_transactions db);
          bands = group_by band_column base;
          page = page_of q (sort_key band_order bands);
          joined = concat (map (\<lambda>p. map (Pair p) (filter (\<lambda>b. fst b = band_column p) page)) base)
      in \<lparr> bp_rows = map (\<lambda>(p, b). detail_row db p)
             (sort_key (\<lambda>((i, txn), b). (band_order b, desc_nulls_last (r_executed_at txn), - int i)) joined),
           bp_band_total = length bands, bp_row_total = length base \<rparr>)"

section \<open>Aggregates over the open book\<close>

text \<open>\<open>SUM\<close> and \<open>MAX\<close> skip nulls and are null over nothing.\<close>

definition sql_sum :: "decimal option list \<Rightarrow> decimal option" where
  "sql_sum xs = (if somes xs = [] then None else Some (sum_list (somes xs)))"

definition sql_max :: "decimal option list \<Rightarrow> decimal option" where
  "sql_max xs = max_opt (somes xs)"

definition sql_transaction_value_total :: "database \<Rightarrow> string \<Rightarrow> decimal" where
  "sql_transaction_value_total db account =
     (case sql_sum (map (\<lambda>(_, txn). t_value txn)
             (select_where (\<lambda>(_, txn). [is_value (Some (r_account txn)) (Some account)]) (db_transactions db))) of
        None \<Rightarrow> 0 | Some x \<Rightarrow> x)"

text \<open>\<open>transactions JOIN trade_groups\<close> where the group is open and the row has a security.\<close>

definition open_members :: "database \<Rightarrow> string option \<Rightarrow> txn_row list" where
  "open_members db account =
     map snd (select_where
       (\<lambda>(_, txn).
          (case join_on (r_trade_group_id txn) (db_trade_groups db) of
             None \<Rightarrow> [Some False]
           | Some g \<Rightarrow> [is_value (Some (tg_status g)) (Some ''open''), is_not_null (r_security_id txn)])
          @ when_given account (\<lambda>a. is_value (Some (r_account txn)) (Some a))) (db_transactions db))"

definition sql_get_open_position_groups :: "database \<Rightarrow> string option \<Rightarrow> (string \<times> string \<times> nat) list" where
  "sql_get_open_position_groups db account =
     first_seen (map (\<lambda>txn. (r_account txn, str0 (r_security_id txn),
                             (case r_trade_group_id txn of None \<Rightarrow> 0 | Some g \<Rightarrow> g)))
       (open_members db account))"

definition sql_open_group_legs :: "database \<Rightarrow> string option \<Rightarrow> open_leg_row list" where
  "sql_open_group_legs db account = fold_open_group_legs (map leg_record_of (open_members db account))"

definition traded_case :: "txn_row \<Rightarrow> decimal option" where
  "traded_case txn =
     (let act = coalesce (r_action txn) (Some []) in
      if like_suffix act ''to Open'' = Some True then r_quantity txn
      else if like_suffix act ''to Close'' = Some True then map_option uminus (r_quantity txn)
      else Some 0)"

definition removal_case :: "txn_row \<Rightarrow> decimal option" where
  "removal_case txn =
     (let act = coalesce (r_action txn) (Some []);
          action_nets = tri_or (like_suffix act ''to Open'') (like_suffix act ''to Close'')
      in if tri_and (is_in (r_transaction_sub_type txn) POSITION_REMOVING_SUB_TYPES) (tri_not action_nets) = Some True
         then r_quantity txn else Some 0)"

definition whole_units :: "decimal option \<Rightarrow> int" where
  "whole_units x = (case x of None \<Rightarrow> 0 | Some v \<Rightarrow> py_int v)"

definition sql_net_open_by_group :: "database \<Rightarrow> nat list \<Rightarrow> (nat \<times> string, int) dict" where
  "sql_net_open_by_group db pks =
     (if pks = [] then []
      else map (\<lambda>(key, rows).
             (key, whole_units (sql_sum (map traded_case rows)) - whole_units (sql_max (map removal_case rows))))
           (group_by (\<lambda>txn. ((case r_trade_group_id txn of None \<Rightarrow> 0 | Some g \<Rightarrow> g), str0 (r_security_id txn)))
             (map snd (select_where (\<lambda>(_, txn). [is_in (r_trade_group_id txn) pks, is_not_null (r_security_id txn)])
               (db_transactions db)))))"

section \<open>Activity\<close>

definition sql_account_activity :: "database \<Rightarrow> activity_filter \<Rightarrow> activity_row list" where
  "sql_account_activity db f =
     map (\<lambda>(_, txn).
         let order = join_on (r_order_id txn) (db_orders db);
             grp = join_on (r_trade_group_id txn) (db_trade_groups db)
         in ledger_row.extend (ledger_row.truncate txn)
              (activity_row.fields (map_option o_origin order) (map_option tg_review_status grp)
                 (case order of None \<Rightarrow> None | Some r \<Rightarrow> o_trade_group_id r)))
       (select_where (\<lambda>(_, txn).
            when_given (af_account f) (\<lambda>v. is_value (Some (r_account txn)) (Some v))
          @ day_conditions (r_executed_at txn) (af_start f) (af_end f)
          @ (if af_unreconciled_only f then [is_null (r_order_id txn)] else [])) (db_transactions db))"

end
