(* ===== verification/Store_Laws.thy ===== *)
theory Store_Laws
  imports Memory_Store
begin

text \<open>
  The laws of the in-memory store: the invariant of a ledger (every table keyed by its natural
  key, ids unique), its preservation by every writer, the preserve-if-null contract of orders
  and transactions as interpretations of \<open>preserving_table\<close>, and what attaching transactions
  to a group changes.
\<close>

section \<open>The ledger invariant\<close>

definition ledger_ok :: "ledger \<Rightarrow> bool" where
  "ledger_ok s \<longleftrightarrow>
     table_ok (\<lambda>r. Some (acct_nickname r)) (st_accounts s)
   \<and> table_ok order_key (st_orders s)
   \<and> table_ok leg_row_key (st_legs s)
   \<and> table_ok (\<lambda>r. Some (fl_fill_id r)) (st_fills s)
   \<and> table_ok txn_key (st_transactions s)
   \<and> table_ok security_key (st_securities s)
   \<and> table_ok position_key (st_positions s)
   \<and> table_ok closed_position_key (st_closed_positions s)
   \<and> table_ok trade_group_key (st_trade_groups s)
   \<and> table_ok (\<lambda>_. None) (st_events s)
   \<and> table_ok balance_key (st_balance_snapshots s)"

lemma ledger_ok_tables:
  assumes "ledger_ok s"
  shows "table_ok order_key (st_orders s)" "table_ok txn_key (st_transactions s)"
    "table_ok position_key (st_positions s)" "table_ok closed_position_key (st_closed_positions s)"
    "table_ok trade_group_key (st_trade_groups s)" "table_ok security_key (st_securities s)"
    "table_ok (\<lambda>_. None) (st_events s)"
  using assms by (simp_all add: ledger_ok_def)

named_theorems ledger_ok_intros

lemma ledger_ok_empty: "ledger_ok (ledger_empty now uuid)"
  by (simp add: ledger_ok_def ledger_empty_def table_ok_empty)

lemma ledger_ok_fresh_uuid [ledger_ok_intros]: "ledger_ok s \<Longrightarrow> ledger_ok (snd (fresh_uuid s))"
  by (simp add: ledger_ok_def fresh_uuid_def)

lemma ledger_ok_upsert_account [ledger_ok_intros]: "ledger_ok s \<Longrightarrow> ledger_ok (upsert_account row s)"
  by (simp add: ledger_ok_def upsert_account_def table_ok_upsert)

text \<open>The row an order upsert really stores.\<close>

definition synced_order :: "ledger \<Rightarrow> order_row \<Rightarrow> order_row" where
  "synced_order s row =
     (case (if str_true (o_tt_order_id row) then table_get_by_key (st_orders s) (str0 (o_tt_order_id row)) else None) of
        None \<Rightarrow> row | Some e \<Rightarrow> order_preserve e row)"

lemma upsert_order_alt:
  "upsert_order row s =
     (fst (table_upsert order_key (synced_order s row) (st_orders s)),
      s\<lparr>st_orders := snd (table_upsert order_key (synced_order s row) (st_orders s))\<rparr>)"
  by (simp add: upsert_order_def synced_order_def Let_def case_prod_beta)

lemma ledger_ok_upsert_order [ledger_ok_intros]: "ledger_ok s \<Longrightarrow> ledger_ok (snd (upsert_order row s))"
  by (simp add: ledger_ok_def upsert_order_alt table_ok_upsert)

lemma ledger_ok_upsert_orders [ledger_ok_intros]: "ledger_ok s \<Longrightarrow> ledger_ok (snd (upsert_orders rows s))"
proof (induction rows arbitrary: s)
  case (Cons row rows)
  then have "ledger_ok (snd (upsert_order row s))" by (simp add: ledger_ok_upsert_order)
  with Cons.IH [of "snd (upsert_order row s)"] show ?case by (simp add: case_prod_beta)
qed simp

lemma ledger_ok_upsert_legs [ledger_ok_intros]: "ledger_ok s \<Longrightarrow> ledger_ok (snd (upsert_legs rows s))"
proof (induction rows arbitrary: s)
  case (Cons row rows)
  have "ledger_ok (s\<lparr>st_legs := snd (table_upsert leg_row_key row (st_legs s))\<rparr>)"
    using Cons.prems by (simp add: ledger_ok_def table_ok_upsert)
  from Cons.IH [OF this] show ?case by (simp add: Let_def case_prod_beta)
qed simp

lemma ledger_ok_upsert_fills [ledger_ok_intros]: "ledger_ok s \<Longrightarrow> ledger_ok (upsert_fills rows s)"
  by (induction rows arbitrary: s) (simp_all add: ledger_ok_def table_ok_upsert)

lemma ledger_ok_upsert_transaction: "ledger_ok s \<Longrightarrow> ledger_ok (upsert_transaction row s)"
  by (simp add: ledger_ok_def upsert_transaction_def Let_def table_ok_upsert)

lemma ledger_ok_upsert_transactions [ledger_ok_intros]:
  "ledger_ok s \<Longrightarrow> ledger_ok (upsert_transactions rows s)"
  by (induction rows arbitrary: s) (simp_all add: ledger_ok_upsert_transaction)

lemma ledger_ok_upsert_security [ledger_ok_intros]: "ledger_ok s \<Longrightarrow> ledger_ok (upsert_security sec s)"
  by (simp add: ledger_ok_def upsert_security_def table_ok_upsert)

lemma ledger_ok_upsert_positions [ledger_ok_intros]: "ledger_ok s \<Longrightarrow> ledger_ok (upsert_positions rows s)"
  by (induction rows arbitrary: s) (simp_all add: ledger_ok_def table_ok_upsert)

lemma ledger_ok_upsert_closed_position [ledger_ok_intros]:
  "ledger_ok s \<Longrightarrow> ledger_ok (snd (upsert_closed_position row s))"
  using table_ok_upsert [of closed_position_key "st_closed_positions s" row]
  by (auto simp: ledger_ok_def upsert_closed_position_def split: prod.splits)

lemma ledger_ok_upsert_balance [ledger_ok_intros]: "ledger_ok s \<Longrightarrow> ledger_ok (upsert_balance_snapshot row s)"
  by (simp add: ledger_ok_def upsert_balance_snapshot_def table_ok_upsert)

lemma ledger_ok_upsert_trade_group [ledger_ok_intros]:
  "ledger_ok s \<Longrightarrow> ledger_ok (snd (upsert_trade_group tg s))"
  using table_ok_upsert [of trade_group_key "st_trade_groups s" tg]
  by (auto simp: ledger_ok_def upsert_trade_group_def split: prod.splits)

lemma ledger_ok_add_event [ledger_ok_intros]: "ledger_ok s \<Longrightarrow> ledger_ok (add_trade_group_event ev s)"
  by (simp add: ledger_ok_def add_trade_group_event_def Let_def table_ok_insert)

text \<open>The linking operations mutate rows in place and leave every natural key alone.\<close>

lemma ledger_ok_links [ledger_ok_intros]:
  assumes "ledger_ok s"
  shows "ledger_ok (snd (link_transactions_to_orders account s))"
    and "ledger_ok (snd (link_orders_to_groups account s))"
    and "ledger_ok (snd (link_closed_positions_to_groups account s))"
    and "ledger_ok (snd (link_transactions_to_positions links s))"
    and "ledger_ok (attach_transactions_to_trade_group ids pk s)"
    and "ledger_ok (move_transactions_to_group txn_ids pk' s)"
  using assms
  by (auto simp: ledger_ok_def link_transactions_to_orders_def link_orders_to_groups_def
      link_closed_positions_to_groups_def link_transactions_to_positions_def
      attach_transactions_to_trade_group_def move_transactions_to_group_def Let_def
      txn_key_def order_key_def closed_position_key_def
      intro!: table_ok_modify split: option.splits)

text \<open>One write of the store.\<close>

inductive ledger_write :: "ledger \<Rightarrow> ledger \<Rightarrow> bool" where
  "ledger_write s (upsert_account account_row s)"
| "ledger_write s (snd (upsert_order order_row s))"
| "ledger_write s (snd (upsert_orders order_rows s))"
| "ledger_write s (snd (upsert_legs leg_rows s))"
| "ledger_write s (upsert_fills fill_rows s)"
| "ledger_write s (upsert_transaction txn s)"
| "ledger_write s (upsert_transactions txns s)"
| "ledger_write s (upsert_security sec s)"
| "ledger_write s (upsert_positions positions s)"
| "ledger_write s (snd (upsert_closed_position cp s))"
| "ledger_write s (upsert_balance_snapshot snapshot s)"
| "ledger_write s (snd (upsert_trade_group tg s))"
| "ledger_write s (add_trade_group_event ev s)"
| "ledger_write s (snd (link_transactions_to_orders account s))"
| "ledger_write s (snd (link_orders_to_groups account s))"
| "ledger_write s (snd (link_closed_positions_to_groups account s))"
| "ledger_write s (snd (link_transactions_to_positions links s))"
| "ledger_write s (attach_transactions_to_trade_group ids pk s)"
| "ledger_write s (move_transactions_to_group txn_ids pk' s)"

lemma ledger_ok_write: "ledger_write s s' \<Longrightarrow> ledger_ok s \<Longrightarrow> ledger_ok s'"
  by (induction rule: ledger_write.induct)
    (simp_all add: ledger_ok_intros ledger_ok_upsert_transaction)

section \<open>Properties closed under writes\<close>

text \<open>A property of ledgers that every write of the store keeps, and a drawn identifier and the passing
  of time: whatever is made of writes keeps it. Well-formedness is one; another is to hold every
  row of an earlier ledger still.\<close>

named_theorems write_closed

locale store_closed =
  fixes P :: "ledger \<Rightarrow> bool"
  assumes closed_write: "ledger_write s s' \<Longrightarrow> P s \<Longrightarrow> P s'"
    and closed_uuid [write_closed]: "P s \<Longrightarrow> P (snd (fresh_uuid s))"
    and closed_clock [write_closed]: "P s \<Longrightarrow> P (s\<lparr>env_now := t\<rparr>)"
begin

lemma closed_writes [write_closed]:
  "P s \<Longrightarrow> P (upsert_account account_row s)"
  "P s \<Longrightarrow> P (snd (upsert_order order_row s))"
  "P s \<Longrightarrow> P (snd (upsert_orders order_rows s))"
  "P s \<Longrightarrow> P (snd (upsert_legs leg_rows s))"
  "P s \<Longrightarrow> P (upsert_fills fill_rows s)"
  "P s \<Longrightarrow> P (upsert_transaction txn s)"
  "P s \<Longrightarrow> P (upsert_transactions txns s)"
  "P s \<Longrightarrow> P (upsert_security sec s)"
  "P s \<Longrightarrow> P (upsert_positions positions s)"
  "P s \<Longrightarrow> P (snd (upsert_closed_position cp s))"
  "P s \<Longrightarrow> P (upsert_balance_snapshot snapshot s)"
  "P s \<Longrightarrow> P (snd (upsert_trade_group tg s))"
  "P s \<Longrightarrow> P (add_trade_group_event ev s)"
  "P s \<Longrightarrow> P (snd (link_transactions_to_orders account s))"
  "P s \<Longrightarrow> P (snd (link_orders_to_groups account s))"
  "P s \<Longrightarrow> P (snd (link_closed_positions_to_groups account s))"
  "P s \<Longrightarrow> P (snd (link_transactions_to_positions links s))"
  "P s \<Longrightarrow> P (attach_transactions_to_trade_group ids pk s)"
  "P s \<Longrightarrow> P (move_transactions_to_group txn_ids pk' s)"
  by (blast intro: closed_write ledger_write.intros)+

end

interpretation ok: store_closed ledger_ok
  by unfold_locales (auto simp: ledger_ok_write ledger_ok_fresh_uuid, simp add: ledger_ok_def)

lemma ledger_ok_reachable: "ledger_write\<^sup>*\<^sup>* s s' \<Longrightarrow> ledger_ok s \<Longrightarrow> ledger_ok s'"
  by (induction rule: rtranclp_induct) (simp_all add: ledger_ok_write)

text \<open>
  Every writer of the store keeps the ledger well formed, so a natural key names
  at most one row under one surrogate id whatever sequence of upserts, links, attachments and
  moves has run.\<close>

theorem reachable_ledger_keys_unique:
  assumes "ledger_write\<^sup>*\<^sup>* (ledger_empty now uuid) s"
  shows "ledger_ok s \<and> (table_get (st_transactions s) i = Some t \<longrightarrow> table_get (st_transactions s) j = Some u
           \<longrightarrow> r_tt_transaction_id t = r_tt_transaction_id u \<longrightarrow> i = j)"
proof -
  have ok: "ledger_ok s" by (rule ledger_ok_reachable [OF assms ledger_ok_empty])
  have "table_ok txn_key (st_transactions s)" using ok by (simp add: ledger_ok_def)
  from table_ok_unique [OF this, of i t j u "r_tt_transaction_id t"] ok show ?thesis
    by (auto simp: table_get_def txn_key_def)
qed

theorem reachable_ledger_keys_unique_witness:
  "\<forall>sec tg now uuid. ledger_ok (upsert_security sec (snd (upsert_trade_group tg (ledger_empty now uuid))))"
proof (intro allI)
  fix sec tg now uuid
  have "ledger_write\<^sup>*\<^sup>* (ledger_empty now uuid) (upsert_security sec (snd (upsert_trade_group tg (ledger_empty now uuid))))"
    by (blast intro: rtranclp.intros ledger_write.intros)
  from reachable_ledger_keys_unique [OF this] show "ledger_ok (upsert_security sec (snd (upsert_trade_group tg (ledger_empty now uuid))))"
    by (rule conjunct1)
qed

section \<open>Resync keeps the linkage\<close>

lemma or_else_case: "or_else a b = (case a of None \<Rightarrow> b | Some x \<Rightarrow> Some x)"
  by (simp add: or_else_def)

interpretation txn_group: preserving_table txn_key "table_upsert txn_key" table_get_by_key table_id_of
  table_all "table_ok txn_key" txn_preserve r_trade_group_id
  by unfold_locales (simp_all add: txn_key_def txn_preserve_def or_else_def)

interpretation txn_order: preserving_table txn_key "table_upsert txn_key" table_get_by_key table_id_of
  table_all "table_ok txn_key" txn_preserve r_order_id
  by unfold_locales (simp_all add: txn_key_def txn_preserve_def or_else_def)

interpretation order_group: preserving_table order_key "table_upsert order_key" table_get_by_key table_id_of
  table_all "table_ok order_key" order_preserve o_trade_group_id
  by unfold_locales (simp_all add: order_key_def order_preserve_def or_else_def)

lemma upsert_transaction_resync:
  "st_transactions (upsert_transaction row s) = snd (txn_group.resync row (st_transactions s))"
  by (simp add: upsert_transaction_def txn_group.resync_def txn_key_def)

lemma upsert_order_resync:
  "o_tt_order_id row \<noteq> Some [] \<Longrightarrow>
     st_orders (snd (upsert_order row s)) = snd (order_group.resync row (st_orders s))"
  by (auto simp: upsert_order_alt synced_order_def order_group.resync_def order_key_def str_true_def
      split: option.splits)

text \<open>
  Re-upserting a transaction that already belongs to a trade group and an order, from a broker row
  that knows neither, replaces its broker columns and keeps group and order; no other transaction
  changes.\<close>

theorem resync_keeps_attribution:
  assumes ok: "ledger_ok s"
    and t: "table_get_by_key (st_transactions s) (r_tt_transaction_id row) = Some t"
    and linked: "r_trade_group_id t = Some g" "r_order_id t = Some oid"
    and bare: "r_trade_group_id row = None" "r_order_id row = None"
    and other: "tid \<noteq> r_tt_transaction_id row"
  shows "(\<exists>t'. table_get_by_key (st_transactions (upsert_transaction row s)) (r_tt_transaction_id row) = Some t'
      \<and> r_trade_group_id t' = Some g \<and> r_order_id t' = Some oid \<and> t_value t' = t_value row)
    \<and> table_get_by_key (st_transactions (upsert_transaction row s)) tid
       = table_get_by_key (st_transactions s) tid"
proof
  note tab = ledger_ok_tables(2) [OF ok]
  have key: "txn_key row = Some (r_tt_transaction_id row)" by (simp add: txn_key_def)
  from txn_group.resync_keeps_link [OF tab key t linked(1) bare(1)]
    txn_order.resync_keeps_link [OF tab key t linked(2) bare(2)] txn_group.resync_stored [OF tab key]
  show "\<exists>t'. table_get_by_key (st_transactions (upsert_transaction row s)) (r_tt_transaction_id row) = Some t'
      \<and> r_trade_group_id t' = Some g \<and> r_order_id t' = Some oid \<and> t_value t' = t_value row"
    unfolding upsert_transaction_resync
    by (auto simp: t txn_group.resync_def txn_order.resync_def txn_preserve_def)
  show "table_get_by_key (st_transactions (upsert_transaction row s)) tid
      = table_get_by_key (st_transactions s) tid"
    unfolding upsert_transaction_resync by (rule txn_group.resync_frame [OF tab key other])
qed

definition example_txn :: "string \<Rightarrow> nat option \<Rightarrow> decimal \<Rightarrow> txn_row" where
  "example_txn tid group_pk v =
     ledger_row.extend
       \<lparr> r_tt_transaction_id = tid, r_tt_order_id = None, r_account = ''acct'',
         r_transaction_type = Some ''Trade'', r_transaction_sub_type = None,
         r_action = Some ''Buy to Open'', r_security_id = Some ''opt'', r_underlying = None,
         r_quantity = Some 1, r_price = Some 1, r_net_value = None, r_net_value_effect = None,
         r_commission = None, r_clearing_fees = None, r_regulatory_fees = None,
         r_proprietary_index_option_fees = None, r_order_id = group_pk, r_trade_group_id = group_pk,
         r_executed_at = Some 0 \<rparr>
       (txn_row.fields None ''tastytrade'' (Some v) None None None None None None None)"

lemma example_txn_fields [simp]:
  "r_tt_transaction_id (example_txn tid g v) = tid" "r_trade_group_id (example_txn tid g v) = g"
  "r_order_id (example_txn tid g v) = g" "t_value (example_txn tid g v) = Some v"
  by (simp_all add: example_txn_def ledger_row.defs txn_row.defs)

theorem resync_keeps_attribution_witness:
  "\<exists>t'. table_get_by_key (st_transactions (upsert_transaction (example_txn ''1'' None 9)
            (upsert_transaction (example_txn ''1'' (Some 4) 5) (ledger_empty 0 (\<lambda>_. []))))) ''1'' = Some t'
      \<and> r_trade_group_id t' = Some 4 \<and> t_value t' = Some 9"
proof -
  let ?s = "upsert_transaction (example_txn ''1'' (Some 4) 5) (ledger_empty 0 (\<lambda>_. []))"
  have ok: "ledger_ok ?s" by (simp add: ledger_ok_upsert_transaction ledger_ok_empty)
  have t: "table_get_by_key (st_transactions ?s) (r_tt_transaction_id (example_txn ''1'' None 9))
      = Some (example_txn ''1'' (Some 4) 5)"
    using tbl.upsert_stored [OF table_ok_empty, of txn_key "example_txn ''1'' (Some 4) 5" "''1''"]
    by (simp add: upsert_transaction_def ledger_empty_def txn_key_def table_get_by_key_def table_empty_def)
  have "''2'' \<noteq> r_tt_transaction_id (example_txn ''1'' None 9)" by simp
  from resync_keeps_attribution [OF ok t, of 4 4 "''2''"] this show ?thesis by auto
qed

section \<open>Attaching transactions\<close>

text \<open>What a run of attachments does to the transactions: rows whose id is in \<open>ids\<close> end up in
  some group, every other row is as it was, and nothing but the group changes.\<close>

definition attaches :: "string set \<Rightarrow> ledger \<Rightarrow> ledger \<Rightarrow> bool" where
  "attaches ids s s' \<longleftrightarrow>
     (\<exists>h. st_transactions s' = table_modify
            (\<lambda>_ t. t\<lparr>r_trade_group_id := h (r_tt_transaction_id t) (r_trade_group_id t)\<rparr>) (st_transactions s)
        \<and> (\<forall>tid g. tid \<notin> ids \<longrightarrow> h tid g = g) \<and> (\<forall>tid g. tid \<in> ids \<longrightarrow> h tid g \<noteq> None))"

lemma table_modify_comp: "table_modify f (table_modify g t) = table_modify (\<lambda>i r. f i (g i r)) t"
  by (simp add: table_modify_def comp_def case_prod_beta)

lemma table_modify_id: "(\<And>i r. f i r = r) \<Longrightarrow> table_modify f t = t"
  by (simp add: table_modify_def case_prod_beta)

lemma st_transactions_upsert_positions [simp]: "st_transactions (upsert_positions rows s) = st_transactions s"
  by (induction rows arbitrary: s) simp_all

lemma attaches_refl: "st_transactions s' = st_transactions s \<Longrightarrow> attaches {} s s'"
  unfolding attaches_def by (rule exI [of _ "\<lambda>_ g. g"]) (simp add: table_modify_id)

lemma attaches_trans:
  assumes "attaches A s s'" and "attaches B s' s''"
  shows "attaches (A \<union> B) s s''"
proof -
  obtain h where h: "st_transactions s' = table_modify
            (\<lambda>_ t. t\<lparr>r_trade_group_id := h (r_tt_transaction_id t) (r_trade_group_id t)\<rparr>) (st_transactions s)"
    "\<And>tid g. tid \<notin> A \<Longrightarrow> h tid g = g" "\<And>tid g. tid \<in> A \<Longrightarrow> h tid g \<noteq> None"
    using assms(1) by (auto simp: attaches_def)
  obtain k where k: "st_transactions s'' = table_modify
            (\<lambda>_ t. t\<lparr>r_trade_group_id := k (r_tt_transaction_id t) (r_trade_group_id t)\<rparr>) (st_transactions s')"
    "\<And>tid g. tid \<notin> B \<Longrightarrow> k tid g = g" "\<And>tid g. tid \<in> B \<Longrightarrow> k tid g \<noteq> None"
    using assms(2) by (auto simp: attaches_def)
  have "st_transactions s'' = table_modify
      (\<lambda>_ t. t\<lparr>r_trade_group_id := k (r_tt_transaction_id t) (h (r_tt_transaction_id t) (r_trade_group_id t))\<rparr>)
      (st_transactions s)"
    unfolding k(1) h(1) table_modify_comp by simp
  moreover have "k tid (h tid g) \<noteq> None" if "tid \<in> A \<union> B" for tid g
    using that h(3) k(2,3) by (cases "tid \<in> B") auto
  ultimately show ?thesis
    unfolding attaches_def using h(2) k(2) by (intro exI [of _ "\<lambda>tid g. k tid (h tid g)"]) auto
qed

lemma attaches_same: "st_transactions s'' = st_transactions s' \<Longrightarrow> attaches A s s' \<Longrightarrow> attaches A s s''"
  by (simp add: attaches_def)

lemma attaches_attach: "attaches (set ids) s (attach_transactions_to_trade_group ids pk s)"
  unfolding attaches_def attach_transactions_to_trade_group_def
  by (rule exI [of _ "\<lambda>tid g. if tid \<in> set ids then Some pk else g"])
    (auto intro!: arg_cong [where f = "\<lambda>f. table_modify f (st_transactions s)"] ext)

lemma attaches_get:
  assumes "attaches ids s s'"
  shows "\<exists>h. (\<forall>i. table_get (st_transactions s') i =
            map_option (\<lambda>t. t\<lparr>r_trade_group_id := h (r_tt_transaction_id t) (r_trade_group_id t)\<rparr>)
              (table_get (st_transactions s) i))
        \<and> (\<forall>tid g. tid \<notin> ids \<longrightarrow> h tid g = g) \<and> (\<forall>tid g. tid \<in> ids \<longrightarrow> h tid g \<noteq> None)"
  using assms by (auto simp: attaches_def)

end
