(* ===== verification/Sql_Laws.thy ===== *)
theory Sql_Laws
  imports Sql_Store Store_Laws
begin

text \<open>
  The two implementations of the \<open>LedgerStore\<close> protocol against each other. \<open>sql_of\<close> is the database
  an in-memory ledger corresponds to; every write commutes with it, the identifiers it returns
  included, so a sequence of calls the database accepts leaves the corresponding state.
\<close>

section \<open>The database of a ledger\<close>

definition sql_of :: "ledger \<Rightarrow> database" where
  "sql_of s =
     \<lparr> db_accounts = rows_of id (st_accounts s), db_orders = rows_of stored_order (st_orders s),
       db_legs = rows_of stored_leg (st_legs s), db_fills = rows_of stored_fill (st_fills s),
       db_transactions = rows_of stored_txn (st_transactions s),
       db_securities = rows_of stored_security (st_securities s),
       db_positions = rows_of stored_position (st_positions s),
       db_closed_positions = rows_of stored_closed_position (st_closed_positions s),
       db_trade_groups = rows_of stored_trade_group (st_trade_groups s),
       db_events = rows_of stored_event (st_events s),
       db_balance_snapshots = rows_of stored_balance (st_balance_snapshots s), db_now = env_now s \<rparr>"

text \<open>Ids without gaps, as a store that never deletes hands them out.\<close>

definition ledger_dense :: "ledger \<Rightarrow> bool" where
  "ledger_dense s \<longleftrightarrow>
     dense (st_accounts s) \<and> dense (st_orders s) \<and> dense (st_legs s) \<and> dense (st_fills s)
   \<and> dense (st_transactions s) \<and> dense (st_securities s) \<and> dense (st_positions s)
   \<and> dense (st_closed_positions s) \<and> dense (st_trade_groups s) \<and> dense (st_events s)
   \<and> dense (st_balance_snapshots s)"

definition ledger_inv :: "ledger \<Rightarrow> bool" where
  "ledger_inv s \<longleftrightarrow> ledger_ok s \<and> ledger_dense s"

lemmas stored_defs = stored_order_def stored_leg_def stored_fill_def stored_txn_def stored_security_def
  stored_position_def stored_closed_position_def stored_trade_group_def stored_event_def stored_balance_def

text \<open>Storing touches no key, no link and no instant.\<close>

lemma stored_order_fields [simp]:
  "o_tt_order_id (stored_order r) = o_tt_order_id r" "o_account (stored_order r) = o_account r"
  "o_trade_group_id (stored_order r) = o_trade_group_id r" "o_signal_id (stored_order r) = o_signal_id r"
  "o_origin (stored_order r) = o_origin r" "order_key (stored_order r) = order_key r"
  "stored_order (r\<lparr>o_trade_group_id := g\<rparr>) = (stored_order r)\<lparr>o_trade_group_id := g\<rparr>"
  by (simp_all add: stored_order_def order_key_def)

lemma stored_txn_fields [simp]:
  "r_tt_transaction_id (stored_txn r) = r_tt_transaction_id r" "r_tt_order_id (stored_txn r) = r_tt_order_id r"
  "r_account (stored_txn r) = r_account r" "r_trade_group_id (stored_txn r) = r_trade_group_id r"
  "r_order_id (stored_txn r) = r_order_id r" "txn_key (stored_txn r) = txn_key r"
  "stored_txn (r\<lparr>r_trade_group_id := g\<rparr>) = (stored_txn r)\<lparr>r_trade_group_id := g\<rparr>"
  "stored_txn (r\<lparr>r_order_id := g\<rparr>) = (stored_txn r)\<lparr>r_order_id := g\<rparr>"
  "stored_txn (r\<lparr>t_position_id := a, t_closed_position_id := b\<rparr>)
     = (stored_txn r)\<lparr>t_position_id := a, t_closed_position_id := b\<rparr>"
  by (simp_all add: stored_txn_def txn_key_def)

lemma stored_closed_fields [simp]:
  "cp_account (stored_closed_position r) = cp_account r"
  "cp_trade_group_id (stored_closed_position r) = cp_trade_group_id r"
  "cp_closing_order_id (stored_closed_position r) = cp_closing_order_id r"
  "closed_position_key (stored_closed_position r) = closed_position_key r"
  "stored_closed_position (r\<lparr>cp_trade_group_id := g\<rparr>) = (stored_closed_position r)\<lparr>cp_trade_group_id := g\<rparr>"
  by (simp_all add: stored_closed_position_def closed_position_key_def)

lemma stored_keys [simp]:
  "leg_row_key (stored_leg l) = leg_row_key l" "fl_fill_id (stored_fill f) = fl_fill_id f"
  "fl_order_id (stored_fill f) = fl_order_id f"
  "security_key (stored_security c) = security_key c" "position_key (stored_position p) = position_key p"
  "trade_group_key (stored_trade_group g) = trade_group_key g" "balance_key (stored_balance b) = balance_key b"
  by (simp_all add: stored_defs leg_row_key_def security_key_def position_key_def trade_group_key_def balance_key_def)

lemma coalesce_or_else: "coalesce = or_else"
  by (intro ext) (simp add: coalesce_def or_else_def)

lemma txn_update_cols_stored: "txn_update_cols (stored_txn e) (stored_txn r) = stored_txn (txn_preserve e r)"
  by (simp add: txn_update_cols_def txn_preserve_def stored_txn_def coalesce_or_else)

lemma order_update_cols_stored: "order_update_cols (stored_order e) (stored_order r) = stored_order (order_preserve e r)"
  by (simp add: order_update_cols_def order_preserve_def stored_order_def coalesce_or_else)

lemma preserve_keys: "txn_key (txn_preserve e r) = txn_key r" "order_key (order_preserve e' r') = order_key r'"
  by (simp_all add: txn_preserve_def order_preserve_def txn_key_def order_key_def)

section \<open>Upserts\<close>

text \<open>A run of upserts over one table.\<close>

fun table_upserts :: "('v \<Rightarrow> 'k option) \<Rightarrow> ('v \<Rightarrow> 'v \<Rightarrow> 'v) \<Rightarrow> 'v list \<Rightarrow> ('k, 'v) ptable \<Rightarrow> nat list \<times> ('k, 'v) ptable" where
  "table_upserts key_of merge [] t = ([], t)"
| "table_upserts key_of merge (r # rs) t =
     (let (i, t1) = table_upsert key_of (merged key_of merge t r) t;
          (ids, t2) = table_upserts key_of merge rs t1
      in (i # ids, t2))"

lemma table_upserts_inv:
  assumes "table_ok key_of t" and "dense t"
  shows "table_ok key_of (snd (table_upserts key_of merge rs t)) \<and> dense (snd (table_upserts key_of merge rs t))"
  using assms
proof (induction rs arbitrary: t)
  case (Cons r rs)
  let ?t = "snd (table_upsert key_of (merged key_of merge t r) t)"
  have "table_ok key_of ?t" "dense ?t" using Cons.prems by (simp_all add: table_ok_upsert dense_upsert)
  from Cons.IH [OF this] show ?case by (simp add: Let_def case_prod_beta)
qed simp

lemma upsert_rows_sim:
  assumes "table_ok key_of t" and "dense t" and key: "\<And>r. key_of (dec r) = key_of r"
    and merge_key: "\<And>e r. key_of (merge e r) = key_of r"
    and merge: "\<And>e r. u (dec e) (dec r) = dec (merge e r)"
  shows "upsert_rows m key_of u (map dec rows) (rows_of dec t) =
     (fst (table_upserts key_of merge rows t), rows_of dec (snd (table_upserts key_of merge rows t)))"
  unfolding upsert_rows_statement using assms(1,2)
proof (induction rows arbitrary: t)
  case (Cons r rows)
  let ?t = "snd (table_upsert key_of (merged key_of merge t r) t)"
  have "insert_on_conflict key_of u (dec r) (rows_of dec t)
      = (fst (table_upsert key_of (merged key_of merge t r) t), rows_of dec ?t)"
    using Cons.prems by (intro insert_on_conflict_sim key merge_key merge)
  moreover have "table_ok key_of ?t" "dense ?t" using Cons.prems by (simp_all add: table_ok_upsert dense_upsert)
  ultimately show ?case using Cons.IH [of ?t] by (simp add: Let_def case_prod_beta)
qed simp

text \<open>Overwriting is merging into the new row.\<close>

lemma merged_excluded: "merged key_of excluded_row t r = r"
  by (simp add: merged_def excluded_row_def split: option.split)

lemma key_unfold: "o_tt_order_id = order_key" "(\<lambda>r. Some (lg_order_id r, lg_leg_index r)) = leg_row_key"
    "(\<lambda>r. Some (r_tt_transaction_id r)) = txn_key" "(\<lambda>r. Some (sec_security_id r)) = security_key"
    "(\<lambda>r. Some (ps_account r, ps_security_id r)) = position_key"
    "(\<lambda>r. Some (bs_account r, bs_captured_at r, bs_source r)) = balance_key"
    "(\<lambda>r. Some (tg_group_id r)) = trade_group_key"
  by (intro ext, simp add: order_key_def leg_row_key_def txn_key_def security_key_def position_key_def
      balance_key_def trade_group_key_def)+

lemma mem_upsert_orders:
  assumes "Some [] \<notin> o_tt_order_id ` set rows"
  shows "upsert_orders rows s =
     (fst (table_upserts order_key order_preserve rows (st_orders s)),
      s\<lparr>st_orders := snd (table_upserts order_key order_preserve rows (st_orders s))\<rparr>)"
  using assms
proof (induction rows arbitrary: s)
  case (Cons row rows)
  have "synced_order s row = merged order_key order_preserve (st_orders s) row"
    using Cons.prems by (cases "o_tt_order_id row") (auto simp: synced_order_def merged_def order_key_def str_true_def str0_def)
  then show ?case using Cons by (simp add: upsert_order_alt Let_def case_prod_beta)
qed simp

lemma mem_upsert_legs:
  "upsert_legs rows s =
     (fst (table_upserts leg_row_key excluded_row rows (st_legs s)),
      s\<lparr>st_legs := snd (table_upserts leg_row_key excluded_row rows (st_legs s))\<rparr>)"
  by (induction rows arbitrary: s) (simp_all add: merged_excluded Let_def case_prod_beta)

lemma mem_upsert_fills:
  "upsert_fills rows s =
     s\<lparr>st_fills := snd (table_upserts (\<lambda>r. Some (fl_fill_id r)) excluded_row rows (st_fills s))\<rparr>"
  by (induction rows arbitrary: s) (simp_all add: merged_excluded Let_def case_prod_beta)

lemma mem_upsert_transactions:
  "upsert_transactions rows s =
     s\<lparr>st_transactions := snd (table_upserts txn_key txn_preserve rows (st_transactions s))\<rparr>"
  by (induction rows arbitrary: s)
    (simp_all add: upsert_transaction_def merged_def txn_key_def Let_def case_prod_beta)

lemma mem_upsert_positions:
  "upsert_positions rows s =
     s\<lparr>st_positions := snd (table_upserts position_key excluded_row rows (st_positions s))\<rparr>"
  by (induction rows arbitrary: s) (simp_all add: merged_excluded Let_def case_prod_beta)


lemmas tables_of_inv = ledger_inv_def ledger_ok_def ledger_dense_def

lemma sql_upsert_orders_sim:
  assumes "ledger_inv s" and "Some [] \<notin> o_tt_order_id ` set rows"
  shows "sql_upsert_orders rows (sql_of s) = (fst (upsert_orders rows s), sql_of (snd (upsert_orders rows s)))"
proof -
  have "upsert_rows orders_model order_key order_update_cols (map stored_order rows) (rows_of stored_order (st_orders s))
      = (fst (table_upserts order_key order_preserve rows (st_orders s)),
         rows_of stored_order (snd (table_upserts order_key order_preserve rows (st_orders s))))"
    using assms(1) by (intro upsert_rows_sim) (simp_all add: tables_of_inv order_update_cols_stored preserve_keys)
  then show ?thesis
    by (simp add: sql_upsert_orders_def mem_upsert_orders [OF assms(2)] sql_of_def key_unfold)
qed

lemma excluded_sim: "excluded_row (dec e) (dec r) = dec (excluded_row e r)" "key_of (excluded_row e r) = key_of r"
  by (simp_all add: excluded_row_def)

lemma sql_upsert_legs_sim:
  assumes "ledger_inv s"
  shows "sql_upsert_legs rows (sql_of s) = (fst (upsert_legs rows s), sql_of (snd (upsert_legs rows s)))"
proof -
  have "upsert_rows order_legs_model leg_row_key excluded_row (map stored_leg rows) (rows_of stored_leg (st_legs s))
      = (fst (table_upserts leg_row_key excluded_row rows (st_legs s)),
         rows_of stored_leg (snd (table_upserts leg_row_key excluded_row rows (st_legs s))))"
    using assms by (intro upsert_rows_sim) (simp_all add: tables_of_inv excluded_row_def)
  then show ?thesis by (simp add: sql_upsert_legs_def mem_upsert_legs sql_of_def key_unfold)
qed

lemma sql_upsert_fills_sim:
  assumes "ledger_inv s" and "None \<notin> fl_order_id ` set rows"
  shows "sql_upsert_fills rows (sql_of s) = Inr (sql_of (upsert_fills rows s))"
proof -
  have "upsert_rows order_fills_model (\<lambda>r. Some (fl_fill_id r)) excluded_row (map stored_fill rows) (rows_of stored_fill (st_fills s))
      = (fst (table_upserts (\<lambda>r. Some (fl_fill_id r)) excluded_row rows (st_fills s)),
         rows_of stored_fill (snd (table_upserts (\<lambda>r. Some (fl_fill_id r)) excluded_row rows (st_fills s))))"
    using assms(1) by (intro upsert_rows_sim) (simp_all add: tables_of_inv excluded_row_def)
  moreover have "\<not> list_ex (\<lambda>r. fl_order_id r = None) rows" using assms(2) by (force simp: list_ex_iff)
  ultimately show ?thesis by (simp add: sql_upsert_fills_def mem_upsert_fills sql_of_def)
qed

lemma sql_upsert_transactions_sim:
  assumes "ledger_inv s"
  shows "sql_upsert_transactions rows (sql_of s) = sql_of (upsert_transactions rows s)"
proof -
  have "upsert_rows transactions_model txn_key txn_update_cols (map stored_txn rows) (rows_of stored_txn (st_transactions s))
      = (fst (table_upserts txn_key txn_preserve rows (st_transactions s)),
         rows_of stored_txn (snd (table_upserts txn_key txn_preserve rows (st_transactions s))))"
    using assms by (intro upsert_rows_sim) (simp_all add: tables_of_inv txn_update_cols_stored preserve_keys)
  then show ?thesis by (simp add: sql_upsert_transactions_def mem_upsert_transactions sql_of_def key_unfold)
qed

lemma sql_upsert_positions_sim:
  assumes "ledger_inv s"
  shows "sql_upsert_positions rows (sql_of s) = sql_of (upsert_positions rows s)"
proof -
  have "upsert_rows positions_model position_key excluded_row (map stored_position rows) (rows_of stored_position (st_positions s))
      = (fst (table_upserts position_key excluded_row rows (st_positions s)),
         rows_of stored_position (snd (table_upserts position_key excluded_row rows (st_positions s))))"
    using assms by (intro upsert_rows_sim) (simp_all add: tables_of_inv excluded_row_def)
  then show ?thesis by (simp add: sql_upsert_positions_def mem_upsert_positions sql_of_def key_unfold)
qed

text \<open>The single-row upserts.\<close>

lemma upsert_row_sim:
  assumes "table_ok key_of t" and "dense t" and "\<And>r. key_of (dec r) = key_of r"
  shows "upsert_rows m key_of excluded_row [dec r] (rows_of dec t)
      = ([fst (table_upsert key_of r t)], rows_of dec (snd (table_upsert key_of r t)))"
  using upsert_rows_sim [of key_of t dec excluded_row excluded_row m "[r]"] assms
  by (simp add: excluded_row_def merged_excluded Let_def case_prod_beta)

lemma sql_upsert_security_sim:
  assumes "ledger_inv s"
  shows "sql_upsert_security sec (sql_of s) = sql_of (upsert_security sec s)"
  using assms upsert_row_sim [of security_key "st_securities s" stored_security securities_model sec]
  by (simp add: sql_upsert_security_def upsert_security_def sql_of_def key_unfold tables_of_inv)

lemma sql_upsert_balance_sim:
  assumes "ledger_inv s"
  shows "sql_upsert_balance_snapshot row (sql_of s) = sql_of (upsert_balance_snapshot row s)"
  using assms upsert_row_sim [of balance_key "st_balance_snapshots s" stored_balance balance_snapshots_model row]
  by (simp add: sql_upsert_balance_snapshot_def upsert_balance_snapshot_def sql_of_def key_unfold tables_of_inv)

lemma sql_upsert_trade_group_sim:
  assumes "ledger_inv s"
  shows "sql_upsert_trade_group tg (sql_of s) = (fst (upsert_trade_group tg s), sql_of (snd (upsert_trade_group tg s)))"
  using assms upsert_row_sim [of trade_group_key "st_trade_groups s" stored_trade_group trade_groups_model tg]
  by (simp add: sql_upsert_trade_group_def upsert_trade_group_def sql_of_def key_unfold tables_of_inv case_prod_beta)

definition account_accepted :: "account_row \<Rightarrow> ledger \<Rightarrow> bool" where
  "account_accepted row s \<longleftrightarrow>
     acct_login row \<noteq> None
   \<and> list_all (\<lambda>(_, a). acct_account_number a = acct_account_number row \<longrightarrow> acct_nickname a = acct_nickname row)
       (table_all (st_accounts s))"

lemma sql_upsert_account_sim:
  assumes "ledger_inv s" and "account_accepted row s"
  shows "sql_upsert_account row (sql_of s) = Inr (sql_of (upsert_account row s))"
proof -
  have "\<not> list_ex (\<lambda>(_, a). acct_account_number a = acct_account_number row \<and> acct_nickname a \<noteq> acct_nickname row)
      (rows_of id (st_accounts s))"
    using assms(2) by (auto simp: account_accepted_def list_ex_iff list_all_iff rows_of_def table_all_def)
  then show ?thesis
    using assms upsert_row_sim [of "\<lambda>r. Some (acct_nickname r)" "st_accounts s" id accounts_model row]
    by (simp add: sql_upsert_account_def upsert_account_def sql_of_def tables_of_inv account_accepted_def)
qed

text \<open>The closed positions, whose conflict is found by a SELECT.\<close>

lemma first_where_find: "(case filter P xs of [] \<Rightarrow> None | p # _ \<Rightarrow> Some p) = find P xs"
  by (induction xs) simp_all

lemma update_one_row:
  assumes "i \<in> fst ` set t" and "distinct (map fst t)"
  shows "snd (update_where (\<lambda>(j, _). [is_value (Some j) (Some i)]) (\<lambda>_. v) t) = dict_set i v t"
  using assms
  by (induction t) (force simp: update_where_def sql_conditions case_prod_beta intro!: map_idI)+

lemma sql_upsert_closed_position_sim:
  assumes "ledger_inv s" and "cp_closed_at row \<noteq> None"
  shows "sql_upsert_closed_position row (sql_of s)
      = Inr (fst (upsert_closed_position row s), sql_of (snd (upsert_closed_position row s)))"
proof -
  let ?t = "st_closed_positions s" and ?dec = stored_closed_position
  let ?db = "rows_of ?dec ?t" and ?k = "(cp_account row, cp_security_id row, cp_opened_at row, cp_closed_at row)"
  have ok: "table_ok closed_position_key ?t" and "dense ?t"
    using assms(1) by (simp_all add: tables_of_inv)
  have same_key: "is_value (Some (cp_account r)) (Some (cp_account row)) = Some True
      \<and> is_value (Some (cp_security_id r)) (Some (cp_security_id row)) = Some True
      \<and> is_value (cp_opened_at r) (cp_opened_at row) = Some True
      \<and> is_value (cp_closed_at r) (cp_closed_at row) = Some True
     \<longleftrightarrow> closed_position_key r = Some ?k" for r
    by (simp add: sql_conditions closed_position_key_def)
  define existing where "existing = select_where
            (\<lambda>(_, r). [is_value (Some (cp_account r)) (Some (cp_account row)),
                       is_value (Some (cp_security_id r)) (Some (cp_security_id row)),
                       is_value (cp_opened_at r) (cp_opened_at row),
                       is_value (cp_closed_at r) (cp_closed_at row)]) ?db"
  have found: "(case existing of [] \<Rightarrow> None | p # _ \<Rightarrow> Some p) = find (\<lambda>p. closed_position_key (snd p) = Some ?k) ?db"
    unfolding existing_def select_where_def first_where_find
    by (simp add: case_prod_beta same_key)
  have step: "insert_on_conflict closed_position_key excluded_row (?dec row) ?db
      = (fst (table_upsert closed_position_key row ?t), rows_of ?dec (snd (table_upsert closed_position_key row ?t)))"
    using insert_on_conflict_sim [OF ok \<open>dense ?t\<close>, of ?dec excluded_row excluded_row row]
    by (simp add: excluded_row_def merged_excluded)
  have conflict: "conflicting closed_position_key (?dec row) ?db = (case existing of [] \<Rightarrow> None | p # _ \<Rightarrow> Some p)"
    by (simp add: conflicting_def found) (simp add: closed_position_key_def)
  show ?thesis
  proof (cases existing)
    case Nil
    then show ?thesis
      using step conflict assms(2)
      by (simp add: sql_upsert_closed_position_def sql_of_def Let_def existing_def [symmetric]
          insert_on_conflict_def upsert_closed_position_def case_prod_beta)
  next
    case (Cons p ps)
    obtain i old where p: "p = (i, old)" by (rule prod.exhaust)
    have "set existing \<subseteq> set ?db" by (auto simp: existing_def select_where_def)
    then have "p \<in> set ?db" using Cons by simp
    then have i: "i \<in> fst ` set ?db" unfolding p by force
    have "distinct (map fst ?db)"
      using table_ok_distinct [OF ok] by (simp add: rows_of_def case_prod_beta comp_def)
    note update = update_one_row [OF i this]
    have "conflicting closed_position_key (?dec row) ?db = Some (i, old)" using conflict Cons p by simp
    then have pair: "(i, dict_set i (?dec row) ?db)
        = (fst (table_upsert closed_position_key row ?t), rows_of ?dec (snd (table_upsert closed_position_key row ?t)))"
      unfolding step [symmetric] by (simp add: insert_on_conflict_def excluded_row_def)
    have "i = fst (table_upsert closed_position_key row ?t)" using pair by (rule Pair_inject)
    moreover have "dict_set i (?dec row) ?db = rows_of ?dec (snd (table_upsert closed_position_key row ?t))"
      using pair by (rule Pair_inject)
    ultimately have "upsert_closed_position row s
        = (i, s\<lparr>st_closed_positions := snd (table_upsert closed_position_key row ?t)\<rparr>)"
      and "sql_of (s\<lparr>st_closed_positions := snd (table_upsert closed_position_key row ?t)\<rparr>)
        = sql_of s\<lparr>db_closed_positions := dict_set i (?dec row) ?db\<rparr>"
      by (simp_all only: upsert_closed_position_def case_prod_beta Let_def) (simp add: sql_of_def)
    then show ?thesis using Cons p assms(2) update
      by (simp add: sql_upsert_closed_position_def Let_def existing_def [symmetric] sql_of_def)
  qed
qed


section \<open>Linking\<close>

lemma join_on_dict: "join_on col sub = (case col of None \<Rightarrow> None | Some k \<Rightarrow> dict_get sub k)"
proof (cases col)
  case (Some k)
  have "map_option snd (find (\<lambda>q. equals (Some k) (Some (fst q)) = Some True) sub) = dict_get sub k"
    by (induction sub) (auto simp: sql_conditions)
  then show ?thesis using Some by (simp add: join_on_def)
qed (induction sub, auto simp: join_on_def equals_def)

lemma dict_get_rows_of: "dict_get (rows_of dec t) i = map_option dec (table_get t i)"
  unfolding rows_of_def table_get_def by (induction "tb_rows t") (auto simp: map_of_map_values)

text \<open>The counts the in-memory store returns.\<close>

definition attached_count :: "string list \<Rightarrow> ledger \<Rightarrow> nat" where
  "attached_count ids s =
     length (filter (\<lambda>(_, txn). r_tt_transaction_id txn \<in> set ids) (table_all (st_transactions s)))"

definition moved_count :: "nat list \<Rightarrow> ledger \<Rightarrow> nat" where
  "moved_count txn_ids s =
     length (filter (\<lambda>(row_id, _). row_id \<in> set txn_ids) (table_all (st_transactions s)))"

lemma table_modify_same: "table_modify (\<lambda>_ r. r) t = t"
  by (simp add: table_modify_def)

lemma sql_attach_sim:
  "sql_attach_transactions_to_trade_group ids pk (sql_of s)
     = (attached_count ids s, sql_of (attach_transactions_to_trade_group ids pk s))"
proof (cases "ids = []")
  case True
  then show ?thesis
    by (simp add: sql_attach_transactions_to_trade_group_def attach_transactions_to_trade_group_def
        attached_count_def table_modify_same)
next
  case False
  have "update_where (\<lambda>(_, txn). [is_in (Some (r_tt_transaction_id txn)) ids]) (\<lambda>(_, txn). txn\<lparr>r_trade_group_id := Some pk\<rparr>)
        (rows_of stored_txn (st_transactions s))
      = (length (filter (\<lambda>(i, r). r_tt_transaction_id r \<in> set ids) (tb_rows (st_transactions s))),
         rows_of stored_txn (table_modify
           (\<lambda>i r. if r_tt_transaction_id r \<in> set ids then r\<lparr>r_trade_group_id := Some pk\<rparr> else r) (st_transactions s)))"
    by (rule update_where_sim) (simp_all add: sql_conditions)
  then show ?thesis using False
    by (simp add: sql_attach_transactions_to_trade_group_def attach_transactions_to_trade_group_def sql_of_def
        attached_count_def table_all_def)
qed

lemma sql_move_sim:
  "sql_move_transactions_to_group txn_ids pk (sql_of s)
     = (moved_count txn_ids s, sql_of (move_transactions_to_group txn_ids pk s))"
proof (cases "txn_ids = []")
  case True
  then show ?thesis
    by (simp add: sql_move_transactions_to_group_def move_transactions_to_group_def moved_count_def table_modify_same)
next
  case False
  have "update_where (\<lambda>(i, _). [is_in (Some i) txn_ids]) (\<lambda>(_, txn). txn\<lparr>r_trade_group_id := pk\<rparr>)
        (rows_of stored_txn (st_transactions s))
      = (length (filter (\<lambda>(i, r). i \<in> set txn_ids) (tb_rows (st_transactions s))),
         rows_of stored_txn (table_modify
           (\<lambda>i r. if i \<in> set txn_ids then r\<lparr>r_trade_group_id := pk\<rparr> else r) (st_transactions s)))"
    by (rule update_where_sim) (simp_all add: sql_conditions)
  then show ?thesis using False
    by (simp add: sql_move_transactions_to_group_def move_transactions_to_group_def sql_of_def moved_count_def
        table_all_def)
qed

lemma sql_add_event_sim:
  assumes "ledger_inv s"
  shows "sql_add_trade_group_event ev (sql_of s) = sql_of (add_trade_group_event ev s)"
proof -
  have ok: "table_ok (\<lambda>_. None :: unit option) (st_events s)" and "dense (st_events s)"
    using assms by (simp_all add: tables_of_inv)
  have "snd (insert_row (stored_event e) (rows_of stored_event (st_events s)))
      = rows_of stored_event (snd (table_insert e (st_events s)))" for e
    using insert_on_conflict_sim [OF ok \<open>dense _\<close>, where dec = stored_event and u = excluded_row and merge = excluded_row and row = e]
    by (simp add: insert_on_conflict_def conflicting_def excluded_row_def merged_def table_upsert_def
        table_insert_def Let_def)
  then show ?thesis
    by (simp add: sql_add_trade_group_event_def add_trade_group_event_def sql_of_def Let_def)
qed

text \<open>Association lists built row by row.\<close>

lemma dict_get_somes:
  assumes "distinct (map fst d)"
  shows "dict_get (somes (map (\<lambda>(k, v). map_option (Pair k) (h v)) d)) k
     = (case dict_get d k of None \<Rightarrow> None | Some v \<Rightarrow> h v)"
  using assms
proof (induction d)
  case (Cons p d)
  obtain k' v where p: "p = (k', v)" by (rule prod.exhaust)
  have "k' \<notin> fst ` set d" using Cons.prems p by simp
  then have "dict_get d k' = None" by (simp add: map_of_eq_None_iff)
  then show ?case using Cons p by (cases "h v") auto
qed simp

lemma dict_get_filter_map:
  assumes "distinct (map fst d)"
  shows "dict_get (map (\<lambda>(i, v). (i, f v)) (filter P d)) i
     = (case dict_get d i of None \<Rightarrow> None | Some v \<Rightarrow> if P (i, v) then Some (f v) else None)"
  using assms
proof (induction d)
  case (Cons p d)
  obtain k v where p: "p = (k, v)" by (rule prod.exhaust)
  have "k \<notin> fst ` set d" using Cons.prems p by simp
  then have "dict_get d k = None" by (simp add: map_of_eq_None_iff)
  then show ?case using Cons p by auto
qed simp

lemma dict_get_by_value:
  "dict_get (map (\<lambda>(i, v). (g v, i)) (filter P d)) k = map_option fst (find (\<lambda>p. P p \<and> g (snd p) = k) d)"
  by (induction d) auto

lemma find_only:
  assumes "find Q xs = Some p" and "\<forall>q \<in> set xs. Q q \<longrightarrow> q = p"
  shows "find (\<lambda>q. P q \<and> Q q) xs = (if P p then Some p else None)"
  using assms
proof (induction xs)
  case (Cons x xs)
  show ?case
  proof (cases "Q x")
    case True
    then have "x = p" using Cons.prems(1) by simp
    moreover have "find (\<lambda>q. P q \<and> Q q) xs = None" if "\<not> P p"
      using Cons.prems(2) that unfolding find_None_iff by (metis list.set_intros(2))
    ultimately show ?thesis using True by simp
  next
    case False
    then show ?thesis using Cons by simp
  qed
qed simp

lemma find_cong_set: "\<forall>x \<in> set xs. P x \<longleftrightarrow> Q x \<Longrightarrow> find P xs = find Q xs"
  by (induction xs) auto

text \<open>One UPDATE by id after the other.\<close>

lemma updates_by_id:
  assumes "distinct (map fst ups)"
  shows "foldl (\<lambda>t (i, x). snd (update_where (\<lambda>(j, _). [is_value (Some j) (Some i)]) (\<lambda>(_, v). g x v) t)) t ups
     = map (\<lambda>(j, v). (j, case dict_get ups j of None \<Rightarrow> v | Some x \<Rightarrow> g x v)) t"
  using assms
proof (induction ups arbitrary: t)
  case (Cons u ups)
  obtain i x where u: "u = (i, x)" by (rule prod.exhaust)
  have "i \<notin> fst ` set ups" using Cons.prems u by simp
  then have "dict_get ups i = None" by (simp add: map_of_eq_None_iff)
  then show ?case using Cons u by (auto simp: update_where_def sql_conditions case_prod_beta split: option.split)
qed (simp add: case_prod_beta)

text \<open>And one UPDATE by transaction id: the last link of an id wins.\<close>

lemma links_step:
  "snd (update_where (\<lambda>(_, txn). [is_value (Some (r_tt_transaction_id txn)) (Some tt)])
      (\<lambda>(_, txn). txn\<lparr>t_position_id := a, t_closed_position_id := b\<rparr>) t)
   = map (\<lambda>(i, v). (i, if r_tt_transaction_id v = tt then v\<lparr>t_position_id := a, t_closed_position_id := b\<rparr> else v)) t"
  by (auto simp: update_where_def sql_conditions case_prod_beta)

lemma links_fold:
  "foldl (\<lambda>t (tt, a, b). map (\<lambda>(i, v). (i, if r_tt_transaction_id v = tt
            then v\<lparr>t_position_id := a, t_closed_position_id := b\<rparr> else v)) t) t links
   = map (\<lambda>(i, v). (i, case map_of (rev links) (r_tt_transaction_id v) of None \<Rightarrow> v
                       | Some (a, b) \<Rightarrow> v\<lparr>t_position_id := a, t_closed_position_id := b\<rparr>)) t"
proof (induction links rule: rev_induct)
  case (snoc l links)
  obtain tt a b where l: "l = (tt, a, b)" by (rule prod_cases3)
  show ?case unfolding l by (auto simp: snoc split: option.split)
qed (simp add: case_prod_beta)

lemma sql_link_positions_sim:
  "sql_of (snd (link_transactions_to_positions links s)) = snd (sql_link_transactions_to_positions links (sql_of s))"
proof -
  let ?new = "\<lambda>v. case map_of (rev links) (r_tt_transaction_id v) of None \<Rightarrow> v
                | Some (a, b) \<Rightarrow> v\<lparr>t_position_id := a, t_closed_position_id := b\<rparr>"
  have "stored_txn (?new v) = ?new (stored_txn v)" for v by (simp split: option.split)
  then have "rows_of stored_txn (table_modify (\<lambda>_. ?new) (st_transactions s))
      = map (\<lambda>(i, v). (i, ?new v)) (rows_of stored_txn (st_transactions s))"
    by (simp add: rows_of_def table_modify_def case_prod_beta)
  then show ?thesis
    by (simp add: sql_link_transactions_to_positions_def link_transactions_to_positions_def Let_def sql_of_def
        links_step links_fold)
qed

lemma sql_of_fields:
  "db_orders (sql_of s) = rows_of stored_order (st_orders s)"
  "db_transactions (sql_of s) = rows_of stored_txn (st_transactions s)"
  "db_closed_positions (sql_of s) = rows_of stored_closed_position (st_closed_positions s)"
  "sql_of (s\<lparr>st_orders := t\<rparr>) = (sql_of s)\<lparr>db_orders := rows_of stored_order t\<rparr>"
  "sql_of (s\<lparr>st_transactions := u\<rparr>) = (sql_of s)\<lparr>db_transactions := rows_of stored_txn u\<rparr>"
  "sql_of (s\<lparr>st_closed_positions := c\<rparr>) = (sql_of s)\<lparr>db_closed_positions := rows_of stored_closed_position c\<rparr>"
  by (simp_all add: sql_of_def)

text \<open>Orders to groups.\<close>

definition sole_group :: "nat list \<Rightarrow> nat option" where
  "sole_group gs = (if length (remdups gs) = 1 then Some (Min (set gs)) else None)"

lemma sole_group_remdups: "sole_group gs = (case remdups gs of [g] \<Rightarrow> Some g | _ \<Rightarrow> None)"
proof (cases "remdups gs")
  case (Cons g gs')
  show ?thesis
  proof (cases gs')
    case Nil
    with Cons have "set gs = {g}" by (metis list.set(1,2) set_remdups)
    then show ?thesis using Cons Nil by (simp add: sole_group_def)
  qed (use Cons in \<open>simp add: sole_group_def\<close>)
qed (simp add: sole_group_def)

lemma agreed_groups_alt:
  "agreed_groups account db =
     somes (map (\<lambda>(tt, members). map_option (Pair tt) (sole_group (somes (map (\<lambda>(_, txn). r_trade_group_id txn) members))))
       (group_by (\<lambda>(_, txn). str0 (r_tt_order_id txn))
         (select_where (\<lambda>(_, txn). [is_value (Some (r_account txn)) (Some account),
              is_not_null (r_tt_order_id txn), is_not_null (r_trade_group_id txn)]) (db_transactions db))))"
  unfolding agreed_groups_def sole_group_def Let_def
  by (intro arg_cong [where f = somes] map_cong) (auto split: prod.split)

lemma member_groups:
  "somes (map (\<lambda>(_, txn). r_trade_group_id txn)
     (filter (\<lambda>p. (\<lambda>(_, txn). str0 (r_tt_order_id txn)) p = tt)
       (select_where (\<lambda>(_, txn). [is_value (Some (r_account txn)) (Some account),
              is_not_null (r_tt_order_id txn), is_not_null (r_trade_group_id txn)]) (rows_of stored_txn t))))
   = somes (map (\<lambda>(_, txn). if r_account txn = account \<and> r_tt_order_id txn = Some tt then r_trade_group_id txn else None)
       (tb_rows t))"
proof -
  have "somes (map (\<lambda>(_, txn). r_trade_group_id txn)
       (filter (\<lambda>p. (\<lambda>(_, txn). str0 (r_tt_order_id txn)) p = tt)
         (select_where (\<lambda>(_, txn). [is_value (Some (r_account txn)) (Some account),
              is_not_null (r_tt_order_id txn), is_not_null (r_trade_group_id txn)])
            (map (\<lambda>(i, r). (i, stored_txn r)) rows))))
     = somes (map (\<lambda>(_, txn). if r_account txn = account \<and> r_tt_order_id txn = Some tt then r_trade_group_id txn else None) rows)"
    for rows
    by (induction rows) (auto simp: select_where_def sql_conditions str0_def split: option.splits)
  then show ?thesis by (simp add: rows_of_def)
qed

lemma agreed_group_of_order:
  "join_on (Some tt) (agreed_groups account (sql_of s))
     = (case groups_of_order account s tt of [g] \<Rightarrow> Some g | _ \<Rightarrow> None)"
proof -
  let ?rows = "select_where (\<lambda>(_, txn). [is_value (Some (r_account txn)) (Some account),
              is_not_null (r_tt_order_id txn), is_not_null (r_trade_group_id txn)]) (rows_of stored_txn (st_transactions s))"
  let ?key = "\<lambda>(_, txn). str0 (r_tt_order_id txn)"
  have "join_on (Some tt) (agreed_groups account (sql_of s))
      = (case dict_get (group_by ?key ?rows) tt of None \<Rightarrow> None
         | Some members \<Rightarrow> sole_group (somes (map (\<lambda>(_, txn). r_trade_group_id txn) members)))"
    unfolding agreed_groups_alt join_on_dict
    by (simp add: dict_get_somes [OF distinct_group_by] sql_of_def)
  also have "\<dots> = sole_group (somes (map (\<lambda>(_, txn). r_trade_group_id txn) (filter (\<lambda>p. ?key p = tt) ?rows)))"
    by (auto simp: map_of_group_by Let_def sole_group_def)
  also have "\<dots> = (case groups_of_order account s tt of [g] \<Rightarrow> Some g | _ \<Rightarrow> None)"
    unfolding member_groups sole_group_remdups groups_of_order_def table_all_def ..
  finally show ?thesis .
qed

definition order_ids_given :: "ledger \<Rightarrow> bool" where
  "order_ids_given s = list_all (\<lambda>(_, r). o_tt_order_id r \<noteq> Some []) (table_all (st_orders s))"

lemma sql_link_orders_sim:
  assumes "order_ids_given s"
  shows "sql_link_orders_to_groups account (sql_of s)
     = (fst (link_orders_to_groups account s), sql_of (snd (link_orders_to_groups account s)))"
proof -
  let ?sub = "agreed_groups account (sql_of s)"
  have link: "order_group_to_link account s r
      = (if o_account r = account \<and> o_trade_group_id r = None then join_on (o_tt_order_id r) ?sub else None)"
    if "(i, r) \<in> set (tb_rows (st_orders s))" for i r
  proof -
    have "o_tt_order_id r \<noteq> Some []" using assms that by (auto simp: order_ids_given_def list_all_iff table_all_def)
    then show ?thesis
      by (cases "o_tt_order_id r")
        (simp_all add: order_group_to_link_def agreed_group_of_order join_on_dict [of None] str_true_def str0_def)
  qed
  have "update_where
            (\<lambda>(_, r). [is_value (Some (o_account r)) (Some account), is_null (o_trade_group_id r),
                       is_not_null (join_on (o_tt_order_id r) ?sub)])
            (\<lambda>(_, r). r\<lparr>o_trade_group_id := join_on (o_tt_order_id r) ?sub\<rparr>) (rows_of stored_order (st_orders s))
      = (length (filter (\<lambda>(i, r). order_group_to_link account s r \<noteq> None) (tb_rows (st_orders s))),
         rows_of stored_order (table_modify (\<lambda>i r. if order_group_to_link account s r \<noteq> None
            then r\<lparr>o_trade_group_id := order_group_to_link account s r\<rparr> else r) (st_orders s)))"
  proof (rule update_where_sim, goal_cases)
    case (1 p)
    then have "(fst p, snd p) \<in> set (tb_rows (st_orders s))" by simp
    from link [OF this] show ?case by (simp add: sql_conditions case_prod_beta)
  next
    case (2 p)
    then have "(fst p, snd p) \<in> set (tb_rows (st_orders s))" by simp
    from link [OF this] 2(2)
    have "join_on (o_tt_order_id (snd p)) ?sub = order_group_to_link account s (snd p)" by presburger
    then show ?case by (simp add: case_prod_beta)
  qed
  moreover have "table_modify (\<lambda>i r. if order_group_to_link account s r \<noteq> None
            then r\<lparr>o_trade_group_id := order_group_to_link account s r\<rparr> else r) (st_orders s)
      = table_modify (\<lambda>_ r. case order_group_to_link account s r of None \<Rightarrow> r | Some g \<Rightarrow> r\<lparr>o_trade_group_id := Some g\<rparr>) (st_orders s)"
    by (rule arg_cong [where f = "\<lambda>f. table_modify f (st_orders s)"]) (intro ext, simp split: option.split)
  ultimately show ?thesis
    by (simp only: sql_link_orders_to_groups_def link_orders_to_groups_def table_all_def sql_of_fields Let_def prod.case
        fst_conv snd_conv)
qed


text \<open>Closed positions to groups: the database also asks that the closing order is the account's.\<close>

definition closing_orders_own :: "string \<Rightarrow> ledger \<Rightarrow> bool" where
  "closing_orders_own account s =
     list_all (\<lambda>(_, cp). case cp_closing_order_id cp of None \<Rightarrow> True
       | Some oid \<Rightarrow> (case table_get (st_orders s) oid of None \<Rightarrow> True
                      | Some r \<Rightarrow> cp_account cp = account \<longrightarrow> o_account r = account))
       (table_all (st_closed_positions s))"

lemma distinct_rows_of: "table_ok key_of t \<Longrightarrow> distinct (map fst (rows_of dec t))"
  using table_ok_distinct by (simp add: rows_of_def case_prod_beta comp_def)

lemma if_None_iff:
  "c = (if P \<and> Q then g else None) \<Longrightarrow> (j \<noteq> None) = (g \<noteq> None) \<Longrightarrow> (c \<noteq> None) \<longleftrightarrow> P \<and> Q \<and> j \<noteq> None"
  by auto

lemma sql_link_closed_sim:
  assumes "ledger_inv s" and own: "closing_orders_own account s"
  shows "sql_link_closed_positions_to_groups account (sql_of s)
     = (fst (link_closed_positions_to_groups account s), sql_of (snd (link_closed_positions_to_groups account s)))"
proof -
  let ?sub = "map (\<lambda>(oid, r). (oid, o_trade_group_id r))
            (select_where (\<lambda>(_, r). [is_value (Some (o_account r)) (Some account),
                                     is_not_null (o_trade_group_id r)]) (rows_of stored_order (st_orders s)))"
  let ?group = "\<lambda>oid. case join_on oid ?sub of None \<Rightarrow> None | Some g \<Rightarrow> g"
  have ok: "table_ok order_key (st_orders s)" using assms(1) by (simp add: tables_of_inv)
  have "join_on (Some oid) ?sub = (case table_get (st_orders s) oid of None \<Rightarrow> None
      | Some r \<Rightarrow> if o_account r = account \<and> o_trade_group_id r \<noteq> None then Some (o_trade_group_id r) else None)" for oid
    unfolding join_on_dict select_where_def
    by (simp add: dict_get_filter_map [OF distinct_rows_of [OF ok]] dict_get_rows_of sql_conditions
        split: option.split) auto
  then have sub: "(join_on oid ?sub \<noteq> None) = (?group oid \<noteq> None)"
    "?group oid = (case oid of None \<Rightarrow> None | Some i \<Rightarrow> (case table_get (st_orders s) i of None \<Rightarrow> None
      | Some r \<Rightarrow> if o_account r = account then o_trade_group_id r else None))" for oid
    by (cases oid; auto simp: join_on_dict [of None] split: option.split)+
  have link: "closed_group_to_link account s cp
      = (if cp_account cp = account \<and> cp_trade_group_id cp = None then ?group (cp_closing_order_id cp) else None)"
    if "(i, cp) \<in> set (tb_rows (st_closed_positions s))" for i cp
    using own that unfolding sub(2)
    by (auto simp: closing_orders_own_def list_all_iff table_all_def closed_group_to_link_def split: option.splits)
  have "update_where
            (\<lambda>(_, r). [is_value (Some (cp_account r)) (Some account), is_null (cp_trade_group_id r),
                       is_not_null (join_on (cp_closing_order_id r) ?sub)])
            (\<lambda>(_, r). r\<lparr>cp_trade_group_id := ?group (cp_closing_order_id r)\<rparr>)
            (rows_of stored_closed_position (st_closed_positions s))
      = (length (filter (\<lambda>(i, r). closed_group_to_link account s r \<noteq> None) (tb_rows (st_closed_positions s))),
         rows_of stored_closed_position (table_modify (\<lambda>i r. if closed_group_to_link account s r \<noteq> None
            then r\<lparr>cp_trade_group_id := closed_group_to_link account s r\<rparr> else r) (st_closed_positions s)))"
  proof (rule update_where_sim, goal_cases)
    case (1 p)
    then have "(fst p, snd p) \<in> set (tb_rows (st_closed_positions s))" by simp
    from link [OF this] sub(1) [of "cp_closing_order_id (snd p)"]
    have "closed_group_to_link account s (snd p) \<noteq> None \<longleftrightarrow> cp_account (snd p) = account
        \<and> cp_trade_group_id (snd p) = None \<and> join_on (cp_closing_order_id (snd p)) ?sub \<noteq> None"
      by (rule if_None_iff)
    then show ?case by (simp add: sql_conditions case_prod_beta del: not_None_eq)
  next
    case (2 p)
    then have "(fst p, snd p) \<in> set (tb_rows (st_closed_positions s))" by simp
    from link [OF this] 2(2) have "?group (cp_closing_order_id (snd p)) = closed_group_to_link account s (snd p)"
      by presburger
    then show ?case by (simp add: case_prod_beta)
  qed
  moreover have "table_modify (\<lambda>i r. if closed_group_to_link account s r \<noteq> None
            then r\<lparr>cp_trade_group_id := closed_group_to_link account s r\<rparr> else r) (st_closed_positions s)
      = table_modify (\<lambda>_ r. case closed_group_to_link account s r of None \<Rightarrow> r | Some g \<Rightarrow> r\<lparr>cp_trade_group_id := Some g\<rparr>) (st_closed_positions s)"
    by (rule arg_cong [where f = "\<lambda>f. table_modify f (st_closed_positions s)"]) (intro ext, simp split: option.split)
  ultimately show ?thesis
    by (simp only: sql_link_closed_positions_to_groups_def link_closed_positions_to_groups_def table_all_def sql_of_fields Let_def prod.case
        fst_conv snd_conv)
qed


text \<open>Transactions to orders.\<close>

lemma order_with_id:
  assumes ok: "table_ok order_key (st_orders s)"
  shows "find (\<lambda>p. P p \<and> order_key (snd p) = Some tt) (rows_of stored_order (st_orders s))
     = (case table_id_of (st_orders s) tt of None \<Rightarrow> None
        | Some i \<Rightarrow> (case table_get (st_orders s) i of None \<Rightarrow> None
                     | Some r \<Rightarrow> if P (i, stored_order r) then Some (i, stored_order r) else None))"
proof -
  let ?rows = "rows_of stored_order (st_orders s)"
  note found = find_by_key [OF ok, of stored_order tt]
  show ?thesis
  proof (cases "find (\<lambda>p. order_key (snd p) = Some tt) ?rows")
    case None
    then have "find (\<lambda>p. P p \<and> order_key (snd p) = Some tt) ?rows = None" unfolding find_None_iff by blast
    then show ?thesis using None found by (auto split: option.splits)
  next
    case (Some p)
    have "q = p" if "q \<in> set ?rows" "order_key (snd q) = Some tt" for q
    proof -
      have p: "p \<in> set ?rows" "order_key (snd p) = Some tt" using Some by (auto simp: find_Some_iff)
      have "fst q = fst p"
        using that p table_ok_unique [OF ok, of "fst q" _ "fst p" _ tt] table_ok_distinct [OF ok]
        by (auto simp: rows_of_def)
      then show ?thesis using that(1) p(1) distinct_rows_of [OF ok, of stored_order]
        by (metis eq_key_imp_eq_value prod.collapse)
    qed
    then have "find (\<lambda>q. P q \<and> order_key (snd q) = Some tt) ?rows = (if P p then Some p else None)"
      using find_only [OF Some, of P] by blast
    then show ?thesis using Some found by (auto split: option.splits)
  qed
qed

lemma keys_somes:
  assumes "distinct (map fst d)"
  shows "distinct (map fst (somes (map (\<lambda>(k, v). map_option (Pair k) (h v)) d)))
    \<and> fst ` set (somes (map (\<lambda>(k, v). map_option (Pair k) (h v)) d)) \<subseteq> fst ` set d"
  using assms
proof (induction d)
  case (Cons p d)
  obtain k v where "p = (k, v)" by (rule prod.exhaust)
  with Cons show ?case by (cases "h v") auto
qed simp

lemma length_somes: "length (somes (map f xs)) = length (filter (\<lambda>x. f x \<noteq> None) xs)"
proof (induction xs)
  case (Cons x xs)
  then show ?case by (cases "f x") simp_all
qed simp

lemma sql_link_txns_sim:
  assumes "ledger_inv s"
  shows "sql_link_transactions_to_orders account (sql_of s)
     = (fst (link_transactions_to_orders account s), sql_of (snd (link_transactions_to_orders account s)))"
proof -
  let ?t = "st_transactions s" and ?o = "st_orders s"
  let ?rows = "rows_of stored_txn ?t"
  let ?open = "\<lambda>p. r_account (snd p) = account \<and> r_order_id (snd p) = None \<and> r_tt_order_id (snd p) \<noteq> None"
  define pending where "pending = map (\<lambda>(i, txn). (i, str0 (r_tt_order_id txn))) (filter ?open ?rows)"
  define ids where "ids = map (\<lambda>(i, r). (str0 (o_tt_order_id r), i))
     (filter (\<lambda>p. o_account (snd p) = account \<and> (case o_tt_order_id (snd p) of None \<Rightarrow> False
        | Some c \<Rightarrow> c \<in> set (map snd pending))) (rows_of stored_order ?o))"
  define updates where "updates = somes (map (\<lambda>(i, tt). map_option (Pair i) (dict_get ids tt)) pending)"
  have ok: "table_ok order_key ?o" "table_ok txn_key ?t" using assms by (simp_all add: tables_of_inv)
  have pending_keys: "distinct (map fst pending)"
    using distinct_rows_of [OF ok(2), of stored_txn]
    by (simp add: pending_def case_prod_beta comp_def distinct_map_filter)
  have "dict_get ids tt = (case table_id_of ?o tt of None \<Rightarrow> None
      | Some oid \<Rightarrow> (case table_get ?o oid of None \<Rightarrow> None
          | Some r \<Rightarrow> if o_account r = account then Some oid else None))" if "tt \<in> set (map snd pending)" for tt
  proof -
    have "dict_get ids tt = map_option fst (find (\<lambda>p. o_account (snd p) = account \<and> order_key (snd p) = Some tt)
        (rows_of stored_order ?o))"
      unfolding ids_def dict_get_by_value using that
      by (intro arg_cong [where f = "map_option fst"] find_cong_set) (auto simp: order_key_def str0_def split: option.splits)
    then show ?thesis by (simp add: order_with_id [OF ok(1)] split: option.split)
  qed
  note by_tt = this
  have linked: "links_to_order account s txn \<Longrightarrow> ?open (i, txn)"
    "links_to_order account s txn \<Longrightarrow> table_id_of ?o (str0 (r_tt_order_id txn)) \<noteq> None"
    "?open (i, txn) \<Longrightarrow> dict_get ids (str0 (r_tt_order_id txn))
       = (if links_to_order account s txn then table_id_of ?o (str0 (r_tt_order_id txn)) else None)"
    if "(i, txn) \<in> set (tb_rows ?t)" for i txn
  proof -
    show "links_to_order account s txn \<Longrightarrow> ?open (i, txn)"
      and "links_to_order account s txn \<Longrightarrow> table_id_of ?o (str0 (r_tt_order_id txn)) \<noteq> None"
      by (auto simp: links_to_order_def table_get_by_key_def table_id_of_def str0_def split: option.splits)
    assume "?open (i, txn)"
    then have "(i, stored_txn txn) \<in> set (filter ?open ?rows)" using that by (auto simp: rows_of_def)
    then have "(\<lambda>(i, txn). (i, str0 (r_tt_order_id txn))) (i, stored_txn txn) \<in> set pending"
      unfolding pending_def set_map by (rule imageI)
    then have "(i, str0 (r_tt_order_id txn)) \<in> set pending" by simp
    then have "str0 (r_tt_order_id txn) \<in> set (map snd pending)" by (metis image_eqI set_map snd_conv)
    note found = by_tt [OF this]
    obtain tt where tt: "r_tt_order_id txn = Some tt" using \<open>?open (i, txn)\<close> by auto
    show "dict_get ids (str0 (r_tt_order_id txn))
       = (if links_to_order account s txn then table_id_of ?o (str0 (r_tt_order_id txn)) else None)"
      using \<open>?open (i, txn)\<close> unfolding found
      by (cases "table_id_of ?o tt")
        (simp_all add: tt links_to_order_def table_get_by_key_def table_id_of_def table_get_def str0_def split: option.split)
  qed
  have update: "dict_get updates i = (if links_to_order account s txn then table_id_of ?o (str0 (r_tt_order_id txn)) else None)"
    if row_in: "(i, txn) \<in> set (tb_rows ?t)" for i txn
  proof -
    have row: "dict_get ?rows i = Some (stored_txn txn)"
      using that table_ok_distinct [OF ok(2)] by (simp add: dict_get_rows_of table_get_def)
    have "dict_get updates i = (case dict_get pending i of None \<Rightarrow> None | Some tt \<Rightarrow> dict_get ids tt)"
      unfolding updates_def by (rule dict_get_somes [OF pending_keys])
    moreover have "dict_get pending i = (if ?open (i, txn) then Some (str0 (r_tt_order_id txn)) else None)"
      unfolding pending_def dict_get_filter_map [OF distinct_rows_of [OF ok(2)]] row by simp
    ultimately show ?thesis using linked [OF row_in] by (cases "?open (i, txn)") auto
  qed
  have update_keys: "distinct (map fst updates)"
    unfolding updates_def using keys_somes [OF pending_keys] by (rule conjunct1)
  have "(case dict_get updates i of None \<Rightarrow> stored_txn txn | Some x \<Rightarrow> stored_txn txn\<lparr>r_order_id := Some x\<rparr>)
      = stored_txn (if links_to_order account s txn
           then txn\<lparr>r_order_id := table_id_of ?o (str0 (r_tt_order_id txn))\<rparr> else txn)"
    if row_in: "(i, txn) \<in> set (tb_rows ?t)" for i txn
  proof (cases "links_to_order account s txn")
    case True
    then obtain y where "table_id_of ?o (str0 (r_tt_order_id txn)) = Some y" using linked(2) [OF row_in] by blast
    then show ?thesis using update [OF row_in] True by simp
  qed (simp add: update [OF row_in])
  then have "map (\<lambda>(j, v). (j, case dict_get updates j of None \<Rightarrow> v | Some x \<Rightarrow> v\<lparr>r_order_id := Some x\<rparr>)) ?rows
      = rows_of stored_txn (table_modify (\<lambda>_ txn. if links_to_order account s txn
           then txn\<lparr>r_order_id := table_id_of ?o (str0 (r_tt_order_id txn))\<rparr> else txn) ?t)"
    by (auto simp: rows_of_def table_modify_def)
  then have state: "foldl (\<lambda>t (i, oid). snd (update_where (\<lambda>(j, _). [is_value (Some j) (Some i)])
                      (\<lambda>(_, txn). txn\<lparr>r_order_id := Some oid\<rparr>) t)) ?rows updates
      = rows_of stored_txn (table_modify (\<lambda>_ txn. if links_to_order account s txn
           then txn\<lparr>r_order_id := table_id_of ?o (str0 (r_tt_order_id txn))\<rparr> else txn) ?t)"
    by (rule trans [OF updates_by_id [OF update_keys]])
  have count: "length updates = length (filter (\<lambda>(_, txn). links_to_order account s txn) (tb_rows ?t))"
  proof -
    have "length updates = length (filter (\<lambda>p. ?open p \<and> dict_get ids (str0 (r_tt_order_id (snd p))) \<noteq> None) ?rows)"
      by (simp add: updates_def pending_def length_somes case_prod_beta comp_def filter_map)
    also have "\<dots> = length (filter (\<lambda>p. ?open p \<and> dict_get ids (str0 (r_tt_order_id (snd p))) \<noteq> None) (tb_rows ?t))"
      by (simp add: rows_of_def filter_map comp_def case_prod_beta)
    also have "\<dots> = length (filter (\<lambda>(_, txn). links_to_order account s txn) (tb_rows ?t))"
    proof (rule arg_cong [where f = length], rule filter_cong [OF refl])
      fix p assume "p \<in> set (tb_rows ?t)"
      then have "(fst p, snd p) \<in> set (tb_rows ?t)" by simp
      note links = linked [OF this]
      show "(?open p \<and> dict_get ids (str0 (r_tt_order_id (snd p))) \<noteq> None) = (\<lambda>(_, txn). links_to_order account s txn) p"
      proof (cases "links_to_order account s (snd p)")
        case True
        with links show ?thesis by (simp add: case_prod_beta)
      next
        case False
        have "?open p \<Longrightarrow> dict_get ids (str0 (r_tt_order_id (snd p))) = None" using links(3) False by simp
        then show ?thesis using False by (metis (no_types, lifting) case_prod_beta)
      qed
    qed
    finally show ?thesis .
  qed
  have selects: "map (\<lambda>(i, txn). (i, str0 (r_tt_order_id txn)))
            (select_where (\<lambda>(_, txn). [is_value (Some (r_account txn)) (Some account),
                 is_null (r_order_id txn), is_not_null (r_tt_order_id txn)]) ?rows) = pending"
    "map (\<lambda>(i, r). (str0 (o_tt_order_id r), i))
            (select_where (\<lambda>(_, r). [is_value (Some (o_account r)) (Some account),
                 is_in (o_tt_order_id r) (first_seen (map snd pending))]) (rows_of stored_order ?o)) = ids"
    by (simp add: pending_def select_where_def sql_conditions case_prod_beta)
      (simp add: ids_def select_where_def sql_conditions case_prod_beta cong: option.case_cong)
  show ?thesis
  proof (cases "pending = []")
    case True
    then have "updates = []" by (simp add: updates_def)
    have "sql_link_transactions_to_orders account (sql_of s) = (0, sql_of s)"
      by (simp only: sql_link_transactions_to_orders_def sql_of_fields Let_def selects True if_True simp_thms)
    moreover have "fst (link_transactions_to_orders account s) = 0"
      using count \<open>updates = []\<close> by (simp add: link_transactions_to_orders_def table_all_def)
    moreover have "sql_of (snd (link_transactions_to_orders account s)) = (sql_of s)\<lparr>db_transactions := ?rows\<rparr>"
      using state \<open>updates = []\<close>
      by (simp only: link_transactions_to_orders_def snd_conv sql_of_fields foldl.simps)
    ultimately show ?thesis by (simp add: prod_eq_iff) (simp add: sql_of_def)
  next
    case False
    then show ?thesis
      using state count selects unfolding updates_def
      by (simp only: sql_link_transactions_to_orders_def link_transactions_to_orders_def sql_of_fields Let_def selects
          if_False table_all_def fst_conv snd_conv)
  qed
qed


section \<open>Sequences of calls\<close>

datatype store_call =
  Upsert_Account account_row
| Upsert_Orders "order_row list"
| Upsert_Legs "leg_row list"
| Upsert_Fills "fill_row list"
| Upsert_Transactions "txn_row list"
| Upsert_Security security_row
| Upsert_Positions "position_row list"
| Upsert_Closed_Position closed_position_row
| Upsert_Balance_Snapshot balance_row
| Upsert_Trade_Group trade_group_row
| Add_Trade_Group_Event event_row
| Link_Transactions_To_Orders string
| Link_Orders_To_Groups string
| Link_Closed_Positions_To_Groups string
| Link_Transactions_To_Positions "(string \<times> nat option \<times> nat option) list"
| Attach_Transactions "string list" nat
| Move_Transactions "nat list" "nat option"

datatype answer = No_Answer | Ids "nat list" | Count nat

fun mem_call :: "store_call \<Rightarrow> ledger \<Rightarrow> answer \<times> ledger" where
  "mem_call (Upsert_Account row) s = (No_Answer, upsert_account row s)"
| "mem_call (Upsert_Orders rows) s = apfst Ids (upsert_orders rows s)"
| "mem_call (Upsert_Legs rows) s = apfst Ids (upsert_legs rows s)"
| "mem_call (Upsert_Fills rows) s = (No_Answer, upsert_fills rows s)"
| "mem_call (Upsert_Transactions rows) s = (No_Answer, upsert_transactions rows s)"
| "mem_call (Upsert_Security sec) s = (No_Answer, upsert_security sec s)"
| "mem_call (Upsert_Positions rows) s = (No_Answer, upsert_positions rows s)"
| "mem_call (Upsert_Closed_Position row) s = apfst (\<lambda>i. Ids [i]) (upsert_closed_position row s)"
| "mem_call (Upsert_Balance_Snapshot row) s = (No_Answer, upsert_balance_snapshot row s)"
| "mem_call (Upsert_Trade_Group tg) s = apfst (\<lambda>i. Ids [i]) (upsert_trade_group tg s)"
| "mem_call (Add_Trade_Group_Event ev) s = (No_Answer, add_trade_group_event ev s)"
| "mem_call (Link_Transactions_To_Orders account) s = apfst Count (link_transactions_to_orders account s)"
| "mem_call (Link_Orders_To_Groups account) s = apfst Count (link_orders_to_groups account s)"
| "mem_call (Link_Closed_Positions_To_Groups account) s = apfst Count (link_closed_positions_to_groups account s)"
| "mem_call (Link_Transactions_To_Positions links) s = apfst Count (link_transactions_to_positions links s)"
| "mem_call (Attach_Transactions ids pk) s =
     (Count (attached_count ids s), attach_transactions_to_trade_group ids pk s)"
| "mem_call (Move_Transactions txn_ids pk) s =
     (Count (moved_count txn_ids s), move_transactions_to_group txn_ids pk s)"

fun sql_call :: "store_call \<Rightarrow> database \<Rightarrow> string + answer \<times> database" where
  "sql_call (Upsert_Account row) db = map_sum id (Pair No_Answer) (sql_upsert_account row db)"
| "sql_call (Upsert_Orders rows) db = Inr (apfst Ids (sql_upsert_orders rows db))"
| "sql_call (Upsert_Legs rows) db = Inr (apfst Ids (sql_upsert_legs rows db))"
| "sql_call (Upsert_Fills rows) db = map_sum id (Pair No_Answer) (sql_upsert_fills rows db)"
| "sql_call (Upsert_Transactions rows) db = Inr (No_Answer, sql_upsert_transactions rows db)"
| "sql_call (Upsert_Security sec) db = Inr (No_Answer, sql_upsert_security sec db)"
| "sql_call (Upsert_Positions rows) db = Inr (No_Answer, sql_upsert_positions rows db)"
| "sql_call (Upsert_Closed_Position row) db = map_sum id (apfst (\<lambda>i. Ids [i])) (sql_upsert_closed_position row db)"
| "sql_call (Upsert_Balance_Snapshot row) db = Inr (No_Answer, sql_upsert_balance_snapshot row db)"
| "sql_call (Upsert_Trade_Group tg) db = Inr (apfst (\<lambda>i. Ids [i]) (sql_upsert_trade_group tg db))"
| "sql_call (Add_Trade_Group_Event ev) db = Inr (No_Answer, sql_add_trade_group_event ev db)"
| "sql_call (Link_Transactions_To_Orders account) db = Inr (apfst Count (sql_link_transactions_to_orders account db))"
| "sql_call (Link_Orders_To_Groups account) db = Inr (apfst Count (sql_link_orders_to_groups account db))"
| "sql_call (Link_Closed_Positions_To_Groups account) db =
     Inr (apfst Count (sql_link_closed_positions_to_groups account db))"
| "sql_call (Link_Transactions_To_Positions links) db =
     Inr (apfst Count (sql_link_transactions_to_positions links db))"
| "sql_call (Attach_Transactions ids pk) db = Inr (apfst Count (sql_attach_transactions_to_trade_group ids pk db))"
| "sql_call (Move_Transactions txn_ids pk) db = Inr (apfst Count (sql_move_transactions_to_group txn_ids pk db))"

fun mem_run :: "store_call list \<Rightarrow> ledger \<Rightarrow> answer list \<times> ledger" where
  "mem_run [] s = ([], s)"
| "mem_run (c # cs) s =
     (let (a, s1) = mem_call c s; (answers, s2) = mem_run cs s1 in (a # answers, s2))"

fun sql_run :: "store_call list \<Rightarrow> database \<Rightarrow> string + answer list \<times> database" where
  "sql_run [] db = Inr ([], db)"
| "sql_run (c # cs) db =
     (case sql_call c db of
        Inl e \<Rightarrow> Inl e
      | Inr (a, db1) \<Rightarrow> map_sum id (apfst (Cons a)) (sql_run cs db1))"

text \<open>The calls both stores answer alike: the database rejects none of their rows, an order id is
  never the empty string, closing orders belong to the account, and each position link names a
  different stored transaction.\<close>

fun call_accepted :: "store_call \<Rightarrow> ledger \<Rightarrow> bool" where
  "call_accepted (Upsert_Account row) s = account_accepted row s"
| "call_accepted (Upsert_Orders rows) s = (Some [] \<notin> o_tt_order_id ` set rows)"
| "call_accepted (Upsert_Fills rows) s = (None \<notin> fl_order_id ` set rows)"
| "call_accepted (Upsert_Closed_Position row) s = (cp_closed_at row \<noteq> None)"
| "call_accepted (Link_Closed_Positions_To_Groups account) s = closing_orders_own account s"
| "call_accepted (Link_Transactions_To_Positions links) s =
     (distinct (map fst links)
      \<and> list_all (\<lambda>l. table_id_of (st_transactions s) (fst l) \<noteq> None) links)"
| "call_accepted _ s = True"

fun calls_accepted :: "store_call list \<Rightarrow> ledger \<Rightarrow> bool" where
  "calls_accepted [] s = True"
| "calls_accepted (c # cs) s = (call_accepted c s \<and> calls_accepted cs (snd (mem_call c s)))"

definition database_empty :: "datetime \<Rightarrow> database" where
  "database_empty now =
     \<lparr> db_accounts = [], db_orders = [], db_legs = [], db_fills = [], db_transactions = [],
       db_securities = [], db_positions = [], db_closed_positions = [], db_trade_groups = [],
       db_events = [], db_balance_snapshots = [], db_now = now \<rparr>"

lemma sql_of_empty: "sql_of (ledger_empty now uuid) = database_empty now"
  by (simp add: sql_of_def ledger_empty_def database_empty_def rows_of_def table_empty_def)

lemma links_counted:
  assumes "ledger_inv s" and "distinct (map fst links)"
    and "list_all (\<lambda>l. table_id_of (st_transactions s) (fst l) \<noteq> None) links"
  shows "fst (link_transactions_to_positions links s) = length links"
proof -
  let ?t = "st_transactions s" and ?key = "\<lambda>p :: nat \<times> txn_row. r_tt_transaction_id (snd p)"
  have ok: "table_ok txn_key ?t" using assms(1) by (simp add: tables_of_inv)
  let ?named = "filter (\<lambda>p. map_of (rev links) (?key p) \<noteq> None) (tb_rows ?t)"
  have "distinct (map ?key (tb_rows ?t))"
  proof (rule distinct_map [THEN iffD2, OF conjI])
    show "distinct (tb_rows ?t)" using table_ok_distinct [OF ok] by (simp add: distinct_map)
    show "inj_on ?key (set (tb_rows ?t))"
    proof (rule inj_onI)
      fix p q assume p: "p \<in> set (tb_rows ?t)" and q: "q \<in> set (tb_rows ?t)" and same: "?key p = ?key q"
      have "fst p = fst q"
        using table_ok_unique [OF ok, of "fst p" "snd p" "fst q" "snd q" "?key p"] p q same
          table_ok_distinct [OF ok] by (simp add: txn_key_def)
      then show "p = q" using p q table_ok_distinct [OF ok] by (metis eq_key_imp_eq_value prod.collapse)
    qed
  qed
  then have "distinct (map ?key ?named)" by (simp add: distinct_map_filter)
  then have "length ?named = card (?key ` set ?named)" using distinct_card by fastforce
  also have "?key ` set ?named = fst ` set links"
  proof
    show "?key ` set ?named \<subseteq> fst ` set links" by (force dest!: map_of_SomeD)
    show "fst ` set links \<subseteq> ?key ` set ?named"
    proof
      fix tt assume tt: "tt \<in> fst ` set links"
      then obtain i where "table_id_of ?t tt = Some i" using assms(3) by (auto simp: list_all_iff)
      then obtain r where "dict_get (tb_rows ?t) i = Some r" "r_tt_transaction_id r = tt"
        using table_ok_index [OF ok, of tt i] by (auto simp: table_id_of_def txn_key_def)
      moreover from this have "(i, r) \<in> set (tb_rows ?t)" by (simp add: map_of_SomeD)
      moreover have "map_of (rev links) tt \<noteq> None" using tt by (simp add: map_of_eq_None_iff)
      ultimately show "tt \<in> ?key ` set ?named" by force
    qed
  qed
  also have "card (fst ` set links) = length links" using distinct_card [OF assms(2)] by simp
  finally have counted: "length ?named = length links" .
  have "(\<lambda>(_, txn). map_of (rev links) (r_tt_transaction_id txn) \<noteq> None)
      = (\<lambda>p. map_of (rev links) (?key p) \<noteq> None)" by (simp add: fun_eq_iff)
  with counted show ?thesis
    by (simp only: link_transactions_to_positions_def Let_def table_all_def fst_conv)
qed

lemma sql_call_sim:
  assumes "ledger_inv s" and "order_ids_given s" and "call_accepted c s"
  shows "sql_call c (sql_of s) = Inr (fst (mem_call c s), sql_of (snd (mem_call c s)))"
proof (cases c)
  case (Link_Transactions_To_Positions links)
  then have "fst (link_transactions_to_positions links s) = length links"
    using assms links_counted by simp
  moreover have "sql_link_transactions_to_positions links (sql_of s)
      = (length links, sql_of (snd (link_transactions_to_positions links s)))"
    using sql_link_positions_sim [of links s] by (simp add: sql_link_transactions_to_positions_def)
  ultimately show ?thesis by (simp add: Link_Transactions_To_Positions apfst_def map_prod_def case_prod_beta)
qed (use assms in \<open>simp_all add: sql_upsert_account_sim sql_upsert_orders_sim sql_upsert_legs_sim
    sql_upsert_fills_sim sql_upsert_transactions_sim sql_upsert_security_sim sql_upsert_positions_sim
    sql_upsert_closed_position_sim sql_upsert_balance_sim sql_upsert_trade_group_sim sql_add_event_sim
    sql_link_txns_sim sql_link_orders_sim sql_link_closed_sim sql_attach_sim sql_move_sim
    apfst_def map_prod_def case_prod_beta\<close>)

text \<open>What the calls keep: the invariant of both stores, and order ids that are given.\<close>

lemma ledger_inv_upsert_order:
  assumes "ledger_inv s" shows "ledger_inv (snd (upsert_order row s))"
  using assms by (simp add: tables_of_inv upsert_order_alt table_ok_upsert dense_upsert)

lemma ledger_inv_upsert_orders: "ledger_inv s \<Longrightarrow> ledger_inv (snd (upsert_orders rows s))"
proof (induction rows arbitrary: s)
  case (Cons row rows)
  from Cons.IH [OF ledger_inv_upsert_order [OF Cons.prems, of row]] show ?case
    by (simp add: case_prod_beta)
qed simp

lemma ledger_inv_upsert_legs: "ledger_inv s \<Longrightarrow> ledger_inv (snd (upsert_legs rows s))"
proof (induction rows arbitrary: s)
  case (Cons row rows)
  have "ledger_inv (s\<lparr>st_legs := snd (table_upsert leg_row_key row (st_legs s))\<rparr>)"
    using Cons.prems by (simp add: tables_of_inv table_ok_upsert dense_upsert)
  from Cons.IH [OF this] show ?case by (simp add: Let_def case_prod_beta)
qed simp

lemma ledger_inv_upsert_fills: "ledger_inv s \<Longrightarrow> ledger_inv (upsert_fills rows s)"
  by (induction rows arbitrary: s) (simp_all add: tables_of_inv table_ok_upsert dense_upsert)

lemma ledger_inv_upsert_transactions: "ledger_inv s \<Longrightarrow> ledger_inv (upsert_transactions rows s)"
proof (induction rows arbitrary: s)
  case (Cons row rows)
  have "ledger_inv (upsert_transaction row s)"
    using Cons.prems by (simp add: tables_of_inv upsert_transaction_def Let_def table_ok_upsert dense_upsert)
  from Cons.IH [OF this] show ?case by simp
qed simp

lemma ledger_inv_upsert_positions: "ledger_inv s \<Longrightarrow> ledger_inv (upsert_positions rows s)"
  by (induction rows arbitrary: s) (simp_all add: tables_of_inv table_ok_upsert dense_upsert)

lemma ledger_dense_links:
  assumes "ledger_dense s"
  shows "ledger_dense (snd (link_transactions_to_orders account s))"
    and "ledger_dense (snd (link_orders_to_groups account s))"
    and "ledger_dense (snd (link_closed_positions_to_groups account s))"
    and "ledger_dense (snd (link_transactions_to_positions links s))"
    and "ledger_dense (attach_transactions_to_trade_group ids pk s)"
    and "ledger_dense (move_transactions_to_group txn_ids pk' s)"
  using assms
  by (simp_all add: ledger_dense_def link_transactions_to_orders_def link_orders_to_groups_def
      link_closed_positions_to_groups_def link_transactions_to_positions_def
      attach_transactions_to_trade_group_def move_transactions_to_group_def Let_def dense_modify)

lemma ledger_inv_links:
  assumes "ledger_inv s"
  shows "ledger_inv (snd (link_transactions_to_orders account s))"
    and "ledger_inv (snd (link_orders_to_groups account s))"
    and "ledger_inv (snd (link_closed_positions_to_groups account s))"
    and "ledger_inv (snd (link_transactions_to_positions links s))"
    and "ledger_inv (attach_transactions_to_trade_group ids pk s)"
    and "ledger_inv (move_transactions_to_group txn_ids pk' s)"
  using assms by (simp_all add: ledger_inv_def ledger_ok_links ledger_dense_links)

lemma ledger_inv_one_row:
  assumes "ledger_inv s"
  shows "ledger_inv (upsert_account acct s)" and "ledger_inv (upsert_security sec s)"
    and "ledger_inv (snd (upsert_closed_position cp s))" and "ledger_inv (upsert_balance_snapshot bal s)"
    and "ledger_inv (snd (upsert_trade_group tg s))" and "ledger_inv (add_trade_group_event ev s)"
  using assms
  by (simp_all add: tables_of_inv upsert_account_def upsert_security_def upsert_closed_position_def
      upsert_balance_snapshot_def upsert_trade_group_def add_trade_group_event_def Let_def case_prod_beta
      table_ok_upsert dense_upsert table_ok_insert dense_insert [where key_of = "\<lambda>_. None"])

lemma ledger_inv_call: "ledger_inv s \<Longrightarrow> ledger_inv (snd (mem_call c s))"
  by (cases c) (simp_all add: ledger_inv_upsert_orders ledger_inv_upsert_legs ledger_inv_upsert_fills
      ledger_inv_upsert_transactions ledger_inv_upsert_positions ledger_inv_links ledger_inv_one_row)

lemma ledger_inv_empty: "ledger_inv (ledger_empty now uuid)"
  unfolding ledger_inv_def ledger_dense_def by (simp add: ledger_ok_empty) (simp add: ledger_empty_def dense_empty)

lemma synced_order_id: "o_tt_order_id (synced_order s row) = o_tt_order_id row"
  by (simp add: synced_order_def order_preserve_def split: option.split)

lemma order_ids_given_upsert:
  assumes "ledger_inv s" and "order_ids_given s" and "o_tt_order_id row \<noteq> Some []"
  shows "order_ids_given (snd (upsert_order row s))"
proof -
  have ok: "table_ok order_key (st_orders s)" using assms(1) by (simp add: tables_of_inv)
  have "o_tt_order_id r \<noteq> Some []"
    if "(i, r) \<in> set (table_all (snd (table_upsert order_key (synced_order s row) (st_orders s))))" for i r
    using table_all_upsert [OF ok that] assms(2,3)
    by (auto simp: order_ids_given_def list_all_iff synced_order_id)
  then show ?thesis by (auto simp: order_ids_given_def upsert_order_alt list_all_iff)
qed

lemma order_ids_given_upserts:
  "ledger_inv s \<Longrightarrow> order_ids_given s \<Longrightarrow> Some [] \<notin> o_tt_order_id ` set rows
     \<Longrightarrow> order_ids_given (snd (upsert_orders rows s))"
proof (induction rows arbitrary: s)
  case (Cons row rows)
  have "o_tt_order_id row \<noteq> Some []" using Cons.prems(3) by force
  from Cons.IH [OF ledger_inv_upsert_order [OF Cons.prems(1)] order_ids_given_upsert [OF Cons.prems(1,2) this]]
  show ?case using Cons.prems(3) by (simp add: case_prod_beta)
qed simp

lemma order_ids_given_frame: "st_orders s' = st_orders s \<Longrightarrow> order_ids_given s' = order_ids_given s"
  by (simp add: order_ids_given_def)

lemma st_orders_upsert_rows:
  "st_orders (snd (upsert_legs legs s)) = st_orders s" "st_orders (upsert_fills fills s) = st_orders s"
  "st_orders (upsert_transactions txns s) = st_orders s" "st_orders (upsert_positions ps s) = st_orders s"
proof -
  show "st_orders (snd (upsert_legs legs s)) = st_orders s"
    by (induction legs arbitrary: s) (simp_all add: Let_def case_prod_beta)
  show "st_orders (upsert_fills fills s) = st_orders s" by (induction fills arbitrary: s) simp_all
  show "st_orders (upsert_transactions txns s) = st_orders s"
    by (induction txns arbitrary: s) (simp_all add: upsert_transaction_def Let_def)
  show "st_orders (upsert_positions ps s) = st_orders s" by (induction ps arbitrary: s) simp_all
qed

lemma order_ids_given_link_orders: "order_ids_given s \<Longrightarrow> order_ids_given (snd (link_orders_to_groups account s))"
  by (auto simp: order_ids_given_def link_orders_to_groups_def Let_def table_all_modify list_all_iff
      split: option.splits)

lemma order_ids_given_call:
  assumes "ledger_inv s" and "order_ids_given s" and "call_accepted c s"
  shows "order_ids_given (snd (mem_call c s))"
proof (cases c)
  case (Upsert_Orders rows)
  then show ?thesis using assms order_ids_given_upserts by simp
next
  case (Link_Orders_To_Groups account)
  then show ?thesis using assms(2) order_ids_given_link_orders by simp
qed (rule order_ids_given_frame [THEN iffD2, OF _ assms(2)];
    simp add: st_orders_upsert_rows upsert_account_def upsert_security_def upsert_closed_position_def
      upsert_balance_snapshot_def upsert_trade_group_def add_trade_group_event_def
      link_transactions_to_orders_def link_closed_positions_to_groups_def
      link_transactions_to_positions_def attach_transactions_to_trade_group_def
      move_transactions_to_group_def Let_def case_prod_beta)+

lemma sql_run_sim:
  assumes "ledger_inv s" and "order_ids_given s" and "calls_accepted cs s"
  shows "sql_run cs (sql_of s) = Inr (fst (mem_run cs s), sql_of (snd (mem_run cs s)))"
  using assms
proof (induction cs arbitrary: s)
  case (Cons c cs)
  have here: "call_accepted c s" and rest: "calls_accepted cs (snd (mem_call c s))" using Cons.prems(3) by simp_all
  from Cons.IH [OF ledger_inv_call [OF Cons.prems(1)] order_ids_given_call [OF Cons.prems(1,2) here] rest]
    sql_call_sim [OF Cons.prems(1,2) here]
  show ?case by (simp add: Let_def case_prod_beta)
qed simp


lemmas model_defs = accounts_model_def securities_model_def orders_model_def order_legs_model_def
  order_fills_model_def positions_model_def closed_positions_model_def trade_groups_model_def
  trade_group_events_model_def transactions_model_def balance_snapshots_model_def

text \<open>The database refuses what the in-memory store takes: three constraints of the schema.\<close>

fun violates_schema :: "store_call \<Rightarrow> ledger \<Rightarrow> bool" where
  "violates_schema (Upsert_Account row) s = (\<not> account_accepted row s)"
| "violates_schema (Upsert_Fills rows) s = (None \<in> fl_order_id ` set rows)"
| "violates_schema (Upsert_Closed_Position row) s = (cp_closed_at row = None)"
| "violates_schema _ s = False"

lemma sql_upsert_account_rejects:
  "sql_upsert_account row (sql_of s) = Inl e \<longleftrightarrow> \<not> account_accepted row s \<and> e = ''IntegrityError''"
proof -
  have "list_ex (\<lambda>(_, a). acct_account_number a = acct_account_number row \<and> acct_nickname a \<noteq> acct_nickname row)
      (rows_of id (st_accounts s))
    \<longleftrightarrow> \<not> list_all (\<lambda>(_, a). acct_account_number a = acct_account_number row \<longrightarrow> acct_nickname a = acct_nickname row)
       (table_all (st_accounts s))"
    by (auto simp: list_ex_iff list_all_iff rows_of_def table_all_def)
  moreover have "db_accounts (sql_of s) = rows_of id (st_accounts s)" by (simp add: sql_of_def)
  ultimately show ?thesis
    by (cases "account_accepted row s") (simp_all add: sql_upsert_account_def account_accepted_def, auto)
qed

lemma map_sum_Inl: "map_sum id g x = Inl e \<longleftrightarrow> x = Inl e"
  by (cases x) simp_all

text \<open>
  Exactly three kinds of write fail in the database store, each with an integrity
  error: an account without a login or with another account's number, a fill without an order, a
  closed position without a closing time. The in-memory store accepts all three.\<close>

theorem database_rejections:
  "sql_call c (sql_of s) = Inl e \<longleftrightarrow> violates_schema c s \<and> e = ''IntegrityError''"
proof (cases c)
  case (Upsert_Account row)
  then show ?thesis by (simp add: map_sum_Inl sql_upsert_account_rejects)
next
  case (Upsert_Fills rows)
  then show ?thesis by (force simp: sql_upsert_fills_def list_ex_iff image_iff)
next
  case (Upsert_Closed_Position row)
  then show ?thesis by (auto simp: sql_upsert_closed_position_def Let_def)
qed auto

text \<open>
  Splitting an upsert into statements: for every table of the schema each statement
  carries at least one row and binds at most 30,000 parameters, the statements together insert the
  rows in the order given, and the ids returned are the ids one statement would have returned.\<close>

theorem upsert_statements_fit:
  assumes "m \<in> set metadata_models"
    and "chunk \<in> set (chunks (chunk_size (length (md_columns m))) rows)"
  shows "chunk \<noteq> [] \<and> length chunk * length (md_columns m) \<le> MAX_BIND_PARAMS
    \<and> concat (chunks (chunk_size (length (md_columns m))) rows) = rows
    \<and> upsert_rows m key_of u rows t = insert_statement key_of u rows t
    \<and> length (fst (upsert_rows m key_of u rows t)) = length rows"
proof -
  let ?c = "length (md_columns m)"
  have "\<forall>m\<in>set metadata_models. 1 \<le> length (md_columns m) \<and> length (md_columns m) \<le> MAX_BIND_PARAMS"
    by (simp add: metadata_models_def model_defs MAX_BIND_PARAMS_def)
  then have "1 \<le> ?c" "?c \<le> MAX_BIND_PARAMS" using assms(1) by blast+
  then have "1 \<le> MAX_BIND_PARAMS div ?c" "max ?c 1 = ?c" by (auto simp: div_greater_zero_iff Suc_le_eq)
  then have "chunk_size ?c = MAX_BIND_PARAMS div ?c" by (simp only: chunk_size_def max_absorb2)
  then have "length chunk * ?c \<le> MAX_BIND_PARAMS div ?c * ?c"
    using chunks_bounds(2) [OF chunk_size_pos assms(2)] by simp
  also have "\<dots> \<le> MAX_BIND_PARAMS" by (rule div_times_less_eq_dividend)
  finally show ?thesis
    using chunks_bounds(1) [OF chunk_size_pos assms(2)]
    by (simp add: concat_chunks upsert_rows_statement length_insert_statement)
qed

section \<open>Witnesses\<close>

definition example_calls :: "store_call list" where
  "example_calls =
     [Upsert_Transactions [example_txn ''t1'' None (1/3), example_txn ''t2'' None 2],
      Attach_Transactions [''t1''] 4, Move_Transactions [2] (Some 5),
      Link_Transactions_To_Positions [(''t1'', Some 1, None)], Link_Transactions_To_Orders ''acct'',
      Upsert_Transactions [example_txn ''t1'' None 7]]"


end
