(* ===== verification/Replay.thy ===== *)
theory Replay
  imports Memory_Store
begin

text \<open>
  \<^verbatim>\<open>tt_ledger/ingest/replay.py\<close>: rebuilding positions and closed positions from the
  transaction history. The lot walk of one security (\<open>_replay_security\<close>), its two reductions
  used by reconcile (\<open>net_open_quantities\<close>, \<open>price_realized_gross\<close>), the lapse backstop and
  the per-account rebuild, in the order of the source. A row is the view \<open>ledger_row\<close>.
\<close>

section \<open>Rows and lots\<close>

definition SETTLEMENT_SUBTYPES :: "string list" where
  "SETTLEMENT_SUBTYPES =
     [''Expiration'', ''Assignment'', ''Cash Settled Assignment'', ''Exercise'', ''Cash Settled Exercise'']"

record lot =
  lot_signed_quantity :: decimal
  lot_average_open_price :: "decimal option"
  lot_opened_at :: "datetime option"
  lot_opening_order_id :: "nat option"
  lot_realized_pnl :: decimal
  lot_fees :: decimal

definition lot_empty :: lot where
  "lot_empty = \<lparr> lot_signed_quantity = 0, lot_average_open_price = None, lot_opened_at = None,
     lot_opening_order_id = None, lot_realized_pnl = 0, lot_fees = 0 \<rparr>"

definition is_settlement :: "ledger_row \<Rightarrow> bool" where
  "is_settlement row \<longleftrightarrow>
     r_transaction_type row = Some ''Receive Deliver''
   \<and> (case r_transaction_sub_type row of None \<Rightarrow> False | Some t \<Rightarrow> t \<in> set SETTLEMENT_SUBTYPES)"

text \<open>\<open>(row.action or "").strip().endswith("to Close")\<close>.\<close>

definition ends_to_close :: "ledger_row \<Rightarrow> bool" where
  "ends_to_close row \<longleftrightarrow> py_endswith (py_strip (str0 (r_action row))) ''to Close''"

definition closes_last :: "ledger_row \<Rightarrow> nat" where
  "closes_last row = (if is_settlement row then 1 else if ends_to_close row then 1 else 0)"

definition is_sell :: "string option \<Rightarrow> bool" where
  "is_sell action \<longleftrightarrow>
     (case action of None \<Rightarrow> False | Some a \<Rightarrow> py_startswith (py_lower (py_strip a)) ''sell'')"

definition signed_delta :: "string option \<Rightarrow> decimal \<Rightarrow> decimal" where
  "signed_delta action quantity = (if is_sell action then - quantity else quantity)"

definition fees_of :: "ledger_row \<Rightarrow> decimal" where
  "fees_of row = dec0 (r_commission row) + dec0 (r_clearing_fees row) + dec0 (r_regulatory_fees row)
     + dec0 (r_proprietary_index_option_fees row)"

text \<open>The callers have filtered out the rows without a quantity before they ask for a delta.\<close>

definition row_qty :: "ledger_row \<Rightarrow> decimal" where
  "row_qty row = dec0 (r_quantity row)"

definition effective_delta_price :: "ledger_row \<Rightarrow> lot \<Rightarrow> bool \<Rightarrow> decimal \<times> decimal option" where
  "effective_delta_price row l had_position =
     (if r_transaction_type row = Some ''Money Movement'' then (0, None)
      else if is_settlement row then
        (if lot_signed_quantity l = 0 then (0, None)
         else
           let qty = min \<bar>row_qty row\<bar> \<bar>lot_signed_quantity l\<bar>;
               delta = (if 0 < lot_signed_quantity l then - qty else qty)
           in (delta, Some (case r_price row of None \<Rightarrow> 0 | Some p \<Rightarrow> p)))
      else if lot_signed_quantity l = 0 \<and> \<not> had_position \<and> ends_to_close row then (0, None)
      else (signed_delta (r_action row) (row_qty row), r_price row))"

definition multiplier_of :: "ledger \<Rightarrow> string \<Rightarrow> int" where
  "multiplier_of s sid =
     (case get_security s sid of None \<Rightarrow> 1
      | Some sec \<Rightarrow> (case sec_multiplier sec of None \<Rightarrow> 1 | Some m \<Rightarrow> if m = 0 then 1 else m))"

section \<open>One step of the walk\<close>

definition holding_period :: "datetime option \<Rightarrow> datetime option \<Rightarrow> int option" where
  "holding_period opened_at closed_at =
     (case (opened_at, closed_at) of (Some a, Some b) \<Rightarrow> Some ((b - a) div us_per_day) | _ \<Rightarrow> None)"

definition direction_of :: "decimal \<Rightarrow> string" where
  "direction_of signed = (if 0 < signed then ''Long'' else ''Short'')"

definition closed_row ::
  "string \<Rightarrow> string \<Rightarrow> lot \<Rightarrow> decimal \<Rightarrow> nat option \<Rightarrow> datetime option \<Rightarrow> closed_position_row" where
  "closed_row account sid l close_price closing_order_id closed_at =
     \<lparr> cp_account = account, cp_security_id = sid, cp_quantity = \<bar>lot_signed_quantity l\<bar>,
       cp_quantity_direction = direction_of (lot_signed_quantity l),
       cp_average_open_price = lot_average_open_price l, cp_average_close_price = Some close_price,
       cp_realized_pnl = Some (lot_realized_pnl l), cp_fees = Some (lot_fees l),
       cp_pnl_net = Some (lot_realized_pnl l - lot_fees l),
       cp_opening_order_id = lot_opening_order_id l, cp_closing_order_id = closing_order_id,
       cp_trade_group_id = None, cp_opened_at = lot_opened_at l, cp_closed_at = closed_at,
       cp_holding_period_days = holding_period (lot_opened_at l) closed_at \<rparr>"

text \<open>The walk's variables: the lot, the direction of the last closed lot, whether the security
  was ever held, and the plan \<open>(tt_transaction_id, marks_open, closed row)\<close>.\<close>

type_synonym plan_entry = "string \<times> bool \<times> closed_position_row option"

record walk =
  w_lot :: lot
  w_last_direction :: string
  w_had_position :: bool
  w_plan :: "plan_entry list"

definition walk_start :: walk where
  "walk_start = \<lparr> w_lot = lot_empty, w_last_direction = ''Long'', w_had_position = False, w_plan = [] \<rparr>"

definition weighted_average :: "decimal \<Rightarrow> decimal \<Rightarrow> decimal \<Rightarrow> decimal \<Rightarrow> decimal" where
  "weighted_average old_signed average delta price =
     (\<bar>old_signed\<bar> * average + \<bar>delta\<bar> * price) / (\<bar>old_signed\<bar> + \<bar>delta\<bar>)"

definition realized_step :: "decimal \<Rightarrow> decimal \<Rightarrow> decimal \<Rightarrow> decimal \<Rightarrow> int \<Rightarrow> decimal" where
  "realized_step old_signed average delta price multiplier =
     (price - average) * min \<bar>delta\<bar> \<bar>old_signed\<bar> * of_int multiplier
     * (if 0 < old_signed then 1 else - 1)"

definition replay_step :: "string \<Rightarrow> string \<Rightarrow> int \<Rightarrow> walk \<Rightarrow> ledger_row \<Rightarrow> walk" where
  "replay_step account sid multiplier w row =
     (let l = w_lot w;
          (delta, price_opt) = effective_delta_price row l (w_had_position w);
          tid = r_tt_transaction_id row
      in case (if delta = 0 then None else price_opt) of
        None \<Rightarrow> w\<lparr>w_plan := w_plan w @ [(tid, False, None)]\<rparr>
      | Some price \<Rightarrow>
          let old_signed = lot_signed_quantity l; new_signed = old_signed + delta;
              average = dec0 (lot_average_open_price l)
          in if old_signed = 0 then
               w\<lparr> w_had_position := True,
                  w_lot := lot_empty\<lparr> lot_signed_quantity := new_signed,
                    lot_average_open_price := Some price, lot_opened_at := r_executed_at row,
                    lot_opening_order_id := r_order_id row, lot_fees := fees_of row \<rparr>,
                  w_plan := w_plan w @ [(tid, True, None)] \<rparr>
             else if 0 < old_signed * delta then
               w\<lparr> w_had_position := True,
                  w_lot := l\<lparr> lot_average_open_price :=
                      Some (weighted_average old_signed average delta price),
                    lot_signed_quantity := new_signed, lot_fees := lot_fees l + fees_of row \<rparr>,
                  w_plan := w_plan w @ [(tid, True, None)] \<rparr>
             else
               let l' = l\<lparr> lot_realized_pnl := lot_realized_pnl l
                             + realized_step old_signed average delta price multiplier,
                           lot_fees := lot_fees l + fees_of row \<rparr>;
                   closed = closed_row account sid l' price (r_order_id row) (r_executed_at row)
               in if new_signed = 0 then
                    w\<lparr> w_had_position := True, w_last_direction := cp_quantity_direction closed,
                       w_lot := lot_empty, w_plan := w_plan w @ [(tid, False, Some closed)] \<rparr>
                  else if (0 < new_signed) \<noteq> (0 < old_signed) then
                    w\<lparr> w_had_position := True, w_last_direction := cp_quantity_direction closed,
                       w_lot := lot_empty\<lparr> lot_signed_quantity := new_signed,
                         lot_average_open_price := Some price, lot_opened_at := r_executed_at row,
                         lot_opening_order_id := r_order_id row \<rparr>,
                       w_plan := w_plan w @ [(tid, True, Some closed)] \<rparr>
                  else
                    w\<lparr> w_had_position := True,
                       w_lot := l'\<lparr>lot_signed_quantity := new_signed\<rparr>,
                       w_plan := w_plan w @ [(tid, True, None)] \<rparr>)"

definition replay_walk :: "string \<Rightarrow> string \<Rightarrow> int \<Rightarrow> ledger_row list \<Rightarrow> walk" where
  "replay_walk account sid multiplier rows = foldl (replay_step account sid multiplier) walk_start rows"

definition replay_security ::
  "string \<Rightarrow> string \<Rightarrow> ledger_row list \<Rightarrow> int \<Rightarrow> position_row option \<Rightarrow> position_row \<times> plan_entry list" where
  "replay_security account sid rows multiplier existing =
     (let w = replay_walk account sid multiplier rows; l = w_lot w in
      (\<lparr> ps_account = account, ps_security_id = sid, ps_quantity = \<bar>lot_signed_quantity l\<bar>,
         ps_quantity_direction =
           (if 0 < lot_signed_quantity l then ''Long''
            else if lot_signed_quantity l < 0 then ''Short'' else w_last_direction w),
         ps_average_open_price = lot_average_open_price l,
         ps_mark_price = Option.bind existing ps_mark_price,
         ps_close_price = Option.bind existing ps_close_price,
         ps_unrealized_pnl = Option.bind existing ps_unrealized_pnl,
         ps_realized_day_gain = Option.bind existing ps_realized_day_gain,
         ps_multiplier = multiplier,
         ps_expires_at = Option.bind existing ps_expires_at,
         ps_strategy_id = Option.bind existing ps_strategy_id,
         ps_opening_order_id = lot_opening_order_id l,
         ps_trade_group_id = Option.bind existing ps_trade_group_id,
         ps_position_opened_at = lot_opened_at l \<rparr>,
       w_plan w))"

section \<open>The two reductions of the walk\<close>

text \<open>The rows of a list that can move a position: security, quantity and time all present.\<close>

definition position_affecting :: "ledger_row \<Rightarrow> bool" where
  "position_affecting row \<longleftrightarrow>
     r_security_id row \<noteq> None \<and> r_quantity row \<noteq> None \<and> r_executed_at row \<noteq> None"

definition replay_order_key :: "ledger_row \<Rightarrow> int \<times> nat" where
  "replay_order_key row =
     (case r_executed_at row of None \<Rightarrow> (0, closes_last row) | Some t \<Rightarrow> (t, closes_last row))"

definition net_open_step :: "decimal \<times> bool \<Rightarrow> ledger_row \<Rightarrow> decimal \<times> bool" where
  "net_open_step acc row =
     (case acc of (signed, had_position) \<Rightarrow>
      if r_transaction_type row = Some ''Money Movement'' then acc
      else if is_settlement row then
        (if signed = 0 then acc
         else
           let qty = min \<bar>row_qty row\<bar> \<bar>signed\<bar>
           in (signed + (if 0 < signed then - qty else qty), True))
      else if signed = 0 \<and> \<not> had_position \<and> ends_to_close row then acc
      else (signed + signed_delta (r_action row) (row_qty row), True))"

definition net_open_quantities :: "ledger_row list \<Rightarrow> (string, decimal) dict" where
  "net_open_quantities rows =
     map (\<lambda>(sid, sec_rows).
            (sid, fst (foldl net_open_step (0, False) (sort_key replay_order_key sec_rows))))
       (group_by (\<lambda>r. str0 (r_security_id r)) (filter position_affecting rows))"

text \<open>\<open>datetime.min\<close> in UTC, the sort position of an undated row.\<close>

definition EPOCH :: datetime where
  "EPOCH = - 62135596800000000"

definition realized_order_key :: "ledger_row \<Rightarrow> int \<times> nat" where
  "realized_order_key row =
     ((case r_executed_at row of None \<Rightarrow> EPOCH | Some t \<Rightarrow> t), closes_last row)"

text \<open>\<open>price_realized_gross\<close> keeps the lot's signed quantity and average, the realized total
  and \<open>had_position\<close>.\<close>

type_synonym realized_state = "decimal \<times> decimal option \<times> decimal \<times> bool"

definition realized_walk_step :: "int \<Rightarrow> bool \<Rightarrow> realized_state \<Rightarrow> ledger_row \<Rightarrow> realized_state" where
  "realized_walk_step multiplier clamp_closes acc row =
     (case acc of (signed, average_opt, realized, had_position) \<Rightarrow>
      if r_quantity row = None then acc
      else
        let l = lot_empty\<lparr>lot_signed_quantity := signed, lot_average_open_price := average_opt\<rparr>;
            (delta0, price_opt) = effective_delta_price row l had_position;
            delta = (if clamp_closes \<and> delta0 \<noteq> 0 \<and> signed \<noteq> 0 \<and> signed * delta0 < 0
                     then (let capped = min \<bar>delta0\<bar> \<bar>signed\<bar> in if 0 < delta0 then capped else - capped)
                     else delta0)
        in (case (if delta = 0 then None else price_opt) of
             None \<Rightarrow> acc
           | Some price \<Rightarrow>
               let new_signed = signed + delta; average = dec0 average_opt
               in if signed = 0 then (new_signed, Some price, realized, True)
                  else if 0 < signed * delta then
                    (new_signed, Some (weighted_average signed average delta price), realized, True)
                  else
                    let realized' = realized + realized_step signed average delta price multiplier
                    in if new_signed = 0 then (0, None, realized', True)
                       else if (0 < new_signed) \<noteq> (0 < signed) then (new_signed, Some price, realized', True)
                       else (new_signed, average_opt, realized', True)))"

definition price_realized_gross :: "ledger_row list \<Rightarrow> int \<Rightarrow> bool \<Rightarrow> decimal" where
  "price_realized_gross rows multiplier clamp_closes =
     (case foldl (realized_walk_step multiplier clamp_closes) (0, None, 0, False)
             (sort_key realized_order_key rows) of
        (_, _, realized, _) \<Rightarrow> realized)"

section \<open>The lapse backstop and the rebuild\<close>

text \<open>\<open>datetime.combine(expiry, time.min, tzinfo=UTC).replace(hour=21, minute=15)\<close>.\<close>

definition lapse_time :: "date \<Rightarrow> datetime" where
  "lapse_time expiry = day_start expiry + (21 * 3600 + 15 * 60) * us_per_second"

definition lapse_expired_lot ::
  "string \<Rightarrow> string \<Rightarrow> position_row \<Rightarrow> plan_entry list \<Rightarrow> date option \<Rightarrow> int \<Rightarrow> datetime option
     \<Rightarrow> position_row \<times> plan_entry list" where
  "lapse_expired_lot account sid position plan expiry multiplier last_activity =
     (case (expiry, last_activity) of
        (Some ex, Some last_at) \<Rightarrow>
          if ps_quantity position = 0 \<or> date_of last_at \<le> ex + 1 then (position, plan)
          else
            let lapsed_at = lapse_time ex;
                opened_at = ps_position_opened_at position;
                sign = (if ps_quantity_direction position = ''Long'' then 1 else - 1);
                gross = (0 - dec0 (ps_average_open_price position)) * ps_quantity position
                          * of_int multiplier * sign;
                closed =
                  \<lparr> cp_account = account, cp_security_id = sid, cp_quantity = ps_quantity position,
                    cp_quantity_direction = ps_quantity_direction position,
                    cp_average_open_price = ps_average_open_price position,
                    cp_average_close_price = Some 0, cp_realized_pnl = Some gross,
                    cp_fees = Some 0, cp_pnl_net = Some gross,
                    cp_opening_order_id = ps_opening_order_id position, cp_closing_order_id = None,
                    cp_trade_group_id = None, cp_opened_at = opened_at, cp_closed_at = Some lapsed_at,
                    cp_holding_period_days = holding_period opened_at (Some lapsed_at) \<rparr>
            in (position\<lparr> ps_quantity := 0, ps_average_open_price := None,
                          ps_opening_order_id := None, ps_position_opened_at := None \<rparr>,
                plan @ [(''__lapsed__'' @ sid, False, Some closed)])
      | _ \<Rightarrow> (position, plan))"

definition activity_rows :: "ledger \<Rightarrow> activity_filter \<Rightarrow> ledger_row list" where
  "activity_rows s f = map ledger_row.truncate (account_activity s f)"

fun write_plan :: "nat option \<Rightarrow> plan_entry list \<Rightarrow> ledger
    \<Rightarrow> (string \<times> nat option \<times> nat option) list \<times> ledger" where
  "write_plan position_id [] s = ([], s)"
| "write_plan position_id ((tid, marks_open, closed_opt) # plan) s =
     (let (closed_id, s1) =
            (case closed_opt of None \<Rightarrow> (None, s)
             | Some row \<Rightarrow> (let (i, s') = upsert_closed_position row s in (Some i, s')));
          (links, s2) = write_plan position_id plan s1
      in ((tid, if marks_open then position_id else None, closed_id) # links, s2))"

definition rebuild_security :: "string \<Rightarrow> datetime option \<Rightarrow> string \<times> ledger_row list \<Rightarrow> ledger \<Rightarrow> ledger" where
  "rebuild_security account last_activity entry s =
     (let sid = fst entry; rows = sort_key replay_order_key (snd entry);
          multiplier = multiplier_of s sid;
          expiry = Option.bind (get_security s sid) sec_expiry;
          (position0, plan0) = replay_security account sid rows multiplier (get_position s account sid);
          (position, plan) = lapse_expired_lot account sid position0 plan0 expiry multiplier last_activity;
          s1 = upsert_positions [position] s;
          (links, s2) = write_plan (get_position_id s1 account sid) plan s1
      in snd (link_transactions_to_positions links s2))"

definition rebuild_for_account :: "string \<Rightarrow> ledger \<Rightarrow> nat \<times> ledger" where
  "rebuild_for_account account s =
     (let rows = filter position_affecting (activity_rows s (activity_filter0\<lparr>af_account := Some account\<rparr>));
          by_security = group_by (\<lambda>r. str0 (r_security_id r)) rows;
          last_activity = max_opt (somes (map r_executed_at rows))
      in (length by_security,
          foldl (\<lambda>s' entry. rebuild_security account last_activity entry s') s by_security))"

definition replay_accounts_with_activity :: "ledger \<Rightarrow> string list" where
  "replay_accounts_with_activity s = sort (remdups (map r_account (activity_rows s activity_filter0)))"

definition rebuild_positions_from_transactions :: "string option \<Rightarrow> ledger \<Rightarrow> sync_result \<times> ledger" where
  "rebuild_positions_from_transactions account s =
     foldl (\<lambda>(result, s') acct.
              let (n, s'') = rebuild_for_account acct s'
              in (result\<lparr>sr_positions := sr_positions result + n\<rparr>, s''))
       (sync_result0, s)
       (case account of Some a \<Rightarrow> [a] | None \<Rightarrow> replay_accounts_with_activity s)"

section \<open>Conservation\<close>

text \<open>The fills a walk really applies: a row with a nonzero effective delta and a price.\<close>

definition applied_fill :: "walk \<Rightarrow> ledger_row \<Rightarrow> (decimal \<times> decimal) option" where
  "applied_fill w row =
     (let (delta, price_opt) = effective_delta_price row (w_lot w) (w_had_position w)
      in (case (if delta = 0 then None else price_opt) of None \<Rightarrow> None | Some price \<Rightarrow> Some (delta, price)))"

fun applied_fills :: "string \<Rightarrow> string \<Rightarrow> int \<Rightarrow> walk \<Rightarrow> ledger_row list \<Rightarrow> (ledger_row \<times> decimal \<times> decimal) list" where
  "applied_fills account sid m w [] = []"
| "applied_fills account sid m w (row # rows) =
     (case applied_fill w row of None \<Rightarrow> [] | Some (delta, price) \<Rightarrow> [(row, delta, price)])
     @ applied_fills account sid m (replay_step account sid m w row) rows"

definition lot_ok :: "lot \<Rightarrow> bool" where
  "lot_ok l \<longleftrightarrow> (if lot_signed_quantity l = 0 then l = lot_empty else lot_average_open_price l \<noteq> None)"

definition plan_realized :: "plan_entry list \<Rightarrow> decimal" where
  "plan_realized plan = sum_list (map (\<lambda>cp. dec0 (cp_realized_pnl cp)) (somes (map (snd \<circ> snd) plan)))"

definition plan_fees :: "plan_entry list \<Rightarrow> decimal" where
  "plan_fees plan = sum_list (map (\<lambda>cp. dec0 (cp_fees cp)) (somes (map (snd \<circ> snd) plan)))"

definition walk_realized :: "walk \<Rightarrow> decimal" where
  "walk_realized w = plan_realized (w_plan w) + lot_realized_pnl (w_lot w)"

definition walk_fees :: "walk \<Rightarrow> decimal" where
  "walk_fees w = plan_fees (w_plan w) + lot_fees (w_lot w)"

lemma plan_sums [simp]:
  "plan_realized [] = 0" "plan_fees [] = 0"
  "plan_realized (plan @ [(tid, b, None)]) = plan_realized plan"
  "plan_fees (plan @ [(tid, b, None)]) = plan_fees plan"
  "plan_realized (plan @ [(tid, b, Some cp)]) = plan_realized plan + dec0 (cp_realized_pnl cp)"
  "plan_fees (plan @ [(tid, b, Some cp)]) = plan_fees plan + dec0 (cp_fees cp)"
  by (simp_all add: plan_realized_def plan_fees_def)

lemma lot_empty_fields [simp]:
  "lot_signed_quantity lot_empty = 0" "lot_average_open_price lot_empty = None"
  "lot_realized_pnl lot_empty = 0" "lot_fees lot_empty = 0"
  by (simp_all add: lot_empty_def)

text \<open>The cost carried by an open lot, and what one applied fill adds to it.\<close>

definition lot_cost :: "lot \<Rightarrow> decimal" where
  "lot_cost l = lot_signed_quantity l * dec0 (lot_average_open_price l)"

lemma replay_step_skip:
  "applied_fill w row = None \<Longrightarrow>
     replay_step account sid m w row = w\<lparr>w_plan := w_plan w @ [(r_tt_transaction_id row, False, None)]\<rparr>"
  by (auto simp: applied_fill_def replay_step_def Let_def split: prod.splits option.splits if_splits)

lemma applied_fill_nonzero: "applied_fill w row = Some (delta, price) \<Longrightarrow> delta \<noteq> 0"
  by (auto simp: applied_fill_def split: prod.splits option.splits if_splits)

lemma weighted_average_cost:
  assumes "0 < old * delta"
  shows "(old + delta) * weighted_average old avg delta price = old * avg + delta * price"
proof -
  have "0 < old \<and> 0 < delta \<or> old < 0 \<and> delta < 0"
    using assms by (simp add: zero_less_mult_iff)
  then show ?thesis
  proof
    assume pos: "0 < old \<and> 0 < delta"
    then have "old + delta \<noteq> 0" by linarith
    with pos show ?thesis by (simp add: weighted_average_def)
  next
    assume neg: "old < 0 \<and> delta < 0"
    then have "- old - delta \<noteq> 0" by linarith
    with neg show ?thesis
      by (simp add: weighted_average_def divide_simps) (simp add: algebra_simps)
  qed
qed

lemma realized_step_partial:
  assumes "old * delta < 0" and "\<bar>delta\<bar> \<le> \<bar>old\<bar>"
  shows "realized_step old avg delta price m = of_int m * ((old + delta) * avg - old * avg - delta * price)"
proof -
  have "0 < old \<and> delta < 0 \<or> old < 0 \<and> 0 < delta"
    using assms(1) by (simp add: mult_less_0_iff)
  then show ?thesis
    using assms(2) by (auto simp: realized_step_def min_def algebra_simps)
qed

lemma realized_step_flip:
  assumes "old * delta < 0" and "\<bar>old\<bar> \<le> \<bar>delta\<bar>"
  shows "realized_step old avg delta price m = of_int m * ((old + delta) * price - old * avg - delta * price)"
proof -
  have "0 < old \<and> delta < 0 \<or> old < 0 \<and> 0 < delta"
    using assms(1) by (simp add: mult_less_0_iff)
  then show ?thesis
    using assms(2) by (auto simp: realized_step_def min_def algebra_simps)
qed


text \<open>The five outcomes of an applied fill.\<close>

definition opened_lot :: "ledger_row \<Rightarrow> decimal \<Rightarrow> decimal \<Rightarrow> lot" where
  "opened_lot row qty price =
     lot_empty\<lparr> lot_signed_quantity := qty, lot_average_open_price := Some price,
       lot_opened_at := r_executed_at row, lot_opening_order_id := r_order_id row \<rparr>"

definition settled_lot :: "lot \<Rightarrow> ledger_row \<Rightarrow> decimal \<Rightarrow> decimal \<Rightarrow> int \<Rightarrow> lot" where
  "settled_lot l row delta price m =
     l\<lparr> lot_realized_pnl := lot_realized_pnl l
          + realized_step (lot_signed_quantity l) (dec0 (lot_average_open_price l)) delta price m,
        lot_fees := lot_fees l + fees_of row \<rparr>"

lemma replay_step_applied:
  assumes "applied_fill w row = Some (delta, price)"
  shows "replay_step account sid m w row =
    (let old = lot_signed_quantity (w_lot w); tid = r_tt_transaction_id row;
         l' = settled_lot (w_lot w) row delta price m;
         cp = closed_row account sid l' price (r_order_id row) (r_executed_at row);
         w' = w\<lparr>w_had_position := True\<rparr>
     in if old = 0 then
          w'\<lparr> w_lot := (opened_lot row delta price)\<lparr>lot_fees := fees_of row\<rparr>,
              w_plan := w_plan w @ [(tid, True, None)] \<rparr>
        else if 0 < old * delta then
          w'\<lparr> w_lot := (w_lot w)\<lparr> lot_average_open_price :=
                  Some (weighted_average old (dec0 (lot_average_open_price (w_lot w))) delta price),
                lot_signed_quantity := old + delta, lot_fees := lot_fees (w_lot w) + fees_of row \<rparr>,
              w_plan := w_plan w @ [(tid, True, None)] \<rparr>
        else if old + delta = 0 then
          w'\<lparr> w_last_direction := cp_quantity_direction cp, w_lot := lot_empty,
              w_plan := w_plan w @ [(tid, False, Some cp)] \<rparr>
        else if (0 < old + delta) \<noteq> (0 < old) then
          w'\<lparr> w_last_direction := cp_quantity_direction cp, w_lot := opened_lot row (old + delta) price,
              w_plan := w_plan w @ [(tid, True, Some cp)] \<rparr>
        else w'\<lparr> w_lot := l'\<lparr>lot_signed_quantity := old + delta\<rparr>,
                 w_plan := w_plan w @ [(tid, True, None)] \<rparr>)"
proof -
  have "effective_delta_price row (w_lot w) (w_had_position w) = (delta, Some price) \<and> delta \<noteq> 0"
    using assms by (auto simp: applied_fill_def split: prod.splits option.splits if_splits)
  then show ?thesis by (simp add: replay_step_def opened_lot_def settled_lot_def Let_def)
qed

lemma applied_fill_skip_or_apply:
  obtains (skip) "applied_fill w row = None"
      "replay_step account sid m w row = w\<lparr>w_plan := w_plan w @ [(r_tt_transaction_id row, False, None)]\<rparr>"
  | (fill) delta price where "applied_fill w row = Some (delta, price)" "delta \<noteq> 0"
  using replay_step_skip applied_fill_nonzero by (cases "applied_fill w row") fastforce+

lemma closed_row_sums [simp]:
  "dec0 (cp_realized_pnl (closed_row account sid l p oid t)) = lot_realized_pnl l"
  "dec0 (cp_fees (closed_row account sid l p oid t)) = lot_fees l"
  by (simp_all add: closed_row_def)

lemma opened_lot_fields [simp]:
  "lot_signed_quantity (opened_lot row q p) = q" "lot_average_open_price (opened_lot row q p) = Some p"
  "lot_realized_pnl (opened_lot row q p) = 0" "lot_fees (opened_lot row q p) = 0"
  by (simp_all add: opened_lot_def lot_empty_def)

lemma settled_lot_fields [simp]:
  "lot_signed_quantity (settled_lot l row d p m) = lot_signed_quantity l"
  "lot_average_open_price (settled_lot l row d p m) = lot_average_open_price l"
  "lot_fees (settled_lot l row d p m) = lot_fees l + fees_of row"
  by (simp_all add: settled_lot_def)

lemma lot_ok_step: "lot_ok (w_lot w) \<Longrightarrow> lot_ok (w_lot (replay_step account sid m w row))"
proof (rule applied_fill_skip_or_apply [of w row account sid m])
  fix delta price
  assume "lot_ok (w_lot w)" "applied_fill w row = Some (delta, price)" "delta \<noteq> 0"
  then show ?thesis
    by (auto simp: replay_step_applied Let_def lot_ok_def zero_less_mult_iff split: if_splits)
qed simp

lemma lot_ok_walk: "lot_ok (w_lot w) \<Longrightarrow> lot_ok (w_lot (foldl (replay_step account sid m) w rows))"
  by (induction rows arbitrary: w) (simp_all add: lot_ok_step)

lemma lot_ok_start [simp]: "lot_ok (w_lot walk_start)"
  by (simp add: walk_start_def lot_ok_def)

lemma opposite_sign:
  fixes a b :: decimal
  assumes "\<not> 0 < a * b" "a \<noteq> 0" "b \<noteq> 0"
  shows "a * b < 0"
  using assms by (simp add: not_less mult_less_0_iff zero_less_mult_iff) linarith

lemma flip_bound:
  fixes a b :: decimal
  assumes "a * b < 0" "a + b = 0 \<or> (0 < a + b) \<noteq> (0 < a)"
  shows "\<bar>a\<bar> \<le> \<bar>b\<bar>"
  using assms by (auto simp: mult_less_0_iff)

lemma partial_bound:
  fixes a b :: decimal
  assumes "a * b < 0" "a + b \<noteq> 0" "\<not> (0 < a + b) \<noteq> (0 < a)"
  shows "\<bar>b\<bar> \<le> \<bar>a\<bar>"
  using assms by (auto simp: mult_less_0_iff)

text \<open>One applied fill keeps the books: what it adds to the realized total and to the carried
  cost is the cash it moved.\<close>

lemma walk_realized_step:
  assumes ok: "lot_ok (w_lot w)" and fill: "applied_fill w row = Some (delta, price)"
  shows "walk_realized (replay_step account sid m w row)
      = walk_realized w + of_int m * (lot_cost (w_lot (replay_step account sid m w row))
          - lot_cost (w_lot w) - delta * price)" (is ?books)
    and "walk_fees (replay_step account sid m w row) = walk_fees w + fees_of row" (is ?fees)
    and "lot_signed_quantity (w_lot (replay_step account sid m w row))
      = lot_signed_quantity (w_lot w) + delta" (is ?qty)
proof -
  let ?old = "lot_signed_quantity (w_lot w)" and ?avg = "dec0 (lot_average_open_price (w_lot w))"
  note d = applied_fill_nonzero [OF fill]
  note step = replay_step_applied [OF fill, of account sid m, unfolded Let_def]
  note defs = walk_realized_def walk_fees_def lot_cost_def settled_lot_def
  consider (flat) "?old = 0" | (adding) "0 < ?old * delta"
    | (flipping) "?old \<noteq> 0" "?old * delta < 0" "?old + delta = 0 \<or> (0 < ?old + delta) \<noteq> (0 < ?old)"
    | (reducing) "?old \<noteq> 0" "?old * delta < 0" "?old + delta \<noteq> 0" "\<not> (0 < ?old + delta) \<noteq> (0 < ?old)"
    using opposite_sign [of ?old delta] d by blast
  then show ?books ?fees ?qty
  proof (atomize (full), cases)
    case flat
    then have "w_lot w = lot_empty" using ok by (simp add: lot_ok_def)
    then show "?books \<and> ?fees \<and> ?qty" by (simp add: step defs)
  next
    case adding
    then have "?old \<noteq> 0" by auto
    with adding show "?books \<and> ?fees \<and> ?qty"
      by (simp add: step defs weighted_average_cost)
  next
    case flipping
    note r = realized_step_flip [OF flipping(2) flip_bound [OF flipping(2,3)]]
    from flipping show "?books \<and> ?fees \<and> ?qty"
      by (auto simp: step defs r algebra_simps)
  next
    case reducing
    note r = realized_step_partial [OF reducing(2) partial_bound [OF reducing(2-4)]]
    from reducing show "?books \<and> ?fees \<and> ?qty"
      by (auto simp: step defs r algebra_simps)
  qed
qed


lemma walk_books:
  fixes account sid :: string and m :: int and rows :: "ledger_row list"
  assumes "lot_ok (w_lot w)"
  defines "w' \<equiv> foldl (replay_step account sid m) w rows"
  defines "fills \<equiv> applied_fills account sid m w rows"
  shows "walk_realized w' = walk_realized w + of_int m * (lot_cost (w_lot w') - lot_cost (w_lot w)
           - sum_list (map (\<lambda>(_, delta, price). delta * price) fills))
       \<and> walk_fees w' = walk_fees w + sum_list (map (\<lambda>(row, _). fees_of row) fills)
       \<and> lot_signed_quantity (w_lot w') = lot_signed_quantity (w_lot w)
           + sum_list (map (\<lambda>(_, delta, _). delta) fills)"
  using assms(1) unfolding w'_def fills_def
proof (induction rows arbitrary: w)
  case (Cons row rows)
  note IH = Cons.IH [OF lot_ok_step [OF Cons.prems, of account sid m row]]
  show ?case
  proof (rule applied_fill_skip_or_apply [of w row account sid m])
    assume "applied_fill w row = None"
      "replay_step account sid m w row = w\<lparr>w_plan := w_plan w @ [(r_tt_transaction_id row, False, None)]\<rparr>"
    then show ?thesis using IH by (simp add: walk_realized_def walk_fees_def)
  next
    fix delta price assume fill: "applied_fill w row = Some (delta, price)" "delta \<noteq> 0"
    show ?thesis
      using IH by (simp add: fill(1) walk_realized_step [OF Cons.prems fill(1)] algebra_simps)
  qed
qed simp

lemma walk_start_sums [simp]:
  "walk_realized walk_start = 0" "walk_fees walk_start = 0" "lot_cost (w_lot walk_start) = 0"
  "lot_signed_quantity (w_lot walk_start) = 0"
  by (simp_all add: walk_start_def walk_realized_def walk_fees_def lot_cost_def)

lemma replay_walk_books:
  fixes account sid :: string and m :: int and rows :: "ledger_row list"
  defines "w \<equiv> replay_walk account sid m rows"
    and "fills \<equiv> applied_fills account sid m walk_start rows"
  shows "walk_realized w = of_int m * (lot_cost (w_lot w)
           - sum_list (map (\<lambda>(_, delta, price). delta * price) fills))"
    and "walk_fees w = sum_list (map (\<lambda>(row, _). fees_of row) fills)"
    and "lot_signed_quantity (w_lot w) = sum_list (map (\<lambda>(_, delta, _). delta) fills)"
  using walk_books [OF lot_ok_start, of account sid m rows]
  unfolding w_def fills_def replay_walk_def by simp_all

text \<open>
  C6 (invariant). The lot walk of a security keeps the books: over any rows, in any order, the
  realized P&L frozen in the closed positions plus what the open lot has realized so far is the
  contract multiplier times the cash of the fills it applied, with the lot still open carried
  at its average cost; the fees of those fills are all attributed, none twice; and the lot's
  signed quantity is the sum of their signed quantities.\<close>

theorem replay_walk_keeps_the_books:
  "let w = replay_walk account sid m rows;
       fills = applied_fills account sid m walk_start rows
   in walk_realized w = of_int m * (lot_signed_quantity (w_lot w) * dec0 (lot_average_open_price (w_lot w))
        - sum_list (map (\<lambda>(_, delta, price). delta * price) fills))
    \<and> walk_fees w = sum_list (map (\<lambda>(row, _). fees_of row) fills)
    \<and> lot_signed_quantity (w_lot w) = sum_list (map (\<lambda>(_, delta, _). delta) fills)"
  using replay_walk_books [of account sid m rows] by (simp add: lot_cost_def Let_def)

section \<open>The reductions agree with the walk\<close>

lemma effective_delta_price_cong:
  "lot_signed_quantity l = lot_signed_quantity l' \<Longrightarrow>
     effective_delta_price row l had = effective_delta_price row l' had"
  by (simp add: effective_delta_price_def)

text \<open>What \<open>price_realized_gross\<close> keeps of the walk.\<close>

definition realized_view :: "walk \<Rightarrow> realized_state" where
  "realized_view w =
     (lot_signed_quantity (w_lot w), lot_average_open_price (w_lot w), walk_realized w, w_had_position w)"

lemma settled_realized:
  "lot_realized_pnl (settled_lot l row d p m) = lot_realized_pnl l
     + realized_step (lot_signed_quantity l) (dec0 (lot_average_open_price l)) d p m"
  by (simp add: settled_lot_def)

lemma realized_walk_step_refines:
  assumes "r_quantity row \<noteq> None" and ok: "lot_ok (w_lot w)"
  shows "realized_walk_step m False (realized_view w) row
       = realized_view (replay_step account sid m w row)"
proof -
  let ?l = "lot_empty\<lparr>lot_signed_quantity := lot_signed_quantity (w_lot w),
              lot_average_open_price := lot_average_open_price (w_lot w)\<rparr>"
  have eff: "effective_delta_price row ?l (w_had_position w)
           = effective_delta_price row (w_lot w) (w_had_position w)"
    by (rule effective_delta_price_cong) simp
  obtain delta p where dp: "effective_delta_price row (w_lot w) (w_had_position w) = (delta, p)"
    by (cases "effective_delta_price row (w_lot w) (w_had_position w)")
  note step = realized_walk_step_def realized_view_def assms(1) eff dp
  show ?thesis
  proof (cases "if delta = 0 then None else p")
    case None
    then have "applied_fill w row = None" by (simp add: applied_fill_def dp)
    then show ?thesis by (simp add: step None replay_step_skip walk_realized_def)
  next
    case (Some price)
    then have fill: "applied_fill w row = Some (delta, price)" by (simp add: applied_fill_def dp)
    have flat: "lot_signed_quantity (w_lot w) = 0 \<longrightarrow> lot_realized_pnl (w_lot w) = 0"
      using ok by (auto simp: lot_ok_def)
    show ?thesis
      using flat
      by (simp add: step Some replay_step_applied [OF fill] Let_def walk_realized_def settled_realized)
  qed
qed

lemma realized_view_walk:
  "\<forall>r \<in> set rows. r_quantity r \<noteq> None \<Longrightarrow> lot_ok (w_lot w) \<Longrightarrow>
     foldl (realized_walk_step m False) (realized_view w) rows
       = realized_view (foldl (replay_step account sid m) w rows)"
proof (induction rows arbitrary: w)
  case (Cons row rows)
  then have "realized_walk_step m False (realized_view w) row
           = realized_view (replay_step account sid m w row)"
    by (intro realized_walk_step_refines) simp_all
  with Cons show ?case by (simp add: lot_ok_step)
qed simp

lemma order_keys_agree: "r_executed_at r \<noteq> None \<Longrightarrow> realized_order_key r = replay_order_key r"
  by (auto simp: realized_order_key_def replay_order_key_def)

lemma sort_keys_agree:
  "\<forall>r \<in> set rows. r_executed_at r \<noteq> None \<Longrightarrow>
     sort_key realized_order_key rows = sort_key replay_order_key rows"
  by (rule sort_key_cong) (simp_all add: order_keys_agree)



text \<open>What \<open>net_open_quantities\<close> keeps of the walk, on rows the walk does not skip for want of
  a price or a quantity.\<close>

definition fully_booked :: "ledger_row \<Rightarrow> bool" where
  "fully_booked row \<longleftrightarrow> position_affecting row \<and> row_qty row \<noteq> 0
     \<and> (r_price row \<noteq> None \<or> is_settlement row \<or> r_transaction_type row = Some ''Money Movement'')"

definition net_view :: "walk \<Rightarrow> decimal \<times> bool" where
  "net_view w = (lot_signed_quantity (w_lot w), w_had_position w)"

lemma had_position_step:
  "applied_fill w row = Some (delta, price) \<Longrightarrow> w_had_position (replay_step account sid m w row)"
  by (simp add: replay_step_applied Let_def)

lemma net_view_applied:
  "lot_ok (w_lot w) \<Longrightarrow> applied_fill w row = Some (delta, price) \<Longrightarrow>
     net_view (replay_step account sid m w row) = (lot_signed_quantity (w_lot w) + delta, True)"
  by (simp add: net_view_def walk_realized_step(3) had_position_step)

lemma net_view_skipped:
  "applied_fill w row = None \<Longrightarrow> net_view (replay_step account sid m w row) = net_view w"
  by (simp add: net_view_def replay_step_skip)

lemma signed_delta_zero [simp]: "signed_delta a q = 0 \<longleftrightarrow> q = 0"
  by (simp add: signed_delta_def)

lemma net_open_step_refines:
  assumes "fully_booked row" and ok: "lot_ok (w_lot w)"
  shows "net_open_step (net_view w) row = net_view (replay_step account sid m w row)"
proof (cases "applied_fill w row")
  case None
  then show ?thesis
    using assms(1) unfolding net_view_skipped [OF None]
    by (auto simp: applied_fill_def effective_delta_price_def net_open_step_def net_view_def
        fully_booked_def Let_def min_def split: if_splits option.splits)
next
  case (Some f)
  obtain delta price where fill: "applied_fill w row = Some (delta, price)"
    using Some by (cases f) simp
  show ?thesis
    using fill unfolding net_view_applied [OF ok fill]
    by (auto simp: applied_fill_def effective_delta_price_def net_open_step_def net_view_def
        Let_def split: if_splits option.splits)
qed

lemma net_view_walk:
  "\<forall>r \<in> set rows. fully_booked r \<Longrightarrow> lot_ok (w_lot w) \<Longrightarrow>
     foldl net_open_step (net_view w) rows = net_view (foldl (replay_step account sid m) w rows)"
proof (induction rows arbitrary: w)
  case (Cons row rows)
  then have "net_open_step (net_view w) row = net_view (replay_step account sid m w row)"
    by (intro net_open_step_refines) simp_all
  with Cons show ?case by (simp add: lot_ok_step)
qed simp

definition rows_of_security :: "string \<Rightarrow> ledger_row list \<Rightarrow> ledger_row list" where
  "rows_of_security sid rows = filter (\<lambda>r. r_security_id r = Some sid) (filter position_affecting rows)"

lemma net_open_quantities_get:
  "dict_get (net_open_quantities rows) sid =
     (let ys = rows_of_security sid rows
      in if ys = [] then None else Some (fst (foldl net_open_step (0, False) (sort_key replay_order_key ys))))"
proof -
  have "filter (\<lambda>r. str0 (r_security_id r) = sid) (filter position_affecting rows) = rows_of_security sid rows"
    unfolding rows_of_security_def
    by (rule filter_cong) (auto simp: position_affecting_def str0_def)
  then show ?thesis
    by (simp add: net_open_quantities_def map_of_map_snd map_of_group_by Let_def del: filter_filter)
qed

text \<open>
  The transaction-level net that the lapse synthesis keys off is the lot
  quantity of the replay: where every row of a security is priced (or a settlement, or a cash
  row) and has a nonzero quantity, \<open>net_open_quantities\<close> reports exactly the signed quantity
  the replay's lot ends with, under the same row order.\<close>

theorem net_open_quantities_is_replay:
  assumes "\<forall>r \<in> set (rows_of_security sid rows). fully_booked r" and "rows_of_security sid rows \<noteq> []"
  shows "dict_get (net_open_quantities rows) sid =
     Some (lot_signed_quantity (w_lot
       (replay_walk account sid m (sort_key replay_order_key (rows_of_security sid rows)))))"
proof -
  let ?ys = "sort_key replay_order_key (rows_of_security sid rows)"
  have "net_view walk_start = (0, False)" by (simp add: net_view_def walk_start_def)
  moreover have "foldl net_open_step (net_view walk_start) ?ys = net_view (replay_walk account sid m ?ys)"
    using assms(1) unfolding replay_walk_def by (intro net_view_walk) simp_all
  ultimately show ?thesis
    using assms(2) by (simp add: net_open_quantities_get Let_def net_view_def)
qed


section \<open>The lapse backstop\<close>

lemma replay_security_walk:
  "replay_security account sid rows m existing = (pos, plan) \<Longrightarrow>
     ps_quantity pos = \<bar>lot_signed_quantity (w_lot (replay_walk account sid m rows))\<bar>
   \<and> ps_average_open_price pos = lot_average_open_price (w_lot (replay_walk account sid m rows))
   \<and> (0 < lot_signed_quantity (w_lot (replay_walk account sid m rows)) \<longrightarrow> ps_quantity_direction pos = ''Long'')
   \<and> (lot_signed_quantity (w_lot (replay_walk account sid m rows)) < 0 \<longrightarrow> ps_quantity_direction pos = ''Short'')
   \<and> plan = w_plan (replay_walk account sid m rows)"
  by (auto simp: replay_security_def Let_def)

lemma lapse_lot_sums:
  assumes pos: "replay_security account sid rows m existing = (pos, plan)"
    and late: "ex + 1 < date_of t"
    and lapse: "lapse_expired_lot account sid pos plan (Some ex) m (Some t) = (pos', plan')"
  shows "ps_quantity pos' = 0
    \<and> plan_realized plan' = plan_realized plan - of_int m * lot_cost (w_lot (replay_walk account sid m rows))
    \<and> plan_fees plan' = plan_fees plan"
proof -
  let ?l = "w_lot (replay_walk account sid m rows)"
  note walk = replay_security_walk [OF pos]
  consider "lot_signed_quantity ?l = 0" | "0 < lot_signed_quantity ?l" | "lot_signed_quantity ?l < 0"
    by linarith
  then show ?thesis
    using walk late lapse by cases (auto simp: lapse_expired_lot_def Let_def lot_cost_def)
qed

text \<open>
  C26 (functional). A security whose contract expired more than a day before the account's
  latest activity always ends flat, and the lot written off is closed at zero. The books do not
  close over the plan alone, though: what the lapsing lot had realized in partial closes, and
  the fees it had accumulated, are in no closed position, because the lapse row is built from
  the position row, which carries neither.\<close>

theorem lapse_flattens_and_drops_partials:
  assumes "replay_security account sid rows m existing = (pos, plan)"
    and "ex + 1 < date_of t"
    and "lapse_expired_lot account sid pos plan (Some ex) m (Some t) = (pos', plan')"
  shows "let l = w_lot (replay_walk account sid m rows);
             fills = applied_fills account sid m walk_start rows
         in ps_quantity pos' = 0
          \<and> plan_realized plan' + lot_realized_pnl l
              = - of_int m * sum_list (map (\<lambda>(_, delta, price). delta * price) fills)
          \<and> plan_fees plan' + lot_fees l = sum_list (map (\<lambda>(row, _). fees_of row) fills)"
proof -
  note sums = lapse_lot_sums [OF assms] and plan = replay_security_walk [OF assms(1)]
  note books = replay_walk_books [of account sid m rows, unfolded walk_realized_def walk_fees_def]
  show ?thesis
    unfolding Let_def
  proof (intro conjI)
    show "ps_quantity pos' = 0" using sums by simp
  next
    let ?l = "w_lot (replay_walk account sid m rows)"
    have "plan_realized plan' + lot_realized_pnl ?l
        = plan_realized plan + lot_realized_pnl ?l - of_int m * lot_cost ?l"
      using sums by simp
    then show "plan_realized plan' + lot_realized_pnl ?l
        = - of_int m * sum_list (map (\<lambda>(_, delta, price). delta * price)
            (applied_fills account sid m walk_start rows))"
      using plan books(1) by (simp add: right_diff_distrib)
  next
    show "plan_fees plan' + lot_fees (w_lot (replay_walk account sid m rows))
        = sum_list (map (\<lambda>(row, _). fees_of row) (applied_fills account sid m walk_start rows))"
      using sums plan books(2) by simp
  qed
qed

definition example_row :: "string \<Rightarrow> string \<Rightarrow> decimal \<Rightarrow> decimal \<Rightarrow> datetime \<Rightarrow> ledger_row" where
  "example_row tid action qty price t =
     \<lparr> r_tt_transaction_id = tid, r_tt_order_id = None, r_account = ''acct'',
       r_transaction_type = Some ''Trade'', r_transaction_sub_type = Some action,
       r_action = Some action, r_security_id = Some ''opt'', r_underlying = None,
       r_quantity = Some qty, r_price = Some price, r_net_value = None, r_net_value_effect = None,
       r_commission = Some 1, r_clearing_fees = None, r_regulatory_fees = None,
       r_proprietary_index_option_fees = None, r_order_id = None, r_trade_group_id = None,
       r_executed_at = Some t \<rparr>"

definition example_rows :: "ledger_row list" where
  "example_rows = [example_row ''1'' ''Buy to Open'' 2 1 0, example_row ''2'' ''Sell to Close'' 1 3 5]"

text \<open>Two contracts bought at 1, one sold at 3, the other left to lapse: the closed position
  says -100 and no fees, the fills made 100 with 2 of fees.\<close>

theorem lapse_flattens_and_drops_partials_witness:
  "\<exists>pos plan pos' plan'. replay_security ''acct'' ''opt'' example_rows 100 None = (pos, plan)
     \<and> lapse_expired_lot ''acct'' ''opt'' pos plan (Some 0) 100 (Some (2 * us_per_day)) = (pos', plan')
     \<and> ps_quantity pos' = 0 \<and> plan_realized plan' + 200 = 100 \<and> plan_fees plan' + 2 = 2"
proof -
  obtain pos plan where a: "replay_security ''acct'' ''opt'' example_rows 100 None = (pos, plan)" by force
  obtain pos' plan' where b: "lapse_expired_lot ''acct'' ''opt'' pos plan (Some 0) 100 (Some (2 * us_per_day)) = (pos', plan')"
    by force
  have late: "0 + 1 < date_of (2 * us_per_day)" by (simp add: date_of_def)
  have "lot_realized_pnl (w_lot (replay_walk ''acct'' ''opt'' 100 example_rows)) = 200"
    and "lot_fees (w_lot (replay_walk ''acct'' ''opt'' 100 example_rows)) = 2"
    and "sum_list (map (\<lambda>(_, delta, price). delta * price)
           (applied_fills ''acct'' ''opt'' 100 walk_start example_rows)) = - 1"
    and "sum_list (map (\<lambda>(row, _). fees_of row)
           (applied_fills ''acct'' ''opt'' 100 walk_start example_rows)) = 2"
    by code_simp+
  with lapse_flattens_and_drops_partials [OF a late b] a b show ?thesis
    by (simp add: Let_def)
qed


end
