(* ===== verification/Group_Net.thy ===== *)
theory Group_Net
  imports Replay
begin

text \<open>
  Group-grain accounting of \<^verbatim>\<open>tt_ledger/ingest/reconcile.py\<close>: the row predicates, the running
  net of a group per security (\<open>_group_net_step\<close> and the two walks over it), what makes a group
  fully closed and by which causes, fees, signed values and the realized P&L of a group. Every
  function here is pure; \<open>group_realized\<close> takes the securities dimension as a function.
\<close>

section \<open>Row predicates\<close>

definition CLOSING_ACTIONS :: "string list" where
  "CLOSING_ACTIONS = [''Sell to Close'', ''Buy to Close'']"

definition OPENING_ACTIONS :: "string list" where
  "OPENING_ACTIONS = [''Buy to Open'', ''Sell to Open'']"

definition BARE_ACTIONS :: "string list" where
  "BARE_ACTIONS = [''Buy'', ''Sell'']"

definition rd_event_by_subtype :: "string option \<Rightarrow> event_type option" where
  "rd_event_by_subtype sub =
     (if sub = Some ''Expiration'' then Some EV_EXPIRATION
      else if sub = Some ''Assignment'' \<or> sub = Some ''Cash Settled Assignment'' then Some EV_ASSIGNMENT
      else if sub = Some ''Exercise'' \<or> sub = Some ''Cash Settled Exercise'' then Some EV_EXERCISE
      else None)"

definition RD_CASH_SETTLED_SUBTYPES :: "string list" where
  "RD_CASH_SETTLED_SUBTYPES = [''Cash Settled Assignment'', ''Cash Settled Exercise'']"

fun status_by_event :: "event_type \<Rightarrow> group_status option" where
  "status_by_event EV_FULL_EXIT = Some GS_CLOSED"
| "status_by_event EV_PARTIAL_EXIT = Some GS_CLOSED"
| "status_by_event EV_EXPIRATION = Some GS_EXPIRED"
| "status_by_event EV_ASSIGNMENT = Some GS_ASSIGNED"
| "status_by_event EV_EXERCISE = Some GS_EXERCISED"
| "status_by_event _ = None"

definition opt_in :: "string option \<Rightarrow> string list \<Rightarrow> bool" where
  "opt_in a xs \<longleftrightarrow> (case a of None \<Rightarrow> False | Some x \<Rightarrow> x \<in> set xs)"

definition is_nontrade_close :: "ledger_row \<Rightarrow> bool" where
  "is_nontrade_close row \<longleftrightarrow>
     r_transaction_type row = Some ''Receive Deliver''
   \<and> rd_event_by_subtype (r_transaction_sub_type row) \<noteq> None"

definition is_delivery :: "ledger_row \<Rightarrow> bool" where
  "is_delivery row \<longleftrightarrow>
     r_transaction_type row = Some ''Receive Deliver''
   \<and> (opt_in (r_action row) OPENING_ACTIONS \<or> opt_in (r_action row) CLOSING_ACTIONS
      \<or> opt_in (r_action row) BARE_ACTIONS)"

definition is_closing :: "ledger_row \<Rightarrow> bool" where
  "is_closing row \<longleftrightarrow> opt_in (r_action row) CLOSING_ACTIONS \<or> is_nontrade_close row"

definition is_opening :: "ledger_row \<Rightarrow> bool" where
  "is_opening row \<longleftrightarrow> opt_in (r_action row) OPENING_ACTIONS"

definition is_bare :: "ledger_row \<Rightarrow> bool" where
  "is_bare row \<longleftrightarrow> opt_in (r_action row) BARE_ACTIONS"

text \<open>\<open>_settled_quantity\<close>: the removal rows of a security, or its money rows when there is no
  removal row.\<close>

definition is_money_row :: "ledger_row \<Rightarrow> bool" where
  "is_money_row row \<longleftrightarrow> opt_in (r_transaction_sub_type row) RD_CASH_SETTLED_SUBTYPES"

definition settled_key :: "ledger_row \<Rightarrow> string option \<times> bool" where
  "settled_key row = (r_security_id row, is_money_row row)"

definition settled_step :: "(string option \<times> bool, decimal) dict \<Rightarrow> ledger_row \<Rightarrow> (string option \<times> bool, decimal) dict" where
  "settled_step d r =
     (if r_quantity r = None then d
      else dict_set (settled_key r) (dict_get_or d (settled_key r) 0 + \<bar>row_qty r\<bar>) d)"

definition settled_quantity :: "ledger_row list \<Rightarrow> decimal" where
  "settled_quantity rd_rows =
     (let by_security = foldl settled_step [] rd_rows;
          securities = first_seen (map (\<lambda>(key, _). fst key) by_security)
      in sum_list (map (\<lambda>sid.
           let bare = dict_get_or by_security (sid, False) 0
           in if bare \<noteq> 0 then bare else dict_get_or by_security (sid, True) 0) securities))"

definition action_delta :: "ledger_row \<Rightarrow> decimal" where
  "action_delta row = (if is_sell (r_action row) then - \<bar>row_qty row\<bar> else \<bar>row_qty row\<bar>)"

section \<open>The running net of a group\<close>

definition toward_zero :: "decimal \<Rightarrow> decimal \<Rightarrow> decimal" where
  "toward_zero current quantity =
     (let qty = min \<bar>quantity\<bar> \<bar>current\<bar> in if 0 < current then current - qty else current + qty)"

definition closes_group :: "decimal \<Rightarrow> ledger_row \<Rightarrow> bool" where
  "closes_group current row \<longleftrightarrow>
     opt_in (r_action row) CLOSING_ACTIONS
   \<or> (is_bare row \<and> current \<noteq> 0 \<and> current * action_delta row < 0)"

definition group_net_step :: "decimal \<Rightarrow> ledger_row \<Rightarrow> decimal option" where
  "group_net_step current row =
     (if r_transaction_type row = Some ''Money Movement'' then None
      else if is_nontrade_close row then
        (if current = 0 then None else Some (toward_zero current (row_qty row)))
      else if \<not> str_true (r_action row) then None
      else
        let delta = action_delta row in
        if \<not> closes_group current row then Some (current + delta)
        else if current = 0 then None
        else Some (toward_zero current delta))"

definition ordered_position_rows :: "ledger_row list \<Rightarrow> ledger_row list" where
  "ordered_position_rows rows =
     sort_key (\<lambda>r. time_key (r_executed_at r))
       (filter (\<lambda>r. str_true (r_security_id r) \<and> r_quantity r \<noteq> None) rows)"

definition net_step :: "(string, decimal) dict \<Rightarrow> ledger_row \<Rightarrow> (string, decimal) dict" where
  "net_step net r =
     (let sid = str0 (r_security_id r) in
      case group_net_step (dict_get_or net sid 0) r of
        None \<Rightarrow> net | Some stepped \<Rightarrow> dict_set sid stepped net)"

definition net_quantities :: "ledger_row list \<Rightarrow> (string, decimal) dict" where
  "net_quantities rows = foldl net_step [] (ordered_position_rows rows)"

definition peak_step ::
  "(string, decimal) dict \<times> (string, decimal) dict \<Rightarrow> ledger_row
     \<Rightarrow> (string, decimal) dict \<times> (string, decimal) dict" where
  "peak_step acc r =
     (case acc of (net, peak) \<Rightarrow>
      let sid = str0 (r_security_id r) in
      case group_net_step (dict_get_or net sid 0) r of
        None \<Rightarrow> (net, peak)
      | Some stepped \<Rightarrow>
          (dict_set sid stepped net, dict_set sid (max (dict_get_or peak sid 0) \<bar>stepped\<bar>) peak))"

definition peak_exposures :: "ledger_row list \<Rightarrow> (string, decimal) dict" where
  "peak_exposures rows = snd (foldl peak_step ([], []) (ordered_position_rows rows))"

definition fully_closed :: "ledger_row list \<Rightarrow> bool" where
  "fully_closed rows =
     (let net = net_quantities rows in
      if net = [] then False
      else (\<exists>r \<in> set rows. is_opening r \<or> is_bare r) \<and> (\<forall>(_, qty) \<in> set net. qty = 0))"

definition close_cause :: "(string, decimal) dict \<Rightarrow> ledger_row \<Rightarrow> group_status option" where
  "close_cause net r =
     (if is_nontrade_close r then
        Option.bind (rd_event_by_subtype (r_transaction_sub_type r)) status_by_event
      else if opt_in (r_action r) CLOSING_ACTIONS then Some GS_CLOSED
      else if is_bare r \<and> str_true (r_security_id r)
              \<and> dict_get net (str0 (r_security_id r)) = Some 0 then Some GS_CLOSED
      else None)"

text \<open>The set, as the list of its members without duplicates.\<close>

definition close_causes :: "ledger_row list \<Rightarrow> group_status list" where
  "close_causes rows = first_seen (somes (map (close_cause (net_quantities rows)) rows))"

text \<open>\<open>causes.pop() if len(causes) == 1 else MIXED\<close>.\<close>

definition status_of_causes :: "group_status list \<Rightarrow> group_status" where
  "status_of_causes causes = (case causes of [c] \<Rightarrow> c | _ \<Rightarrow> GS_MIXED)"

section \<open>Values, fees, realized P&L\<close>

definition signed_net :: "ledger_row \<Rightarrow> decimal" where
  "signed_net row =
     (if r_net_value_effect row = Some ''Debit'' then - dec0 (r_net_value row) else dec0 (r_net_value row))"

definition row_fees :: "ledger_row \<Rightarrow> decimal" where
  "row_fees row =
     dec0 (r_commission row) + dec0 (r_clearing_fees row) + dec0 (r_regulatory_fees row)
     + dec0 (r_proprietary_index_option_fees row)"

definition signed_gross :: "ledger_row \<Rightarrow> decimal" where
  "signed_gross row = signed_net row + row_fees row"

definition is_future :: "(string \<Rightarrow> security_row option) \<Rightarrow> ledger_row \<Rightarrow> bool" where
  "is_future sec_of row \<longleftrightarrow>
     (case r_security_id row of None \<Rightarrow> False
      | Some sid \<Rightarrow> (case sec_of sid of None \<Rightarrow> False | Some sec \<Rightarrow> sec_product_type sec = ''F''))"

definition int_or_1 :: "int option \<Rightarrow> int" where
  "int_or_1 m = (case m of None \<Rightarrow> 1 | Some k \<Rightarrow> if k = 0 then 1 else k)"

definition group_realized :: "(string \<Rightarrow> security_row option) \<Rightarrow> ledger_row list \<Rightarrow> decimal" where
  "group_realized sec_of rows =
     sum_list (map signed_gross (filter (\<lambda>r. \<not> is_future sec_of r) rows))
   + sum_list (map (\<lambda>(sid, sec_rows).
        price_realized_gross sec_rows (int_or_1 (Option.bind (sec_of sid) sec_multiplier)) True)
        (group_by (\<lambda>r. str0 (r_security_id r)) (filter (is_future sec_of) rows)))"

section \<open>One security at a time\<close>

text \<open>The walk of one security: its running net, absent until a row first moves it.\<close>

definition net_move :: "decimal option \<Rightarrow> ledger_row \<Rightarrow> decimal option" where
  "net_move cur r = (case group_net_step (dec0 cur) r of None \<Rightarrow> cur | Some stepped \<Rightarrow> Some stepped)"

lemma dict_get_or_dec0: "dict_get_or d k 0 = dec0 (dict_get d k)"
  by (simp add: dict_get_or_def split: option.split)

lemma dict_get_net_step:
  "dict_get (net_step net r) sid =
     (if str0 (r_security_id r) = sid then net_move (dict_get net sid) r else dict_get net sid)"
  by (auto simp: net_step_def net_move_def dict_get_or_dec0 Let_def split: option.split)

lemma dict_get_net_walk:
  "dict_get (foldl net_step net rows) sid =
     foldl net_move (dict_get net sid) (filter (\<lambda>r. str0 (r_security_id r) = sid) rows)"
  by (induction rows arbitrary: net) (simp_all add: dict_get_net_step)

definition security_rows :: "string \<Rightarrow> ledger_row list \<Rightarrow> ledger_row list" where
  "security_rows sid rows = filter (\<lambda>r. str0 (r_security_id r) = sid) (ordered_position_rows rows)"

lemma net_quantities_get:
  "dict_get (net_quantities rows) sid = foldl net_move None (security_rows sid rows)"
  by (simp add: net_quantities_def dict_get_net_walk security_rows_def)

lemma distinct_net_step: "distinct (map fst net) \<Longrightarrow> distinct (map fst (net_step net r))"
  by (auto simp: net_step_def Let_def split: option.split intro: distinct_update)

lemma distinct_net_quantities: "distinct (map fst (net_quantities rows))"
proof -
  have "distinct (map fst (foldl net_step net rs))" if "distinct (map fst net)" for net rs
    using that by (induction rs arbitrary: net) (simp_all add: distinct_net_step)
  then show ?thesis by (simp add: net_quantities_def)
qed

lemma fst_peak_walk: "fst (foldl peak_step acc rows) = foldl net_step (fst acc) rows"
proof (induction rows arbitrary: acc)
  case (Cons r rows)
  have "fst (peak_step acc r) = net_step (fst acc) r"
    by (cases acc) (simp add: peak_step_def net_step_def Let_def split: option.split)
  with Cons show ?case by simp
qed simp

section \<open>A group never goes past what it opened\<close>

lemma toward_zero_between:
  "0 \<le> current \<Longrightarrow> 0 \<le> toward_zero current q \<and> toward_zero current q \<le> current"
  "current \<le> 0 \<Longrightarrow> current \<le> toward_zero current q \<and> toward_zero current q \<le> 0"
  by (auto simp: toward_zero_def Let_def min_def)

lemma toward_zero_abs: "\<bar>toward_zero current q\<bar> = \<bar>current\<bar> - min \<bar>q\<bar> \<bar>current\<bar>"
  by (auto simp: toward_zero_def Let_def min_def)

text \<open>The signed quantity a row can open: nothing for cash rows, settlements and explicit
  closes; a bare \<open>Buy\<close> or \<open>Sell\<close> may open.\<close>

definition opening_delta :: "ledger_row \<Rightarrow> decimal" where
  "opening_delta row =
     (if r_transaction_type row = Some ''Money Movement'' \<or> is_closing row
         \<or> \<not> str_true (r_action row) then 0 else action_delta row)"

definition bought :: "ledger_row list \<Rightarrow> decimal" where
  "bought rows = sum_list (map (\<lambda>r. max 0 (opening_delta r)) rows)"

definition sold :: "ledger_row list \<Rightarrow> decimal" where
  "sold rows = sum_list (map (\<lambda>r. max 0 (- opening_delta r)) rows)"

lemma group_net_step_bounds:
  assumes "group_net_step current row = Some stepped" and "- lo \<le> current" "current \<le> hi"
    and "0 \<le> lo" "0 \<le> hi"
  shows "- (lo + max 0 (- opening_delta row)) \<le> stepped \<and> stepped \<le> hi + max 0 (opening_delta row)"
proof -
  consider q where "stepped = toward_zero current q"
    | "stepped = current + action_delta row" "opening_delta row = action_delta row"
    using assms(1)
    by (auto simp: group_net_step_def opening_delta_def is_closing_def closes_group_def Let_def
        split: if_splits)
  then show ?thesis
  proof cases
    case (1 q)
    have "max 0 (- opening_delta row) \<ge> 0" "max 0 (opening_delta row) \<ge> 0" by simp_all
    then show ?thesis
      using 1 toward_zero_between [of current q] assms(2-5) by (cases "0 \<le> current") linarith+
  next
    case 2
    then show ?thesis using assms(2-5) by (simp add: max_def)
  qed
qed

lemma bought_nonneg: "0 \<le> bought rows" and sold_nonneg: "0 \<le> sold rows"
  by (auto simp: bought_def sold_def intro!: sum_list_nonneg)

lemma net_walk_bounds:
  assumes "- lo \<le> dec0 cur" "dec0 cur \<le> hi" "0 \<le> lo" "0 \<le> hi"
  shows "- (lo + sold rows) \<le> dec0 (foldl net_move cur rows)
       \<and> dec0 (foldl net_move cur rows) \<le> hi + bought rows"
  using assms
proof (induction rows arbitrary: cur lo hi)
  case (Cons r rows)
  let ?lo = "lo + max 0 (- opening_delta r)" and ?hi = "hi + max 0 (opening_delta r)"
  have nonneg: "max 0 (- opening_delta r) \<ge> 0" "max 0 (opening_delta r) \<ge> 0" by simp_all
  have step: "- ?lo \<le> dec0 (net_move cur r) \<and> dec0 (net_move cur r) \<le> ?hi"
  proof (cases "group_net_step (dec0 cur) r")
    case None
    then have "net_move cur r = cur" by (simp add: net_move_def)
    then show ?thesis using Cons.prems nonneg by (intro conjI) simp_all
  next
    case (Some stepped)
    then show ?thesis
      using group_net_step_bounds [OF Some Cons.prems] by (simp add: net_move_def)
  qed
  have "0 \<le> ?lo" "0 \<le> ?hi" using Cons.prems(3,4) nonneg by linarith+
  from Cons.IH [OF conjunct1 [OF step] conjunct2 [OF step] this]
  show ?case by (simp add: sold_def bought_def add.assoc)
qed (simp add: sold_def bought_def)

lemma mset_security_rows:
  "mset (security_rows sid rows) =
     mset (filter (\<lambda>r. str_true (r_security_id r) \<and> r_quantity r \<noteq> None \<and> str0 (r_security_id r) = sid) rows)"
  by (simp add: security_rows_def ordered_position_rows_def filter_sort_key conj_ac)

text \<open>
  A close clamps at what the group holds: in every security the group's net lies
  between minus everything it ever sold to open and everything it ever bought to open, whatever
  closing fills and settlements are attached to it and in whatever order; a group that only ever
  bought is never short.\<close>

theorem group_net_within_openings:
  "- sold (security_rows sid rows) \<le> dict_get_or (net_quantities rows) sid 0
   \<and> dict_get_or (net_quantities rows) sid 0 \<le> bought (security_rows sid rows)"
  using net_walk_bounds [of 0 None 0 "security_rows sid rows"]
  by (simp add: dict_get_or_dec0 net_quantities_get)


section \<open>Peak exposure\<close>

fun net_peak :: "decimal option \<times> decimal option \<Rightarrow> ledger_row \<Rightarrow> decimal option \<times> decimal option" where
  "net_peak (cur, peak) r =
     (case group_net_step (dec0 cur) r of None \<Rightarrow> (cur, peak)
      | Some stepped \<Rightarrow> (Some stepped, Some (max (dec0 peak) \<bar>stepped\<bar>)))"

lemma dict_get_peak_step:
  "(dict_get (fst (peak_step acc r)) sid, dict_get (snd (peak_step acc r)) sid) =
     (if str0 (r_security_id r) = sid then net_peak (dict_get (fst acc) sid, dict_get (snd acc) sid) r
      else (dict_get (fst acc) sid, dict_get (snd acc) sid))"
  by (cases acc) (auto simp: peak_step_def dict_get_or_dec0 Let_def split: option.split)

lemma dict_get_peak_walk:
  "(dict_get (fst (foldl peak_step acc rows)) sid, dict_get (snd (foldl peak_step acc rows)) sid) =
     foldl net_peak (dict_get (fst acc) sid, dict_get (snd acc) sid)
       (filter (\<lambda>r. str0 (r_security_id r) = sid) rows)"
proof (induction rows arbitrary: acc)
  case (Cons r rows)
  show ?case
    unfolding foldl.simps Cons.IH dict_get_peak_step [of acc r sid] by simp
qed simp

lemma fst_net_peak: "fst (foldl net_peak (cur, peak) rows) = foldl net_move cur rows"
  by (induction rows arbitrary: cur peak) (auto simp: net_move_def split: option.split)

definition peak_ok :: "decimal option \<times> decimal option \<Rightarrow> bool" where
  "peak_ok p \<longleftrightarrow> (case p of (None, None) \<Rightarrow> True | (Some n, Some m) \<Rightarrow> \<bar>n\<bar> \<le> m | _ \<Rightarrow> False)"

lemma peak_ok_walk: "peak_ok p \<Longrightarrow> peak_ok (foldl net_peak p rows)"
proof (induction rows arbitrary: p)
  case (Cons r rows)
  have "peak_ok (net_peak p r)"
    using Cons.prems by (cases p) (auto simp: peak_ok_def split: option.splits)
  with Cons show ?case by simp
qed simp

lemma peak_exposures_get:
  "dict_get (peak_exposures rows) sid = snd (foldl net_peak (None, None) (security_rows sid rows))"
  using arg_cong [OF dict_get_peak_walk [of "([], [])" "ordered_position_rows rows" sid], of snd]
  by (simp add: peak_exposures_def security_rows_def)

text \<open>The exposure a walk has seen: the absolute net after each prefix of the rows.\<close>

definition exposures :: "ledger_row list \<Rightarrow> decimal list" where
  "exposures rows = map (\<lambda>i. \<bar>dec0 (foldl net_move None (take i rows))\<bar>) [0..<Suc (length rows)]"

lemma exposures_snoc:
  "exposures (rows @ [r]) = exposures rows @ [\<bar>dec0 (foldl net_move None (rows @ [r]))\<bar>]"
  by (simp add: exposures_def)

lemma exposures_last: "\<bar>dec0 (foldl net_move None rows)\<bar> \<in> set (exposures rows)"
  by (simp add: exposures_def)

lemma peak_walk_max: "dec0 (snd (foldl net_peak (None, None) rows)) = Max (set (exposures rows))"
proof (induction rows rule: rev_induct)
  case (snoc r rows)
  obtain cur peak where p: "foldl net_peak (None, None) rows = (cur, peak)" by fastforce
  have cur: "cur = foldl net_move None rows"
    using fst_net_peak [of None None rows] p by simp
  let ?new = "dec0 (net_move cur r)"
  have "dec0 (snd (net_peak (cur, peak) r)) = max (dec0 peak) \<bar>?new\<bar>"
  proof (cases "group_net_step (dec0 cur) r")
    case None
    have "\<bar>dec0 cur\<bar> \<le> Max (set (exposures rows))"
      using exposures_last [of rows] cur by (intro Max_ge) simp_all
    then have "\<bar>dec0 cur\<bar> \<le> dec0 peak" using snoc p by simp
    then show ?thesis using None by (simp add: net_move_def max_def)
  next
    case (Some stepped)
    then show ?thesis by (simp add: net_move_def)
  qed
  moreover have "set (exposures (rows @ [r])) = insert \<bar>?new\<bar> (set (exposures rows))"
    by (simp add: exposures_snoc cur)
  moreover have "exposures rows \<noteq> []" by (simp add: exposures_def)
  ultimately show ?case
    using snoc p by (simp add: Max_insert max.commute)
qed (simp add: exposures_def)

text \<open>
  The peak exposure of a security is the largest absolute net the group held
  after any of its rows, walked in time order: it is attained, it is never below the final net,
  and a security has a peak exactly when it has a net.\<close>

theorem peak_exposure_is_largest_net:
  "dict_get_or (peak_exposures rows) sid 0 = Max (set (exposures (security_rows sid rows)))
   \<and> \<bar>dict_get_or (net_quantities rows) sid 0\<bar> \<le> dict_get_or (peak_exposures rows) sid 0
   \<and> (dict_get (peak_exposures rows) sid = None \<longleftrightarrow> dict_get (net_quantities rows) sid = None)"
proof (intro conjI)
  let ?rows = "security_rows sid rows"
  show max: "dict_get_or (peak_exposures rows) sid 0 = Max (set (exposures ?rows))"
    by (simp add: dict_get_or_dec0 peak_exposures_get peak_walk_max)
  show "\<bar>dict_get_or (net_quantities rows) sid 0\<bar> \<le> dict_get_or (peak_exposures rows) sid 0"
    unfolding max unfolding dict_get_or_dec0 net_quantities_get
    by (rule Max_ge) (simp_all add: exposures_last)
  have "peak_ok (foldl net_peak (None, None) ?rows)"
    by (rule peak_ok_walk) (simp add: peak_ok_def)
  then show "dict_get (peak_exposures rows) sid = None \<longleftrightarrow> dict_get (net_quantities rows) sid = None"
    unfolding peak_exposures_get net_quantities_get
      fst_net_peak [of None None ?rows, symmetric]
    by (auto simp: peak_ok_def split: prod.splits option.splits)
qed

section \<open>Closes on a flat group\<close>

lemma net_move_closing_flat:
  assumes "is_closing r" "dec0 cur = 0"
  shows "net_move cur r = cur"
  using assms
  by (auto simp: net_move_def group_net_step_def is_closing_def closes_group_def Let_def opt_in_def
      str_true_def split: option.splits)

lemma net_step_closing_flat:
  assumes "is_closing r" "\<forall>(_, qty) \<in> set net. qty = 0"
  shows "net_step net r = net"
proof -
  let ?sid = "str0 (r_security_id r)"
  have "dict_get_or net ?sid 0 = 0"
    using assms(2) by (auto simp: dict_get_or_def split: option.split dest!: map_of_SomeD)
  then have "group_net_step (dict_get_or net ?sid 0) r = None"
    using assms(1)
    by (auto simp: group_net_step_def is_closing_def closes_group_def Let_def opt_in_def
        str_true_def split: option.splits)
  then show ?thesis by (simp add: net_step_def Let_def)
qed

lemma net_walk_closing_flat:
  "\<forall>r \<in> set rows. is_closing r \<Longrightarrow> \<forall>(_, qty) \<in> set net. qty = 0 \<Longrightarrow> foldl net_step net rows = net"
  by (induction rows) (simp_all add: net_step_closing_flat)

lemma ordered_position_rows_append:
  assumes "\<forall>r \<in> set rows. \<forall>r' \<in> set late. time_key (r_executed_at r) \<le> time_key (r_executed_at r')"
  shows "ordered_position_rows (rows @ late) = ordered_position_rows rows @ ordered_position_rows late"
  unfolding ordered_position_rows_def filter_append
  by (rule sort_key_append_le) (use assms in auto)

lemma net_quantities_late_closes:
  assumes "\<forall>(_, qty) \<in> set (net_quantities rows). qty = 0" and "\<forall>r \<in> set late. is_closing r"
    and "\<forall>r \<in> set rows. \<forall>r' \<in> set late. time_key (r_executed_at r) \<le> time_key (r_executed_at r')"
  shows "net_quantities (rows @ late) = net_quantities rows"
proof -
  have "\<forall>r \<in> set (ordered_position_rows late). is_closing r"
    using assms(2) by (auto simp: ordered_position_rows_def)
  from net_walk_closing_flat [OF this assms(1)] show ?thesis
    by (simp add: net_quantities_def ordered_position_rows_append [OF assms(3)])
qed

text \<open>
  A fully closed group stays fully closed: closing fills and settlements that
  arrive afterwards, any number of them and in any quantity, leave its nets as they are, so a
  fill that also closes sibling groups cannot reopen it.\<close>

theorem fully_closed_absorbs_closes:
  assumes "fully_closed rows" and "\<forall>r \<in> set late. is_closing r"
    and "\<forall>r \<in> set rows. \<forall>r' \<in> set late. time_key (r_executed_at r) \<le> time_key (r_executed_at r')"
  shows "fully_closed (rows @ late) \<and> net_quantities (rows @ late) = net_quantities rows"
proof -
  have "\<forall>(_, qty) \<in> set (net_quantities rows). qty = 0"
    using assms(1) by (auto simp: fully_closed_def Let_def split: if_splits)
  from net_quantities_late_closes [OF this assms(2,3)] assms(1) show ?thesis
    by (auto simp: fully_closed_def Let_def split: if_splits)
qed

lemma net_quantities_closes_only:
  assumes "\<forall>r \<in> set rows. is_closing r"
  shows "net_quantities rows = []"
proof -
  have "\<forall>r \<in> set (ordered_position_rows rows). is_closing r"
    using assms by (auto simp: ordered_position_rows_def)
  from net_walk_closing_flat [OF this, of "[]"] show ?thesis by (simp add: net_quantities_def)
qed


section \<open>Settlement events\<close>

definition settled_total :: "ledger_row list \<Rightarrow> string option \<times> bool \<Rightarrow> decimal" where
  "settled_total rows key =
     sum_list (map (\<lambda>r. \<bar>row_qty r\<bar>) (filter (\<lambda>r. r_quantity r \<noteq> None \<and> settled_key r = key) rows))"

lemma settled_step_one:
  "dict_get_or (settled_step d r) key 0 = dict_get_or d key 0
     + (if r_quantity r \<noteq> None \<and> settled_key r = key then \<bar>row_qty r\<bar> else 0)"
  by (simp add: settled_step_def)

lemma settled_step_get:
  "dict_get_or (foldl settled_step d rows) key 0 = dict_get_or d key 0 + settled_total rows key"
  by (induction rows arbitrary: d) (simp_all add: settled_step_one settled_total_def)

lemma settled_step_keys:
  "fst ` set (foldl settled_step d rows) =
     fst ` set d \<union> settled_key ` {r \<in> set rows. r_quantity r \<noteq> None}"
  by (induction rows arbitrary: d) (auto simp: settled_step_def dom_dict_set)

text \<open>
  The contracts a settlement event retires are counted once per security: the
  quantities of its removal rows, or, for a security whose removal rows carry none, those of its
  cash-settled money rows; the two rows one event arrives as are never added up.\<close>

theorem settled_quantity_counts_once:
  "settled_quantity rows =
     (\<Sum>sid \<in> r_security_id ` {r \<in> set rows. r_quantity r \<noteq> None}.
        if settled_total rows (sid, False) \<noteq> 0 then settled_total rows (sid, False)
        else settled_total rows (sid, True))"
proof -
  let ?d = "foldl settled_step [] rows"
  let ?sids = "first_seen (map (\<lambda>(key, _). fst key) ?d)"
  have total: "dict_get_or ?d key 0 = settled_total rows key" for key
    using settled_step_get [of "[]" rows key] by (simp add: dict_get_or_def)
  have "set ?sids = fst ` (fst ` set ?d)" by (force simp: image_iff)
  also have "\<dots> = r_security_id ` {r \<in> set rows. r_quantity r \<noteq> None}"
    unfolding settled_step_keys by (simp add: image_image settled_key_def)
  finally have sids: "set ?sids = r_security_id ` {r \<in> set rows. r_quantity r \<noteq> None}" .
  have "settled_quantity rows = sum_list (map (\<lambda>sid.
      if settled_total rows (sid, False) \<noteq> 0 then settled_total rows (sid, False)
      else settled_total rows (sid, True)) ?sids)"
    unfolding settled_quantity_def Let_def total ..
  then show ?thesis
    unfolding sum_list_distinct_conv_sum_set [OF distinct_first_seen] sids .
qed

section \<open>Realized P&L of a group\<close>

lemma sum_signed_gross:
  "sum_list (map signed_gross rows) = sum_list (map signed_net rows) + sum_list (map row_fees rows)"
  by (induction rows) (simp_all add: signed_gross_def)

text \<open>
  For a group without futures, the gross realized P&L that is stamped and the
  total fees stamped beside it give back the broker's cash: subtracting the fees, as every
  reader of the pair does, yields the sum of the signed net values, so the fees are neither
  dropped nor counted twice.\<close>

theorem group_realized_minus_fees_is_cash:
  assumes "\<forall>r \<in> set rows. \<not> is_future sec_of r"
  shows "group_realized sec_of rows - sum_list (map row_fees rows) = sum_list (map signed_net rows)"
proof -
  have "filter (is_future sec_of) rows = []" and "filter (\<lambda>r. \<not> is_future sec_of r) rows = rows"
    using assms by (simp_all add: filter_empty_conv)
  then show ?thesis by (simp add: group_realized_def sum_signed_gross)
qed

theorem group_realized_minus_fees_is_cash_witness:
  "group_realized (\<lambda>_. None)
     [(example_row ''1'' ''Buy to Open'' 1 1 0)\<lparr>r_net_value := Some 101, r_net_value_effect := Some ''Debit''\<rparr>,
      (example_row ''2'' ''Sell to Close'' 1 3 5)\<lparr>r_net_value := Some 299, r_net_value_effect := Some ''Credit''\<rparr>]
   - 2 = 198"
proof -
  let ?rows = "[(example_row ''1'' ''Buy to Open'' 1 1 0)\<lparr>r_net_value := Some 101, r_net_value_effect := Some ''Debit''\<rparr>,
      (example_row ''2'' ''Sell to Close'' 1 3 5)\<lparr>r_net_value := Some 299, r_net_value_effect := Some ''Credit''\<rparr>]"
  have "\<forall>r \<in> set ?rows. \<not> is_future (\<lambda>_. None) r" by code_simp
  note eq = group_realized_minus_fees_is_cash [OF this]
  have "sum_list (map row_fees ?rows) = 2" "sum_list (map signed_net ?rows) = 198" by code_simp+
  with eq show ?thesis by simp
qed

section \<open>Status of a closed group\<close>

lemma status_of_causes_not_open: "status_of_causes (close_causes rows) \<noteq> GS_OPEN"
proof -
  have "close_cause net r \<noteq> Some GS_OPEN" for net r
    by (auto simp: close_cause_def rd_event_by_subtype_def split: if_splits)
  then have "GS_OPEN \<notin> set (close_causes rows)"
    by (auto simp: close_causes_def set_somes) (metis)
  then show ?thesis
    by (cases "close_causes rows" rule: remdups_adj.cases) (auto simp: status_of_causes_def)
qed

section \<open>The order of rows within an instant\<close>


end
