(* ===== verification/Routing.thy ===== *)
theory Routing
  imports Group_Net
begin

text \<open>
  How reconcile cuts the candidates of an account into clusters and routes the rows of a cluster
  (\<^verbatim>\<open>tt_ledger/ingest/reconcile.py\<close>: \<open>_cluster_by_time\<close>, \<open>_OpenGroup\<close>, \<open>_route_cluster\<close> with its
  inner \<open>_draw_down\<close>). An open group is identified by its primary key, which the list of open
  groups holds once. The nets still to be drawn down are a function of group and security: the
  code treats an absent entry and a zero one alike.
\<close>

section \<open>Clusters\<close>

definition GROUP_TOLERANCE :: timedelta where
  "GROUP_TOLERANCE = 5 * us_per_second"

definition ROLL_TOLERANCE :: timedelta where
  "ROLL_TOLERANCE = 60 * us_per_second"

text \<open>\<open>row.executed_at\<close> of a row known to have one.\<close>

definition exec_at :: "'a ledger_row_scheme \<Rightarrow> datetime" where
  "exec_at r = (case r_executed_at r of None \<Rightarrow> 0 | Some t \<Rightarrow> t)"

definition cluster_step :: "'a ledger_row_scheme list list \<Rightarrow> 'a ledger_row_scheme \<Rightarrow> 'a ledger_row_scheme list list" where
  "cluster_step clusters row =
     (if clusters \<noteq> [] \<and> exec_at row - exec_at (last (last clusters)) \<le> GROUP_TOLERANCE
      then butlast clusters @ [last clusters @ [row]]
      else clusters @ [[row]])"

definition dated_clusters :: "'a ledger_row_scheme list \<Rightarrow> 'a ledger_row_scheme list list" where
  "dated_clusters rows = foldl cluster_step [] (sort_key exec_at (filter (\<lambda>r. r_executed_at r \<noteq> None) rows))"

definition cluster_by_time :: "'a ledger_row_scheme list \<Rightarrow> 'a ledger_row_scheme list list" where
  "cluster_by_time rows =
     dated_clusters rows @ map (\<lambda>row. [row]) (filter (\<lambda>r. r_executed_at r = None) rows)"

section \<open>Open groups\<close>

record open_group =
  og_pk :: nat
  og_rows :: "ledger_row list"

definition og_security_ids :: "open_group \<Rightarrow> string list" where
  "og_security_ids g =
     remdups (map (\<lambda>r. str0 (r_security_id r)) (filter (\<lambda>r. str_true (r_security_id r)) (og_rows g)))"

definition extend_unique :: "ledger_row list \<Rightarrow> open_group \<Rightarrow> open_group" where
  "extend_unique rows g =
     g\<lparr>og_rows := og_rows g @ filter (\<lambda>r. r_tt_transaction_id r \<notin> r_tt_transaction_id ` set (og_rows g)) rows\<rparr>"

section \<open>Routing\<close>

type_synonym nets_left = "nat \<Rightarrow> string \<Rightarrow> decimal"

definition nets_of_groups :: "open_group list \<Rightarrow> nets_left" where
  "nets_of_groups groups pk sid =
     (case find (\<lambda>g. og_pk g = pk) groups of None \<Rightarrow> 0
      | Some g \<Rightarrow> dict_get_or (net_quantities (og_rows g)) sid 0)"

definition offsets :: "decimal \<Rightarrow> decimal option \<Rightarrow> bool" where
  "offsets net delta \<longleftrightarrow> net \<noteq> 0 \<and> (case delta of None \<Rightarrow> True | Some d \<Rightarrow> \<not> 0 \<le> net * d)"

fun draw_down :: "string \<Rightarrow> decimal option \<Rightarrow> decimal \<Rightarrow> nat list \<Rightarrow> nets_left \<Rightarrow> nat option \<times> nets_left" where
  "draw_down sid delta left_over [] remaining = (None, remaining)"
| "draw_down sid delta left_over (g # gs) remaining =
     (let net = remaining g sid in
      if \<not> offsets net delta then draw_down sid delta left_over gs remaining
      else
        let taken = min left_over \<bar>net\<bar>;
            remaining' = remaining(g := (remaining g)(sid := (if 0 < net then net - taken else net + taken)));
            left' = left_over - taken
        in (Some g, if left' \<le> 0 then remaining' else snd (draw_down sid delta left' gs remaining')))"

definition member_group :: "open_group list \<Rightarrow> string \<Rightarrow> nat option" where
  "member_group groups sid = map_option og_pk (find (\<lambda>g. sid \<in> set (og_security_ids g)) groups)"

definition route_row :: "open_group list \<Rightarrow> nets_left \<Rightarrow> ledger_row \<Rightarrow> nat option \<times> nets_left" where
  "route_row groups remaining row =
     (case r_security_id row of
        None \<Rightarrow> (None, remaining)
      | Some sid \<Rightarrow>
          if is_closing row then
            (let delta = (if str_true (r_action row) then Some (action_delta row) else None)
             in case draw_down sid delta \<bar>row_qty row\<bar> (map og_pk groups) remaining of
                  (Some pk, remaining') \<Rightarrow> (Some pk, remaining')
                | (None, remaining') \<Rightarrow> (member_group groups sid, remaining'))
          else if is_bare row then
            draw_down sid (Some (action_delta row)) \<bar>row_qty row\<bar> (map og_pk groups) remaining
          else (None, remaining))"

type_synonym routing = "(nat, ledger_row list) dict \<times> ledger_row list \<times> nets_left"

definition route_step :: "open_group list \<Rightarrow> routing \<Rightarrow> ledger_row \<Rightarrow> routing" where
  "route_step groups acc row =
     (case acc of (buckets, rest, remaining) \<Rightarrow>
      (case route_row groups remaining row of
         (None, remaining') \<Rightarrow> (buckets, rest @ [row], remaining')
       | (Some pk, remaining') \<Rightarrow> (dict_append pk row buckets, rest, remaining')))"

definition route_cluster ::
  "open_group list \<Rightarrow> ledger_row list \<Rightarrow> (nat, ledger_row list) dict \<times> ledger_row list" where
  "route_cluster groups rows =
     (case foldl (route_step groups) ([], [], nets_of_groups groups) rows of
        (buckets, rest, _) \<Rightarrow> (buckets, rest))"

section \<open>Clustering\<close>

lemma exec_at_Some [simp]: "r_executed_at r = Some t \<Longrightarrow> exec_at r = t"
  by (simp add: exec_at_def)

text \<open>A list of clusters is well cut when neighbours inside a cluster are within the tolerance
  and neighbouring clusters are further apart than it.\<close>

definition gap_free :: "'a ledger_row_scheme list \<Rightarrow> bool" where
  "gap_free c \<longleftrightarrow> c \<noteq> [] \<and> (\<forall>i. Suc i < length c \<longrightarrow> exec_at (c ! Suc i) - exec_at (c ! i) \<le> GROUP_TOLERANCE)"

definition well_cut :: "'a ledger_row_scheme list list \<Rightarrow> bool" where
  "well_cut cs \<longleftrightarrow> (\<forall>c \<in> set cs. gap_free c)
     \<and> (\<forall>i. Suc i < length cs \<longrightarrow> GROUP_TOLERANCE < exec_at (hd (cs ! Suc i)) - exec_at (last (cs ! i)))"

lemma gap_free_snoc:
  "gap_free c \<Longrightarrow> exec_at r - exec_at (last c) \<le> GROUP_TOLERANCE \<Longrightarrow> gap_free (c @ [r])"
proof -
  assume gf: "gap_free c" and near: "exec_at r - exec_at (last c) \<le> GROUP_TOLERANCE"
  have "exec_at ((c @ [r]) ! Suc i) - exec_at ((c @ [r]) ! i) \<le> GROUP_TOLERANCE"
    if "Suc i < Suc (length c)" for i
  proof (cases "Suc i = length c")
    case True
    then have "last c = c ! i" by (metis diff_Suc_1 gap_free_def gf last_conv_nth)
    then show ?thesis using near True by (simp add: nth_append)
  next
    case False
    then show ?thesis using gf that by (simp add: gap_free_def nth_append)
  qed
  then show ?thesis by (simp add: gap_free_def)
qed

lemma concat_cluster_step: "concat (cluster_step cs r) = concat cs @ [r]"
proof (cases "cs = []")
  case False
  then have "concat (butlast cs) @ last cs = concat cs"
    by (metis append_butlast_last_id concat.simps concat_append append_Nil2)
  then show ?thesis by (simp add: cluster_step_def)
qed (simp add: cluster_step_def)

lemma well_cut_step: "well_cut cs \<Longrightarrow> well_cut (cluster_step cs r)"
proof (cases "cs \<noteq> [] \<and> exec_at r - exec_at (last (last cs)) \<le> GROUP_TOLERANCE")
  case True
  assume ok: "well_cut cs"
  obtain ds c where cs: "cs = ds @ [c]" using True by (metis append_butlast_last_id)
  have gf: "gap_free c" using ok cs by (simp add: well_cut_def)
  have far: "GROUP_TOLERANCE < exec_at (hd ((ds @ [c']) ! Suc i)) - exec_at (last ((ds @ [c']) ! i))"
    if "Suc i < Suc (length ds)" and "hd c' = hd c" for i c'
  proof -
    have "GROUP_TOLERANCE < exec_at (hd (cs ! Suc i)) - exec_at (last (cs ! i))"
      using ok that(1) cs by (simp add: well_cut_def)
    then show ?thesis
      using that cs by (cases "Suc i < length ds") (auto simp: nth_append less_Suc_eq)
  qed
  have "hd (c @ [r]) = hd c" using gf by (simp add: gap_free_def)
  then have "well_cut (ds @ [c @ [r]])"
    using ok cs gap_free_snoc [OF gf, of r] True far [of _ "c @ [r]"] by (auto simp: well_cut_def)
  then show ?thesis using True cs by (simp add: cluster_step_def)
next
  case False
  assume ok: "well_cut cs"
  have "gap_free [r]" by (simp add: gap_free_def)
  have "GROUP_TOLERANCE < exec_at (hd ((cs @ [[r]]) ! Suc i)) - exec_at (last ((cs @ [[r]]) ! i))"
    if "Suc i < Suc (length cs)" for i
  proof (cases "Suc i < length cs")
    case True
    then show ?thesis using ok by (simp add: well_cut_def nth_append)
  next
    case False': False
    then have "i = length cs - 1" "cs \<noteq> []" using that by auto
    then show ?thesis
      using False by (simp add: nth_append last_conv_nth)
  qed
  then have "well_cut (cs @ [[r]])"
    using ok \<open>gap_free [r]\<close> by (auto simp: well_cut_def)
  then show ?thesis using False by (auto simp: cluster_step_def)
qed

lemma dated_clusters_cut:
  "well_cut (foldl cluster_step cs rs) \<and> concat (foldl cluster_step cs rs) = concat cs @ rs"
  if "well_cut cs"
  using that by (induction rs arbitrary: cs) (simp_all add: well_cut_step concat_cluster_step)

text \<open>
  Clustering is a partition of the candidates in time: the clusters hold every
  row exactly once; read in order, the dated ones are the rows by time; neighbours in a cluster
  are at most five seconds apart and neighbouring clusters more than five; and every undated row
  is a cluster of its own.\<close>

theorem cluster_by_time_partitions:
  "mset (concat (cluster_by_time rows)) = mset rows
   \<and> well_cut (dated_clusters rows)
   \<and> concat (dated_clusters rows) = sort_key exec_at (filter (\<lambda>r. r_executed_at r \<noteq> None) rows)
   \<and> cluster_by_time rows = dated_clusters rows @ map (\<lambda>r. [r]) (filter (\<lambda>r. r_executed_at r = None) rows)"
proof -
  have "well_cut ([] :: 'a ledger_row_scheme list list)" by (simp add: well_cut_def)
  from dated_clusters_cut [OF this]
  have cut: "well_cut (dated_clusters rows)"
    and cat: "concat (dated_clusters rows) = sort_key exec_at (filter (\<lambda>r. r_executed_at r \<noteq> None) rows)"
    by (simp_all add: dated_clusters_def)
  have "mset (filter (\<lambda>r. r_executed_at r \<noteq> None) rows) + mset (filter (\<lambda>r. r_executed_at r = None) rows) = mset rows"
    by (simp add: multiset_partition [symmetric] add.commute)
  moreover have "concat (map (\<lambda>r. [r]) xs) = xs" for xs :: "'a ledger_row_scheme list" by simp
  ultimately show ?thesis
    using cut cat by (simp add: cluster_by_time_def)
qed

section \<open>Drawing down the nets\<close>

definition take_from :: "string \<Rightarrow> decimal \<Rightarrow> nat \<Rightarrow> nets_left \<Rightarrow> nets_left" where
  "take_from sid q g remaining = remaining(g := (remaining g)(sid := toward_zero (remaining g sid) q))"

lemma take_from_get:
  "take_from sid q g remaining pk s
     = (if pk = g \<and> s = sid then toward_zero (remaining g sid) q else remaining pk s)"
  by (simp add: take_from_def)

lemma take_from_zero: "take_from sid 0 g remaining = remaining"
  by (intro ext) (auto simp: take_from_get toward_zero_def)

lemma draw_down_skip:
  "\<not> offsets (remaining g sid) delta \<Longrightarrow>
     draw_down sid delta q (g # gs) remaining = draw_down sid delta q gs remaining"
  by simp

lemma draw_down_zero: "snd (draw_down sid delta 0 gs remaining) = remaining"
proof (induction gs)
  case (Cons g gs)
  have "remaining(g := (remaining g)(sid := remaining g sid)) = remaining" by simp
  then show ?case using Cons by (simp add: Let_def)
qed simp

lemma draw_down_take:
  assumes "offsets (remaining g sid) delta" and "0 \<le> q"
  shows "snd (draw_down sid delta q (g # gs) remaining)
       = snd (draw_down sid delta (q - min q \<bar>remaining g sid\<bar>) gs (take_from sid q g remaining))"
proof -
  let ?taken = "min q \<bar>remaining g sid\<bar>"
  have rem: "remaining(g := (remaining g)(sid := (if 0 < remaining g sid then remaining g sid - ?taken
      else remaining g sid + ?taken))) = take_from sid q g remaining"
    using assms(2) by (simp add: take_from_def toward_zero_def Let_def)
  show ?thesis
  proof (cases "q - ?taken \<le> 0")
    case True
    then have "q - ?taken = 0" by (simp add: min_def split: if_splits)
    then show ?thesis
      unfolding draw_down.simps Let_def rem using assms(1) by (simp add: draw_down_zero)
  next
    case False
    then show ?thesis unfolding draw_down.simps Let_def rem using assms(1) by simp
  qed
qed

lemma left_over_nonneg: "0 \<le> (q::decimal) - min q \<bar>n\<bar>"
  by (simp add: min_def)

lemma draw_down_frame:
  "0 \<le> q \<Longrightarrow> pk \<notin> set gs \<Longrightarrow> snd (draw_down sid delta q gs remaining) pk s = remaining pk s"
proof (induction gs arbitrary: q remaining)
  case (Cons g gs)
  then show ?case
    by (cases "offsets (remaining g sid) delta")
      (simp_all only: draw_down_skip draw_down_take left_over_nonneg, simp_all add: take_from_get)
qed simp

text \<open>What the groups that offset the row hold of the security.\<close>

definition offsetting_total :: "string \<Rightarrow> decimal option \<Rightarrow> nat list \<Rightarrow> nets_left \<Rightarrow> decimal" where
  "offsetting_total sid delta gs remaining =
     sum_list (map (\<lambda>g. if offsets (remaining g sid) delta then \<bar>remaining g sid\<bar> else 0) gs)"

definition held_total :: "string \<Rightarrow> nat list \<Rightarrow> nets_left \<Rightarrow> decimal" where
  "held_total sid gs remaining = sum_list (map (\<lambda>g. \<bar>remaining g sid\<bar>) gs)"

lemma offsetting_total_nonneg: "0 \<le> offsetting_total sid delta gs remaining"
  by (auto simp: offsetting_total_def intro!: sum_list_nonneg)

lemma offsetting_total_upd [simp]:
  "g \<notin> set gs \<Longrightarrow> offsetting_total sid delta gs (remaining(g := n)) = offsetting_total sid delta gs remaining"
  by (auto simp: offsetting_total_def intro!: arg_cong [where f = sum_list])

lemma held_total_upd [simp]:
  "g \<notin> set gs \<Longrightarrow> held_total sid gs (remaining(g := n)) = held_total sid gs remaining"
  by (auto simp: held_total_def intro!: arg_cong [where f = sum_list])

lemma held_total_take [simp]:
  "g \<notin> set gs \<Longrightarrow> held_total sid gs (take_from sid' q g remaining) = held_total sid gs remaining"
  by (simp add: take_from_def)

lemma offsetting_total_take [simp]:
  "g \<notin> set gs \<Longrightarrow>
     offsetting_total sid delta gs (take_from sid' q g remaining) = offsetting_total sid delta gs remaining"
  by (simp add: take_from_def)

lemma draw_down_total:
  "distinct gs \<Longrightarrow> 0 \<le> q \<Longrightarrow>
     held_total sid gs (snd (draw_down sid delta q gs remaining))
       = held_total sid gs remaining - min q (offsetting_total sid delta gs remaining)"
proof (induction gs arbitrary: q remaining)
  case (Cons g gs)
  let ?net = "remaining g sid"
  have notin: "g \<notin> set gs" using Cons.prems by simp
  have cons: "held_total sid (g # gs) r = \<bar>r g sid\<bar> + held_total sid gs r" for r
    by (simp add: held_total_def)
  have off: "offsetting_total sid delta (g # gs) remaining
      = (if offsets ?net delta then \<bar>?net\<bar> else 0) + offsetting_total sid delta gs remaining"
    by (simp add: offsetting_total_def)
  show ?case
  proof (cases "offsets ?net delta")
    case False
    then show ?thesis
      using Cons notin unfolding draw_down_skip [where remaining = remaining and g = g, OF False] cons off by (simp add: draw_down_frame)
  next
    case True
    let ?q = "q - min q \<bar>?net\<bar>" and ?rem = "take_from sid q g remaining"
    have own: "snd (draw_down sid delta ?q gs ?rem) g sid = toward_zero ?net q"
      using notin by (simp add: draw_down_frame [OF left_over_nonneg] take_from_get)
    have IH: "held_total sid gs (snd (draw_down sid delta ?q gs ?rem))
        = held_total sid gs remaining - min ?q (offsetting_total sid delta gs remaining)"
      using Cons.IH [OF _ left_over_nonneg, of q ?net ?rem] Cons.prems notin by simp
    have "min q \<bar>?net\<bar> + min ?q t = min q (\<bar>?net\<bar> + t)" if "0 \<le> t" for t
      using that by (simp add: min_def)
    from this [OF offsetting_total_nonneg, of sid delta gs remaining] show ?thesis
      unfolding draw_down_take [where remaining = remaining and g = g, OF True Cons.prems(2)] cons off IH own toward_zero_abs
      using True Cons.prems(2) by simp
  qed
qed (simp add: held_total_def offsetting_total_def)

lemma draw_down_toward_zero:
  "0 \<le> q \<Longrightarrow> (0 \<le> remaining pk s \<longrightarrow> 0 \<le> snd (draw_down sid delta q gs remaining) pk s
       \<and> snd (draw_down sid delta q gs remaining) pk s \<le> remaining pk s)
   \<and> (remaining pk s \<le> 0 \<longrightarrow> remaining pk s \<le> snd (draw_down sid delta q gs remaining) pk s
       \<and> snd (draw_down sid delta q gs remaining) pk s \<le> 0)"
proof (induction gs arbitrary: q remaining)
  case (Cons g gs)
  show ?case
  proof (cases "offsets (remaining g sid) delta")
    case False
    then show ?thesis using Cons by simp
  next
    case True
    let ?rem = "take_from sid q g remaining"
    have "(0 \<le> remaining pk s \<longrightarrow> 0 \<le> ?rem pk s \<and> ?rem pk s \<le> remaining pk s)
      \<and> (remaining pk s \<le> 0 \<longrightarrow> remaining pk s \<le> ?rem pk s \<and> ?rem pk s \<le> 0)"
      by (auto simp: take_from_get toward_zero_between)
    with Cons.IH [OF left_over_nonneg, of ?rem q "remaining g sid"] show ?thesis
      unfolding draw_down_take [where remaining = remaining and g = g, OF True Cons.prems] by linarith
  qed
qed simp

lemma draw_down_first:
  "fst (draw_down sid delta q gs remaining) = find (\<lambda>g. offsets (remaining g sid) delta) gs"
  by (induction gs) (simp_all add: Let_def)

text \<open>
  C15 (invariant). Drawing a closing row down over the open groups takes exactly its quantity, or
  everything the offsetting groups hold when that is less; it assigns the row to the first group
  it offsets; and no group's net is driven through zero or away from it, so the nets left for
  the later rows of the cluster are what the groups still hold.\<close>

theorem draw_down_exact:
  assumes "distinct gs" and "0 \<le> q"
  shows "(let (first, after) = draw_down sid delta q gs before
          in first = find (\<lambda>g. offsets (before g sid) delta) gs
           \<and> held_total sid gs after = held_total sid gs before - min q (offsetting_total sid delta gs before)
           \<and> (\<forall>pk s. \<bar>after pk s\<bar> \<le> \<bar>before pk s\<bar> \<and> 0 \<le> after pk s * before pk s))"
proof -
  obtain first after where d: "draw_down sid delta q gs before = (first, after)" by fastforce
  have "\<bar>after pk s\<bar> \<le> \<bar>before pk s\<bar> \<and> 0 \<le> after pk s * before pk s" for pk s
    using draw_down_toward_zero [OF assms(2), of before pk s sid delta gs] d
    by (cases "0 \<le> before pk s") (auto intro: mult_nonneg_nonneg mult_nonpos_nonpos)
  then show ?thesis
    using d draw_down_first [of sid delta q gs before] draw_down_total [OF assms, of sid delta before]
    by simp
qed

text \<open>Two groups long one lot each: a settlement of two retires both, and is assigned to the
  first.\<close>

theorem draw_down_exact_witness:
  "\<exists>after. draw_down ''opt'' None 2 [1, 2] (\<lambda>_ _. 1) = (Some 1, after)
     \<and> held_total ''opt'' [1, 2] after = 0"
proof -
  have "distinct [1::nat, 2]" "0 \<le> (2::decimal)" by simp_all
  note exact = draw_down_exact [OF this, of "''opt''" None "\<lambda>_ _. 1"]
  obtain first after where d: "draw_down ''opt'' None 2 [1, 2] (\<lambda>_ _. 1) = (first, after)" by fastforce
  have "held_total ''opt'' [1::nat, 2] (\<lambda>_ _. 1) = 2"
    and "offsetting_total ''opt'' None [1::nat, 2] (\<lambda>_ _. 1) = 2"
    and "find (\<lambda>g. offsets ((\<lambda>_ _. 1) g ''opt'') None) [1::nat, 2] = Some 1"
    by (simp_all add: held_total_def offsetting_total_def offsets_def)
  with exact d show ?thesis by simp
qed

section \<open>Routing is a partition\<close>

lemma draw_down_member: "fst (draw_down sid delta q gs remaining) = Some pk \<Longrightarrow> pk \<in> set gs"
  unfolding draw_down_first by (auto simp: find_Some_iff)

lemma member_group_some: "member_group groups sid = Some pk \<Longrightarrow> pk \<in> og_pk ` set groups"
  by (auto simp: member_group_def find_Some_iff)

lemma route_row_some:
  assumes "route_row groups remaining row = (Some pk, remaining')"
  shows "pk \<in> og_pk ` set groups \<and> (is_closing row \<or> is_bare row) \<and> r_security_id row \<noteq> None"
  using assms draw_down_member member_group_some
  by (auto simp: route_row_def Let_def split: option.splits if_splits prod.splits)
    (metis draw_down_member fst_conv list.set_map)+

text \<open>A closing row is left over only when no open group has its security as a member.\<close>

lemma route_row_none:
  assumes "route_row groups remaining row = (None, remaining')" and "is_closing row"
    and "r_security_id row = Some sid"
  shows "\<forall>g \<in> set groups. sid \<notin> set (og_security_ids g)"
  using assms
  by (auto simp: route_row_def member_group_def Let_def find_None_iff split: option.splits prod.splits if_splits)

definition routed :: "open_group list \<Rightarrow> routing \<Rightarrow> ledger_row list \<Rightarrow> bool" where
  "routed groups acc rows \<longleftrightarrow>
     (case acc of (buckets, rest, _) \<Rightarrow>
        mset (concat (map snd buckets)) + mset rest = mset rows
      \<and> distinct (map fst buckets)
      \<and> (\<forall>(pk, bucket) \<in> set buckets. pk \<in> og_pk ` set groups
            \<and> (\<forall>r \<in> set bucket. is_closing r \<or> is_bare r))
      \<and> (\<forall>r \<in> set rest. is_closing r \<longrightarrow>
            (\<forall>g \<in> set groups. r_security_id r = None \<or> str0 (r_security_id r) \<notin> set (og_security_ids g))))"

lemma set_dict_append:
  "(k', ys) \<in> set (dict_append k x d) \<Longrightarrow>
     (k', ys) \<in> set d \<or> (k' = k \<and> (ys = [x] \<or> (\<exists>zs. (k, zs) \<in> set d \<and> ys = zs @ [x])))"
  by (induction k x d rule: dict_append.induct) (auto split: if_splits)

lemma routed_step:
  assumes "routed groups acc rows"
  shows "routed groups (route_step groups acc row) (rows @ [row])"
proof -
  obtain buckets rest remaining where acc: "acc = (buckets, rest, remaining)" by (cases acc)
  obtain target remaining' where t: "route_row groups remaining row = (target, remaining')" by fastforce
  show ?thesis
  proof (cases target)
    case None
    have "\<forall>g \<in> set groups. r_security_id row = None \<or> str0 (r_security_id row) \<notin> set (og_security_ids g)"
      if "is_closing row"
      using route_row_none [OF t [unfolded None] that] by (cases "r_security_id row") simp_all
    then show ?thesis
      using assms None t acc by (auto simp: routed_def route_step_def)
  next
    case (Some pk)
    from route_row_some [OF t [unfolded Some]]
    have pk: "pk \<in> og_pk ` set groups" "is_closing row \<or> is_bare row" by auto
    let ?b = "dict_append pk row buckets"
    have "mset (concat (map snd ?b)) + mset rest = mset (rows @ [row])"
      using assms acc by (simp add: routed_def mset_dict_append)
    moreover have "distinct (map fst ?b)"
      using assms acc by (simp add: routed_def distinct_dict_append)
    moreover have "\<forall>(pk', bucket) \<in> set ?b. pk' \<in> og_pk ` set groups \<and> (\<forall>r \<in> set bucket. is_closing r \<or> is_bare r)"
      using assms acc pk by (fastforce simp: routed_def dest!: set_dict_append)
    ultimately show ?thesis
      using assms Some t acc by (simp add: routed_def route_step_def)
  qed
qed

lemma routed_walk: "routed groups acc rows \<Longrightarrow> routed groups (foldl (route_step groups) acc rs) (rows @ rs)"
proof (induction rs arbitrary: acc rows)
  case (Cons row rs)
  from Cons.IH [OF routed_step [OF Cons.prems, of row]] show ?case by simp
qed simp

text \<open>
  C14 (functional). Routing a cluster loses and duplicates nothing: every row lands in exactly
  one bucket or in the rest; each bucket belongs to one open group and holds only closing rows
  and bare futures trades, so openers never attach to an existing group; and a closing row is
  left in the rest, where it would open a group, only when no open group has its security.\<close>

theorem route_cluster_partitions:
  "(let (buckets, rest) = route_cluster groups rows
    in mset (concat (map snd buckets)) + mset rest = mset rows
     \<and> distinct (map fst buckets)
     \<and> (\<forall>(pk, bucket) \<in> set buckets. pk \<in> og_pk ` set groups
           \<and> (\<forall>r \<in> set bucket. is_closing r \<or> is_bare r))
     \<and> (\<forall>r \<in> set rest. is_closing r \<longrightarrow>
           (\<forall>g \<in> set groups. r_security_id r = None \<or> str0 (r_security_id r) \<notin> set (og_security_ids g))))"
proof -
  have "routed groups ([], [], nets_of_groups groups) []" by (simp add: routed_def)
  from routed_walk [OF this, of rows] show ?thesis
    by (simp add: routed_def route_cluster_def split: prod.splits)
qed

text \<open>Two groups long one lot of an option each, and two same-instant closes of one lot: one row
  each.\<close>

theorem route_cluster_partitions_witness:
  "\<exists>r s. route_cluster
       [\<lparr>og_pk = 1, og_rows = [example_row ''a'' ''Buy to Open'' 1 1 0]\<rparr>,
        \<lparr>og_pk = 2, og_rows = [example_row ''b'' ''Buy to Open'' 1 1 0]\<rparr>]
       [example_row ''c'' ''Sell to Close'' 1 1 9, example_row ''d'' ''Sell to Close'' 1 1 9]
     = ([(1, [r]), (2, [s])], [])
     \<and> {#r, s#} = mset [example_row ''c'' ''Sell to Close'' 1 1 9, example_row ''d'' ''Sell to Close'' 1 1 9]"
proof -
  let ?groups = "[\<lparr>og_pk = 1, og_rows = [example_row ''a'' ''Buy to Open'' 1 1 0]\<rparr>,
        \<lparr>og_pk = 2, og_rows = [example_row ''b'' ''Buy to Open'' 1 1 0]\<rparr>]"
  let ?rows = "[example_row ''c'' ''Sell to Close'' 1 1 9, example_row ''d'' ''Sell to Close'' 1 1 9]"
  have "route_cluster ?groups ?rows
      = ([(1, [example_row ''c'' ''Sell to Close'' 1 1 9]), (2, [example_row ''d'' ''Sell to Close'' 1 1 9])], [])"
    by code_simp
  with route_cluster_partitions [of ?groups ?rows] show ?thesis by simp
qed

end
