(* ===== verification/Strategy.thy ===== *)
theory Strategy
  imports Group_Net
begin

text \<open>
  The classification of a group's legs into a \<open>StrategyType\<close>
  (\<^verbatim>\<open>tt_ledger/ingest/reconcile.py\<close>: \<open>LegInfo\<close>, \<open>detect_strategy_type\<close> and its helpers). The
  sets the code builds are compared by cardinality only, so each is the list of its members.
\<close>

section \<open>The classifier\<close>

record leg_info =
  li_product_type :: string
  li_option_type :: "string option"
  li_expiry :: "date option"
  li_strike :: "decimal option"
  li_quantity :: decimal

definition OPTION_PRODUCT_TYPES :: "string list" where
  "OPTION_PRODUCT_TYPES = [''OS'', ''OI'', ''OF'']"

definition is_option_leg :: "leg_info \<Rightarrow> bool" where
  "is_option_leg leg \<longleftrightarrow> li_product_type leg \<in> set OPTION_PRODUCT_TYPES"

definition same_values :: "'a set \<Rightarrow> bool" where
  "same_values values \<longleftrightarrow> card values = 1"

definition classify_two_leg :: "leg_info \<Rightarrow> leg_info \<Rightarrow> strategy_type" where
  "classify_two_leg a b =
     (let same_expiry = (li_expiry a = li_expiry b);
          same_strike = (li_strike a = li_strike b);
          same_type = (li_option_type a = li_option_type b)
      in if same_expiry \<and> same_type \<and> li_quantity a \<noteq> li_quantity b then ST_RATIO
         else if same_expiry \<and> same_strike \<and> \<not> same_type then ST_STRADDLE
         else if same_expiry \<and> \<not> same_strike \<and> \<not> same_type then ST_STRANGLE
         else if same_expiry \<and> same_type \<and> \<not> same_strike then ST_VERTICAL
         else if \<not> same_expiry \<and> same_strike \<and> same_type then ST_CALENDAR
         else if \<not> same_expiry \<and> \<not> same_strike \<and> same_type then ST_DIAGONAL
         else ST_CUSTOM)"

definition classify_three_leg :: "leg_info list \<Rightarrow> strategy_type" where
  "classify_three_leg legs =
     (if same_values (set (map li_expiry legs)) \<and> same_values (set (map li_option_type legs))
      then ST_BUTTERFLY else ST_CUSTOM)"

definition classify_four_leg :: "leg_info list \<Rightarrow> strategy_type" where
  "classify_four_leg legs =
     (if \<not> same_values (set (map li_expiry legs)) then ST_CUSTOM
      else
        let types = map li_option_type legs; strikes = map li_strike legs
        in if count_list types (Some ''P'') = 2 \<and> count_list types (Some ''C'') = 2
           then (if card (set strikes) = 4 then ST_IRON_CONDOR else ST_IRON_BUTTERFLY)
           else if same_values (set types) then ST_CONDOR
           else ST_CUSTOM)"

definition strategy_of_legs :: "leg_info list \<Rightarrow> strategy_type" where
  "strategy_of_legs legs =
     (case legs of
        [] \<Rightarrow> ST_CUSTOM
      | [leg] \<Rightarrow> if li_product_type leg = ''F'' then ST_FUTURE else ST_SINGLE
      | _ \<Rightarrow>
          let option_legs = filter is_option_leg legs;
              other_legs = filter (\<lambda>leg. \<not> is_option_leg leg) legs
          in if other_legs \<noteq> [] \<and> option_legs \<noteq> [] then
               (if length other_legs = 1 \<and> length option_legs = 2
                   \<and> same_values (set (map li_expiry option_legs))
                   \<and> set (map li_option_type option_legs) = {Some ''P'', Some ''C''} then ST_COLLAR
                else if length other_legs = 1 \<and> length option_legs = 1 then ST_COVERED
                else ST_CUSTOM)
             else if option_legs = [] then
               (if \<forall>leg \<in> set legs. li_product_type leg = ''F'' then ST_FUTURE_SPREAD else ST_CUSTOM)
             else
               (case option_legs of
                  [a, b] \<Rightarrow> classify_two_leg a b
                | [_, _, _] \<Rightarrow> classify_three_leg option_legs
                | [_, _, _, _] \<Rightarrow> classify_four_leg option_legs
                | _ \<Rightarrow> ST_CUSTOM))"

definition detect_strategy_type :: "leg_info list \<Rightarrow> string" where
  "detect_strategy_type legs = strategy_value (strategy_of_legs legs)"

section \<open>The order of the legs does not matter\<close>

lemma classify_two_leg_commute: "classify_two_leg a b = classify_two_leg b a"
proof -
  have "(li_expiry b = li_expiry a) = (li_expiry a = li_expiry b)"
    and "(li_strike b = li_strike a) = (li_strike a = li_strike b)"
    and "(li_option_type b = li_option_type a) = (li_option_type a = li_option_type b)"
    and "(li_quantity b = li_quantity a) = (li_quantity a = li_quantity b)" by (rule eq_commute)+
  then show ?thesis unfolding classify_two_leg_def Let_def by (simp only:)
qed

lemma classify_four_leg_perm: "mset legs = mset legs' \<Longrightarrow> classify_four_leg legs = classify_four_leg legs'"
proof -
  assume m: "mset legs = mset legs'"
  then have types: "mset (map li_option_type legs) = mset (map li_option_type legs')" by simp
  have "count_list (map li_option_type legs) t = count_list (map li_option_type legs') t" for t
    using types by (metis count_mset)
  then show ?thesis
    using mset_eq_setD [OF m] by (simp add: classify_four_leg_def Let_def)
qed

lemma classify_three_leg_perm: "mset legs = mset legs' \<Longrightarrow> classify_three_leg legs = classify_three_leg legs'"
proof -
  assume "mset legs = mset legs'"
  then have "set legs = set legs'" by (rule mset_eq_setD)
  then show ?thesis by (simp add: classify_three_leg_def)
qed

lemma mset_pair: "mset [a, b] = mset xs \<Longrightarrow> xs = [a, b] \<or> xs = [b, a]"
proof -
  assume m: "mset [a, b] = mset xs"
  then have "length xs = 2" by (metis length_Cons list.size(3) numeral_2_eq_2 size_mset)
  then obtain c d where "xs = [c, d]" by (auto simp: numeral_2_eq_2 length_Suc_conv)
  with m show ?thesis by (auto simp: add_eq_conv_ex)
qed

text \<open>Lists of a given length, for the case splits on the number of legs.\<close>

definition option_strategy :: "leg_info list \<Rightarrow> strategy_type" where
  "option_strategy legs =
     (if length legs = 2 then classify_two_leg (legs ! 0) (legs ! 1)
      else if length legs = 3 then classify_three_leg legs
      else if length legs = 4 then classify_four_leg legs else ST_CUSTOM)"

lemma option_strategy_cases:
  "(case legs of [a, b] \<Rightarrow> classify_two_leg a b | [_, _, _] \<Rightarrow> classify_three_leg legs
     | [_, _, _, _] \<Rightarrow> classify_four_leg legs | _ \<Rightarrow> ST_CUSTOM) = option_strategy legs"
  by (auto simp: option_strategy_def split: list.split)

lemma option_strategy_perm:
  assumes m: "mset legs = mset legs'"
  shows "option_strategy legs = option_strategy legs'"
proof -
  have len: "length legs = length legs'" using m by (rule mset_eq_length)
  show ?thesis
  proof (cases "length legs = 2")
    case True
    then obtain a b where ab: "legs = [a, b]" by (auto simp: numeral_2_eq_2 length_Suc_conv)
    with m have "legs' = [a, b] \<or> legs' = [b, a]" by (intro mset_pair) simp
    then show ?thesis
      using ab classify_two_leg_commute [of a b] by (auto simp: option_strategy_def)
  next
    case False
    then show ?thesis
      using len classify_three_leg_perm [OF m] classify_four_leg_perm [OF m]
      by (simp add: option_strategy_def)
  qed
qed

lemma strategy_of_many_legs:
  assumes "2 \<le> length legs"
  shows "strategy_of_legs legs =
    (let option_legs = filter is_option_leg legs;
         others = length (filter (\<lambda>leg. \<not> is_option_leg leg) legs)
     in if others \<noteq> 0 \<and> option_legs \<noteq> [] then
          (if others = 1 \<and> length option_legs = 2 \<and> same_values (set (map li_expiry option_legs))
              \<and> set (map li_option_type option_legs) = {Some ''P'', Some ''C''} then ST_COLLAR
           else if others = 1 \<and> length option_legs = 1 then ST_COVERED else ST_CUSTOM)
        else if option_legs = [] then
          (if \<forall>leg \<in> set legs. li_product_type leg = ''F'' then ST_FUTURE_SPREAD else ST_CUSTOM)
        else option_strategy option_legs)"
proof -
  obtain a b rest where "legs = a # b # rest"
    using assms by (metis Suc_le_length_iff numeral_2_eq_2)
  then show ?thesis
    unfolding strategy_of_legs_def option_strategy_cases Let_def by simp
qed

text \<open>
  The classification depends on the legs only, not on the order the rows of
  the group happened to arrive in: any permutation of the legs gets the same strategy type.\<close>

theorem strategy_order_irrelevant:
  assumes m: "mset legs = mset legs'"
  shows "detect_strategy_type legs = detect_strategy_type legs'"
proof (cases "2 \<le> length legs")
  case False
  then have "length legs = 0 \<or> length legs = 1" by linarith
  then have "legs' = legs"
    using m by (auto simp: length_Suc_conv)
  then show ?thesis by simp
next
  case True
  have len: "length legs' = length legs" using m by (metis mset_eq_length)
  have opts: "mset (filter is_option_leg legs) = mset (filter is_option_leg legs')"
    and others: "length (filter (\<lambda>leg. \<not> is_option_leg leg) legs) = length (filter (\<lambda>leg. \<not> is_option_leg leg) legs')"
    using m by (simp_all flip: size_mset)
  note sets = mset_eq_setD [OF m] mset_eq_setD [OF opts] mset_eq_length [OF opts]
  have "filter is_option_leg legs = [] \<longleftrightarrow> filter is_option_leg legs' = []"
    using opts by (metis mset_zero_iff)
  then show ?thesis
    using sets others option_strategy_perm [OF opts] True len
    by (simp add: detect_strategy_type_def strategy_of_many_legs Let_def del: filter_empty_conv)
qed

definition example_leg :: "string \<Rightarrow> decimal \<Rightarrow> leg_info" where
  "example_leg ty strike =
     \<lparr> li_product_type = ''OI'', li_option_type = Some ty, li_expiry = Some 100, li_strike = Some strike,
       li_quantity = 1 \<rparr>"

theorem strategy_order_irrelevant_witness:
  "detect_strategy_type [example_leg ''P'' 10, example_leg ''P'' 20, example_leg ''C'' 30, example_leg ''C'' 40]
     = ''iron_condor''
   \<and> detect_strategy_type [example_leg ''C'' 40, example_leg ''P'' 10, example_leg ''C'' 30, example_leg ''P'' 20]
     = ''iron_condor''"
proof -
  let ?a = "[example_leg ''P'' 10, example_leg ''P'' 20, example_leg ''C'' 30, example_leg ''C'' 40]"
  let ?b = "[example_leg ''C'' 40, example_leg ''P'' 10, example_leg ''C'' 30, example_leg ''P'' 20]"
  have "mset ?a = mset ?b" by simp
  note eq = strategy_order_irrelevant [OF this]
  moreover have "detect_strategy_type ?a = ''iron_condor''" by code_simp
  ultimately show ?thesis by simp
qed

text \<open>
  Four option legs are a condor exactly when they share one expiry and one
  option type: how many distinct strikes they have is not looked at, although the comment on
  that branch says four distinct strikes.\<close>

theorem condor_ignores_strikes:
  assumes "length legs = 4" and "\<forall>leg \<in> set legs. is_option_leg leg"
  shows "detect_strategy_type legs = ''condor'' \<longleftrightarrow>
    card (set (map li_expiry legs)) = 1 \<and> card (set (map li_option_type legs)) = 1"
proof -
  have "filter is_option_leg legs = legs" "filter (\<lambda>leg. \<not> is_option_leg leg) legs = []"
    using assms(2) by (simp_all add: filter_empty_conv)
  then have "strategy_of_legs legs = classify_four_leg legs"
    using assms(1) strategy_of_many_legs [of legs]
    by (auto simp: option_strategy_def Let_def)
  moreover have "\<not> (count_list (map li_option_type legs) (Some ''P'') = 2
      \<and> count_list (map li_option_type legs) (Some ''C'') = 2)"
    if one: "card (set (map li_option_type legs)) = 1"
  proof
    assume "count_list (map li_option_type legs) (Some ''P'') = 2
      \<and> count_list (map li_option_type legs) (Some ''C'') = 2"
    then have "Some ''P'' \<in> set (map li_option_type legs)" "Some ''C'' \<in> set (map li_option_type legs)"
      by (metis count_list_0_iff zero_neq_numeral)+
    moreover obtain t where "set (map li_option_type legs) = {t}"
      using one by (auto simp: card_1_singleton_iff)
    ultimately have "Some ''P'' = (Some ''C'' :: string option)" by (metis singletonD)
    then show False by simp
  qed
  moreover have "detect_strategy_type legs = ''condor'' \<longleftrightarrow> strategy_of_legs legs = ST_CONDOR"
    unfolding detect_strategy_type_def using strategy_value_inject [of _ ST_CONDOR] by simp
  ultimately show ?thesis
    by (auto simp: classify_four_leg_def same_values_def Let_def)
qed

theorem condor_ignores_strikes_witness:
  "detect_strategy_type [example_leg ''C'' 10, example_leg ''C'' 10, example_leg ''C'' 10, example_leg ''C'' 10]
     = ''condor''"
proof -
  let ?legs = "[example_leg ''C'' 10, example_leg ''C'' 10, example_leg ''C'' 10, example_leg ''C'' 10]"
  have "length ?legs = 4" "\<forall>leg \<in> set ?legs. is_option_leg leg" by code_simp+
  from condor_ignores_strikes [OF this] show ?thesis by (simp add: example_leg_def)
qed

end
