(* ===== verification/Reconcile.thy ===== *)
theory Reconcile
  imports Routing Strategy
begin

text \<open>
  The stateful part of \<^verbatim>\<open>tt_ledger/ingest/reconcile.py\<close>: what reads and writes the ledger. The
  operations come in the order the run uses them: the fields of a group, loading the open groups,
  applying an exit, intent rows, creating a group, linking rolls, the lapse synthesis, the heal
  and the run itself.

  The code keeps \<open>_OpenGroup\<close> objects in a list and mutates them; here the list is threaded
  through and a group is found in it by its primary key. The settlement-price resolver is
  supplied by the host: a parameter that returns a price, no price, or raises with a message.
\<close>

section \<open>Fields of a group\<close>

record group_fields =
  gf_underlying :: "string option"
  gf_security_id :: "string option"
  gf_strategy_type :: string
  gf_leg_count :: nat
  gf_total_premium :: decimal
  gf_total_fees :: decimal
  gf_quantity :: "decimal option"
  gf_executed_at :: "datetime option"

definition distinct_security_ids :: "ledger_row list \<Rightarrow> string list" where
  "distinct_security_ids rows =
     first_seen (map (\<lambda>r. str0 (r_security_id r)) (filter (\<lambda>r. str_true (r_security_id r)) rows))"

definition abs_quantities :: "ledger_row list \<Rightarrow> decimal list" where
  "abs_quantities rows = map (\<lambda>r. \<bar>row_qty r\<bar>) (filter (\<lambda>r. r_quantity r \<noteq> None) rows)"

definition fallback_quantity :: "ledger_row list \<Rightarrow> string \<Rightarrow> decimal" where
  "fallback_quantity rows sid =
     dec0 (max_opt (abs_quantities (filter (\<lambda>r. r_security_id r = Some sid) rows)))"

definition leg_of_security :: "ledger_row list \<Rightarrow> string \<Rightarrow> security_row \<Rightarrow> leg_info" where
  "leg_of_security rows sid sec =
     (let peak = dict_get_or (peak_exposures rows) sid 0 in
      \<lparr> li_product_type = sec_product_type sec, li_option_type = sec_option_type sec,
        li_expiry = sec_expiry sec, li_strike = sec_strike sec,
        li_quantity = (if peak \<noteq> 0 then peak else fallback_quantity rows sid) \<rparr>)"

definition group_legs :: "ledger \<Rightarrow> ledger_row list \<Rightarrow> leg_info list" where
  "group_legs s rows =
     somes (map (\<lambda>sid. map_option (leg_of_security rows sid) (get_security s sid))
       (distinct_security_ids rows))"

definition first_underlying :: "ledger_row list \<Rightarrow> string option" where
  "first_underlying rows =
     (case find (\<lambda>r. str_true (r_underlying r)) rows of None \<Rightarrow> None | Some r \<Rightarrow> r_underlying r)"

definition event_times :: "ledger_row list \<Rightarrow> datetime list" where
  "event_times rows = somes (map r_executed_at rows)"

definition compute_group_fields :: "ledger \<Rightarrow> ledger_row list \<Rightarrow> group_fields" where
  "compute_group_fields s rows =
     (let sids = distinct_security_ids rows; peaks = peak_exposures rows in
      \<lparr> gf_underlying = first_underlying rows,
        gf_security_id = (case sids of [sid] \<Rightarrow> Some sid | _ \<Rightarrow> None),
        gf_strategy_type = detect_strategy_type (group_legs s rows),
        gf_leg_count = max (length sids) 1,
        gf_total_premium = sum_list (map signed_net (filter (\<lambda>r. r_net_value r \<noteq> None) rows)),
        gf_total_fees = sum_list (map row_fees rows),
        gf_quantity = (if peaks \<noteq> [] then max_opt (map snd peaks) else max_opt (abs_quantities rows)),
        gf_executed_at = min_opt (event_times rows) \<rparr>)"

section \<open>Open groups\<close>

definition group_rows :: "ledger \<Rightarrow> nat \<Rightarrow> ledger_row list" where
  "group_rows s pk = map ledger_row.truncate (get_group_transactions s pk)"

definition load_open_groups :: "ledger \<Rightarrow> string \<Rightarrow> open_group list" where
  "load_open_groups s account =
     somes (map (\<lambda>trade. map_option (\<lambda>pk. \<lparr>og_pk = pk, og_rows = group_rows s pk\<rparr>)
                            (get_trade_group_id s (tr_group_id trade)))
       (unified_trades s (trade_filter0\<lparr>tf_account := Some account, tf_status := Some ''open''\<rparr>)))"

definition find_group :: "open_group list \<Rightarrow> nat \<Rightarrow> open_group option" where
  "find_group groups pk = find (\<lambda>g. og_pk g = pk) groups"

definition put_group :: "open_group \<Rightarrow> open_group list \<Rightarrow> open_group list" where
  "put_group g groups = map (\<lambda>g'. if og_pk g' = og_pk g then g else g') groups"

definition remove_group :: "nat \<Rightarrow> open_group list \<Rightarrow> open_group list" where
  "remove_group pk groups = filter (\<lambda>g. og_pk g \<noteq> pk) groups"

definition group_for_pk :: "ledger \<Rightarrow> open_group list \<Rightarrow> nat \<Rightarrow> (open_group \<times> open_group list) option" where
  "group_for_pk s groups pk =
     (case find_group groups pk of
        Some g \<Rightarrow> Some (g, groups)
      | None \<Rightarrow>
          (case get_trade_group_by_id s pk of
             None \<Rightarrow> None
           | Some _ \<Rightarrow> let g = \<lparr>og_pk = pk, og_rows = group_rows s pk\<rparr> in Some (g, groups @ [g])))"

definition refresh_group_financials :: "open_group \<Rightarrow> ledger \<Rightarrow> ledger" where
  "refresh_group_financials g s =
     (case get_trade_group_by_id s (og_pk g) of
        None \<Rightarrow> s
      | Some tg \<Rightarrow>
          let flds = compute_group_fields s (og_rows g) in
          snd (upsert_trade_group
            (tg\<lparr> tg_total_premium := Some (gf_total_premium flds),
                 tg_total_fees := Some (gf_total_fees flds),
                 tg_quantity := gf_quantity flds,
                 tg_leg_count := gf_leg_count flds,
                 tg_underlying := str_or (tg_underlying tg) (gf_underlying flds),
                 tg_security_id := str_or (tg_security_id tg) (gf_security_id flds),
                 tg_strategy_type := str_or (tg_strategy_type tg) (Some (gf_strategy_type flds)),
                 tg_executed_at := or_else (gf_executed_at flds) (tg_executed_at tg) \<rparr>) s))"

section \<open>Deliveries and underlyings\<close>

definition norm_underlying :: "string option \<Rightarrow> string option" where
  "norm_underlying value =
     (if \<not> str_true value then None
      else let v = py_upper (py_strip (dropWhile (\<lambda>c. c = CHR ''/'') (str0 value)))
           in if v = [] then None else Some v)"

definition roots_relate :: "string option \<Rightarrow> string option \<Rightarrow> bool" where
  "roots_relate a b \<longleftrightarrow> str_true a \<and> str_true b
     \<and> (py_startswith (str0 a) (str0 b) \<or> py_startswith (str0 b) (str0 a))"

definition security_underlying :: "ledger \<Rightarrow> string option \<Rightarrow> string option" where
  "security_underlying s sid =
     (if \<not> str_true sid then None else Option.bind (get_security s (str0 sid)) sec_underlying)"

definition is_assigned :: "ledger_row \<Rightarrow> bool" where
  "is_assigned r \<longleftrightarrow> is_nontrade_close r
     \<and> (rd_event_by_subtype (r_transaction_sub_type r) = Some EV_ASSIGNMENT
        \<or> rd_event_by_subtype (r_transaction_sub_type r) = Some EV_EXERCISE)"

definition delivers_row :: "ledger \<Rightarrow> ledger_row list \<Rightarrow> ledger_row \<Rightarrow> bool" where
  "delivers_row s assigned r =
     (let sec_unders = filter str_true (map (\<lambda>a. security_underlying s (r_security_id a)) assigned);
          txn_unders = filter str_true (map (\<lambda>a. norm_underlying (r_underlying a)) assigned);
          delivered = (if str_true (r_security_id r) then get_security s (str0 (r_security_id r)) else None);
          delivered_under =
            str_or (norm_underlying (r_underlying r))
              (norm_underlying (Option.bind delivered sec_underlying))
      in (case delivered of None \<Rightarrow> False
          | Some d \<Rightarrow> sec_unders \<noteq> [] \<and> (sec_underlying d \<in> set sec_unders
                        \<or> Some (sec_security_id d) \<in> set sec_unders))
       \<or> (\<exists>a \<in> set txn_unders. roots_relate delivered_under a))"

definition delivers_underlying :: "ledger \<Rightarrow> ledger_row list \<Rightarrow> ledger_row list \<Rightarrow> bool" where
  "delivers_underlying s close_rows rest_rows =
     (let assigned = filter is_assigned close_rows; deliveries = filter is_delivery rest_rows
      in if assigned = [] \<or> deliveries = [] then False
         else \<exists>r \<in> set deliveries. delivers_row s assigned r)"

definition same_underlying :: "ledger_row list \<Rightarrow> ledger_row list \<Rightarrow> bool" where
  "same_underlying close_rows open_rows \<longleftrightarrow>
     (\<exists>r \<in> set close_rows. str_true (r_underlying r)
        \<and> r_underlying r \<in> r_underlying ` set (filter (\<lambda>r. str_true (r_underlying r)) open_rows))"

section \<open>Applying an exit\<close>

record applied_exit =
  ae_pk :: nat
  ae_rows :: "ledger_row list"
  ae_fully_closed :: bool
  ae_rolled :: bool
  ae_closed_at :: "datetime option"

definition tids :: "'a ledger_row_scheme list \<Rightarrow> string list" where
  "tids rows = map r_tt_transaction_id rows"

definition trade_exit_rows :: "ledger_row list \<Rightarrow> ledger_row list" where
  "trade_exit_rows rows =
     filter (\<lambda>r. \<not> is_nontrade_close r \<and> (opt_in (r_action r) CLOSING_ACTIONS \<or> is_bare r)) rows"

definition trade_exit_event :: "nat \<Rightarrow> bool \<Rightarrow> datetime option \<Rightarrow> ledger_row list \<Rightarrow> event_row" where
  "trade_exit_event pk closed_now event_at rows =
     (event_default pk (if closed_now then EV_FULL_EXIT else EV_PARTIAL_EXIT))
       \<lparr> ev_quantity_change := - sum_list (abs_quantities rows),
         ev_premium_change := sum_list (map signed_net rows),
         ev_event_at := event_at \<rparr>"

definition rd_event :: "ledger_row \<Rightarrow> event_type" where
  "rd_event r = (case rd_event_by_subtype (r_transaction_sub_type r) of None \<Rightarrow> EV_EXPIRATION | Some e \<Rightarrow> e)"

definition settlement_event ::
  "nat \<Rightarrow> nat option \<Rightarrow> datetime option \<Rightarrow> event_type \<times> ledger_row list \<Rightarrow> event_row" where
  "settlement_event pk delivery_pk event_at entry =
     (case entry of (ty, rd_rows) \<Rightarrow>
      (event_default pk ty)
       \<lparr> ev_quantity_change := - settled_quantity rd_rows,
         ev_premium_change := sum_list (map signed_net rd_rows),
         ev_event_at := or_else (max_opt (event_times rd_rows)) event_at,
         ev_rolled_to_group_id := (if ty = EV_ASSIGNMENT \<or> ty = EV_EXERCISE then delivery_pk else None) \<rparr>)"

definition roll_event :: "nat \<Rightarrow> datetime option \<Rightarrow> nat \<Rightarrow> event_row" where
  "roll_event pk event_at target =
     (event_default pk EV_ROLL)\<lparr> ev_event_at := event_at, ev_rolled_to_group_id := Some target \<rparr>"

fun add_events :: "event_row list \<Rightarrow> ledger \<Rightarrow> ledger" where
  "add_events [] s = s"
| "add_events (ev # evs) s = add_events evs (add_trade_group_event ev s)"

text \<open>The stamp a fully closed group gets, at exit or when healed.\<close>

definition stamp_closed :: "nat \<Rightarrow> ledger_row list \<Rightarrow> datetime option \<Rightarrow> ledger \<Rightarrow> ledger" where
  "stamp_closed pk rows closed_at s =
     (case get_trade_group_by_id s pk of
        None \<Rightarrow> s
      | Some tg \<Rightarrow>
          snd (upsert_trade_group
            (tg\<lparr> tg_status := group_status_value (status_of_causes (close_causes rows)),
                 tg_closed_at := closed_at,
                 tg_realized_pnl := Some (group_realized (get_security s) rows),
                 tg_total_fees := Some (sum_list (map row_fees rows)) \<rparr>) s))"

definition exit_events ::
  "nat \<Rightarrow> bool \<Rightarrow> nat option \<Rightarrow> nat option \<Rightarrow> ledger_row list \<Rightarrow> event_row list" where
  "exit_events pk closed_now rolled_to delivery_pk rows =
     (let event_at = max_opt (event_times rows); trades = trade_exit_rows rows in
      (if trades = [] then [] else [trade_exit_event pk closed_now event_at trades])
      @ map (settlement_event pk delivery_pk event_at) (group_by rd_event (filter is_nontrade_close rows))
      @ (case rolled_to of None \<Rightarrow> [] | Some target \<Rightarrow> [roll_event pk event_at target]))"

definition apply_exit ::
  "open_group \<Rightarrow> ledger_row list \<Rightarrow> nat option \<Rightarrow> nat option \<Rightarrow> ledger
     \<Rightarrow> applied_exit \<times> open_group \<times> ledger" where
  "apply_exit g rows0 rolled_to delivery_pk s =
     (let pk = og_pk g;
          s1 = attach_transactions_to_trade_group (tids rows0) pk s;
          rows = filter (\<lambda>r. r_tt_transaction_id r \<notin> r_tt_transaction_id ` set (og_rows g)) rows0
      in if rows = [] then
           (\<lparr> ae_pk = pk, ae_rows = [], ae_fully_closed = fully_closed (og_rows g), ae_rolled = False,
              ae_closed_at = Option.bind (get_trade_group_by_id s1 pk) tg_closed_at \<rparr>, g, s1)
         else
           let g' = extend_unique rows g;
               closed_now = fully_closed (og_rows g');
               event_at = max_opt (event_times rows);
               s2 = add_events (exit_events pk closed_now rolled_to delivery_pk rows) s1;
               s3 = (if closed_now then stamp_closed pk (og_rows g') event_at s2 else s2)
           in (\<lparr> ae_pk = pk, ae_rows = rows, ae_fully_closed = closed_now,
                 ae_rolled = (rolled_to \<noteq> None), ae_closed_at = event_at \<rparr>, g', s3))"

section \<open>Intent rows\<close>

type_synonym intent_state = "ledger_row list \<times> open_group list \<times> ledger"

definition intent_opening :: "open_group \<Rightarrow> ledger_row list \<Rightarrow> ledger \<Rightarrow> open_group \<times> ledger" where
  "intent_opening g opening s =
     (if opening = [] then (g, s)
      else
        let s1 = attach_transactions_to_trade_group (tids opening) (og_pk g) s;
            g' = extend_unique opening g
        in (g', refresh_group_financials g' s1))"

definition intent_closing :: "open_group \<Rightarrow> ledger_row list \<Rightarrow> ledger \<Rightarrow> bool \<times> open_group \<times> ledger" where
  "intent_closing g closing_rows s =
     (if closing_rows = [] then (False, g, s)
      else let (applied, g', s') = apply_exit g closing_rows None None s
           in (ae_fully_closed applied, g', s'))"

definition intent_step :: "intent_state \<Rightarrow> nat \<times> ledger_row list \<Rightarrow> intent_state" where
  "intent_step acc entry =
     (case (acc, entry) of ((remaining, groups, s), (pk, rows)) \<Rightarrow>
      (case group_for_pk s groups pk of
         None \<Rightarrow> (remaining @ rows, groups, s)
       | Some (g, groups1) \<Rightarrow>
           let (g1, s1) = intent_opening g (filter (\<lambda>r. \<not> is_closing r) rows) s;
               (closed_now, g2, s2) = intent_closing g1 (filter is_closing rows) s1;
               groups2 = put_group g2 groups1
           in (remaining, if closed_now then remove_group pk groups2 else groups2, s2)))"

definition apply_intent_rows ::
  "bool \<Rightarrow> open_group list \<Rightarrow> activity_row list \<Rightarrow> ledger \<Rightarrow> intent_state" where
  "apply_intent_rows dry_run groups rows s =
     (let remaining = map ledger_row.truncate (filter (\<lambda>r. a_order_trade_group_id r = None) rows);
          intent = map (\<lambda>(pk, rs). (pk, map ledger_row.truncate rs))
                     (group_by (\<lambda>r. case a_order_trade_group_id r of None \<Rightarrow> 0 | Some pk \<Rightarrow> pk)
                       (filter (\<lambda>r. a_order_trade_group_id r \<noteq> None) rows))
      in if dry_run \<or> intent = [] then (remaining, groups, s)
         else foldl intent_step (remaining, groups, s) intent)"

section \<open>Creating a group\<close>

definition entry_event :: "nat \<Rightarrow> group_fields \<Rightarrow> nat option \<Rightarrow> event_row" where
  "entry_event pk flds order_pk =
     (event_default pk EV_ENTRY)
       \<lparr> ev_quantity_change := dec0 (gf_quantity flds), ev_premium_change := gf_total_premium flds,
         ev_event_at := gf_executed_at flds, ev_order_id := order_pk \<rparr>"

definition new_trade_group :: "string \<Rightarrow> string \<Rightarrow> group_fields \<Rightarrow> trade_group_row" where
  "new_trade_group group_id account flds =
     (trade_group_default group_id account BROKER)
       \<lparr> tg_review_status := NEEDS_REVIEW, tg_status := ''open'',
         tg_underlying := gf_underlying flds, tg_security_id := gf_security_id flds,
         tg_strategy_type := Some (gf_strategy_type flds), tg_leg_count := gf_leg_count flds,
         tg_total_premium := Some (gf_total_premium flds), tg_total_fees := Some (gf_total_fees flds),
         tg_quantity := gf_quantity flds, tg_executed_at := gf_executed_at flds \<rparr>"

definition orders_of_cluster :: "ledger \<Rightarrow> nat \<Rightarrow> ledger_row list \<Rightarrow> order_row list" where
  "orders_of_cluster s pk rows =
     map (\<lambda>order. order\<lparr>o_trade_group_id := Some pk\<rparr>)
       (somes (map (get_order s)
         (first_seen (map (\<lambda>r. str0 (r_tt_order_id r)) (filter (\<lambda>r. str_true (r_tt_order_id r)) rows)))))"

definition create_trade_group :: "string \<Rightarrow> ledger_row list \<Rightarrow> ledger \<Rightarrow> nat \<times> ledger" where
  "create_trade_group account rows s =
     (let flds = compute_group_fields s rows;
          (group_id, s1) = fresh_uuid s;
          (pk, s2) = upsert_trade_group (new_trade_group group_id account flds) s1;
          s3 = attach_transactions_to_trade_group (tids rows) pk s2;
          (order_pks, s4) = upsert_orders (orders_of_cluster s3 pk rows) s3;
          primary = (case order_pks of [] \<Rightarrow> None | i # _ \<Rightarrow> Some i)
      in (pk, add_trade_group_event (entry_event pk flds primary) s4))"

section \<open>Rolls across clusters\<close>

definition max_quantity :: "ledger_row list \<Rightarrow> decimal" where
  "max_quantity rows = dec0 (max_opt (abs_quantities rows))"

definition option_types :: "ledger \<Rightarrow> ledger_row list \<Rightarrow> string list" where
  "option_types s rows =
     somes (map (\<lambda>r. Option.bind (Option.bind (r_security_id r) (get_security s)) sec_option_type) rows)"

definition same_option_types :: "ledger \<Rightarrow> ledger_row list \<Rightarrow> ledger_row list \<Rightarrow> bool" where
  "same_option_types s a_rows b_rows =
     (if option_types s a_rows \<noteq> [] \<and> option_types s b_rows \<noteq> []
      then set (option_types s a_rows) = set (option_types s b_rows) else True)"

definition rolls_into :: "ledger \<Rightarrow> applied_exit \<Rightarrow> nat \<times> ledger_row list \<Rightarrow> bool" where
  "rolls_into s ex created =
     (case (min_opt (event_times (snd created)), ae_closed_at ex) of
        (Some opened_at, Some closed_at) \<Rightarrow>
          0 \<le> opened_at - closed_at \<and> opened_at - closed_at \<le> ROLL_TOLERANCE
        \<and> same_underlying (ae_rows ex) (snd created)
        \<and> max_quantity (ae_rows ex) = max_quantity (snd created)
        \<and> same_option_types s (ae_rows ex) (snd created)
      | _ \<Rightarrow> False)"

definition link_roll :: "(nat \<times> ledger_row list) list \<Rightarrow> ledger \<Rightarrow> applied_exit \<Rightarrow> ledger" where
  "link_roll created s ex =
     (if ae_rolled ex \<or> ae_closed_at ex = None then s
      else (case find (rolls_into s ex) created of
              None \<Rightarrow> s
            | Some (pk, rows) \<Rightarrow>
                add_trade_group_event (roll_event (ae_pk ex) (min_opt (event_times rows)) pk) s))"

definition link_cross_cluster_rolls :: "applied_exit list \<Rightarrow> (nat \<times> ledger_row list) list \<Rightarrow> ledger \<Rightarrow> ledger" where
  "link_cross_cluster_rolls exits created s = foldl (link_roll created) s exits"

end
