(* ===== verification/Reconcile_Run.thy ===== *)
theory Reconcile_Run
  imports Reconcile
begin

text \<open>
  The passes of a reconcile run (\<^verbatim>\<open>tt_ledger/ingest/reconcile.py\<close>): the synthesis of missing
  settlements, the heal of fully closed groups, and \<open>reconcile\<close> itself, per account and over
  all accounts. An exception of the settlement-price resolver, the one call of a run that can
  raise in this model, ends the account's run with an error and keeps what it wrote before.
\<close>

section \<open>Synthesized settlements\<close>

type_synonym price_resolver = "string \<Rightarrow> date \<Rightarrow> string + decimal option"

definition DEFAULT_SETTLE_AFTER :: timedelta where
  "DEFAULT_SETTLE_AFTER = 2 * us_per_day"

definition last_activity_of :: "ledger \<Rightarrow> string \<Rightarrow> datetime option" where
  "last_activity_of s account =
     max_opt (event_times (activity_rows s (activity_filter0\<lparr>af_account := Some account\<rparr>)))"

definition held_securities :: "open_group list \<Rightarrow> string list" where
  "held_securities groups =
     sort (remdups (concat (map (\<lambda>g. map fst (filter (\<lambda>(_, net). net \<noteq> 0) (net_quantities (og_rows g)))) groups)))"

text \<open>A date plus a timedelta counts the whole days of the timedelta.\<close>

definition lapse_due :: "datetime \<Rightarrow> date \<Rightarrow> timedelta \<Rightarrow> bool" where
  "lapse_due last_activity expiry settle_after \<longleftrightarrow>
     \<not> date_of last_activity < expiry + settle_after div us_per_day"

definition intrinsic :: "string \<Rightarrow> decimal \<Rightarrow> decimal \<Rightarrow> decimal" where
  "intrinsic option_type strike settle =
     (if option_type = ''C'' then max 0 (settle - strike) else max 0 (strike - settle))"

text \<open>The settlement points of a due lot: \<open>Inr None\<close> when an option's price does not resolve.\<close>

definition settle_points :: "price_resolver option \<Rightarrow> string \<Rightarrow> date \<Rightarrow> security_row \<Rightarrow> string + decimal option" where
  "settle_points resolver sid expiry sec =
     (case (sec_strike sec, sec_option_type sec) of
        (Some strike, Some ty) \<Rightarrow>
          if ty = ''C'' \<or> ty = ''P'' then
            (case (case resolver of None \<Rightarrow> Inr None | Some f \<Rightarrow> f sid expiry) of
               Inl msg \<Rightarrow> Inl msg
             | Inr None \<Rightarrow> Inr None
             | Inr (Some settle) \<Rightarrow> Inr (Some (intrinsic ty strike settle)))
          else Inr (Some 0)
      | _ \<Rightarrow> Inr (Some 0))"

definition lapse_id :: "string \<Rightarrow> nat \<Rightarrow> string \<Rightarrow> string" where
  "lapse_id account pk sid = ''lapse-'' @ account @ ''-'' @ show_nat pk @ ''-'' @ sid"

definition lapse_row ::
  "string \<Rightarrow> nat \<Rightarrow> string \<Rightarrow> security_row \<Rightarrow> date \<Rightarrow> decimal \<Rightarrow> decimal \<Rightarrow> ledger_row" where
  "lapse_row account pk sid sec expiry points group_net =
     (let qty = \<bar>group_net\<bar>; cash = points * qty * of_int (int_or_1 (sec_multiplier sec)) in
      \<lparr> r_tt_transaction_id = lapse_id account pk sid, r_tt_order_id = None, r_account = account,
        r_transaction_type = Some ''Receive Deliver'', r_transaction_sub_type = Some ''Expiration'',
        r_action = None, r_security_id = Some sid, r_underlying = sec_underlying sec,
        r_quantity = Some qty, r_price = Some points,
        r_net_value = Some (if 0 < group_net then cash else - cash), r_net_value_effect = None,
        r_commission = None, r_clearing_fees = None, r_regulatory_fees = None,
        r_proprietary_index_option_fees = None, r_order_id = None, r_trade_group_id = Some pk,
        r_executed_at = Some (lapse_time expiry) \<rparr>)"

definition lapse_txn :: "date \<Rightarrow> ledger_row \<Rightarrow> txn_row" where
  "lapse_txn expiry row =
     ledger_row.extend row
       (txn_row.fields None ''tastytrade'' None None None
         (Some ''synthesized lapse: contract expired with no broker settlement row'')
         None None None (Some expiry))"

definition lapse_security ::
  "string \<Rightarrow> open_group list \<Rightarrow> string \<Rightarrow> security_row \<Rightarrow> date \<Rightarrow> decimal \<Rightarrow> (nat \<times> txn_row) list" where
  "lapse_security account groups sid sec expiry points =
     map (\<lambda>(pk, net). (pk, lapse_txn expiry (lapse_row account pk sid sec expiry points net)))
       (filter (\<lambda>(_, net). net \<noteq> 0)
         (map (\<lambda>g. (og_pk g, dict_get_or (net_quantities (og_rows g)) sid 0)) (sort_key og_pk groups)))"

fun lapse_securities ::
  "ledger \<Rightarrow> string \<Rightarrow> price_resolver option \<Rightarrow> timedelta \<Rightarrow> datetime \<Rightarrow> open_group list \<Rightarrow> string list
     \<Rightarrow> string + (nat \<times> txn_row) list" where
  "lapse_securities s account resolver settle_after last_activity groups [] = Inr []"
| "lapse_securities s account resolver settle_after last_activity groups (sid # sids) =
     (case (case (get_security s sid, Option.bind (get_security s sid) sec_expiry) of
              (Some sec, Some expiry) \<Rightarrow>
                if \<not> lapse_due last_activity expiry settle_after then Inr []
                else (case settle_points resolver sid expiry sec of
                        Inl msg \<Rightarrow> Inl msg
                      | Inr None \<Rightarrow> Inr []
                      | Inr (Some points) \<Rightarrow> Inr (lapse_security account groups sid sec expiry points))
            | _ \<Rightarrow> Inr []) of
        Inl msg \<Rightarrow> Inl msg
      | Inr rows \<Rightarrow>
          (case lapse_securities s account resolver settle_after last_activity groups sids of
             Inl msg \<Rightarrow> Inl msg | Inr rows' \<Rightarrow> Inr (rows @ rows')))"

definition settle_group :: "(nat \<times> txn_row) list \<Rightarrow> ledger \<Rightarrow> open_group \<Rightarrow> ledger" where
  "settle_group synthesized s g =
     (let rows = map (\<lambda>(_, txn). ledger_row.truncate txn) (filter (\<lambda>(pk, _). pk = og_pk g) synthesized)
      in if rows = [] then s else snd (snd (apply_exit g rows None None s)))"

definition synthesize_lapsed_settlements ::
  "string \<Rightarrow> price_resolver option \<Rightarrow> timedelta \<Rightarrow> bool \<Rightarrow> ledger \<Rightarrow> (string + txn_row list) \<times> ledger" where
  "synthesize_lapsed_settlements account resolver settle_after dry_run s =
     (case last_activity_of s account of
        None \<Rightarrow> (Inr [], s)
      | Some last_activity \<Rightarrow>
          let groups = load_open_groups s account in
          (case lapse_securities s account resolver settle_after last_activity groups (held_securities groups) of
             Inl msg \<Rightarrow> (Inl msg, s)
           | Inr synthesized \<Rightarrow>
               (Inr (map snd synthesized),
                if synthesized = [] \<or> dry_run then s
                else foldl (settle_group synthesized)
                       (upsert_transactions (map snd synthesized) s) groups)))"

section \<open>Healing\<close>

definition heal_event :: "nat \<Rightarrow> datetime option \<Rightarrow> event_row" where
  "heal_event pk closed_at =
     (event_default pk EV_ADJUSTMENT)
       \<lparr> ev_event_at := closed_at,
         ev_notes := Some ''self-heal: content fully closed but status was open'' \<rparr>"

definition heal_group :: "ledger \<Rightarrow> open_group \<Rightarrow> ledger" where
  "heal_group s g =
     (let closed_at = max_opt (event_times (og_rows g)) in
      if get_trade_group_by_id s (og_pk g) = None then s
      else add_trade_group_event (heal_event (og_pk g) closed_at)
             (stamp_closed (og_pk g) (og_rows g) closed_at s))"

definition heal_fully_closed_groups :: "string \<Rightarrow> bool \<Rightarrow> ledger \<Rightarrow> nat \<times> ledger" where
  "heal_fully_closed_groups account dry_run s =
     (let stuck = filter (\<lambda>g. fully_closed (og_rows g)) (load_open_groups s account)
      in (length stuck, if dry_run then s else foldl heal_group s stuck))"

section \<open>The run\<close>

definition accounts_with_activity :: "ledger \<Rightarrow> date option \<Rightarrow> string list" where
  "accounts_with_activity s since =
     sort (remdups (map r_account (activity_rows s (activity_filter0\<lparr>af_start := since\<rparr>))))"

definition is_candidate :: "activity_row \<Rightarrow> bool" where
  "is_candidate a \<longleftrightarrow>
     r_trade_group_id a = None
   \<and> (r_order_id a \<noteq> None \<or> is_nontrade_close (ledger_row.truncate a) \<or> is_delivery (ledger_row.truncate a))"

definition candidates :: "ledger \<Rightarrow> string \<Rightarrow> date option \<Rightarrow> activity_row list" where
  "candidates s account since =
     filter is_candidate
       (account_activity s (activity_filter0\<lparr>af_account := Some account, af_start := since\<rparr>))"

text \<open>What the loop over the clusters carries.\<close>

record run_state =
  rs_ledger :: ledger
  rs_groups :: "open_group list"
  rs_exits :: "applied_exit list"
  rs_created :: "(nat \<times> ledger_row list) list"
  rs_count :: nat

definition open_rest :: "bool \<Rightarrow> string \<Rightarrow> ledger_row list \<Rightarrow> run_state \<Rightarrow> nat option \<times> run_state" where
  "open_rest dry_run account rest st =
     (if rest = [] then (None, st)
      else if dry_run then (None, st\<lparr>rs_count := rs_count st + 1\<rparr>)
      else
        let (pk, s') = create_trade_group account rest (rs_ledger st)
        in (Some pk,
            st\<lparr> rs_ledger := s', rs_groups := rs_groups st @ [\<lparr>og_pk = pk, og_rows = rest\<rparr>],
                rs_created := rs_created st @ [(pk, rest)], rs_count := rs_count st + 1 \<rparr>))"

definition exit_bucket :: "nat option \<Rightarrow> ledger_row list \<Rightarrow> run_state \<Rightarrow> nat \<times> ledger_row list \<Rightarrow> run_state" where
  "exit_bucket new_pk rest st bucket =
     (case bucket of (pk, rows) \<Rightarrow>
      (case find_group (rs_groups st) pk of
         None \<Rightarrow> st
       | Some g \<Rightarrow>
           let s = rs_ledger st;
               rolled_to = (if same_underlying rows rest then new_pk else None);
               delivery_pk = (if delivers_underlying s rows rest then new_pk else None);
               (applied, g', s') = apply_exit g rows rolled_to delivery_pk s;
               groups = put_group g' (rs_groups st)
           in st\<lparr> rs_ledger := s',
                  rs_groups := (if ae_fully_closed applied then remove_group pk groups else groups),
                  rs_exits := rs_exits st @ [applied] \<rparr>))"

definition run_cluster :: "bool \<Rightarrow> string \<Rightarrow> run_state \<Rightarrow> activity_row list \<Rightarrow> run_state" where
  "run_cluster dry_run account st cluster =
     (let (rows, groups, s) = apply_intent_rows dry_run (rs_groups st) cluster (rs_ledger st);
          st1 = st\<lparr>rs_groups := groups, rs_ledger := s\<rparr>
      in if rows = [] then st1
         else
           let (buckets, rest) = route_cluster groups rows;
               (new_pk, st2) = open_rest dry_run account rest st1
           in if dry_run then st2 else foldl (exit_bucket new_pk rest) st2 buckets)"

definition run_clusters :: "bool \<Rightarrow> string \<Rightarrow> date option \<Rightarrow> ledger \<Rightarrow> run_state" where
  "run_clusters dry_run account since s =
     foldl (run_cluster dry_run account)
       \<lparr> rs_ledger = s, rs_groups = load_open_groups s account, rs_exits = [], rs_created = [], rs_count = 0 \<rparr>
       (cluster_by_time (candidates s account since))"

definition link_edges :: "string \<Rightarrow> ledger \<Rightarrow> ledger" where
  "link_edges account s =
     snd (link_closed_positions_to_groups account
       (snd (link_orders_to_groups account (snd (link_transactions_to_orders account s)))))"

definition reconcile_account ::
  "date option \<Rightarrow> price_resolver option \<Rightarrow> timedelta \<Rightarrow> bool \<Rightarrow> string \<Rightarrow> sync_result \<times> ledger \<Rightarrow> sync_result \<times> ledger" where
  "reconcile_account since resolver settle_after dry_run account acc =
     (case acc of (result, s) \<Rightarrow>
      let s1 = link_edges account s in
      (case synthesize_lapsed_settlements account resolver settle_after dry_run s1 of
         (Inl msg, s2) \<Rightarrow> (result\<lparr>sr_errors := sr_errors result @ [account @ '': '' @ msg]\<rparr>, s2)
       | (Inr synthesized, s2) \<Rightarrow>
           let st = run_clusters dry_run account since s2;
               s3 = (if dry_run then rs_ledger st
                     else link_cross_cluster_rolls (rs_exits st) (rs_created st) (rs_ledger st));
               (healed, s4) = heal_fully_closed_groups account dry_run s3
           in (result\<lparr> sr_transactions := sr_transactions result + length synthesized,
                       sr_trade_groups := sr_trade_groups result + rs_count st,
                       sr_healed_groups := sr_healed_groups result + healed \<rparr>, s4)))"

definition reconcile ::
  "string option \<Rightarrow> date option \<Rightarrow> price_resolver option \<Rightarrow> timedelta \<Rightarrow> bool \<Rightarrow> ledger \<Rightarrow> sync_result \<times> ledger" where
  "reconcile account since resolver settle_after dry_run s =
     foldl (\<lambda>acc acct. reconcile_account since resolver settle_after dry_run acct acc) (sync_result0, s)
       (case account of Some a \<Rightarrow> [a] | None \<Rightarrow> accounts_with_activity s since)"

end
