(* ===== verification/Reconcile_Laws.thy ===== *)
theory Reconcile_Laws
  imports Reconcile_Run Store_Laws
begin

text \<open>
  What a reconcile run does to the attribution of transactions: every step of it only attaches
  the rows it is given, so a run never takes a row out of a group, leaves no candidate behind,
  and a second run finds nothing to group.
\<close>

section \<open>The transactions under each step\<close>

named_theorems txn_frame

lemma st_transactions_frames [simp, txn_frame]:
  "st_transactions (add_trade_group_event ev s) = st_transactions s"
  "st_transactions (snd (upsert_trade_group tg s)) = st_transactions s"
  "st_transactions (snd (upsert_order row s)) = st_transactions s"
  "st_transactions (snd (fresh_uuid s)) = st_transactions s"
  by (simp_all add: add_trade_group_event_def upsert_trade_group_def upsert_order_alt fresh_uuid_def
      Let_def case_prod_beta)

lemma st_transactions_upsert_orders [simp, txn_frame]:
  "st_transactions (snd (upsert_orders rows s)) = st_transactions s"
  by (induction rows arbitrary: s) (simp_all add: case_prod_beta)

lemma st_transactions_add_events [simp, txn_frame]:
  "st_transactions (add_events evs s) = st_transactions s"
  by (induction evs arbitrary: s) simp_all

lemma st_transactions_stamp [simp, txn_frame]:
  "st_transactions (stamp_closed pk rows t s) = st_transactions s"
  by (simp add: stamp_closed_def split: option.split)

lemma st_transactions_refresh [simp, txn_frame]:
  "st_transactions (refresh_group_financials g s) = st_transactions s"
  by (simp add: refresh_group_financials_def Let_def split: option.split)

lemma attaches_apply_exit:
  "attaches (set (tids rows)) s (snd (snd (apply_exit g rows rolled delivery s)))"
proof -
  have "attaches (set (tids rows)) s (attach_transactions_to_trade_group (tids rows) (og_pk g) s)"
    by (rule attaches_attach)
  then show ?thesis
    by (rule attaches_same [rotated]) (simp add: apply_exit_def Let_def)
qed

lemma apply_exit_pk: "og_pk (fst (snd (apply_exit g rows rolled delivery s))) = og_pk g"
  by (simp add: apply_exit_def extend_unique_def Let_def)

lemma attaches_create: "attaches (set (tids rows)) s (snd (create_trade_group account rows s))"
proof -
  obtain gid s1 where u: "fresh_uuid s = (gid, s1)" by fastforce
  obtain pk s2 where g: "upsert_trade_group (new_trade_group gid account (compute_group_fields s rows)) s1 = (pk, s2)"
    by fastforce
  have "st_transactions s2 = st_transactions s"
    using st_transactions_frames(4) [of s] st_transactions_frames(2) [of "new_trade_group gid account (compute_group_fields s rows)" s1]
    by (simp add: u g)
  then have base: "attaches {} s s2" by (rule attaches_refl)
  have "attaches (set (tids rows)) s (attach_transactions_to_trade_group (tids rows) pk s2)"
    using attaches_trans [OF base attaches_attach] by simp
  then show ?thesis
    by (rule attaches_same [rotated])
      (simp add: create_trade_group_def u g Let_def case_prod_beta)
qed

section \<open>Intent rows\<close>

lemma tids_append [simp]: "tids (xs @ ys) = tids xs @ tids ys"
  by (simp add: tids_def)

lemma tids_split: "set (tids (filter P rows)) \<union> set (tids (filter (\<lambda>r. \<not> P r) rows)) = set (tids rows)"
  by (auto simp: tids_def)

lemma attaches_intent_opening:
  "attaches (set (tids rows)) s (snd (intent_opening g rows s))"
proof (cases "rows = []")
  case True
  then show ?thesis by (simp add: intent_opening_def attaches_refl tids_def)
next
  case False
  then show ?thesis
    using attaches_same [OF _ attaches_attach [of "tids rows" s "og_pk g"]]
    by (simp add: intent_opening_def Let_def)
qed

lemma attaches_intent_closing:
  "attaches (set (tids rows)) s (snd (snd (intent_closing g rows s)))"
proof (cases "rows = []")
  case True
  then show ?thesis by (simp add: intent_closing_def attaches_refl tids_def)
next
  case False
  then show ?thesis
    using attaches_apply_exit [of rows s g None None] by (simp add: intent_closing_def case_prod_beta)
qed

lemma intent_step_attaches:
  "\<exists>A. attaches A s (snd (snd (intent_step (remaining, groups, s) (pk, rows))))
     \<and> A \<union> set (tids (fst (intent_step (remaining, groups, s) (pk, rows)))) = set (tids remaining) \<union> set (tids rows)"
proof (cases "group_for_pk s groups pk")
  case None
  then show ?thesis
    by (intro exI [of _ "{}"]) (simp add: intent_step_def attaches_refl)
next
  case (Some gg)
  obtain g groups1 where gg: "group_for_pk s groups pk = Some (g, groups1)" using Some by (cases gg) simp
  let ?open = "filter (\<lambda>r. \<not> is_closing r) rows" and ?close = "filter is_closing rows"
  let ?s1 = "snd (intent_opening g ?open s)" and ?g1 = "fst (intent_opening g ?open s)"
  have "attaches (set (tids ?open) \<union> set (tids ?close)) s (snd (snd (intent_closing ?g1 ?close ?s1)))"
    by (rule attaches_trans [OF attaches_intent_opening attaches_intent_closing])
  moreover have "set (tids ?open) \<union> set (tids ?close) = set (tids rows)"
    using tids_split [of is_closing rows] by blast
  ultimately have "attaches (set (tids rows)) s (snd (snd (intent_step (remaining, groups, s) (pk, rows))))"
    by (simp add: intent_step_def gg case_prod_beta Let_def)
  moreover have "fst (intent_step (remaining, groups, s) (pk, rows)) = remaining"
    by (simp add: intent_step_def gg case_prod_beta Let_def)
  ultimately show ?thesis by (intro exI [of _ "set (tids rows)"]) auto
qed

lemma intent_steps_attach:
  "\<exists>A. attaches A s (snd (snd (foldl intent_step (remaining, groups, s) entries)))
     \<and> A \<union> set (tids (fst (foldl intent_step (remaining, groups, s) entries)))
        = set (tids remaining) \<union> set (tids (concat (map snd entries)))"
proof (induction entries arbitrary: remaining groups s)
  case Nil
  show ?case by (intro exI [of _ "{}"]) (simp add: attaches_refl tids_def)
next
  case (Cons e entries)
  obtain pk rows where e: "e = (pk, rows)" by (cases e)
  obtain rem1 groups1 s1 where st: "intent_step (remaining, groups, s) (pk, rows) = (rem1, groups1, s1)"
    by (metis prod_cases3)
  obtain A where A: "attaches A s s1" "A \<union> set (tids rem1) = set (tids remaining) \<union> set (tids rows)"
    using intent_step_attaches [of s remaining groups pk rows] st by auto
  obtain B where B: "attaches B s1 (snd (snd (foldl intent_step (rem1, groups1, s1) entries)))"
      "B \<union> set (tids (fst (foldl intent_step (rem1, groups1, s1) entries)))
        = set (tids rem1) \<union> set (tids (concat (map snd entries)))"
    using Cons.IH by blast
  show ?case
    using attaches_trans [OF A(1) B(1)] A(2) B(2)
    by (intro exI [of _ "A \<union> B"]) (auto simp: e st)
qed

lemma tids_truncate [simp]: "tids (map ledger_row.truncate rows) = tids rows"
  by (simp add: tids_def ledger_row.defs comp_def)

lemma tids_concat_group_by: "set (tids (concat (map snd (group_by f rows)))) = set (tids rows)"
  unfolding tids_def set_map mset_eq_setD [OF mset_group_by] ..

lemma intent_rows_attach:
  "\<exists>A. attaches A s (snd (snd (apply_intent_rows False groups rows s)))
     \<and> A \<union> set (tids (fst (apply_intent_rows False groups rows s))) = set (tids rows)"
proof -
  let ?bare = "filter (\<lambda>r. a_order_trade_group_id r = None) rows"
  let ?linked = "filter (\<lambda>r. a_order_trade_group_id r \<noteq> None) rows"
  let ?groups = "group_by (\<lambda>r. case a_order_trade_group_id r of None \<Rightarrow> 0 | Some pk \<Rightarrow> pk) ?linked"
  let ?intent = "map (\<lambda>(pk, rs). (pk, map ledger_row.truncate rs)) ?groups"
  have cat: "concat (map snd ?intent) = map ledger_row.truncate (concat (map snd ?groups))"
    by (simp add: map_concat comp_def case_prod_beta)
  have all: "set (tids ?bare) \<union> set (tids (concat (map snd ?intent))) = set (tids rows)"
    unfolding cat tids_truncate tids_concat_group_by using tids_split [of "\<lambda>r. a_order_trade_group_id r = None" rows] .
  obtain A where A: "attaches A s (snd (snd (foldl intent_step (map ledger_row.truncate ?bare, groups, s) ?intent)))"
      "A \<union> set (tids (fst (foldl intent_step (map ledger_row.truncate ?bare, groups, s) ?intent)))
        = set (tids rows)"
    using intent_steps_attach [of s "map ledger_row.truncate ?bare" groups ?intent] all by auto
  have run: "apply_intent_rows False groups rows s = foldl intent_step (map ledger_row.truncate ?bare, groups, s) ?intent"
    by (auto simp: apply_intent_rows_def Let_def)
  from A show ?thesis unfolding run by blast
qed

section \<open>One cluster\<close>

definition pks :: "open_group list \<Rightarrow> nat set" where
  "pks groups = og_pk ` set groups"

lemma pks_put [simp]: "pks (put_group g groups) = pks groups"
  by (auto simp: pks_def put_group_def image_iff) metis

lemma pks_remove [simp]: "pks (remove_group pk groups) = pks groups - {pk}"
  by (auto simp: pks_def remove_group_def)

lemma pks_append [simp]: "pks (groups @ groups') = pks groups \<union> pks groups'"
  by (auto simp: pks_def)

lemma find_group_pks: "pk \<in> pks groups \<Longrightarrow> \<exists>g. find_group groups pk = Some g \<and> og_pk g = pk"
  by (cases "find_group groups pk")
    (auto simp: find_group_def pks_def find_None_iff find_Some_iff)

lemma exit_bucket_attaches:
  assumes "pk \<in> pks (rs_groups st)"
  shows "attaches (set (tids rows)) (rs_ledger st) (rs_ledger (exit_bucket new_pk rest st (pk, rows)))"
    and "pks (rs_groups st) - {pk} \<subseteq> pks (rs_groups (exit_bucket new_pk rest st (pk, rows)))"
proof -
  obtain g where g: "find_group (rs_groups st) pk = Some g" using find_group_pks [OF assms] by blast
  show "attaches (set (tids rows)) (rs_ledger st) (rs_ledger (exit_bucket new_pk rest st (pk, rows)))"
    using attaches_apply_exit by (simp add: exit_bucket_def g Let_def case_prod_beta)
  show "pks (rs_groups st) - {pk} \<subseteq> pks (rs_groups (exit_bucket new_pk rest st (pk, rows)))"
    by (auto simp: exit_bucket_def g Let_def case_prod_beta)
qed

lemma exit_buckets_attach:
  "distinct (map fst buckets) \<Longrightarrow> \<forall>(pk, rows) \<in> set buckets. pk \<in> pks (rs_groups st) \<Longrightarrow>
     attaches (set (tids (concat (map snd buckets)))) (rs_ledger st)
       (rs_ledger (foldl (exit_bucket new_pk rest) st buckets))"
proof (induction buckets arbitrary: st)
  case Nil
  show ?case by (simp add: attaches_refl tids_def)
next
  case (Cons b buckets)
  obtain pk rows where b: "b = (pk, rows)" by (cases b)
  have pk: "pk \<in> pks (rs_groups st)" using Cons.prems b by auto
  let ?st = "exit_bucket new_pk rest st (pk, rows)"
  have "\<forall>(pk', rows') \<in> set buckets. pk' \<in> pks (rs_groups ?st)"
    using Cons.prems exit_bucket_attaches(2) [OF pk, of new_pk rest rows] by (force simp: b)
  from attaches_trans [OF exit_bucket_attaches(1) [OF pk] Cons.IH [OF _ this, of]] Cons.prems(1)
  show ?case by (simp add: b)
qed

lemma open_rest_attaches:
  "attaches (set (tids rest)) (rs_ledger st) (rs_ledger (snd (open_rest False account rest st)))"
  "pks (rs_groups st) \<subseteq> pks (rs_groups (snd (open_rest False account rest st)))"
  using attaches_create [of rest "rs_ledger st" account]
  by (auto simp: open_rest_def tids_def attaches_refl case_prod_beta)

lemma route_cluster_facts:
  assumes "route_cluster groups rows = (buckets, rest)"
  shows "set (tids (concat (map snd buckets))) \<union> set (tids rest) = set (tids rows)"
    and "distinct (map fst buckets)" and "\<forall>(pk, bucket) \<in> set buckets. pk \<in> pks groups"
proof -
  have "routed groups ([], [], nets_of_groups groups) []" by (simp add: routed_def)
  from routed_walk [OF this, of rows] assms
  have r: "mset (concat (map snd buckets)) + mset rest = mset rows" "distinct (map fst buckets)"
    "\<forall>(pk, bucket) \<in> set buckets. pk \<in> og_pk ` set groups"
    by (auto simp: routed_def route_cluster_def split: prod.splits)
  then have "set (concat (map snd buckets)) \<union> set rest = set rows"
    by (metis mset_append mset_eq_setD set_append)
  then show "set (tids (concat (map snd buckets))) \<union> set (tids rest) = set (tids rows)"
    unfolding tids_def set_map by (metis image_Un)
  show "distinct (map fst buckets)" "\<forall>(pk, bucket) \<in> set buckets. pk \<in> pks groups"
    using r by (simp_all add: pks_def)
qed

text \<open>A cluster attaches exactly its rows: those of recorded intent first, then the rest.\<close>

lemma run_rest_attaches:
  assumes i: "apply_intent_rows False (rs_groups st) cluster (rs_ledger st) = (rows, groups, s)"
  shows "attaches (set (tids rows)) s (rs_ledger (run_cluster False account st cluster))"
proof (cases "rows = []")
  case True
  then show ?thesis using i by (simp add: run_cluster_def tids_def attaches_refl)
next
  case False
  obtain buckets rest where rt: "route_cluster groups rows = (buckets, rest)" by fastforce
  let ?st1 = "st\<lparr>rs_groups := groups, rs_ledger := s\<rparr>"
  obtain new_pk st2 where o: "open_rest False account rest ?st1 = (new_pk, st2)" by fastforce
  have B: "attaches (set (tids rest)) s (rs_ledger st2)" "pks groups \<subseteq> pks (rs_groups st2)"
    using open_rest_attaches [where rest = rest and st = ?st1 and account = account] o by simp_all
  note facts = route_cluster_facts [OF rt]
  have "\<forall>(pk, rows) \<in> set buckets. pk \<in> pks (rs_groups st2)" using facts(3) B(2) by auto
  note C = exit_buckets_attach [OF facts(2) this, of new_pk rest]
  have "attaches (set (tids rows)) s (rs_ledger (foldl (exit_bucket new_pk rest) st2 buckets))"
    using attaches_trans [OF B(1) C] facts(1) by (simp add: Un_commute)
  then show ?thesis using False i rt o by (simp add: run_cluster_def)
qed

lemma run_cluster_attaches:
  "attaches (set (tids cluster)) (rs_ledger st) (rs_ledger (run_cluster False account st cluster))"
proof -
  obtain rows groups s where i: "apply_intent_rows False (rs_groups st) cluster (rs_ledger st) = (rows, groups, s)"
    by (metis prod_cases3)
  obtain A where A: "attaches A (rs_ledger st) s" "A \<union> set (tids rows) = set (tids cluster)"
    using intent_rows_attach [of "rs_ledger st" "rs_groups st" cluster] i by auto
  from attaches_trans [OF A(1) run_rest_attaches [OF i]] A(2) show ?thesis by simp
qed

lemma run_clusters_fold_attaches:
  "attaches (set (tids (concat clusters))) (rs_ledger st) (rs_ledger (foldl (run_cluster False account) st clusters))"
proof (induction clusters arbitrary: st)
  case Nil
  show ?case by (simp add: attaches_refl tids_def)
next
  case (Cons c clusters)
  from attaches_trans [OF run_cluster_attaches Cons.IH] show ?case by simp
qed

lemma mset_concat_clusters: "mset (concat (cluster_by_time rows)) = mset rows"
proof -
  have "well_cut ([] :: 'a ledger_row_scheme list list)" by (simp add: well_cut_def)
  from conjunct2 [OF dated_clusters_cut [OF this]]
  have "concat (dated_clusters rows) = sort_key exec_at (filter (\<lambda>r. r_executed_at r \<noteq> None) rows)"
    by (simp add: dated_clusters_def)
  then have "mset (concat (cluster_by_time rows))
      = mset (filter (\<lambda>r. r_executed_at r \<noteq> None) rows) + mset (filter (\<lambda>r. r_executed_at r = None) rows)"
    by (simp add: cluster_by_time_def del: mset_concat mset_filter)
  then show ?thesis by (simp add: union_filter_mset_complement)
qed

lemma set_concat_clusters: "set (tids (concat (cluster_by_time rows))) = set (tids rows)"
  unfolding tids_def set_map mset_eq_setD [OF mset_concat_clusters] ..

lemma run_clusters_attaches:
  "attaches (set (tids (candidates s account since))) s (rs_ledger (run_clusters False account since s))"
  using run_clusters_fold_attaches [of "cluster_by_time (candidates s account since)"
      "\<lparr> rs_ledger = s, rs_groups = load_open_groups s account, rs_exits = [], rs_created = [], rs_count = 0 \<rparr>"
      account]
  by (simp add: run_clusters_def set_concat_clusters)

section \<open>A run is made of writes\<close>

lemma foldl_invariant: "(\<And>s x. P s \<Longrightarrow> P (f s x)) \<Longrightarrow> P s \<Longrightarrow> P (foldl f s xs)"
  by (induction xs arbitrary: s) simp_all

text \<open>The two outcomes of the synthesis pass.\<close>

lemma synthesize_cases:
  obtains (nothing) "snd (synthesize_lapsed_settlements account resolver settle_after dry_run s) = s"
  | (settled) synthesized last_activity where "\<not> dry_run"
      "lapse_securities s account resolver settle_after last_activity (load_open_groups s account)
         (held_securities (load_open_groups s account)) = Inr synthesized"
      "snd (synthesize_lapsed_settlements account resolver settle_after dry_run s)
         = foldl (settle_group synthesized) (upsert_transactions (map snd synthesized) s) (load_open_groups s account)"
proof -
  let ?run = "synthesize_lapsed_settlements account resolver settle_after dry_run s"
  let ?groups = "load_open_groups s account"
  show ?thesis
  proof (cases "last_activity_of s account")
    case None
    then have "snd ?run = s" by (simp add: synthesize_lapsed_settlements_def)
    then show ?thesis by (rule nothing)
  next
    case (Some t)
    let ?rows = "lapse_securities s account resolver settle_after t ?groups (held_securities ?groups)"
    show ?thesis
    proof (cases ?rows)
      case (Inl msg)
      then have "snd ?run = s" using Some by (simp add: synthesize_lapsed_settlements_def Let_def)
      then show ?thesis by (rule nothing)
    next
      case (Inr synthesized)
      then have run: "snd ?run = (if synthesized = [] \<or> dry_run then s
          else foldl (settle_group synthesized) (upsert_transactions (map snd synthesized) s) ?groups)"
        using Some by (simp add: synthesize_lapsed_settlements_def Let_def)
      show ?thesis
      proof (cases "synthesized = [] \<or> dry_run")
        case True
        then have "snd ?run = s" unfolding run by (simp only: if_True)
        then show ?thesis by (rule nothing)
      next
        case False
        then have "\<not> dry_run" and "snd ?run = foldl (settle_group synthesized)
            (upsert_transactions (map snd synthesized) s) ?groups"
          unfolding run by simp_all
        then show ?thesis using Inr by (intro settled)
      qed
    qed
  qed
qed

context store_closed
begin

lemma closed_add_events [write_closed]: "P s \<Longrightarrow> P (add_events evs s)"
  by (induction evs arbitrary: s) (simp_all add: write_closed)

lemma closed_stamp [write_closed]: "P s \<Longrightarrow> P (stamp_closed pk rows t s)"
  by (simp add: stamp_closed_def write_closed split: option.split)

lemma closed_refresh [write_closed]: "P s \<Longrightarrow> P (refresh_group_financials g s)"
  by (simp add: refresh_group_financials_def Let_def write_closed split: option.split)

lemma closed_apply_exit [write_closed]:
  "P s \<Longrightarrow> P (snd (snd (apply_exit g rows rolled delivery s)))"
  by (simp add: apply_exit_def Let_def write_closed)

lemma closed_create [write_closed]: "P s \<Longrightarrow> P (snd (create_trade_group account rows s))"
  by (simp add: create_trade_group_def Let_def case_prod_beta write_closed)

lemma closed_intent_step [write_closed]:
  "P (snd (snd acc)) \<Longrightarrow> P (snd (snd (intent_step acc entry)))"
  by (cases acc; cases entry)
    (simp add: intent_step_def intent_opening_def intent_closing_def Let_def case_prod_beta write_closed
      split: option.split)

lemma closed_intent_rows [write_closed]:
  assumes "P s"
  shows "P (snd (snd (apply_intent_rows dry_run groups rows s)))"
proof -
  have "P (snd (snd (foldl intent_step acc entries)))" if "P (snd (snd acc))" for acc entries
    using that by (induction entries arbitrary: acc) (simp_all add: closed_intent_step)
  then show ?thesis using assms by (simp add: apply_intent_rows_def Let_def)
qed

lemma closed_open_rest [write_closed]:
  "P (rs_ledger st) \<Longrightarrow> P (rs_ledger (snd (open_rest dry_run account rest st)))"
  by (simp add: open_rest_def case_prod_beta write_closed)

lemma closed_exit_bucket [write_closed]:
  "P (rs_ledger st) \<Longrightarrow> P (rs_ledger (exit_bucket new_pk rest st bucket))"
  by (cases bucket) (simp add: exit_bucket_def Let_def case_prod_beta write_closed split: option.split)

lemma closed_run_cluster [write_closed]:
  assumes "P (rs_ledger st)"
  shows "P (rs_ledger (run_cluster dry_run account st cluster))"
proof -
  obtain rows groups s where i: "apply_intent_rows dry_run (rs_groups st) cluster (rs_ledger st) = (rows, groups, s)"
    by (metis prod_cases3)
  have "P s" using closed_intent_rows [OF assms, of dry_run "rs_groups st" cluster] i by simp
  then show ?thesis
    by (simp add: run_cluster_def i Let_def case_prod_beta write_closed
        foldl_invariant [where P = "\<lambda>st. P (rs_ledger st)"])
qed

lemma closed_run_clusters [write_closed]:
  "P s \<Longrightarrow> P (rs_ledger (run_clusters dry_run account since s))"
  unfolding run_clusters_def
  by (rule foldl_invariant [where P = "\<lambda>st. P (rs_ledger st)"]) (simp_all add: write_closed)

lemma closed_link_edges [write_closed]: "P s \<Longrightarrow> P (link_edges account s)"
  by (simp add: link_edges_def write_closed)

lemma closed_rolls [write_closed]:
  "P s \<Longrightarrow> P (link_cross_cluster_rolls exits created s)"
  unfolding link_cross_cluster_rolls_def
  by (rule foldl_invariant) (simp_all add: link_roll_def write_closed split: option.split prod.split)

lemma closed_heal [write_closed]:
  "P s \<Longrightarrow> P (snd (heal_fully_closed_groups account dry_run s))"
  by (simp add: heal_fully_closed_groups_def Let_def heal_group_def write_closed foldl_invariant)

lemma closed_settle_group: "P s \<Longrightarrow> P (settle_group synthesized s g)"
  by (simp add: settle_group_def Let_def closed_apply_exit)

lemma closed_synthesize [write_closed]:
  assumes "P s"
  shows "P (snd (synthesize_lapsed_settlements account resolver settle_after dry_run s))"
proof (rule synthesize_cases [of account resolver settle_after dry_run s])
  fix synthesized
  assume "snd (synthesize_lapsed_settlements account resolver settle_after dry_run s)
    = foldl (settle_group synthesized) (upsert_transactions (map snd synthesized) s) (load_open_groups s account)"
  moreover have "P (upsert_transactions (map snd synthesized) s)"
    using assms by (rule closed_writes)
  ultimately show ?thesis
    by (simp add: foldl_invariant [where P = P] closed_settle_group)
qed (use assms in simp)

lemma closed_reconcile_account [write_closed]:
  assumes "P (snd acc)"
  shows "P (snd (reconcile_account since resolver settle_after dry_run account acc))"
proof -
  have "P (snd (synthesize_lapsed_settlements account resolver settle_after dry_run
      (link_edges account (snd acc))))"
    using assms by (simp add: write_closed)
  then show ?thesis
    by (auto simp: reconcile_account_def Let_def case_prod_beta write_closed split: sum.split)
qed

lemma closed_reconcile [write_closed]:
  "P s \<Longrightarrow> P (snd (reconcile account since resolver settle_after dry_run s))"
  unfolding reconcile_def
  by (rule foldl_invariant [where P = "\<lambda>acc. P (snd acc)"]) (simp_all add: closed_reconcile_account)

end

text \<open>Well-formedness under each step.\<close>

lemmas ledger_ok_add_events [ledger_ok_intros] = ok.closed_add_events
lemmas ledger_ok_stamp [ledger_ok_intros] = ok.closed_stamp
lemmas ledger_ok_refresh [ledger_ok_intros] = ok.closed_refresh
lemmas ledger_ok_apply_exit [ledger_ok_intros] = ok.closed_apply_exit
lemmas ledger_ok_create [ledger_ok_intros] = ok.closed_create
lemmas ledger_ok_intent_step [ledger_ok_intros] = ok.closed_intent_step
lemmas ledger_ok_intent_rows [ledger_ok_intros] = ok.closed_intent_rows
lemmas ledger_ok_open_rest [ledger_ok_intros] = ok.closed_open_rest
lemmas ledger_ok_exit_bucket [ledger_ok_intros] = ok.closed_exit_bucket
lemmas ledger_ok_run_cluster [ledger_ok_intros] = ok.closed_run_cluster
lemmas ledger_ok_run_clusters [ledger_ok_intros] = ok.closed_run_clusters
lemmas ledger_ok_link_edges [ledger_ok_intros] = ok.closed_link_edges
lemmas ledger_ok_rolls [ledger_ok_intros] = ok.closed_rolls
lemmas ledger_ok_heal [ledger_ok_intros] = ok.closed_heal
lemmas ledger_ok_settle_group = ok.closed_settle_group
lemmas ledger_ok_synthesize [ledger_ok_intros] = ok.closed_synthesize
lemmas ledger_ok_reconcile_account [ledger_ok_intros] = ok.closed_reconcile_account

end
