(* ===== verification/Attribution.thy ===== *)
theory Attribution
  imports Reconcile_Laws
begin

text \<open>
  The guarantees of a reconcile run over the attribution of transactions: no row is taken from
  its group, no candidate is left behind, and a second run has nothing to group.
\<close>

section \<open>Attribution is never taken away\<close>

definition txn_group_of :: "ledger \<Rightarrow> string \<Rightarrow> nat option" where
  "txn_group_of s tid = Option.bind (table_get_by_key (st_transactions s) tid) r_trade_group_id"

lemma txn_group_of_same: "st_transactions s' = st_transactions s \<Longrightarrow> txn_group_of s' tid = txn_group_of s tid"
  by (simp add: txn_group_of_def)

lemma attaches_row:
  assumes ok: "ledger_ok s" and att: "attaches ids s s'" and "tid \<notin> ids"
  shows "table_get_by_key (st_transactions s') tid = table_get_by_key (st_transactions s) tid"
proof -
  obtain h where h: "st_transactions s' = table_modify
      (\<lambda>_ t. t\<lparr>r_trade_group_id := h (r_tt_transaction_id t) (r_trade_group_id t)\<rparr>) (st_transactions s)"
    "\<And>g. h tid g = g"
    using att assms(3) by (auto simp: attaches_def)
  have key: "r_tt_transaction_id t = tid" if "table_get_by_key (st_transactions s) tid = Some t" for t
    using that table_get_by_key_ok [OF ledger_ok_tables(2) [OF ok]] by (auto simp: txn_key_def)
  have "table_get_by_key (st_transactions s') tid = map_option
      (\<lambda>t. t\<lparr>r_trade_group_id := h (r_tt_transaction_id t) (r_trade_group_id t)\<rparr>)
      (table_get_by_key (st_transactions s) tid)"
    unfolding h(1) table_get_by_key_modify
    by (simp add: table_get_by_key_def table_id_of_def table_get_def split: option.split)
  then show ?thesis
    using key h(2) by (cases "table_get_by_key (st_transactions s) tid") auto
qed

lemma txn_group_of_attaches:
  "ledger_ok s \<Longrightarrow> attaches ids s s' \<Longrightarrow> tid \<notin> ids \<Longrightarrow> txn_group_of s' tid = txn_group_of s tid"
  by (simp add: txn_group_of_def attaches_row)

lemma upsert_transaction_frame:
  assumes "ledger_ok s" and "tid \<noteq> r_tt_transaction_id row"
  shows "table_get_by_key (st_transactions (upsert_transaction row s)) tid = table_get_by_key (st_transactions s) tid"
  unfolding upsert_transaction_resync
  using txn_group.resync_frame [OF ledger_ok_tables(2) [OF assms(1)], of row "r_tt_transaction_id row" tid] assms(2)
  by (simp add: txn_key_def)

lemma upsert_transactions_frame:
  "ledger_ok s \<Longrightarrow> tid \<notin> set (tids rows) \<Longrightarrow>
     table_get_by_key (st_transactions (upsert_transactions rows s)) tid = table_get_by_key (st_transactions s) tid"
  by (induction rows arbitrary: s) (simp_all add: tids_def upsert_transaction_frame ledger_ok_upsert_transaction)

lemma txn_group_of_upserts:
  "ledger_ok s \<Longrightarrow> tid \<notin> set (tids rows) \<Longrightarrow> txn_group_of (upsert_transactions rows s) tid = txn_group_of s tid"
  by (simp add: txn_group_of_def upsert_transactions_frame)

lemma bind_get_by_key_modify:
  "(\<And>i r. g (f i r) = g r) \<Longrightarrow>
     Option.bind (table_get_by_key (table_modify f t) k) g = Option.bind (table_get_by_key t k) g"
  unfolding table_get_by_key_modify
  by (auto simp: table_get_by_key_def table_id_of_def table_get_def split: option.split)
    (metis bind.bind_lzero bind.bind_lunit not_None_eq option.map_disc_iff option.map_sel option.sel)

text \<open>Linking changes the order of a transaction, never its group.\<close>

lemma txn_group_of_link: "txn_group_of (link_edges account s) tid = txn_group_of s tid"
proof -
  have "st_transactions (link_edges account s) = st_transactions (snd (link_transactions_to_orders account s))"
    by (simp add: link_edges_def link_orders_to_groups_def link_closed_positions_to_groups_def)
  then show ?thesis
    by (simp add: txn_group_of_def link_transactions_to_orders_def bind_get_by_key_modify)
qed

text \<open>Synthesized ids all start with \<open>lapse-\<close>.\<close>

definition is_lapse_id :: "string \<Rightarrow> bool" where
  "is_lapse_id tid \<longleftrightarrow> py_startswith tid ''lapse-''"

lemma is_lapse_id_lapse_id: "is_lapse_id (lapse_id account pk sid)"
  by (simp add: is_lapse_id_def lapse_id_def py_startswith_def)

lemma lapse_txn_fields [simp]:
  "r_tt_transaction_id (lapse_txn ex row) = r_tt_transaction_id row"
  "r_trade_group_id (lapse_txn ex row) = r_trade_group_id row"
  "r_tt_order_id (lapse_txn ex row) = r_tt_order_id row"
  "ledger_row.truncate (lapse_txn ex row) = row"
  by (simp_all add: lapse_txn_def ledger_row.defs)

lemma lapse_row_fields [simp]:
  "r_tt_transaction_id (lapse_row account pk sid sec ex points n) = lapse_id account pk sid"
  "r_trade_group_id (lapse_row account pk sid sec ex points n) = Some pk"
  "r_tt_order_id (lapse_row account pk sid sec ex points n) = None"
  by (simp_all add: lapse_row_def Let_def)

definition synthetic :: "nat \<times> txn_row \<Rightarrow> bool" where
  "synthetic p \<longleftrightarrow> is_lapse_id (r_tt_transaction_id (snd p)) \<and> r_trade_group_id (snd p) = Some (fst p)
     \<and> r_tt_order_id (snd p) = None"

lemma lapse_security_synthetic: "\<forall>p \<in> set (lapse_security account groups sid sec ex points). synthetic p"
  by (auto simp: lapse_security_def synthetic_def is_lapse_id_lapse_id)

lemma lapse_securities_synthetic:
  "lapse_securities s account resolver settle_after t groups sids = Inr rows \<Longrightarrow> \<forall>p \<in> set rows. synthetic p"
proof (induction sids arbitrary: rows)
  case (Cons sid sids)
  let ?first = "case (get_security s sid, Option.bind (get_security s sid) sec_expiry) of
              (Some sec, Some expiry) \<Rightarrow>
                if \<not> lapse_due t expiry settle_after then Inr []
                else (case settle_points resolver sid expiry sec of
                        Inl msg \<Rightarrow> Inl msg
                      | Inr None \<Rightarrow> Inr []
                      | Inr (Some points) \<Rightarrow> Inr (lapse_security account groups sid sec expiry points))
            | _ \<Rightarrow> Inr []"
  obtain first rest where split: "?first = Inr first"
      "lapse_securities s account resolver settle_after t groups sids = Inr rest" "rows = first @ rest"
    using Cons.prems by (auto simp del: split_paired_Ex split: sum.splits)
  have "first = [] \<or> (\<exists>sec ex points. first = lapse_security account groups sid sec ex points)"
    using split(1) by (auto split: option.splits sum.splits if_splits)
  with split have rows: "rows = first @ rest"
      "lapse_securities s account resolver settle_after t groups sids = Inr rest"
      "first = [] \<or> (\<exists>sec ex points. first = lapse_security account groups sid sec ex points)"
    by simp_all
  then have "\<forall>p \<in> set first. synthetic p"
    using lapse_security_synthetic [of account groups sid] by auto
  with rows Cons.IH [OF rows(2)] show ?case by auto
qed simp

definition settled_rows :: "(nat \<times> txn_row) list \<Rightarrow> nat \<Rightarrow> ledger_row list" where
  "settled_rows synthesized pk = map (\<lambda>(_, txn). ledger_row.truncate txn) (filter (\<lambda>(pk', _). pk' = pk) synthesized)"

lemma settle_group_alt:
  "settle_group synthesized s g =
     (if settled_rows synthesized (og_pk g) = [] then s
      else snd (snd (apply_exit g (settled_rows synthesized (og_pk g)) None None s)))"
  by (simp add: settle_group_def settled_rows_def Let_def)

lemma attaches_settle_group:
  "attaches (set (tids (settled_rows synthesized (og_pk g)))) s (settle_group synthesized s g)"
proof (cases "settled_rows synthesized (og_pk g) = []")
  case True
  then show ?thesis by (simp add: settle_group_alt attaches_refl tids_def)
next
  case False
  then show ?thesis using attaches_apply_exit by (simp add: settle_group_alt)
qed

lemma attaches_mono_lapse:
  assumes "\<forall>p \<in> set synthesized. synthetic p"
  shows "\<exists>ids \<subseteq> Collect is_lapse_id. attaches ids s (foldl (settle_group synthesized) s groups)"
proof (induction groups arbitrary: s)
  case Nil
  show ?case by (intro exI [of _ "{}"]) (simp add: attaches_refl)
next
  case (Cons g groups)
  let ?ids = "set (tids (settled_rows synthesized (og_pk g)))"
  have "?ids \<subseteq> Collect is_lapse_id"
    using assms by (auto simp: tids_def settled_rows_def synthetic_def ledger_row.defs)
  moreover obtain ids where "ids \<subseteq> Collect is_lapse_id"
      "attaches ids (settle_group synthesized s g) (foldl (settle_group synthesized) (settle_group synthesized s g) groups)"
    using Cons.IH by blast
  ultimately show ?case
    using attaches_trans [OF attaches_settle_group] by (intro exI [of _ "?ids \<union> ids"]) simp
qed

lemma synthesize_frame:
  assumes ok: "ledger_ok s" and plain: "\<not> is_lapse_id tid"
  shows "table_get_by_key (st_transactions (snd (synthesize_lapsed_settlements account resolver settle_after dry_run s))) tid
       = table_get_by_key (st_transactions s) tid"
proof (rule synthesize_cases [of account resolver settle_after dry_run s])
  fix synthesized t
  assume rows: "lapse_securities s account resolver settle_after t (load_open_groups s account)
      (held_securities (load_open_groups s account)) = Inr synthesized"
    and run: "snd (synthesize_lapsed_settlements account resolver settle_after dry_run s)
      = foldl (settle_group synthesized) (upsert_transactions (map snd synthesized) s) (load_open_groups s account)"
  let ?s1 = "upsert_transactions (map snd synthesized) s"
  note syn = lapse_securities_synthetic [OF rows]
  obtain ids where ids: "ids \<subseteq> Collect is_lapse_id"
      "attaches ids ?s1 (foldl (settle_group synthesized) ?s1 (load_open_groups s account))"
    using attaches_mono_lapse [OF syn] by blast
  have "tid \<notin> set (tids (map snd synthesized))"
    using syn plain by (auto simp: tids_def synthetic_def)
  then have "table_get_by_key (st_transactions ?s1) tid = table_get_by_key (st_transactions s) tid"
    using ok by (rule upsert_transactions_frame [rotated])
  moreover have "table_get_by_key (st_transactions (foldl (settle_group synthesized) ?s1 (load_open_groups s account))) tid
      = table_get_by_key (st_transactions ?s1) tid"
    using ids plain by (intro attaches_row [OF ledger_ok_upsert_transactions [OF ok]]) auto
  ultimately show ?thesis unfolding run by simp
qed simp

lemma txn_group_of_synthesize:
  "ledger_ok s \<Longrightarrow> \<not> is_lapse_id tid \<Longrightarrow>
     txn_group_of (snd (synthesize_lapsed_settlements account resolver settle_after dry_run s)) tid = txn_group_of s tid"
  by (simp add: txn_group_of_def synthesize_frame)

text \<open>A candidate is ungrouped in the store.\<close>

lemma activity_of_fields [simp]:
  "r_tt_transaction_id (activity_of s t) = r_tt_transaction_id t"
  "r_trade_group_id (activity_of s t) = r_trade_group_id t"
  "r_order_id (activity_of s t) = r_order_id t"
  "ledger_row.truncate (activity_of s t) = ledger_row.truncate t"
  by (simp_all add: activity_of_def Let_def ledger_row.defs)

lemma candidate_ungrouped:
  assumes ok: "ledger_ok s" and "tid \<in> set (tids (candidates s account since))"
  shows "txn_group_of s tid = None"
proof -
  obtain i t where t: "(i, t) \<in> set (table_all (st_transactions s))" "r_tt_transaction_id t = tid"
      "r_trade_group_id t = None"
    using assms(2) by (auto simp: tids_def candidates_def account_activity_def is_candidate_def)
  note tab = ledger_ok_tables(2) [OF ok]
  have "table_get (st_transactions s) i = Some t" using t(1) in_table_all [OF tab] by simp
  then have "table_get_by_key (st_transactions s) tid = Some t"
    using table_get_by_key_ok [OF tab] t(2) by (auto simp: txn_key_def)
  then show ?thesis using t(3) by (simp add: txn_group_of_def)
qed

lemma st_transactions_rolls [simp]:
  "st_transactions (link_cross_cluster_rolls exits created s) = st_transactions s"
  unfolding link_cross_cluster_rolls_def
  by (rule foldl_invariant [where P = "\<lambda>s'. st_transactions s' = st_transactions s"])
    (simp_all add: link_roll_def split: option.split prod.split)

lemma st_transactions_heal [simp]:
  "st_transactions (snd (heal_fully_closed_groups account dry_run s)) = st_transactions s"
  using foldl_invariant [where P = "\<lambda>s'. st_transactions s' = st_transactions s" and f = heal_group]
  by (simp add: heal_fully_closed_groups_def Let_def heal_group_def)

text \<open>The stages of one account's run.\<close>

lemma reconcile_account_stages:
  fixes account :: string and resolver :: "price_resolver option" and settle_after :: timedelta and s :: ledger
  assumes "\<not> dry_run"
  defines "s2 \<equiv> snd (synthesize_lapsed_settlements account resolver settle_after dry_run (link_edges account s))"
  shows "(\<exists>msg. reconcile_account since resolver settle_after dry_run account (r, s)
            = (r\<lparr>sr_errors := sr_errors r @ [account @ '': '' @ msg]\<rparr>, s2))
    \<or> (\<exists>r' s'. reconcile_account since resolver settle_after dry_run account (r, s) = (r', s')
        \<and> sr_errors r' = sr_errors r
        \<and> sr_trade_groups r' = sr_trade_groups r + rs_count (run_clusters False account since s2)
        \<and> st_transactions s' = st_transactions (rs_ledger (run_clusters False account since s2)))"
proof -
  let ?syn = "synthesize_lapsed_settlements account resolver settle_after dry_run (link_edges account s)"
  show ?thesis
  proof (cases "fst ?syn")
    case (Inl msg)
    then show ?thesis
      by (cases ?syn) (intro disjI1 exI [of _ msg], simp add: reconcile_account_def Let_def s2_def)
  next
    case (Inr rows)
    then show ?thesis
      using assms(1) by (cases ?syn) (simp add: reconcile_account_def Let_def s2_def case_prod_beta)
  qed
qed

lemma reconcile_account_keeps_group:
  assumes ok: "ledger_ok s" and "txn_group_of s tid = Some g" and "\<not> is_lapse_id tid"
  shows "txn_group_of (snd (reconcile_account since resolver settle_after dry_run account (r, s))) tid = Some g"
proof -
  let ?s2 = "snd (synthesize_lapsed_settlements account resolver settle_after dry_run (link_edges account s))"
  have ok2: "ledger_ok ?s2" using ok by (simp add: ledger_ok_intros)
  have g2: "txn_group_of ?s2 tid = Some g"
    using assms ledger_ok_link_edges [OF ok, of account]
    by (simp add: txn_group_of_synthesize txn_group_of_link)
  show ?thesis
  proof (cases dry_run)
    case True
    have dry: "st_transactions (rs_ledger (run_clusters True account since s')) = st_transactions s'" for s'
      unfolding run_clusters_def
      by (rule foldl_invariant [where P = "\<lambda>st. st_transactions (rs_ledger st) = st_transactions s'"])
        (auto simp: run_cluster_def apply_intent_rows_def open_rest_def Let_def case_prod_beta)
    let ?syn = "synthesize_lapsed_settlements account resolver settle_after dry_run (link_edges account s)"
    have "st_transactions (snd (reconcile_account since resolver settle_after dry_run account (r, s)))
        = st_transactions ?s2"
      using True by (cases "fst ?syn"; cases ?syn)
        (simp_all add: reconcile_account_def Let_def case_prod_beta dry)
    then show ?thesis using g2 by (simp add: txn_group_of_def)
  next
    case False
    have "tid \<notin> set (tids (candidates ?s2 account since))"
      using candidate_ungrouped [OF ok2, of tid] g2 by auto
    from txn_group_of_attaches [OF ok2 run_clusters_attaches this] g2
    have "txn_group_of (rs_ledger (run_clusters False account since ?s2)) tid = Some g" by simp
    then show ?thesis
      using reconcile_account_stages [OF False, where account = account and resolver = resolver
          and settle_after = settle_after and s = s and since = since and r = r] g2
      by (auto simp: txn_group_of_def)
  qed
qed

lemma reconcile_keeps_group:
  assumes "ledger_ok s" and "txn_group_of s tid = Some g" and "\<not> is_lapse_id tid"
  shows "txn_group_of (snd (reconcile account since resolver settle_after dry_run s)) tid = Some g"
proof -
  let ?P = "\<lambda>acc. ledger_ok (snd acc) \<and> txn_group_of (snd acc) tid = Some g"
  have step: "?P (reconcile_account since resolver settle_after dry_run acct acc)" if "?P acc" for acc acct
    using that reconcile_account_keeps_group [where s = "snd acc" and tid = tid and g = g and r = "fst acc"
        and since = since and resolver = resolver and settle_after = settle_after and dry_run = dry_run
        and account = acct]
      assms(3) by (simp add: ledger_ok_reconcile_account)
  have "?P (foldl (\<lambda>acc acct. reconcile_account since resolver settle_after dry_run acct acc) (sync_result0, s) accounts)" for accounts
    by (rule foldl_invariant [where P = ?P]) (use step assms in auto)
  then show ?thesis unfolding reconcile_def by blast
qed

text \<open>
  Reconcile never takes a transaction out of the group it belongs to, nor moves it
  to another: whatever accounts a run covers, dry or not, with errors or without, a row that has
  a group keeps it. The only rows this does not cover are the settlements the run itself
  synthesizes, whose ids start with \<open>lapse-\<close>: those are upserted with the group they settle.\<close>

theorem reconcile_never_reattributes:
  assumes "ledger_ok s" and "txn_group_of s tid = Some g" and "\<not> is_lapse_id tid"
  shows "txn_group_of (snd (reconcile account since resolver settle_after dry_run s)) tid = Some g"
  by (rule reconcile_keeps_group) (rule assms)+


theorem reconcile_never_reattributes_witness:
  "txn_group_of (snd (reconcile (Some ''acct'') None None DEFAULT_SETTLE_AFTER False
      (upsert_transaction (example_txn ''1'' (Some 4) 5) (ledger_empty 0 (\<lambda>_. []))))) ''1'' = Some 4"
proof -
  let ?s = "upsert_transaction (example_txn ''1'' (Some 4) 5) (ledger_empty 0 (\<lambda>_. []))"
  have "ledger_ok ?s" by (simp add: ledger_ok_upsert_transaction ledger_ok_empty)
  moreover have "txn_group_of ?s ''1'' = Some 4"
    using tbl.upsert_stored [OF table_ok_empty, of txn_key "example_txn ''1'' (Some 4) 5" "''1''"]
    by (simp add: txn_group_of_def upsert_transaction_def ledger_empty_def txn_key_def
        table_get_by_key_def table_empty_def)
  moreover have "\<not> is_lapse_id ''1''" by code_simp
  ultimately show ?thesis by (rule reconcile_never_reattributes)
qed

section \<open>Nothing is left behind\<close>

text \<open>What makes a stored transaction a candidate.\<close>

definition pending :: "string \<Rightarrow> date option \<Rightarrow> txn_row \<Rightarrow> bool" where
  "pending account since t \<longleftrightarrow>
     activity_matches (activity_filter0\<lparr>af_account := Some account, af_start := since\<rparr>) t
   \<and> r_trade_group_id t = None
   \<and> (r_order_id t \<noteq> None \<or> is_nontrade_close (ledger_row.truncate t) \<or> is_delivery (ledger_row.truncate t))"

definition settled_ledger :: "string \<Rightarrow> date option \<Rightarrow> ledger \<Rightarrow> bool" where
  "settled_ledger account since s \<longleftrightarrow> (\<forall>(i, t) \<in> set (table_all (st_transactions s)). \<not> pending account since t)"

lemma is_candidate_activity: 
  "activity_matches (activity_filter0\<lparr>af_account := Some account, af_start := since\<rparr>) t \<and> is_candidate (activity_of s t)
     \<longleftrightarrow> pending account since t"
  by (auto simp: is_candidate_def pending_def)

lemma candidates_empty_iff: "candidates s account since = [] \<longleftrightarrow> settled_ledger account since s"
  unfolding settled_ledger_def is_candidate_activity [where account = account and since = since and s = s, symmetric]
  by (auto simp: candidates_def account_activity_def filter_empty_conv)

lemma tids_candidates:
  "(i, t) \<in> set (table_all (st_transactions s)) \<Longrightarrow> pending account since t \<Longrightarrow>
     r_tt_transaction_id t \<in> set (tids (candidates s account since))"
  unfolding is_candidate_activity [where account = account and since = since and t = t and s = s, symmetric]
  by (force simp: candidates_def account_activity_def tids_def)

lemma pending_group: "pending account since t \<Longrightarrow> r_trade_group_id t = None"
  by (simp add: pending_def)

lemma pending_ungrouped:
  "r_trade_group_id t = None \<Longrightarrow> pending account since (t\<lparr>r_trade_group_id := None\<rparr>) \<longleftrightarrow> pending account since t"
  by (cases t) (simp add: pending_def)

text \<open>Attaching every candidate leaves none, and attaching rows never makes one.\<close>

lemma settled_after_attach:
  assumes att: "attaches ids s s'"
    and cover: "\<And>i t. (i, t) \<in> set (table_all (st_transactions s)) \<Longrightarrow> pending account since t \<Longrightarrow>
      r_tt_transaction_id t \<in> ids"
  shows "settled_ledger account since s'"
proof -
  obtain h where h: "st_transactions s' = table_modify
      (\<lambda>_ t. t\<lparr>r_trade_group_id := h (r_tt_transaction_id t) (r_trade_group_id t)\<rparr>) (st_transactions s)"
    "\<And>tid g. tid \<notin> ids \<Longrightarrow> h tid g = g" "\<And>tid g. tid \<in> ids \<Longrightarrow> h tid g \<noteq> None"
    using att by (auto simp: attaches_def)
  show ?thesis
    unfolding settled_ledger_def
  proof clarify
    fix i t' assume in': "(i, t') \<in> set (table_all (st_transactions s'))" and p: "pending account since t'"
    obtain t where t: "(i, t) \<in> set (table_all (st_transactions s))"
      "t' = t\<lparr>r_trade_group_id := h (r_tt_transaction_id t) (r_trade_group_id t)\<rparr>"
      using in' unfolding h(1) table_all_modify by auto
    have none: "h (r_tt_transaction_id t) (r_trade_group_id t) = None"
      using pending_group [OF p] t(2) by simp
    then have out: "r_tt_transaction_id t \<notin> ids" using h(3) by blast
    then have "r_trade_group_id t = None" using h(2) none by simp
    then have "pending account since t" using p none t(2) by (simp add: pending_ungrouped)
    then show False using cover t(1) out by blast
  qed
qed

lemma settled_attach_frame:
  "settled_ledger account since s \<Longrightarrow> attaches ids s s' \<Longrightarrow> settled_ledger account since s'"
  by (rule settled_after_attach) (auto simp: settled_ledger_def)

lemma settled_after_clusters:
  "settled_ledger account since (rs_ledger (run_clusters False account since s))"
  by (rule settled_after_attach [OF run_clusters_attaches]) (rule tids_candidates)

lemma settled_same:
  "st_transactions s' = st_transactions s \<Longrightarrow> settled_ledger account since s' = settled_ledger account since s"
  by (simp add: settled_ledger_def)

lemma clean_run_groups_candidates:
  assumes "reconcile_account since resolver settle_after False account (r, s) = (r', s')"
    and "sr_errors r' = sr_errors r"
  shows "candidates s' account since = []"
proof -
  let ?s2 = "snd (synthesize_lapsed_settlements account resolver settle_after False (link_edges account s))"
  have "st_transactions s' = st_transactions (rs_ledger (run_clusters False account since ?s2))"
    using reconcile_account_stages [where dry_run = False and account = account and resolver = resolver
        and settle_after = settle_after and s = s and since = since and r = r] assms
    by auto
  then show ?thesis
    unfolding candidates_empty_iff settled_same [OF \<open>st_transactions s' = _\<close>]
    by (simp add: settled_after_clusters)
qed

text \<open>
  C1 (liveness). A run that is not dry leaves no candidate of the account behind: when it ends
  without an error, every row in range that carries an order, a settlement or a delivery is in
  some group.\<close>

theorem reconcile_groups_every_candidate:
  assumes "reconcile_account since resolver settle_after False account (r, s) = (r', s')"
    and "sr_errors r' = sr_errors r"
  shows "candidates s' account since = []"
  by (rule clean_run_groups_candidates) (rule assms)+


text \<open>Only a resolver raises: without one a run has no errors.\<close>

lemma lapse_securities_no_resolver:
  "\<exists>rows. lapse_securities s account None settle_after t groups sids = Inr rows"
proof (induction sids)
  case (Cons sid sids)
  then show ?case
    by (auto simp: settle_points_def split: option.splits)
qed simp

lemma no_resolver_no_error:
  "\<exists>rows s'. synthesize_lapsed_settlements account None settle_after dry_run s = (Inr rows, s')"
  using lapse_securities_no_resolver
  by (auto simp: synthesize_lapsed_settlements_def Let_def split: option.split) (metis (no_types, lifting) sum.simps(6))

lemma reconcile_account_no_resolver:
  "sr_errors (fst (reconcile_account since None settle_after dry_run account acc)) = sr_errors (fst acc)"
proof -
  obtain r s where acc: "acc = (r, s)" by (cases acc)
  obtain rows s' where "synthesize_lapsed_settlements account None settle_after dry_run (link_edges account s) = (Inr rows, s')"
    using no_resolver_no_error by blast
  then show ?thesis by (simp add: reconcile_account_def acc Let_def case_prod_beta)
qed

definition example_pending :: ledger where
  "example_pending =
     upsert_transaction ((example_txn ''1'' None 5)\<lparr>r_order_id := Some 7\<rparr>) (ledger_empty 0 show_nat)"

theorem reconcile_groups_every_candidate_witness:
  "candidates example_pending ''acct'' None \<noteq> []
   \<and> candidates (snd (reconcile_account None None DEFAULT_SETTLE_AFTER False ''acct'' (sync_result0, example_pending)))
       ''acct'' None = []"
proof
  show "candidates example_pending ''acct'' None \<noteq> []" by code_simp
  obtain r' s' where run: "reconcile_account None None DEFAULT_SETTLE_AFTER False ''acct'' (sync_result0, example_pending) = (r', s')"
    by fastforce
  have "sr_errors r' = sr_errors sync_result0"
    using reconcile_account_no_resolver [of None DEFAULT_SETTLE_AFTER False "''acct''" "(sync_result0, example_pending)"] run
    by simp
  from reconcile_groups_every_candidate [OF run this]
  show "candidates (snd (reconcile_account None None DEFAULT_SETTLE_AFTER False ''acct'' (sync_result0, example_pending)))
       ''acct'' None = []" using run by simp
qed

section \<open>A second run\<close>

definition order_account :: "ledger \<Rightarrow> string \<Rightarrow> string option" where
  "order_account s tt = Option.bind (get_order s tt) (\<lambda>o'. Some (o_account o'))"

lemma st_orders_frames [simp]:
  "st_orders (add_trade_group_event ev s) = st_orders s"
  "st_orders (snd (upsert_trade_group tg s)) = st_orders s"
  "st_orders (attach_transactions_to_trade_group ids pk s) = st_orders s"
  "st_orders (snd (fresh_uuid s)) = st_orders s"
  "st_orders (upsert_transaction row s) = st_orders s"
  by (simp_all add: add_trade_group_event_def upsert_trade_group_def fresh_uuid_def upsert_transaction_def
      attach_transactions_to_trade_group_def Let_def case_prod_beta)

lemma st_orders_upsert_transactions [simp]: "st_orders (upsert_transactions rows s) = st_orders s"
  by (induction rows arbitrary: s) simp_all

lemma st_orders_add_events [simp]: "st_orders (add_events evs s) = st_orders s"
  by (induction evs arbitrary: s) simp_all

lemma st_orders_stamp [simp]: "st_orders (stamp_closed pk rows t s) = st_orders s"
  by (simp add: stamp_closed_def split: option.split)

lemma st_orders_refresh [simp]: "st_orders (refresh_group_financials g s) = st_orders s"
  by (simp add: refresh_group_financials_def Let_def split: option.split)

lemma st_orders_apply_exit [simp]: "st_orders (snd (snd (apply_exit g rows rolled delivery s))) = st_orders s"
  by (simp add: apply_exit_def Let_def)

lemma st_orders_intent_step [simp]: "st_orders (snd (snd (intent_step acc entry))) = st_orders (snd (snd acc))"
  by (cases acc; cases entry)
    (simp add: intent_step_def intent_opening_def intent_closing_def Let_def case_prod_beta split: option.split)

lemma st_orders_intent_rows [simp]:
  "st_orders (snd (snd (apply_intent_rows dry_run groups rows s))) = st_orders s"
proof -
  have "st_orders (snd (snd (foldl intent_step acc entries))) = st_orders (snd (snd acc))" for acc entries
    by (induction entries arbitrary: acc) simp_all
  then show ?thesis by (simp add: apply_intent_rows_def Let_def)
qed

lemma st_orders_exit_bucket [simp]: "st_orders (rs_ledger (exit_bucket new_pk rest st b)) = st_orders (rs_ledger st)"
  by (cases b) (simp add: exit_bucket_def Let_def case_prod_beta split: option.split)

lemma st_orders_exit_buckets [simp]:
  "st_orders (rs_ledger (foldl (exit_bucket new_pk rest) st buckets)) = st_orders (rs_ledger st)"
  by (induction buckets arbitrary: st) simp_all

lemma st_orders_rolls [simp]: "st_orders (link_cross_cluster_rolls exits created s) = st_orders s"
  unfolding link_cross_cluster_rolls_def
  by (rule foldl_invariant [where P = "\<lambda>s'. st_orders s' = st_orders s"])
    (simp_all add: link_roll_def split: option.split prod.split)

lemma st_orders_heal [simp]: "st_orders (snd (heal_fully_closed_groups account dry_run s)) = st_orders s"
  using foldl_invariant [where P = "\<lambda>s'. st_orders s' = st_orders s" and f = heal_group]
  by (simp add: heal_fully_closed_groups_def Let_def heal_group_def)

lemma st_orders_synthesize [simp]:
  "st_orders (snd (synthesize_lapsed_settlements account resolver settle_after dry_run s)) = st_orders s"
proof (rule synthesize_cases [of account resolver settle_after dry_run s])
  fix synthesized
  assume "snd (synthesize_lapsed_settlements account resolver settle_after dry_run s)
    = foldl (settle_group synthesized) (upsert_transactions (map snd synthesized) s) (load_open_groups s account)"
  moreover have "st_orders (foldl (settle_group synthesized) s1 groups) = st_orders s1" for s1 groups
    by (rule foldl_invariant [where P = "\<lambda>s'. st_orders s' = st_orders s1"]) (simp_all add: settle_group_alt)
  ultimately show ?thesis by simp
qed simp

lemma order_account_same: "st_orders s' = st_orders s \<Longrightarrow> order_account s' = order_account s"
  by (intro ext) (simp add: order_account_def get_order_def)

text \<open>Only the creation of a group writes orders, and it keeps their accounts.\<close>

lemma order_account_upsert_order:
  assumes ok: "ledger_ok s" and row: "o_tt_order_id row = Some tt" "order_account s tt = Some (o_account row)"
  shows "order_account (snd (upsert_order row s)) = order_account s"
proof
  fix tt'
  note tab = ledger_ok_tables(1) [OF ok]
  have sync: "o_tt_order_id (synced_order s row) = Some tt" "o_account (synced_order s row) = o_account row"
    using row(1) by (auto simp: synced_order_def order_preserve_def split: option.split)
  then have key: "order_key (synced_order s row) = Some tt" by (simp add: order_key_def)
  show "order_account (snd (upsert_order row s)) tt' = order_account s tt'"
  proof (cases "tt' = tt")
    case True
    then show ?thesis
      using tbl.upsert_stored [OF tab key] row(2) sync(2)
      by (simp add: order_account_def get_order_def upsert_order_alt)
  next
    case False
    then show ?thesis
      using tbl.upsert_frame [OF tab key]
      by (simp add: order_account_def get_order_def upsert_order_alt)
  qed
qed

lemma order_account_upsert_orders:
  "ledger_ok s \<Longrightarrow> \<forall>row \<in> set rows. \<exists>tt. o_tt_order_id row = Some tt \<and> order_account s tt = Some (o_account row) \<Longrightarrow>
     order_account (snd (upsert_orders rows s)) = order_account s"
proof (induction rows arbitrary: s)
  case (Cons row rows)
  then obtain tt where "o_tt_order_id row = Some tt" "order_account s tt = Some (o_account row)" by auto
  note eq = order_account_upsert_order [OF Cons.prems(1) this]
  have "order_account (snd (upsert_orders rows (snd (upsert_order row s)))) = order_account (snd (upsert_order row s))"
    using Cons.prems by (intro Cons.IH) (simp_all add: ledger_ok_upsert_order eq)
  then show ?case by (simp add: case_prod_beta eq)
qed simp

lemma orders_of_cluster_known:
  assumes "ledger_ok s"
  shows "\<forall>row \<in> set (orders_of_cluster s pk rows). \<exists>tt. o_tt_order_id row = Some tt \<and> order_account s tt = Some (o_account row)"
proof
  fix row assume "row \<in> set (orders_of_cluster s pk rows)"
  then obtain o' where row: "row = o'\<lparr>o_trade_group_id := Some pk\<rparr>" and "Some o' \<in> range (get_order s)"
    by (auto simp: orders_of_cluster_def set_somes)
  then obtain tt where o': "get_order s tt = Some o'" "row = o'\<lparr>o_trade_group_id := Some pk\<rparr>" by fastforce
  then have "o_tt_order_id o' = Some tt"
    using table_get_by_key_ok [OF ledger_ok_tables(1) [OF assms]] by (auto simp: get_order_def order_key_def)
  then show "\<exists>tt. o_tt_order_id row = Some tt \<and> order_account s tt = Some (o_account row)"
    using o' by (auto simp: order_account_def)
qed

lemma order_account_create:
  assumes ok: "ledger_ok s"
  shows "order_account (snd (create_trade_group account rows s)) = order_account s"
proof -
  obtain gid s1 where u: "fresh_uuid s = (gid, s1)" by fastforce
  obtain pk s2 where g: "upsert_trade_group (new_trade_group gid account (compute_group_fields s rows)) s1 = (pk, s2)"
    by fastforce
  let ?s3 = "attach_transactions_to_trade_group (tids rows) pk s2"
  have ok1: "ledger_ok s1" using ledger_ok_fresh_uuid [OF ok] u by simp
  have ok2: "ledger_ok s2" using ledger_ok_upsert_trade_group [OF ok1] g by (metis snd_conv)
  have ok3: "ledger_ok ?s3" using ok2 by (rule ledger_ok_links(5))
  have "st_orders ?s3 = st_orders s"
    using st_orders_frames(2) [of "new_trade_group gid account (compute_group_fields s rows)" s1] st_orders_frames(4) [of s] u g
    by simp
  then have "order_account ?s3 = order_account s" by (rule order_account_same)
  moreover have "order_account (snd (create_trade_group account rows s))
      = order_account (snd (upsert_orders (orders_of_cluster ?s3 pk rows) ?s3))"
    by (rule order_account_same) (simp add: create_trade_group_def u g Let_def case_prod_beta)
  ultimately show ?thesis
    using order_account_upsert_orders [OF ok3 orders_of_cluster_known [OF ok3]] by simp
qed

lemma order_account_run_cluster:
  assumes "ledger_ok (rs_ledger st)"
  shows "order_account (rs_ledger (run_cluster dry_run account st cluster)) = order_account (rs_ledger st)"
proof -
  obtain rows groups s where i: "apply_intent_rows dry_run (rs_groups st) cluster (rs_ledger st) = (rows, groups, s)"
    by (metis prod_cases3)
  have ok: "ledger_ok s" using ledger_ok_intent_rows [OF assms, of dry_run "rs_groups st" cluster] i by simp
  have s: "order_account s = order_account (rs_ledger st)"
    using st_orders_intent_rows [of dry_run "rs_groups st" cluster "rs_ledger st"] i by (intro order_account_same) simp
  obtain buckets rest where rt: "route_cluster groups rows = (buckets, rest)" by fastforce
  obtain new_pk st2 where o: "open_rest dry_run account rest (st\<lparr>rs_groups := groups, rs_ledger := s\<rparr>) = (new_pk, st2)"
    by fastforce
  then have st2: "order_account (rs_ledger st2) = order_account s"
    using order_account_create [OF ok, of account rest]
    by (auto simp: open_rest_def case_prod_beta split: if_splits)
  have "order_account (rs_ledger (foldl (exit_bucket new_pk rest) st2 buckets)) = order_account (rs_ledger st2)"
    by (rule order_account_same) simp
  then show ?thesis using s st2 by (simp add: run_cluster_def i rt o Let_def)
qed

lemma order_account_run_clusters:
  assumes "ledger_ok s"
  shows "order_account (rs_ledger (run_clusters dry_run account since s)) = order_account s"
proof -
  let ?P = "\<lambda>st. ledger_ok (rs_ledger st) \<and> order_account (rs_ledger st) = order_account s"
  have "?P (run_clusters dry_run account since s)"
    unfolding run_clusters_def
    by (rule foldl_invariant [where P = ?P])
      (use assms in \<open>auto simp: ledger_ok_run_cluster order_account_run_cluster\<close>)
  then show ?thesis by simp
qed

text \<open>No transaction of the account is left that the link step would still link.\<close>

definition links_done :: "string \<Rightarrow> (string \<Rightarrow> string option) \<Rightarrow> ledger \<Rightarrow> bool" where
  "links_done account accounts s \<longleftrightarrow>
     (\<forall>(i, t) \<in> set (table_all (st_transactions s)).
        r_account t = account \<longrightarrow> r_order_id t = None \<longrightarrow>
        (case r_tt_order_id t of None \<Rightarrow> True | Some tt \<Rightarrow> accounts tt \<noteq> Some account))"

lemma links_to_order_account:
  "links_to_order account s t \<longleftrightarrow> r_account t = account \<and> r_order_id t = None
     \<and> (case r_tt_order_id t of None \<Rightarrow> False | Some tt \<Rightarrow> order_account s tt = Some account)"
  by (auto simp: links_to_order_def order_account_def get_order_def split: option.splits bind_splits)

lemma links_done_iff:
  "links_done account (order_account s) s \<longleftrightarrow>
     (\<forall>(i, t) \<in> set (table_all (st_transactions s)). \<not> links_to_order account s t)"
  by (auto simp: links_done_def links_to_order_account split: option.splits)

lemma links_done_link:
  assumes ok: "ledger_ok s"
  shows "links_done account (order_account s) (snd (link_transactions_to_orders account s))"
proof -
  have "table_id_of (st_orders s) tt \<noteq> None" if "order_account s tt = Some account" for tt
    using that by (auto simp: order_account_def get_order_def table_get_by_key_def table_id_of_def
        split: option.splits bind_splits)
  then show ?thesis
    unfolding links_done_def
    by (auto simp: link_transactions_to_orders_def table_all_modify links_to_order_account
        split: option.splits if_splits) fastforce
qed

lemma links_done_attach:
  assumes "links_done account accounts s" and "attaches ids s s'"
  shows "links_done account accounts s'"
proof -
  obtain h where h: "st_transactions s' = table_modify
      (\<lambda>_ t. t\<lparr>r_trade_group_id := h (r_tt_transaction_id t) (r_trade_group_id t)\<rparr>) (st_transactions s)"
    using assms(2) by (auto simp: attaches_def)
  show ?thesis using assms(1) by (auto simp: links_done_def h table_all_modify)
qed

lemma links_done_same: "st_transactions s' = st_transactions s \<Longrightarrow> links_done account accounts s' = links_done account accounts s"
  by (simp add: links_done_def)

lemma upsert_transaction_entries:
  assumes "ledger_ok s" and "(i, t) \<in> set (table_all (st_transactions (upsert_transaction row s)))"
    and "r_tt_order_id row = None" "r_trade_group_id row = Some g"
  shows "(r_tt_order_id t = None \<and> r_trade_group_id t = Some g) \<or> (i, t) \<in> set (table_all (st_transactions s))"
proof -
  let ?row = "case table_get_by_key (st_transactions s) (r_tt_transaction_id row) of
    None \<Rightarrow> row | Some e \<Rightarrow> txn_preserve e row"
  have "r_tt_order_id ?row = None \<and> r_trade_group_id ?row = Some g"
    using assms(3,4) by (simp add: txn_preserve_def or_else_def split: option.split)
  moreover have "t = ?row \<or> (i, t) \<in> set (table_all (st_transactions s))"
    using assms(2) by (intro table_all_upsert [OF ledger_ok_tables(2) [OF assms(1)]])
      (simp add: upsert_transaction_def)
  ultimately show ?thesis by metis
qed

lemma upsert_synthetic:
  assumes "ledger_ok s" and "synthetic p"
  shows "settled_ledger account since s \<Longrightarrow> settled_ledger account since (upsert_transaction (snd p) s)"
    and "links_done account accounts s \<Longrightarrow> links_done account accounts (upsert_transaction (snd p) s)"
proof -
  have p: "r_tt_order_id (snd p) = None" "r_trade_group_id (snd p) = Some (fst p)"
    using assms(2) by (simp_all add: synthetic_def)
  note entries = upsert_transaction_entries [OF assms(1) _ p]
  show "settled_ledger account since s \<Longrightarrow> settled_ledger account since (upsert_transaction (snd p) s)"
    unfolding settled_ledger_def using entries pending_group by fastforce
  show "links_done account accounts s \<Longrightarrow> links_done account accounts (upsert_transaction (snd p) s)"
    unfolding links_done_def using entries by fastforce
qed

lemma upsert_synthetics:
  "ledger_ok s \<Longrightarrow> \<forall>p \<in> set ps. synthetic p \<Longrightarrow>
     (settled_ledger account since s \<longrightarrow> settled_ledger account since (upsert_transactions (map snd ps) s))
   \<and> (links_done account accounts s \<longrightarrow> links_done account accounts (upsert_transactions (map snd ps) s))"
  by (induction ps arbitrary: s) (simp_all add: upsert_synthetic ledger_ok_upsert_transaction)

lemma synthesize_keeps:
  fixes account :: string and resolver :: "price_resolver option" and settle_after :: timedelta and dry_run :: bool
  assumes ok: "ledger_ok s"
  defines "s' \<equiv> snd (synthesize_lapsed_settlements account resolver settle_after dry_run s)"
  shows "settled_ledger account' since s \<Longrightarrow> settled_ledger account' since s'"
    and "links_done account' accounts s \<Longrightarrow> links_done account' accounts s'"
proof -
  have "(settled_ledger account' since s \<longrightarrow> settled_ledger account' since s')
      \<and> (links_done account' accounts s \<longrightarrow> links_done account' accounts s')"
    unfolding s'_def
  proof (rule synthesize_cases [of account resolver settle_after dry_run s])
    fix synthesized t
    assume rows: "lapse_securities s account resolver settle_after t (load_open_groups s account)
        (held_securities (load_open_groups s account)) = Inr synthesized"
      and run: "snd (synthesize_lapsed_settlements account resolver settle_after dry_run s)
        = foldl (settle_group synthesized) (upsert_transactions (map snd synthesized) s) (load_open_groups s account)"
    let ?s1 = "upsert_transactions (map snd synthesized) s"
    note syn = lapse_securities_synthetic [OF rows]
    obtain ids where ids: "attaches ids ?s1 (foldl (settle_group synthesized) ?s1 (load_open_groups s account))"
      using attaches_mono_lapse [OF syn] by blast
    show "(settled_ledger account' since s \<longrightarrow> settled_ledger account' since
          (snd (synthesize_lapsed_settlements account resolver settle_after dry_run s)))
      \<and> (links_done account' accounts s \<longrightarrow> links_done account' accounts
          (snd (synthesize_lapsed_settlements account resolver settle_after dry_run s)))"
      unfolding run using upsert_synthetics [OF ok syn, of account' since accounts]
        settled_attach_frame [OF _ ids] links_done_attach [OF _ ids] by blast
  qed simp
  then show "settled_ledger account' since s \<Longrightarrow> settled_ledger account' since s'"
    and "links_done account' accounts s \<Longrightarrow> links_done account' accounts s'" by blast+
qed


lemma link_done_noop:
  assumes "links_done account (order_account s) s"
  shows "st_transactions (link_edges account s) = st_transactions s"
proof -
  have "table_modify (\<lambda>_ t. if links_to_order account s t
      then t\<lparr>r_order_id := table_id_of (st_orders s) (str0 (r_tt_order_id t))\<rparr> else t) (st_transactions s)
    = st_transactions s"
    using assms unfolding links_done_iff table_modify_def table_all_def
    by (intro ptable.equality) (auto intro!: map_idI)
  then show ?thesis
    by (simp add: link_edges_def link_transactions_to_orders_def link_orders_to_groups_def
        link_closed_positions_to_groups_def)
qed

lemma order_account_link_edges: "order_account (link_edges account s) = order_account s"
proof
  fix tt
  have "st_orders (link_edges account s)
      = st_orders (snd (link_orders_to_groups account (snd (link_transactions_to_orders account s))))"
    by (simp add: link_edges_def link_closed_positions_to_groups_def)
  then show "order_account (link_edges account s) tt = order_account s tt"
    by (simp add: order_account_def get_order_def link_orders_to_groups_def link_transactions_to_orders_def
        bind_get_by_key_modify split: option.split)
qed

lemma links_done_link_edges:
  "ledger_ok s \<Longrightarrow> links_done account (order_account s) (link_edges account s)"
  using links_done_link [of s account]
  by (simp add: link_edges_def link_orders_to_groups_def link_closed_positions_to_groups_def links_done_def)

lemma reconcile_account_orders:
  "st_orders (snd (reconcile_account since resolver settle_after False account (r, s))) =
     (let s2 = snd (synthesize_lapsed_settlements account resolver settle_after False (link_edges account s))
      in case fst (synthesize_lapsed_settlements account resolver settle_after False (link_edges account s)) of
           Inl _ \<Rightarrow> st_orders s2
         | Inr _ \<Rightarrow> st_orders (rs_ledger (run_clusters False account since s2)))"
  by (cases "synthesize_lapsed_settlements account resolver settle_after False (link_edges account s)")
    (simp add: reconcile_account_def Let_def case_prod_beta split: sum.split)

text \<open>A run that is not dry and ends without an error leaves the account settled and linked.\<close>

lemma reconcile_account_settles:
  assumes ok: "ledger_ok s"
    and run: "reconcile_account since resolver settle_after False account (r, s) = (r', s')"
    and clean: "sr_errors r' = sr_errors r"
  shows "settled_ledger account since s' \<and> links_done account (order_account s') s'"
proof -
  let ?s1 = "link_edges account s"
  let ?s2 = "snd (synthesize_lapsed_settlements account resolver settle_after False ?s1)"
  let ?s3 = "rs_ledger (run_clusters False account since ?s2)"
  have ok1: "ledger_ok ?s1" and ok2: "ledger_ok ?s2" using ok by (simp_all add: ledger_ok_intros)
  have txns: "st_transactions s' = st_transactions ?s3"
    using reconcile_account_stages [where dry_run = False and account = account and resolver = resolver
        and settle_after = settle_after and s = s and since = since and r = r] run clean by auto
  have orders: "order_account s' = order_account s"
  proof -
    have "order_account ?s2 = order_account ?s1" by (rule order_account_same) simp
    moreover have "order_account ?s3 = order_account ?s2" by (rule order_account_run_clusters [OF ok2])
    moreover have "order_account s' = order_account ?s2 \<or> order_account s' = order_account ?s3"
      using reconcile_account_orders [of since resolver settle_after account r s] run
      by (auto simp: Let_def split: sum.splits intro: order_account_same)
    ultimately show ?thesis using order_account_link_edges [of account s] by metis
  qed
  have "links_done account (order_account s) ?s2"
    using links_done_link_edges [OF ok, of account] by (rule synthesize_keeps(2) [OF ok1])
  then have "links_done account (order_account s) ?s3"
    by (rule links_done_attach [OF _ run_clusters_attaches])
  then show ?thesis
    using settled_after_clusters [of account since ?s2] orders
    by (simp add: settled_same [OF txns] links_done_same [OF txns])
qed

lemma run_clusters_nothing:
  "candidates s account since = [] \<Longrightarrow> rs_count (run_clusters dry_run account since s) = 0"
  by (simp add: run_clusters_def cluster_by_time_def dated_clusters_def)

text \<open>
  C2 (equivalence). Re-running adds nothing: after a run that ended without an error, a second
  run over the account, with any resolver and settlement delay, dry or not, opens no trade
  group.\<close>

theorem second_run_opens_no_group:
  assumes "ledger_ok s"
    and "reconcile_account since resolver settle_after False account (r, s) = (r', s')"
    and "sr_errors r' = sr_errors r"
  shows "sr_trade_groups (fst (reconcile_account since resolver' settle_after' dry_run account (r', s')))
       = sr_trade_groups r'"
proof -
  have ok': "ledger_ok s'"
    using ledger_ok_reconcile_account [where acc = "(r, s)"] assms(1,2) by (metis snd_conv)
  note settled = reconcile_account_settles [OF assms]
  let ?s1 = "link_edges account s'"
  let ?syn = "synthesize_lapsed_settlements account resolver' settle_after' dry_run ?s1"
  have "settled_ledger account since ?s1"
    using settled link_done_noop [of account s'] settled_same by blast
  then have "settled_ledger account since (snd ?syn)"
    by (rule synthesize_keeps(1) [OF ledger_ok_link_edges [OF ok']])
  then have "rs_count (run_clusters dry_run account since (snd ?syn)) = 0"
    by (intro run_clusters_nothing) (simp add: candidates_empty_iff)
  then show ?thesis
    by (cases ?syn; cases "fst ?syn") (simp_all add: reconcile_account_def Let_def case_prod_beta)
qed

theorem second_run_opens_no_group_witness:
  "candidates example_pending ''acct'' None \<noteq> []
   \<and> sr_trade_groups (fst (reconcile_account None None DEFAULT_SETTLE_AFTER False ''acct''
        (reconcile_account None None DEFAULT_SETTLE_AFTER False ''acct'' (sync_result0, example_pending))))
     = sr_trade_groups (fst (reconcile_account None None DEFAULT_SETTLE_AFTER False ''acct'' (sync_result0, example_pending)))"
proof -
  obtain r' s' where run: "reconcile_account None None DEFAULT_SETTLE_AFTER False ''acct'' (sync_result0, example_pending) = (r', s')"
    by fastforce
  have "sr_errors r' = sr_errors sync_result0"
    using reconcile_account_no_resolver [of None DEFAULT_SETTLE_AFTER False "''acct''" "(sync_result0, example_pending)"] run
    by simp
  moreover have "ledger_ok example_pending"
    unfolding example_pending_def by (simp add: ledger_ok_upsert_transaction ledger_ok_empty)
  ultimately have "sr_trade_groups (fst (reconcile_account None None DEFAULT_SETTLE_AFTER False ''acct'' (r', s')))
      = sr_trade_groups r'"
    using second_run_opens_no_group [OF _ run] by blast
  moreover have "candidates example_pending ''acct'' None \<noteq> []" by code_simp
  ultimately show ?thesis using run by simp
qed

end
