(* ===== verification/Symbology.thy ===== *)
theory Symbology
  imports Ledger_Prelude
begin

text \<open>
  Symbology (\<^verbatim>\<open>tt_ledger/identity/securities.py\<close>, \<^verbatim>\<open>tt_ledger/identity/canonical.py\<close>): what a
  resolver returns for a vendor symbol, the zero-configuration resolver, and the canonical-symbol
  resolver with its parsers for OCC option symbols and futures. A resolver is a function that
  raises (\<open>Inl\<close> the message) or returns a \<open>resolved_security\<close>. A calendar date is its number of
  days; the constructor \<open>date(y, m, d)\<close> with its range check and \<open>strftime("%Y%m%d")\<close> are
  written out over the proleptic Gregorian calendar of the standard library.

  The two regular expressions are matched by hand: the OCC suffix has a fixed length of fifteen
  characters and a root contains no white space, and the last two characters of a future decide
  whether its year has one digit or two, so each pattern has at most one match.
\<close>

section \<open>Resolved securities\<close>

record resolved_security =
  rs_security_id :: string
  rs_product_type :: "string option"
  rs_underlying :: "string option"
  rs_expiry :: "date option"
  rs_strike :: "decimal option"
  rs_option_type :: "string option"
  rs_multiplier :: "int option"

type_synonym resolver = "string \<Rightarrow> string option \<Rightarrow> string + resolved_security"

definition TT_INSTRUMENT_TYPE_TO_PRODUCT :: "(string, string) dict" where
  "TT_INSTRUMENT_TYPE_TO_PRODUCT =
     [(''equity'', ''S''), (''index'', ''I''), (''future'', ''F''), (''equity option'', ''OS''),
      (''index option'', ''OI''), (''future option'', ''OF''), (''cryptocurrency'', ''CR''), (''crypto'', ''CR'')]"

definition instrument_type_to_product_type :: "string option \<Rightarrow> string option" where
  "instrument_type_to_product_type instrument_type =
     (case instrument_type of
        None \<Rightarrow> None
      | Some it \<Rightarrow> dict_get TT_INSTRUMENT_TYPE_TO_PRODUCT (py_lower (py_strip it)))"

definition passthrough_resolver :: resolver where
  "passthrough_resolver vendor_symbol instrument_type =
     Inr \<lparr> rs_security_id = vendor_symbol,
           rs_product_type = instrument_type_to_product_type instrument_type,
           rs_underlying = None, rs_expiry = None, rs_strike = None, rs_option_type = None,
           rs_multiplier = None \<rparr>"

section \<open>Calendar dates\<close>

definition is_leap :: "int \<Rightarrow> bool" where
  "is_leap y \<longleftrightarrow> 4 dvd y \<and> (\<not> 100 dvd y \<or> 400 dvd y)"

definition days_before_year :: "int \<Rightarrow> int" where
  "days_before_year y = (let k = y - 1 in k * 365 + k div 4 - k div 100 + k div 400)"

definition days_in_month :: "int \<Rightarrow> nat \<Rightarrow> int" where
  "days_in_month y m = (if m = 2 then (if is_leap y then 29 else 28) else if m \<in> {4, 6, 9, 11} then 30 else 31)"

definition days_before_month :: "int \<Rightarrow> nat \<Rightarrow> int" where
  "days_before_month y m = sum_list (map (days_in_month y) [1..<m])"

text \<open>The ordinal of 1970-01-01 is 719163.\<close>

definition valid_date :: "int \<Rightarrow> nat \<Rightarrow> int \<Rightarrow> bool" where
  "valid_date y m d \<longleftrightarrow> 1 \<le> y \<and> y \<le> 9999 \<and> 1 \<le> m \<and> m \<le> 12 \<and> 1 \<le> d \<and> d \<le> days_in_month y m"

definition make_date :: "int \<Rightarrow> nat \<Rightarrow> int \<Rightarrow> date option" where
  "make_date y m d =
     (if valid_date y m d then Some (days_before_year y + days_before_month y m + d - 719163) else None)"

text \<open>The way back: the year is found by counting up from an estimate that is never too late, the
  month by taking off whole months.\<close>

function year_from :: "int \<Rightarrow> int \<Rightarrow> int" where
  "year_from y n = (if n \<le> days_before_year (y + 1) \<or> y < 1 then y else year_from (y + 1) n)"
  by pat_completeness auto

lemma div_succ: "0 < c \<Longrightarrow> (k + 1) div c = k div c + (if c dvd k + 1 then 1 else 0)" for k c :: int
proof -
  assume c: "0 < c"
  have "k mod c < c" "0 \<le> k mod c" using c by simp_all
  moreover have k: "k + 1 = c * (k div c) + (k mod c + 1)" by simp
  ultimately show ?thesis
  proof (cases "k mod c + 1 = c")
    case True
    then have eq: "k + 1 = c * (k div c + 1)" using k by (simp add: distrib_left)
    then have "c dvd k + 1" by (metis dvd_triv_left)
    moreover have "(k + 1) div c = k div c + 1" using c by (subst eq) simp
    ultimately show ?thesis by simp
  next
    case False
    with \<open>k mod c < c\<close> \<open>0 \<le> k mod c\<close> have r: "0 \<le> k mod c + 1" "k mod c + 1 < c" "k mod c + 1 \<noteq> 0" by linarith+
    have "(k + 1) mod c = k mod c + 1" "(k + 1) div c = k div c"
      using k r c by (metis int_mod_pos_eq, metis int_div_pos_eq)
    then show ?thesis using r by (simp add: dvd_eq_mod_eq_0)
  qed
qed

lemma days_before_next_year:
  "days_before_year (y + 1) = days_before_year y + (if is_leap y then 366 else 365)"
proof -
  have imp: "100 dvd y \<Longrightarrow> 4 dvd y" "400 dvd y \<Longrightarrow> 100 dvd y"
    using dvd_trans [of 4 100 y] dvd_trans [of 100 400 y] by simp_all
  have split: "a = a' + (if p then 1 else 0) \<Longrightarrow> b = b' + (if q then 1 else 0) \<Longrightarrow> c = c' + (if r then 1 else 0)
      \<Longrightarrow> (q \<Longrightarrow> p) \<Longrightarrow> (r \<Longrightarrow> q)
      \<Longrightarrow> y * 365 + a - b + c = (y - 1) * 365 + a' - b' + c' + (if p \<and> (\<not> q \<or> r) then 366 else 365)"
    for a a' b b' c c' :: int and p q r
    by (cases p; cases q; cases r) (simp_all only: simp_thms if_True if_False, simp_all)
  have shift: "y - 1 + 1 = y" "y + 1 - 1 = y" by simp_all
  show ?thesis
    unfolding days_before_year_def is_leap_def Let_def shift
    by (rule split) (rule div_succ [of _ "y - 1", unfolded shift], simp only: zero_less_numeral | rule imp, assumption)+
qed

lemma days_before_year_bounds:
  "1 \<le> y \<Longrightarrow> y \<le> days_before_year (y + 1) \<and> days_before_year (y + 1) \<le> 366 * y"
proof (induction "nat (y - 1)" arbitrary: y)
  case 0
  then have "y = 1" by simp
  then show ?case by (simp add: days_before_year_def)
next
  case (Suc n)
  then have "n = nat (y - 1 - 1)" "1 \<le> y - 1" by simp_all
  from Suc.hyps(1) [OF this] show ?case
    using days_before_next_year [of y] by (auto split: if_splits)
qed

termination year_from
proof (relation "measure (\<lambda>(y, n). nat (n - y))")
  fix y n :: int
  assume "\<not> (n \<le> days_before_year (y + 1) \<or> y < 1)"
  then show "((y + 1, n), y, n) \<in> measure (\<lambda>(y, n). nat (n - y))"
    using days_before_year_bounds [of y] by auto
qed simp

declare year_from.simps [simp del]

fun month_from :: "int \<Rightarrow> nat list \<Rightarrow> int \<Rightarrow> nat \<times> int" where
  "month_from y [] d = (13, d)"
| "month_from y (m # ms) d = (if d \<le> days_in_month y m then (m, d) else month_from y ms (d - days_in_month y m))"

definition civil_of :: "date \<Rightarrow> int \<times> nat \<times> int" where
  "civil_of t =
     (let n = t + 719163; y = year_from (max 1 (n div 366)) n
      in (y, month_from y [1..<13] (n - days_before_year y)))"

text \<open>The way back finds the date that was constructed.\<close>

lemma days_before_year_mono: "x \<le> y \<Longrightarrow> days_before_year x \<le> days_before_year y"
proof (induction "nat (y - x)" arbitrary: y)
  case (Suc n)
  then have "n = nat (y - 1 - x)" "x \<le> y - 1" by simp_all
  from Suc.hyps(1) [OF this] show ?case
    using days_before_next_year [of "y - 1"] by (auto split: if_splits)
qed simp

lemma year_from_finds:
  assumes "1 \<le> x" "x \<le> y" "days_before_year y < n" "n \<le> days_before_year (y + 1)"
  shows "year_from x n = y"
  using assms
proof (induction "nat (y - x)" arbitrary: x)
  case 0
  then show ?case by (subst year_from.simps) simp
next
  case (Suc k)
  then have "k = nat (y - (x + 1))" "x + 1 \<le> y" by simp_all
  moreover from this have "days_before_year (x + 1) < n"
    using days_before_year_mono [of "x + 1" y] Suc.prems by linarith
  ultimately show ?case using Suc by (subst year_from.simps) simp
qed

lemma days_in_month_pos: "0 < days_in_month y m"
  by (simp add: days_in_month_def)

lemma month_from_finds:
  assumes "1 \<le> d" "d \<le> days_in_month y m"
  shows "month_from y (ms @ m # ms') (sum_list (map (days_in_month y) ms) + d) = (m, d)"
proof (induction ms)
  case (Cons k ms)
  have "0 \<le> sum_list (map (days_in_month y) ms)"
    by (rule sum_list_nonneg) (auto simp: days_in_month_pos less_imp_le)
  with Cons assms show ?case by (simp add: add.commute add.left_commute)
qed (use assms in simp)

lemma months_before_13: "days_before_month y 13 = (if is_leap y then 366 else 365)"
  by (simp add: days_before_month_def days_in_month_def upt_rec)

lemma days_before_month_le:
  assumes "1 \<le> m" "m \<le> 12"
  shows "days_before_month y m + days_in_month y m \<le> days_before_month y 13"
proof -
  have "[1..<13] = [1..<m] @ m # [Suc m..<13]"
    using assms upt_add_eq_append [of 1 m "13 - m"] upt_conv_Cons [of m 13] by simp
  moreover have "0 \<le> sum_list (map (days_in_month y) [Suc m..<13])"
    by (rule sum_list_nonneg) (auto simp: days_in_month_pos less_imp_le)
  ultimately show ?thesis by (simp add: days_before_month_def)
qed

lemma civil_of_make_date:
  assumes "make_date y m d = Some t"
  shows "civil_of t = (y, m, d)"
proof -
  have v: "valid_date y m d" and t: "t + 719163 = days_before_year y + (days_before_month y m + d)"
    using assms by (auto simp: make_date_def split: if_splits)
  define n where "n = days_before_year y + (days_before_month y m + d)"
  have nonneg: "0 \<le> days_before_month y m"
    unfolding days_before_month_def by (rule sum_list_nonneg) (auto simp: days_in_month_pos less_imp_le)
  have lo: "days_before_year y < n" using v nonneg by (simp add: n_def valid_date_def)
  have hi: "n \<le> days_before_year (y + 1)"
    using v days_before_month_le [of m y] by (simp add: n_def valid_date_def days_before_next_year months_before_13)
  have "n \<le> 366 * y" using days_before_year_bounds [of y] v hi by (simp add: valid_date_def)
  then have "n div 366 \<le> 366 * y div 366" by (rule zdiv_mono1) simp
  then have "year_from (max 1 (n div 366)) n = y"
    using v lo hi by (intro year_from_finds) (simp_all add: valid_date_def)
  moreover have "month_from y [1..<13] (days_before_month y m + d) = (m, d)"
  proof -
    have "[1..<13] = [1..<m] @ m # [Suc m..<13]"
      using v upt_add_eq_append [of 1 m "13 - m"] upt_conv_Cons [of m 13] by (simp add: valid_date_def)
    then show ?thesis
      using v month_from_finds [of d y m "[1..<m]" "[Suc m..<13]"]
      by (simp add: valid_date_def days_before_month_def)
  qed
  ultimately show ?thesis
    unfolding civil_of_def Let_def t n_def [symmetric] by (simp add: n_def)
qed

text \<open>Zero-padded decimals of fixed width, the digits of a numeric field, and \<open>int(s)\<close>.\<close>

definition digit_char :: "nat \<Rightarrow> char" where
  "digit_char n = char_of (48 + n)"

fun pad_nat :: "nat \<Rightarrow> nat \<Rightarrow> string" where
  "pad_nat 0 n = []"
| "pad_nat (Suc w) n = pad_nat w (n div 10) @ [digit_char (n mod 10)]"

definition is_digit :: "char \<Rightarrow> bool" where
  "is_digit c \<longleftrightarrow> (let n = (of_char c :: nat) in 48 \<le> n \<and> n \<le> 57)"

definition is_upper_char :: "char \<Rightarrow> bool" where
  "is_upper_char c \<longleftrightarrow> (let n = (of_char c :: nat) in 65 \<le> n \<and> n \<le> 90)"

definition digits_value :: "string \<Rightarrow> nat" where
  "digits_value s = foldl (\<lambda>v c. v * 10 + (of_char c - 48)) 0 s"

text \<open>Years have four digits in the dates that occur (the parser produces 2000 to 2099).\<close>

definition strftime_ymd :: "date \<Rightarrow> string" where
  "strftime_ymd t = (case civil_of t of (y, m, d) \<Rightarrow> pad_nat 4 (nat y) @ pad_nat 2 m @ pad_nat 2 (nat d))"

section \<open>Strikes\<close>

text \<open>\<open>format(strike, "f")\<close> with trailing zeros and a trailing point removed is the shortest
  decimal expansion of the value. A \<open>Decimal\<close> has at most 28 digits after the point here, the
  precision of the default context.\<close>

fun fraction_digits :: "nat \<Rightarrow> decimal \<Rightarrow> string" where
  "fraction_digits 0 q = []"
| "fraction_digits (Suc k) q =
     (if q = 0 then []
      else let d = \<lfloor>q * 10\<rfloor> in digit_char (nat d) # fraction_digits k (q * 10 - of_int d))"

definition format_strike :: "decimal \<Rightarrow> string" where
  "format_strike strike =
     (let q = \<bar>strike\<bar>; whole = \<lfloor>q\<rfloor>; fraction = fraction_digits 28 (q - of_int whole)
      in (if strike < 0 then ''-'' else []) @ show_nat (nat whole) @ (if fraction = [] then [] else CHR ''.'' # fraction))"

section \<open>Canonical symbols\<close>

type_synonym index_roots = "(string, string list) dict"

definition is_index_root :: "string \<Rightarrow> index_roots \<Rightarrow> bool" where
  "is_index_root stem index_option_roots =
     list_ex (\<lambda>(key, roots). stem = key \<or> stem \<in> set roots) index_option_roots"

record canonical_symbol =
  cs_product_type :: string
  cs_underlying :: string
  cs_expiry :: "date option"
  cs_strike :: "decimal option"
  cs_option_type :: "string option"

definition plain_symbol :: "string \<Rightarrow> string \<Rightarrow> canonical_symbol" where
  "plain_symbol product underlying =
     \<lparr> cs_product_type = product, cs_underlying = underlying, cs_expiry = None, cs_strike = None,
       cs_option_type = None \<rparr>"

fun pipe_join :: "string list \<Rightarrow> string" where
  "pipe_join [] = []"
| "pipe_join [p] = p"
| "pipe_join (p # ps) = p @ CHR ''|'' # pipe_join ps"

definition canonical_string :: "canonical_symbol \<Rightarrow> string" where
  "canonical_string cs =
     pipe_join ([cs_product_type cs, cs_underlying cs]
       @ (case cs_option_type cs of
            None \<Rightarrow> []
          | Some cp \<Rightarrow>
              [case cs_expiry cs of None \<Rightarrow> [] | Some e \<Rightarrow> strftime_ymd e,
               case cs_strike cs of None \<Rightarrow> [] | Some k \<Rightarrow> format_strike k, cp]))"

text \<open>The OCC pattern: root, white space, six digits of date, C or P, eight digits of strike.\<close>

definition occ_root :: "string \<Rightarrow> bool" where
  "occ_root stem \<longleftrightarrow>
     stem \<noteq> [] \<and> length stem \<le> 6 \<and> is_upper_char (hd stem)
   \<and> (\<forall>c \<in> set (tl stem). is_upper_char c \<or> is_digit c)"

definition occ_match :: "string \<Rightarrow> (string \<times> nat \<times> nat \<times> nat \<times> string \<times> nat) option" where
  "occ_match s =
     (if length s < 15 then None
      else
        let front = take (length s - 15) s; suffix = drop (length s - 15) s;
            stem = takeWhile (\<lambda>c. \<not> py_space c) front;
            ymd = take 6 suffix; cp = suffix ! 6; strike = drop 7 suffix
        in if occ_root stem \<and> list_all py_space (drop (length stem) front)
              \<and> list_all is_digit ymd \<and> cp \<in> {CHR ''C'', CHR ''P''} \<and> list_all is_digit strike
           then Some (stem, digits_value (take 2 ymd), digits_value (take 2 (drop 2 ymd)),
                      digits_value (drop 4 ymd), [cp], digits_value strike)
           else None)"

definition FUTURE_MONTH_CODES :: string where
  "FUTURE_MONTH_CODES = ''FGHJKMNQUVXZ''"

definition future_root_ok :: "string \<Rightarrow> bool" where
  "future_root_ok stem \<longleftrightarrow> stem \<noteq> [] \<and> list_all (\<lambda>c. is_upper_char c \<or> is_digit c) stem"

definition future_match :: "string \<Rightarrow> string option" where
  "future_match s =
     (case rev s of
        y # m # rst \<Rightarrow>
          if is_digit y \<and> m \<in> set FUTURE_MONTH_CODES \<and> future_root_ok (rev rst) then Some (rev rst)
          else (case rst of
                  m' # rst' \<Rightarrow>
                    if is_digit y \<and> is_digit m \<and> m' \<in> set FUTURE_MONTH_CODES \<and> future_root_ok (rev rst')
                    then Some (rev rst') else None
                | [] \<Rightarrow> None)
      | _ \<Rightarrow> None)"

definition occ_error :: "string \<Rightarrow> string" where
  "occ_error vendor_symbol = ''unrecognized OCC option symbol: '' @ py_repr vendor_symbol"

definition future_error :: "string \<Rightarrow> string" where
  "future_error vendor_symbol = ''unrecognized future symbol: '' @ py_repr vendor_symbol"

text \<open>The messages of the three range errors of \<open>date(y, m, d)\<close> are one here.\<close>

definition date_error :: string where
  "date_error = ''day is out of range for month''"

definition option_from_vendor :: "string \<Rightarrow> index_roots \<Rightarrow> string + canonical_symbol" where
  "option_from_vendor vendor_symbol index_option_roots =
     (case occ_match (py_strip vendor_symbol) of
        None \<Rightarrow> Inl (occ_error vendor_symbol)
      | Some (stem, yy, mm, dd, cp, mills) \<Rightarrow>
          (case make_date (2000 + int yy) mm (int dd) of
             None \<Rightarrow> Inl date_error
           | Some expiry \<Rightarrow>
               Inr \<lparr> cs_product_type = (if is_index_root stem index_option_roots then ''OI'' else ''OS''),
                     cs_underlying = stem, cs_expiry = Some expiry,
                     cs_strike = Some (of_nat mills / 1000), cs_option_type = Some cp \<rparr>))"

definition future_from_vendor :: "string \<Rightarrow> string + canonical_symbol" where
  "future_from_vendor vendor_symbol =
     (case future_match (dropWhile (\<lambda>c. c = CHR ''/'') (py_strip vendor_symbol)) of
        None \<Rightarrow> Inl (future_error vendor_symbol)
      | Some stem \<Rightarrow> Inr (plain_symbol ''F'' (CHR ''/'' # stem)))"

definition from_vendor :: "string \<Rightarrow> string option \<Rightarrow> index_roots \<Rightarrow> string + canonical_symbol" where
  "from_vendor vendor_symbol instrument_type index_option_roots =
     (let it = py_lower (py_strip (str0 instrument_type)); symbol = py_strip vendor_symbol in
      if it = ''equity'' then Inr (plain_symbol ''S'' symbol)
      else if it = ''index'' then Inr (plain_symbol ''I'' symbol)
      else if it = ''cryptocurrency'' \<or> it = ''crypto'' then Inr (plain_symbol ''CR'' symbol)
      else if it = ''equity option'' then option_from_vendor vendor_symbol index_option_roots
      else if it = ''future'' then future_from_vendor vendor_symbol
      else Inr (plain_symbol (if it = ''future option'' then ''OF'' else it) symbol))"

definition canonical_resolver :: "index_roots \<Rightarrow> resolver" where
  "canonical_resolver index_option_roots vendor_symbol instrument_type =
     (case from_vendor vendor_symbol instrument_type index_option_roots of
        Inl msg \<Rightarrow> Inl msg
      | Inr cs \<Rightarrow>
          Inr \<lparr> rs_security_id = canonical_string cs, rs_product_type = Some (cs_product_type cs),
                rs_underlying = Some (cs_underlying cs), rs_expiry = cs_expiry cs,
                rs_strike = cs_strike cs, rs_option_type = cs_option_type cs, rs_multiplier = None \<rparr>)"

section \<open>Digits\<close>

lemma of_char_digit [simp]: "n < 10 \<Longrightarrow> of_char (digit_char n) = (48 + n :: nat)"
  by (simp add: digit_char_def)

lemma is_digit_digit_char [simp]: "n < 10 \<Longrightarrow> is_digit (digit_char n)"
  by (simp add: is_digit_def)

lemma digits_value_Nil [simp]: "digits_value [] = 0"
  by (simp add: digits_value_def)

lemma digits_value_snoc [simp]: "digits_value (s @ [c]) = digits_value s * 10 + (of_char c - 48)"
  by (simp add: digits_value_def)

lemma length_pad_nat [simp]: "length (pad_nat w n) = w"
  by (induction w n rule: pad_nat.induct) simp_all

lemma pad_nat_digits [simp]: "list_all is_digit (pad_nat w n)"
  by (induction w n rule: pad_nat.induct) simp_all

lemma digits_value_pad [simp]: "digits_value (pad_nat w n) = n mod 10 ^ w"
proof (induction w n rule: pad_nat.induct)
  case (2 w n)
  have "n div 10 mod 10 ^ w * 10 + n mod 10 = n mod (10 * 10 ^ w)"
    by (simp add: mod_mult2_eq)
  with 2 show ?case by simp
qed simp

lemma show_nat_digits: "list_all is_digit (show_nat n)"
proof (induction n rule: show_nat.induct)
  case (1 n)
  then show ?case
    by (subst show_nat.simps) (simp add: digit_char_def [symmetric])
qed

lemma digits_value_show_nat [simp]: "digits_value (show_nat n) = n"
proof (induction n rule: show_nat.induct)
  case (1 n)
  show ?case
  proof (cases "n < 10")
    case True
    then show ?thesis
      using digits_value_snoc [of "[]" "digit_char n"] by (subst show_nat.simps) (simp add: digit_char_def [symmetric])
  next
    case False
    with 1 show ?thesis
      by (subst show_nat.simps) (simp add: digit_char_def [symmetric])
  qed
qed

lemma not_digit: "\<not> is_digit (CHR ''.'')" "\<not> is_digit (CHR ''|'')" "\<not> is_digit (CHR ''-'')"
  by (simp_all add: is_digit_def)

lemma digits_avoid: "list_all is_digit s \<Longrightarrow> \<not> is_digit c \<Longrightarrow> c \<notin> set s"
  by (auto simp: list_all_iff)

section \<open>Strikes\<close>

text \<open>The value a printed strike stands for.\<close>

fun fraction_value :: "string \<Rightarrow> decimal" where
  "fraction_value [] = 0"
| "fraction_value (c # s) = (of_nat (of_char c - 48) + fraction_value s) / 10"

definition strike_value :: "string \<Rightarrow> decimal" where
  "strike_value s =
     of_nat (digits_value (takeWhile (\<lambda>c. c \<noteq> CHR ''.'') s))
       + fraction_value (drop 1 (dropWhile (\<lambda>c. c \<noteq> CHR ''.'') s))"

lemma fraction_value_digits:
  assumes "0 \<le> q" "q < 1" "q * 10 ^ k \<in> \<int>"
  shows "fraction_value (fraction_digits k q) = q \<and> list_all is_digit (fraction_digits k q)"
  using assms
proof (induction k arbitrary: q)
  case 0
  then obtain n where n: "q = of_int n" by (auto elim: Ints_cases)
  with 0 have "n = 0" by simp
  with n show ?case by simp
next
  case (Suc k)
  define d where "d = \<lfloor>q * 10\<rfloor>"
  have d: "0 \<le> d" "d < 10" using Suc.prems by (simp_all add: d_def floor_less_iff)
  have r: "0 \<le> q * 10 - of_int d" "q * 10 - of_int d < 1"
    using floor_correct [of "q * 10"] by (simp_all add: d_def)
  have "(q * 10 - of_int d) * 10 ^ k = q * 10 ^ Suc k - of_int (d * 10 ^ k)"
    by (simp add: left_diff_distrib)
  then have "(q * 10 - of_int d) * 10 ^ k \<in> \<int>"
    using Suc.prems(3) by (metis Ints_diff Ints_of_int)
  note IH = Suc.IH [OF r this]
  have "nat d < 10" using d by simp
  moreover have "of_nat (nat d) = (of_int d :: rat)" using d by simp
  ultimately show ?case
    using IH by (simp add: Let_def d_def [symmetric])
qed

lemma strike_round_trip:
  assumes "0 \<le> q" "decimal_places 28 q"
  shows "strike_value (format_strike q) = q"
proof -
  define n where "n = \<lfloor>q\<rfloor>"
  define f where "f = fraction_digits 28 (q - of_int n)"
  have n: "0 \<le> n" using assms by (simp add: n_def)
  have "0 \<le> q - of_int n" "q - of_int n < 1" using floor_correct [of q] by (simp_all add: n_def)
  with assms decimal_places_floor [of 28 q n] have f: "fraction_value f = q - of_int n" "list_all is_digit f"
    using fraction_value_digits [of "q - of_int n" 28] by (simp_all add: f_def decimal_places_def)
  have q: "format_strike q = show_nat (nat n) @ (if f = [] then [] else CHR ''.'' # f)"
    using assms by (simp add: format_strike_def n_def [symmetric] f_def Let_def)
  have clean: "CHR ''.'' \<notin> set (show_nat (nat n))"
    by (intro digits_avoid [OF show_nat_digits] not_digit)
  have int: "of_nat (nat n) = (of_int n :: rat)" using n by simp
  have all: "\<forall>c \<in> set (show_nat (nat n)). c \<noteq> CHR ''.''" using clean by metis
  show ?thesis
  proof (cases "f = []")
    case True
    then have "format_strike q = show_nat (nat n)" "q = of_int n" using q f by simp_all
    then show ?thesis using all int by (simp add: strike_value_def takeWhile_eq_all_conv [THEN iffD2] dropWhile_eq_Nil_conv [THEN iffD2])
  next
    case False
    then have "format_strike q = show_nat (nat n) @ CHR ''.'' # f" using q by simp
    then show ?thesis using all int f by (simp add: strike_value_def takeWhile_append2 dropWhile_append2)
  qed
qed

lemma format_strike_no_bar: "0 \<le> q \<Longrightarrow> decimal_places 28 q \<Longrightarrow> CHR ''|'' \<notin> set (format_strike q)"
proof -
  assume q: "0 \<le> q" "decimal_places 28 q"
  have "0 \<le> q - of_int \<lfloor>q\<rfloor>" "q - of_int \<lfloor>q\<rfloor> < 1" using floor_correct [of q] by simp_all
  then have "list_all is_digit (fraction_digits 28 (q - of_int \<lfloor>q\<rfloor>))"
    using fraction_value_digits [of "q - of_int \<lfloor>q\<rfloor>" 28] decimal_places_floor [OF q(2)]
    by (simp add: decimal_places_def)
  then show ?thesis
    using q digits_avoid [OF _ not_digit(2)] show_nat_digits
    by (auto simp: format_strike_def Let_def)
qed

section \<open>Canonical strings name one contract\<close>

lemma bar_split:
  assumes "CHR ''|'' \<notin> set a" "CHR ''|'' \<notin> set a'" "a @ CHR ''|'' # b = a' @ CHR ''|'' # b'"
  shows "a = a' \<and> b = b'"
proof -
  have tw: "takeWhile (\<lambda>c. c \<noteq> CHR ''|'') (x @ CHR ''|'' # y) = x" if "CHR ''|'' \<notin> set x" for x y
    using that by (induction x) auto
  show ?thesis using tw [OF assms(1), of b] tw [OF assms(2), of b'] assms(3) by auto
qed

lemma pad_nat_inj: "n < 10 ^ w \<Longrightarrow> n' < 10 ^ w \<Longrightarrow> pad_nat w n = pad_nat w n' \<Longrightarrow> n = n'"
  by (metis digits_value_pad mod_less)

text \<open>The parser constructs dates of the years 2000 to 2099 only.\<close>

definition two_digit_date :: "date \<Rightarrow> bool" where
  "two_digit_date t \<longleftrightarrow> (\<exists>yy m d. yy < 100 \<and> make_date (2000 + int yy) m (int d) = Some t)"

lemma strftime_of_make_date:
  "make_date (2000 + int yy) m (int d) = Some t
    \<Longrightarrow> strftime_ymd t = pad_nat 4 (2000 + yy) @ pad_nat 2 m @ pad_nat 2 d"
  by (simp add: strftime_ymd_def civil_of_make_date nat_add_distrib)

lemma make_date_bounds: "make_date y m d = Some t \<Longrightarrow> m < 100 \<and> d < 100 \<and> 1 \<le> m \<and> 1 \<le> d"
  by (auto simp: make_date_def valid_date_def days_in_month_def split: if_splits)

lemma strftime_inj:
  assumes "two_digit_date t" "two_digit_date t'" "strftime_ymd t = strftime_ymd t'"
  shows "t = t'"
proof -
  obtain y m d where 1: "y < 100" "make_date (2000 + int y) m (int d) = Some t"
    using assms(1) by (auto simp: two_digit_date_def)
  obtain y' m' d' where 2: "y' < 100" "make_date (2000 + int y') m' (int d') = Some t'"
    using assms(2) by (auto simp: two_digit_date_def)
  have eq: "pad_nat 4 (2000 + y) = pad_nat 4 (2000 + y')" "pad_nat 2 m = pad_nat 2 m'" "pad_nat 2 d = pad_nat 2 d'"
    using assms(3) strftime_of_make_date [OF 1(2)] strftime_of_make_date [OF 2(2)] by simp_all
  have "2000 + y = 2000 + y'" by (rule pad_nat_inj [OF _ _ eq(1)]) (use 1 2 in simp_all)
  moreover have "m = m'" by (rule pad_nat_inj [OF _ _ eq(2)]) (use make_date_bounds [OF 1(2)] make_date_bounds [OF 2(2)] in simp_all)
  moreover have "d = d'" by (rule pad_nat_inj [OF _ _ eq(3)]) (use make_date_bounds [OF 1(2)] make_date_bounds [OF 2(2)] in simp_all)
  ultimately show ?thesis using 1 2 by simp
qed

lemma strftime_no_bar: "two_digit_date t \<Longrightarrow> CHR ''|'' \<notin> set (strftime_ymd t)"
  by (auto simp: two_digit_date_def strftime_of_make_date dest!: digits_avoid [OF pad_nat_digits not_digit(2), THEN notE, rotated])

text \<open>What the option parser returns.\<close>

definition option_symbol_ok :: "canonical_symbol \<Rightarrow> bool" where
  "option_symbol_ok cs \<longleftrightarrow>
     cs_product_type cs \<in> {''OS'', ''OI''} \<and> occ_root (cs_underlying cs)
   \<and> (\<exists>t k. cs_expiry cs = Some t \<and> two_digit_date t \<and> cs_strike cs = Some k \<and> 0 \<le> k \<and> decimal_places 3 k)
   \<and> (cs_option_type cs = Some ''C'' \<or> cs_option_type cs = Some ''P'')"

lemma foldl_digits_less: "foldl (\<lambda>v c. v * 10 + (of_char c - 48)) v s < (v + 1) * 10 ^ length s" if "list_all is_digit s" for v :: nat
  using that
proof (induction s arbitrary: v)
  case (Cons c s)
  have "of_char c - 48 \<le> (9::nat)" using Cons.prems by (auto simp: is_digit_def Let_def)
  then have "(v * 10 + (of_char c - 48) + 1) * 10 ^ length s \<le> ((v + 1) * 10) * 10 ^ length s"
    by (intro mult_right_mono) simp_all
  with Cons.IH [of "v * 10 + (of_char c - 48)"] Cons.prems show ?case by (simp add: algebra_simps)
qed simp

lemma digits_value_less: "list_all is_digit s \<Longrightarrow> digits_value s < 10 ^ length s"
  using foldl_digits_less [of s 0] by (simp add: digits_value_def)

lemma occ_match_props:
  assumes "occ_match s = Some (stem, yy, mm, dd, cp, mills)"
  shows "occ_root stem \<and> yy < 100 \<and> cp \<in> {''C'', ''P''}"
proof -
  let ?b = "drop (length s - 15) s"
  have len: "15 \<le> length s" and d: "list_all is_digit (take 6 ?b)" and yy: "yy = digits_value (take 2 (take 6 ?b))"
    and rest: "occ_root stem" "cp \<in> {''C'', ''P''}"
    using assms by (auto simp: occ_match_def Let_def split: if_splits)
  have "list_all is_digit (take 2 (take 6 ?b))" using d by (metis list_all_append append_take_drop_id)
  then have "yy < 10 ^ length (take 2 (take 6 ?b))" using digits_value_less yy by blast
  with len rest show ?thesis by simp
qed

lemma option_from_vendor_ok:
  assumes "option_from_vendor v idx = Inr cs"
  shows "option_symbol_ok cs"
proof -
  obtain stem yy mm dd cp mills e where m: "occ_match (py_strip v) = Some (stem, yy, mm, dd, cp, mills)"
    and e: "make_date (2000 + int yy) mm (int dd) = Some e"
    and cs: "cs = \<lparr> cs_product_type = (if is_index_root stem idx then ''OI'' else ''OS''),
                     cs_underlying = stem, cs_expiry = Some e,
                     cs_strike = Some (of_nat mills / 1000), cs_option_type = Some cp \<rparr>"
    using assms by (auto simp: option_from_vendor_def split: option.splits)
  have "two_digit_date e" using occ_match_props [OF m] e by (auto simp: two_digit_date_def)
  moreover have "decimal_places 3 (of_nat mills / 1000)" by (simp add: decimal_places_def)
  ultimately show ?thesis
    using occ_match_props [OF m] unfolding option_symbol_ok_def cs
    by (intro conjI exI [of _ e] exI [of _ "of_nat mills / 1000"]) auto
qed

lemma upper_or_digit_no_bar: "occ_root stem \<Longrightarrow> CHR ''|'' \<notin> set stem"
  by (cases stem) (auto simp: occ_root_def is_upper_char_def is_digit_def)

lemma option_symbol_okE:
  assumes "option_symbol_ok a"
  obtains t k cp where "cs_expiry a = Some t" "two_digit_date t" "cs_strike a = Some k" "0 \<le> k"
    "decimal_places 28 k" "cs_option_type a = Some cp" "CHR ''|'' \<notin> set (cs_underlying a)"
    "CHR ''|'' \<notin> set (cs_product_type a)"
proof -
  obtain t k where tk: "cs_expiry a = Some t" "two_digit_date t" "cs_strike a = Some k" "0 \<le> k" "decimal_places 3 k"
    using assms unfolding option_symbol_ok_def by blast
  moreover have "decimal_places 28 k" by (rule decimal_places_mono [OF tk(5)]) simp
  moreover obtain cp where "cs_option_type a = Some cp" using assms unfolding option_symbol_ok_def by blast
  moreover have "CHR ''|'' \<notin> set (cs_underlying a)"
    using assms by (simp add: option_symbol_ok_def upper_or_digit_no_bar)
  moreover have "CHR ''|'' \<notin> set (cs_product_type a)"
    using assms by (auto simp: option_symbol_ok_def)
  ultimately show ?thesis using that by blast
qed

lemma canonical_string_inj:
  assumes "option_symbol_ok a" "option_symbol_ok b" "canonical_string a = canonical_string b"
  shows "a = b"
proof -
  obtain t k cp where a: "cs_expiry a = Some t" "two_digit_date t" "cs_strike a = Some k" "0 \<le> k"
    "decimal_places 28 k" "cs_option_type a = Some cp" "CHR ''|'' \<notin> set (cs_underlying a)"
    "CHR ''|'' \<notin> set (cs_product_type a)"
    by (rule option_symbol_okE [OF assms(1)])
  obtain t' k' cp' where b: "cs_expiry b = Some t'" "two_digit_date t'" "cs_strike b = Some k'" "0 \<le> k'"
    "decimal_places 28 k'" "cs_option_type b = Some cp'" "CHR ''|'' \<notin> set (cs_underlying b)"
    "CHR ''|'' \<notin> set (cs_product_type b)"
    by (rule option_symbol_okE [OF assms(2)])
  let ?bar = "CHR ''|''"
  have "cs_product_type a @ ?bar # cs_underlying a @ ?bar # strftime_ymd t @ ?bar # format_strike k @ ?bar # cp
      = cs_product_type b @ ?bar # cs_underlying b @ ?bar # strftime_ymd t' @ ?bar # format_strike k' @ ?bar # cp'"
    using assms(3) a b by (simp add: canonical_string_def)
  from bar_split [OF a(8) b(8) this] have 1: "cs_product_type a = cs_product_type b"
    and "cs_underlying a @ ?bar # strftime_ymd t @ ?bar # format_strike k @ ?bar # cp
       = cs_underlying b @ ?bar # strftime_ymd t' @ ?bar # format_strike k' @ ?bar # cp'" by blast+
  from bar_split [OF a(7) b(7) this(2)] have 2: "cs_underlying a = cs_underlying b"
    and "strftime_ymd t @ ?bar # format_strike k @ ?bar # cp = strftime_ymd t' @ ?bar # format_strike k' @ ?bar # cp'"
    by blast+
  from bar_split [OF strftime_no_bar [OF a(2)] strftime_no_bar [OF b(2)] this(2)]
  have 3: "strftime_ymd t = strftime_ymd t'" and "format_strike k @ ?bar # cp = format_strike k' @ ?bar # cp'"
    by blast+
  from bar_split [OF format_strike_no_bar [OF a(4,5)] format_strike_no_bar [OF b(4,5)] this(2)]
  have 4: "format_strike k = format_strike k'" "cp = cp'" by blast+
  note eqs = 1 2 3 4
  have "t = t'" by (rule strftime_inj [OF a(2) b(2) 3])
  moreover have "k = k'"
    using strike_round_trip [OF a(4,5)] strike_round_trip [OF b(4,5)] 4(1) by metis
  ultimately show ?thesis
    using a(1,3,6) b(1,3,6) 1 2 4(2) by (intro canonical_symbol.equality) simp_all
qed

text \<open>The vendor's spelling of an option, as the OCC standard lays it out.\<close>

definition occ_symbol :: "string \<Rightarrow> nat \<Rightarrow> nat \<Rightarrow> nat \<Rightarrow> char \<Rightarrow> nat \<Rightarrow> string" where
  "occ_symbol stem yy mm dd cp mills =
     stem @ replicate (6 - length stem) (CHR '' '') @ pad_nat 2 yy @ pad_nat 2 mm @ pad_nat 2 dd @ cp # pad_nat 8 mills"

lemma digit_not_space: "is_digit c \<Longrightarrow> \<not> py_space c"
  by (auto simp: is_digit_def py_space_def Let_def)

lemma occ_root_no_space: "occ_root stem \<Longrightarrow> c \<in> set stem \<Longrightarrow> \<not> py_space c"
  by (cases stem) (auto simp: occ_root_def is_upper_char_def is_digit_def py_space_def Let_def)

lemma py_strip_id: "s \<noteq> [] \<Longrightarrow> \<not> py_space (hd s) \<Longrightarrow> \<not> py_space (last s) \<Longrightarrow> py_strip s = s"
proof -
  assume "s \<noteq> []" "\<not> py_space (hd s)" "\<not> py_space (last s)"
  moreover from this have "dropWhile py_space s = s" by (cases s) simp_all
  moreover have "dropWhile py_space (rev s) = rev s"
    using calculation by (cases s rule: rev_cases) simp_all
  ultimately show ?thesis by (simp add: py_strip_def py_lstrip_def py_rstrip_def)
qed

lemma occ_match_occ_symbol:
  assumes "occ_root stem" "cp \<in> {CHR ''C'', CHR ''P''}" "yy < 100" "mm < 100" "dd < 100" "mills < 10 ^ 8"
  shows "occ_match (occ_symbol stem yy mm dd cp mills) = Some (stem, yy, mm, dd, [cp], mills)"
proof -
  let ?front = "stem @ replicate (6 - length stem) (CHR '' '')"
  let ?suffix = "pad_nat 2 yy @ pad_nat 2 mm @ pad_nat 2 dd @ cp # pad_nat 8 mills"
  have s: "occ_symbol stem yy mm dd cp mills = ?front @ ?suffix" by (simp add: occ_symbol_def)
  have len: "length ?suffix = 15" by simp
  have front: "take (length (?front @ ?suffix) - 15) (?front @ ?suffix) = ?front"
    and behind: "drop (length (?front @ ?suffix) - 15) (?front @ ?suffix) = ?suffix"
    using len by (simp_all only: length_append add_diff_cancel_right' take_append drop_append) simp_all
  have tw: "takeWhile (\<lambda>c. \<not> py_space c) ?front = stem"
  proof -
    have "takeWhile (\<lambda>c. \<not> py_space c) (replicate n (CHR '' '')) = []" for n
      by (cases n) (simp_all add: py_space_def)
    then show ?thesis using occ_root_no_space [OF assms(1)] by (simp add: takeWhile_append2)
  qed
  have sp: "list_all py_space (replicate n (CHR '' ''))" for n
    by (auto simp: list_all_iff py_space_def)
  have "take 6 ?suffix = pad_nat 2 yy @ pad_nat 2 mm @ pad_nat 2 dd" by simp
  moreover have "?suffix ! 6 = cp" by (simp add: nth_append)
  moreover have "drop 7 ?suffix = pad_nat 8 mills" by simp
  ultimately show ?thesis
    using assms len sp unfolding occ_match_def s front behind tw Let_def by (simp add: tw)
qed

lemma py_strip_occ_symbol:
  assumes "occ_root stem"
  shows "py_strip (occ_symbol stem yy mm dd cp mills) = occ_symbol stem yy mm dd cp mills"
proof (rule py_strip_id)
  have "stem \<noteq> []" using assms by (simp add: occ_root_def)
  then show "occ_symbol stem yy mm dd cp mills \<noteq> []" by (simp add: occ_symbol_def)
  show "\<not> py_space (hd (occ_symbol stem yy mm dd cp mills))"
    using occ_root_no_space [OF assms] \<open>stem \<noteq> []\<close> by (simp add: occ_symbol_def)
  have p: "pad_nat 8 mills \<noteq> []" using length_pad_nat [of 8 mills] by (metis length_greater_0_conv zero_less_numeral)
  then have "is_digit (last (pad_nat 8 mills))" using pad_nat_digits [of 8 mills] by (simp add: list_all_iff)
  then show "\<not> py_space (last (occ_symbol stem yy mm dd cp mills))"
    using digit_not_space p by (simp add: occ_symbol_def)
qed

definition option_id :: "string \<Rightarrow> string \<Rightarrow> nat \<Rightarrow> nat \<Rightarrow> nat \<Rightarrow> char \<Rightarrow> nat \<Rightarrow> string" where
  "option_id product stem yy mm dd cp mills =
     pipe_join [product, stem, pad_nat 4 (2000 + yy) @ pad_nat 2 mm @ pad_nat 2 dd,
                format_strike (of_nat mills / 1000), [cp]]"

definition option_security :: "index_roots \<Rightarrow> string \<Rightarrow> nat \<Rightarrow> nat \<Rightarrow> nat \<Rightarrow> char \<Rightarrow> nat \<Rightarrow> date \<Rightarrow> resolved_security" where
  "option_security idx stem yy mm dd cp mills expiry =
     (let product = (if is_index_root stem idx then ''OI'' else ''OS'') in
      \<lparr> rs_security_id = option_id product stem yy mm dd cp mills, rs_product_type = Some product,
        rs_underlying = Some stem, rs_expiry = Some expiry, rs_strike = Some (of_nat mills / 1000),
        rs_option_type = Some [cp], rs_multiplier = None \<rparr>)"

lemma canonical_resolver_of_match:
  assumes "occ_match (py_strip v) = Some (stem, yy, mm, dd, [cp], mills)"
    and "make_date (2000 + int yy) mm (int dd) = Some e"
  shows "canonical_resolver idx v (Some ''Equity Option'') = Inr (option_security idx stem yy mm dd cp mills e)"
proof -
  have it: "py_lower (py_strip ''Equity Option'') = ''equity option''" by code_simp
  show ?thesis
    using assms
    by (simp add: canonical_resolver_def from_vendor_def it option_from_vendor_def option_security_def
        Let_def canonical_string_def option_id_def strftime_of_make_date [OF assms(2)])
qed

lemma example_expiry: "make_date (2000 + int 26) 6 (int 19) = Some 20623"
  by (simp add: make_date_def valid_date_def days_before_year_def days_before_month_def
      days_in_month_def is_leap_def upt_rec)

text \<open>
  C32 (roundtrip). An option symbol spelled as the OCC standard lays it out is read back exactly: for
  every root, valid expiry of the years 2000 to 2099, type and strike in mills, the canonical
  resolver recovers the expiry, the strike and the type, and prints the security id from them.
\<close>

theorem option_symbol_round_trip:
  assumes "occ_root stem" "cp \<in> {CHR ''C'', CHR ''P''}" "yy < 100"
    and "make_date (2000 + int yy) mm (int dd) = Some e" "mills < 10 ^ 8"
  shows "canonical_resolver idx (occ_symbol stem yy mm dd cp mills) (Some ''Equity Option'') =
           Inr (option_security idx stem yy mm dd cp mills e)"
proof -
  have "mm < 100" "dd < 100" using make_date_bounds [OF assms(4)] by simp_all
  then have "occ_match (py_strip (occ_symbol stem yy mm dd cp mills)) = Some (stem, yy, mm, dd, [cp], mills)"
    using occ_match_occ_symbol assms by (simp add: py_strip_occ_symbol)
  from canonical_resolver_of_match [OF this assms(4)] show ?thesis .
qed

theorem option_symbol_round_trip_witness:
  "canonical_resolver [(''SPX'', [''SPXW''])] (occ_symbol ''SPXW'' 26 6 19 (CHR ''P'') 2500) (Some ''Equity Option'')
     = Inr (option_security [(''SPX'', [''SPXW''])] ''SPXW'' 26 6 19 (CHR ''P'') 2500 20623)
   \<and> format_strike (2500 / 1000) = ''2.5''"
proof
  have "occ_root ''SPXW''" by code_simp
  then show "canonical_resolver [(''SPX'', [''SPXW''])] (occ_symbol ''SPXW'' 26 6 19 (CHR ''P'') 2500)
      (Some ''Equity Option'') = Inr (option_security [(''SPX'', [''SPXW''])] ''SPXW'' 26 6 19 (CHR ''P'') 2500 20623)"
    by (rule option_symbol_round_trip) (use example_expiry in simp_all)
  show "format_strike (2500 / 1000) = ''2.5''" by code_simp
qed

lemma canonical_resolver_option:
  assumes "canonical_resolver idx v (Some ''Equity Option'') = Inr a"
  obtains cs where "option_symbol_ok cs" "rs_security_id a = canonical_string cs"
    "a = \<lparr> rs_security_id = canonical_string cs, rs_product_type = Some (cs_product_type cs),
                rs_underlying = Some (cs_underlying cs), rs_expiry = cs_expiry cs,
                rs_strike = cs_strike cs, rs_option_type = cs_option_type cs, rs_multiplier = None \<rparr>"
proof -
  have "py_lower (py_strip ''Equity Option'') = ''equity option''" by code_simp
  with assms obtain cs where "option_from_vendor v idx = Inr cs"
    "a = \<lparr> rs_security_id = canonical_string cs, rs_product_type = Some (cs_product_type cs),
                rs_underlying = Some (cs_underlying cs), rs_expiry = cs_expiry cs,
                rs_strike = cs_strike cs, rs_option_type = cs_option_type cs, rs_multiplier = None \<rparr>"
    by (auto simp: canonical_resolver_def from_vendor_def split: sum.splits)
  from that [OF option_from_vendor_ok [OF this(1)] _ this(2)] this(2) show ?thesis by simp
qed

text \<open>
  A canonical option id names one contract: two vendor symbols, however spelled, that
  the canonical resolver gives the same security id are the same underlying, expiry, strike and
  type, so no two contracts ever share a position row.
\<close>

theorem option_ids_name_one_contract:
  assumes "canonical_resolver idx v (Some ''Equity Option'') = Inr a"
    and "canonical_resolver idx w (Some ''Equity Option'') = Inr b"
    and "rs_security_id a = rs_security_id b"
  shows "a = b"
proof -
  obtain cs where 1: "option_symbol_ok cs" "rs_security_id a = canonical_string cs"
    "a = \<lparr> rs_security_id = canonical_string cs, rs_product_type = Some (cs_product_type cs),
                rs_underlying = Some (cs_underlying cs), rs_expiry = cs_expiry cs,
                rs_strike = cs_strike cs, rs_option_type = cs_option_type cs, rs_multiplier = None \<rparr>"
    by (rule canonical_resolver_option [OF assms(1)])
  obtain cs' where 2: "option_symbol_ok cs'" "rs_security_id b = canonical_string cs'"
    "b = \<lparr> rs_security_id = canonical_string cs', rs_product_type = Some (cs_product_type cs'),
                rs_underlying = Some (cs_underlying cs'), rs_expiry = cs_expiry cs',
                rs_strike = cs_strike cs', rs_option_type = cs_option_type cs', rs_multiplier = None \<rparr>"
    by (rule canonical_resolver_option [OF assms(2)])
  have "cs = cs'" using assms(3) 1(2) 2(2) by (intro canonical_string_inj 1 2) simp
  with 1(3) 2(3) show ?thesis by simp
qed

lemma py_strip_space: "s \<noteq> [] \<Longrightarrow> \<not> py_space (hd s) \<Longrightarrow> py_strip (s @ '' '') = py_strip s"
  by (cases s) (simp_all add: py_strip_def py_lstrip_def py_rstrip_def py_space_def)

theorem option_ids_name_one_contract_witness:
  "let v = occ_symbol ''AAPL'' 26 6 19 (CHR ''C'') 150000
   in canonical_resolver [] v (Some ''Equity Option'') = canonical_resolver [] (v @ '' '') (Some ''Equity Option'')"
proof -
  let ?v = "occ_symbol ''AAPL'' 26 6 19 (CHR ''C'') 150000"
  have "occ_root ''AAPL''" by code_simp
  then have m: "occ_match ?v = Some (''AAPL'', 26, 6, 19, ''C'', 150000)" and st: "py_strip ?v = ?v"
    by (auto intro: occ_match_occ_symbol py_strip_occ_symbol)
  have "py_strip (?v @ '' '') = ?v" using st by (subst py_strip_space) (simp_all add: occ_symbol_def py_space_def)
  then obtain a b where "canonical_resolver [] ?v (Some ''Equity Option'') = Inr a"
    "canonical_resolver [] (?v @ '' '') (Some ''Equity Option'') = Inr b" "rs_security_id a = rs_security_id b"
    using canonical_resolver_of_match [OF _ example_expiry] m st by simp
  from option_ids_name_one_contract [OF this] this show ?thesis by simp
qed

text \<open>
  C36 (functional). The canonical resolver does not tell the contract months of a future apart:
  whatever its month code and year, a future of a given root gets the one security id of the root,
  so a position in June and one in September are one security to the ledger.
\<close>

theorem future_months_share_an_id:
  assumes "future_root_ok stem" "m \<in> set FUTURE_MONTH_CODES" "is_digit y"
  shows "\<exists>res. canonical_resolver idx (CHR ''/'' # stem @ [m, y]) (Some ''Future'') = Inr res
      \<and> rs_security_id res = ''F|/'' @ stem \<and> rs_expiry res = None"
proof -
  have it: "py_lower (py_strip ''Future'') = ''future''" by code_simp
  have "py_strip (CHR ''/'' # stem @ [m, y]) = CHR ''/'' # stem @ [m, y]"
    using digit_not_space [OF assms(3)] by (intro py_strip_id) (simp_all add: py_space_def)
  moreover have "dropWhile (\<lambda>c. c = CHR ''/'') (stem @ [m, y]) = stem @ [m, y]"
    using assms(1) by (cases stem) (auto simp: future_root_ok_def is_upper_char_def is_digit_def)
  ultimately show ?thesis
    using assms
    by (simp add: canonical_resolver_def from_vendor_def it future_from_vendor_def future_match_def
        plain_symbol_def canonical_string_def)
qed

theorem future_months_share_an_id_witness:
  "\<exists>res res'. canonical_resolver [] ''/ESM6'' (Some ''Future'') = Inr res
     \<and> canonical_resolver [] ''/ESU6'' (Some ''Future'') = Inr res'
     \<and> rs_security_id res = rs_security_id res'"
proof -
  have "future_root_ok ''ES''" "CHR ''M'' \<in> set FUTURE_MONTH_CODES" "CHR ''U'' \<in> set FUTURE_MONTH_CODES"
    "is_digit (CHR ''6'')" by code_simp+
  then show ?thesis
    using future_months_share_an_id [of "''ES''" "CHR ''M''" "CHR ''6''" "[]"]
      future_months_share_an_id [of "''ES''" "CHR ''U''" "CHR ''6''" "[]"] by auto
qed

end
