(* ===== verification/Accounts.thy ===== *)
theory Accounts
  imports Ledger_Prelude
begin

text \<open>
  \<^verbatim>\<open>tt_ledger/identity/accounts.py\<close>: the map between account nicknames, which is all the ledger
  stores, and the broker's account numbers. The parsed TOML document (\<^verbatim>\<open>_toml.load\<close>, a library)
  is the input: a table of sections in file order, of which the code reads the fields below.
  Loading can fail; each way is a constructor of \<open>config_error\<close>, and the lookups that raise
  \<open>KeyError\<close> return the text of the exception.
\<close>

section \<open>The configuration file\<close>

record account_meta =
  am_nickname :: "string option"
  am_env :: "string option"

record login_section =
  ls_accounts :: "(string, account_meta) dict option"
  ls_default :: "string option"
  ls_client_id :: "string option"
  ls_client_secret :: "string option"
  ls_refresh_token :: "string option"

datatype toml_entry = Section login_section | Scalar

datatype config_error =
    Missing_Login string
  | Missing_Key string
  | Not_A_Section string
  | Paper_Nickname string string string
  | Duplicate_Nicknames "string list"

type_synonym toml = "(string, toml_entry) dict"
type_synonym names = "(string, string) dict"

text \<open>\<open>d.update(e)\<close>.\<close>

definition dict_update :: "('k, 'v) dict \<Rightarrow> ('k, 'v) dict \<Rightarrow> ('k, 'v) dict" where
  "dict_update d e = foldl (\<lambda>d' (k, v). dict_set k v d') d e"

fun py_contains :: "string \<Rightarrow> string \<Rightarrow> bool" where
  "py_contains p [] \<longleftrightarrow> p = []"
| "py_contains p (c # s) \<longleftrightarrow> py_startswith (c # s) p \<or> py_contains p s"

definition env_of_meta :: "account_meta \<Rightarrow> string" where
  "env_of_meta meta = (case am_env meta of None \<Rightarrow> ''live'' | Some e \<Rightarrow> e)"

definition paper_ok :: "string \<Rightarrow> string \<Rightarrow> bool" where
  "paper_ok env nickname \<longleftrightarrow> env = ''paper'' \<longrightarrow> py_contains ''paper'' (py_lower nickname)"

fun parse_accounts :: "string \<Rightarrow> (string, account_meta) dict \<Rightarrow> names \<times> names \<Rightarrow> config_error + names \<times> names" where
  "parse_accounts login [] acc = Inr acc"
| "parse_accounts login ((account_number, meta) # items) (n2num, n2env) =
     (case am_nickname meta of
        None \<Rightarrow> Inl (Missing_Key ''nickname'')
      | Some nickname \<Rightarrow>
          let env = env_of_meta meta in
          if \<not> paper_ok env nickname then Inl (Paper_Nickname login account_number nickname)
          else parse_accounts login items (dict_set nickname account_number n2num, dict_set nickname env n2env))"

definition section_accounts :: "login_section \<Rightarrow> (string, account_meta) dict" where
  "section_accounts sec = (case ls_accounts sec of None \<Rightarrow> [] | Some d \<Rightarrow> d)"

definition parse_login_section :: "string \<Rightarrow> login_section \<Rightarrow> config_error + names \<times> names \<times> string option" where
  "parse_login_section login sec =
     (case parse_accounts login (section_accounts sec) ([], []) of
        Inl e \<Rightarrow> Inl e
      | Inr (n2num, n2env) \<Rightarrow> Inr (n2num, n2env, ls_default sec))"

section \<open>The mapper\<close>

record account_mapper =
  n2num :: names
  num2n :: names
  default_account :: "string option"
  mapper_login :: "string option"
  n2env :: names
  n2login :: names

definition mk_mapper ::
  "names \<Rightarrow> string option \<Rightarrow> string option \<Rightarrow> names option \<Rightarrow> names option \<Rightarrow> account_mapper" where
  "mk_mapper nickname_to_number dflt login nickname_to_env nickname_to_login =
     \<lparr> n2num = nickname_to_number,
       num2n = dict_update [] (map (\<lambda>(k, v). (v, k)) nickname_to_number),
       default_account = dflt, mapper_login = login,
       n2env = (case nickname_to_env of
                  Some (e # es) \<Rightarrow> e # es | _ \<Rightarrow> map (\<lambda>(n, _). (n, ''live'')) nickname_to_number),
       n2login = (case nickname_to_login of
                    Some (l # ls) \<Rightarrow> l # ls
                  | _ \<Rightarrow> (case login of None \<Rightarrow> [] | Some l \<Rightarrow> map (\<lambda>(n, _). (n, l)) nickname_to_number)) \<rparr>"

definition to_nickname :: "account_mapper \<Rightarrow> string \<Rightarrow> string + string" where
  "to_nickname m account_number =
     (case dict_get (num2n m) account_number of None \<Rightarrow> Inl (py_repr account_number) | Some n \<Rightarrow> Inr n)"

definition to_account_number :: "account_mapper \<Rightarrow> string \<Rightarrow> string + string" where
  "to_account_number m nickname =
     (case dict_get (n2num m) nickname of None \<Rightarrow> Inl (py_repr nickname) | Some a \<Rightarrow> Inr a)"

definition env_for :: "account_mapper \<Rightarrow> string \<Rightarrow> string" where
  "env_for m nickname = dict_get_or (n2env m) nickname ''live''"

definition login_for :: "account_mapper \<Rightarrow> string \<Rightarrow> string option" where
  "login_for m nickname = dict_get (n2login m) nickname"

definition list_nicknames :: "account_mapper \<Rightarrow> string option \<Rightarrow> string list" where
  "list_nicknames m env =
     filter (\<lambda>n. env = None \<or> dict_get (n2env m) n = env) (map fst (n2num m))"

definition default_nickname :: "account_mapper \<Rightarrow> string option" where
  "default_nickname m = (if str_true (default_account m) then dict_get (num2n m) (str0 (default_account m)) else None)"

section \<open>Loading\<close>

definition sections_of :: "toml \<Rightarrow> string option \<Rightarrow> config_error + (string \<times> login_section) list" where
  "sections_of data login =
     (case login of
        None \<Rightarrow> Inr (List.map_filter
           (\<lambda>(name, entry). case entry of
               Section sec \<Rightarrow> if ls_accounts sec = None then None else Some (name, sec) | Scalar \<Rightarrow> None) data)
      | Some l \<Rightarrow>
          (case dict_get data l of
             None \<Rightarrow> Inl (Missing_Login l)
           | Some Scalar \<Rightarrow> Inl (Not_A_Section l)
           | Some (Section sec) \<Rightarrow> Inr [(l, sec)]))"

type_synonym merged = "names \<times> names \<times> names \<times> string option"

fun merge_sections :: "(string \<times> login_section) list \<Rightarrow> merged \<Rightarrow> config_error + merged" where
  "merge_sections [] acc = Inr acc"
| "merge_sections ((name, sec) # secs) (nums, envs, logins, dflt) =
     (case parse_login_section name sec of
        Inl e \<Rightarrow> Inl e
      | Inr (s_nums, s_envs, s_default) \<Rightarrow>
          let overlap = filter (\<lambda>n. n \<in> fst ` set nums) (map fst s_nums) in
          if overlap \<noteq> [] then Inl (Duplicate_Nicknames (sort overlap))
          else merge_sections secs
                 (dict_update nums s_nums, dict_update envs s_envs,
                  dict_update logins (map (\<lambda>(n, _). (n, name)) s_nums),
                  if dflt = None then s_default else dflt))"

definition from_toml :: "toml \<Rightarrow> string option \<Rightarrow> config_error + account_mapper" where
  "from_toml data login =
     (case sections_of data login of
        Inl e \<Rightarrow> Inl e
      | Inr secs \<Rightarrow>
          (case merge_sections secs ([], [], [], None) of
             Inl e \<Rightarrow> Inl e
           | Inr (nums, envs, logins, dflt) \<Rightarrow>
               let resolved = (if login \<noteq> None then login else case secs of [(name, _)] \<Rightarrow> Some name | _ \<Rightarrow> None)
               in Inr (mk_mapper nums dflt resolved (Some envs) (Some logins))))"

record login_config =
  lc_login :: string
  lc_client_id :: string
  lc_client_secret :: string
  lc_refresh_token :: string
  lc_default_account :: "string option"
  lc_account_mapper :: account_mapper

definition required :: "string \<Rightarrow> 'a option \<Rightarrow> config_error + 'a" where
  "required key v = (case v of None \<Rightarrow> Inl (Missing_Key key) | Some x \<Rightarrow> Inr x)"

definition login_config_from_toml :: "string \<Rightarrow> toml \<Rightarrow> config_error + login_config" where
  "login_config_from_toml login data =
     (case dict_get data login of
        None \<Rightarrow> Inl (Missing_Login login)
      | Some Scalar \<Rightarrow> Inl (Not_A_Section login)
      | Some (Section sec) \<Rightarrow>
          (case (required ''client_id'' (ls_client_id sec), required ''client_secret'' (ls_client_secret sec),
                 required ''refresh_token'' (ls_refresh_token sec), from_toml data (Some login)) of
             (Inl e, _) \<Rightarrow> Inl e
           | (_, Inl e, _) \<Rightarrow> Inl e
           | (_, _, Inl e, _) \<Rightarrow> Inl e
           | (_, _, _, Inl e) \<Rightarrow> Inl e
           | (Inr cid, Inr secret, Inr token, Inr m) \<Rightarrow>
               Inr \<lparr> lc_login = login, lc_client_id = cid, lc_client_secret = secret,
                     lc_refresh_token = token, lc_default_account = ls_default sec,
                     lc_account_mapper = m \<rparr>))"

section \<open>Names are kept apart\<close>

lemma dict_update_snoc: "dict_update d (e @ [(k, v)]) = dict_set k v (dict_update d e)"
  by (simp add: dict_update_def)

lemma dict_update_fresh:
  "distinct (map fst e) \<Longrightarrow> fst ` set d \<inter> fst ` set e = {} \<Longrightarrow> dict_update d e = d @ e"
proof (induction e rule: rev_induct)
  case (snoc p e)
  obtain k v where p: "p = (k, v)" by (cases p)
  with snoc have "dict_update d e = d @ e" by auto
  moreover have "k \<notin> fst ` set (d @ e)" using snoc.prems p by auto
  ultimately show ?case using p dict_set_fresh [of k "d @ e" v] by (simp add: dict_update_snoc)
qed (simp add: dict_update_def)

lemma distinct_keys_dict_set: "distinct (map fst d) \<Longrightarrow> distinct (map fst (dict_set k v d))"
  by (simp add: distinct_update)

lemma values_dict_set: "snd ` set (dict_set k v d) \<subseteq> insert v (snd ` set d)"
  by (induction d) auto

lemma distinct_values_dict_set:
  "distinct (map snd d) \<Longrightarrow> v \<notin> snd ` set d \<Longrightarrow> distinct (map snd (dict_set k v d))"
proof (induction d)
  case (Cons p d)
  obtain k' v' where p: "p = (k', v')" by (cases p)
  then show ?case using Cons values_dict_set [of k v d] by auto
qed simp

text \<open>What the sections that were read list.\<close>

definition nicknames_of :: "(string, account_meta) dict \<Rightarrow> string set" where
  "nicknames_of items = {n. \<exists>(number, meta) \<in> set items. am_nickname meta = Some n}"

definition names_ok :: "names \<Rightarrow> names \<Rightarrow> bool" where
  "names_ok nums envs \<longleftrightarrow> distinct (map fst nums) \<and> map fst envs = map fst nums
     \<and> (\<forall>(n, env) \<in> set envs. paper_ok env n)"

lemma names_okD:
  "names_ok nums envs \<Longrightarrow> distinct (map fst nums)" "names_ok nums envs \<Longrightarrow> map fst envs = map fst nums"
  by (simp_all add: names_ok_def)

lemma dict_set_member: "(k', v') \<in> set (dict_set k v d) \<Longrightarrow> (k', v') = (k, v) \<or> (k', v') \<in> set d"
  by (induction d) (auto split: if_splits)

lemma names_ok_dict_set:
  "names_ok nums envs \<Longrightarrow> paper_ok env n \<Longrightarrow> names_ok (dict_set n number nums) (dict_set n env envs)"
  by (auto simp: names_ok_def distinct_update keys_dict_set dest!: dict_set_member
      intro: arg_cong [where f = set, of "map fst envs" "map fst nums"]) (metis (no_types) image_eqI list.set_map fst_conv)+

lemma parse_accounts_ok:
  "parse_accounts login items (nums, envs) = Inr (nums', envs') \<Longrightarrow> names_ok nums envs
    \<Longrightarrow> names_ok nums' envs'
     \<and> (distinct (map snd nums) \<longrightarrow> distinct (map fst items) \<longrightarrow> snd ` set nums \<inter> fst ` set items = {}
          \<longrightarrow> distinct (map snd nums'))
     \<and> snd ` set nums' \<subseteq> snd ` set nums \<union> fst ` set items
     \<and> fst ` set nums' = fst ` set nums \<union> nicknames_of items"
proof (induction items arbitrary: nums envs)
  case (Cons item items)
  obtain number meta where item: "item = (number, meta)" by (cases item)
  from Cons.prems item obtain n where n: "am_nickname meta = Some n" "paper_ok (env_of_meta meta) n"
    and rest: "parse_accounts login items (dict_set n number nums, dict_set n (env_of_meta meta) envs) = Inr (nums', envs')"
    by (auto simp: Let_def split: option.splits if_splits)
  have "names_ok (dict_set n number nums) (dict_set n (env_of_meta meta) envs)"
    using Cons.prems(2) n by (intro names_ok_dict_set)
  note IH = Cons.IH [OF rest this]
  have v: "snd ` set (dict_set n number nums) \<subseteq> insert number (snd ` set nums)" by (rule values_dict_set)
  have vals: "distinct (map snd (dict_set n number nums))"
       "snd ` set (dict_set n number nums) \<inter> fst ` set items = {}"
    if "distinct (map snd nums)" "distinct (map fst (item # items))" "snd ` set nums \<inter> fst ` set (item # items) = {}"
  proof -
    have *: "number \<notin> snd ` set nums" "number \<notin> fst ` set items" using that(2,3) item by auto
    then show "distinct (map snd (dict_set n number nums))"
      using that(1) by (intro distinct_values_dict_set)
    show "snd ` set (dict_set n number nums) \<inter> fst ` set items = {}"
    proof -
      have "fst ` set items \<subseteq> fst ` set (item # items)" by (simp add: subset_insertI)
      with that(3) have "snd ` set nums \<inter> fst ` set items = {}" by blast
      with v *(2) show ?thesis by blast
    qed
  qed
  have nick: "nicknames_of (item # items) = insert n (nicknames_of items)"
    using item n by (auto simp: nicknames_of_def)
  show ?case
  proof (intro conjI impI)
    show "names_ok nums' envs'" using IH by (rule conjunct1)
    show "distinct (map snd nums')"
      if "distinct (map snd nums)" "distinct (map fst (item # items))" "snd ` set nums \<inter> fst ` set (item # items) = {}"
      using IH vals [OF that] that(2) by simp
    show "snd ` set nums' \<subseteq> snd ` set nums \<union> fst ` set (item # items)"
    proof -
      have "snd ` set nums' \<subseteq> snd ` set (dict_set n number nums) \<union> fst ` set items" using IH by blast
      moreover have "fst ` set (item # items) = insert number (fst ` set items)" using item by simp
      ultimately show ?thesis using v by blast
    qed
    show "fst ` set nums' = fst ` set nums \<union> nicknames_of (item # items)"
      using IH by (simp add: nick dom_dict_set)
  qed
qed (auto simp: nicknames_of_def)

definition account_numbers :: "(string \<times> login_section) list \<Rightarrow> string list" where
  "account_numbers secs = concat (map (\<lambda>(_, sec). map fst (section_accounts sec)) secs)"

lemma map_fst_const: "map fst (map (\<lambda>(n, _). (n, c)) d) = map fst d"
  by (induction d) auto

lemma disjoint_join: "A \<inter> (C \<union> D) = {} \<Longrightarrow> C \<inter> D = {} \<Longrightarrow> B \<subseteq> C \<Longrightarrow> A \<inter> B = {} \<and> (A \<union> B) \<inter> D = {}"
  by blast

lemma merge_sections_ok:
  "merge_sections secs (nums, envs, logins, dflt) = Inr (nums', envs', logins', dflt')
    \<Longrightarrow> names_ok nums envs \<Longrightarrow> map fst logins = map fst nums
    \<Longrightarrow> names_ok nums' envs' \<and> map fst logins' = map fst nums'
     \<and> (distinct (map snd nums) \<longrightarrow> distinct (account_numbers secs)
          \<longrightarrow> snd ` set nums \<inter> set (account_numbers secs) = {} \<longrightarrow> distinct (map snd nums'))
     \<and> set logins' = set logins \<union> {(n, name). \<exists>sec. (name, sec) \<in> set secs \<and> n \<in> nicknames_of (section_accounts sec)}"
proof (induction secs arbitrary: nums envs logins dflt)
  case (Cons entry secs)
  obtain name sec where entry: "entry = (name, sec)" by (cases entry)
  obtain s_nums s_envs where p: "parse_accounts name (section_accounts sec) ([], []) = Inr (s_nums, s_envs)"
    and overlap: "filter (\<lambda>n. n \<in> fst ` set nums) (map fst s_nums) = []"
    and rest: "merge_sections secs (dict_update nums s_nums, dict_update envs s_envs,
                  dict_update logins (map (\<lambda>(n, _). (n, name)) s_nums),
                  if dflt = None then ls_default sec else dflt) = Inr (nums', envs', logins', dflt')"
    using Cons.prems(1) entry
    by (auto simp: parse_login_section_def Let_def split: sum.splits if_splits prod.splits)
  have "names_ok [] []" by (simp add: names_ok_def)
  note P = parse_accounts_ok [OF p this]
  have disj: "fst ` set nums \<inter> fst ` set s_nums = {}" 
    unfolding disjoint_iff using overlap by (metis (full_types) filter_empty_conv list.set_map)
  have s: "distinct (map fst s_nums)" "map fst s_envs = map fst s_nums"
    using P by (simp_all add: names_ok_def)
  have keys: "fst ` set s_envs = fst ` set s_nums" "fst ` set envs = fst ` set nums" "fst ` set logins = fst ` set nums"
    using s(2) names_okD(2) [OF Cons.prems(2)] Cons.prems(3) by (metis list.set_map)+
  have tag: "fst ` set (map (\<lambda>(n, _). (n, name)) s_nums) = fst ` set s_nums"
    by (metis list.set_map map_fst_const)
  have u: "dict_update nums s_nums = nums @ s_nums" "dict_update envs s_envs = envs @ s_envs"
    "dict_update logins (map (\<lambda>(n, _). (n, name)) s_nums) = logins @ map (\<lambda>(n, _). (n, name)) s_nums"
    by (rule dict_update_fresh; simp only: s keys disj tag map_fst_const)+
  have ok: "names_ok (nums @ s_nums) (envs @ s_envs)"
    using P Cons.prems(2) disj by (auto simp: names_ok_def)
  have fl: "map fst (logins @ map (\<lambda>(n, _). (n, name)) s_nums) = map fst (nums @ s_nums)"
    using Cons.prems(3) by (simp only: map_append map_fst_const)
  note IH = Cons.IH [OF rest [unfolded u] ok fl]
  have acc: "account_numbers (entry # secs) = map fst (section_accounts sec) @ account_numbers secs"
    by (simp add: account_numbers_def entry)
  have vals: "distinct (map snd (nums @ s_nums)) \<and> snd ` set (nums @ s_nums) \<inter> set (account_numbers secs) = {}"
    if "distinct (map snd nums)" "distinct (account_numbers (entry # secs))"
      "snd ` set nums \<inter> set (account_numbers (entry # secs)) = {}"
  proof -
    have "distinct (map fst (section_accounts sec))" using that(2) acc by simp
    then have d: "distinct (map snd s_nums)" and sub: "snd ` set s_nums \<subseteq> fst ` set (section_accounts sec)"
      using P by auto
    have "set (account_numbers (entry # secs)) = fst ` set (section_accounts sec) \<union> set (account_numbers secs)"
      by (simp add: acc)
    with that(3) have x: "snd ` set nums \<inter> (fst ` set (section_accounts sec) \<union> set (account_numbers secs)) = {}"
      by (simp only:)
    have y: "fst ` set (section_accounts sec) \<inter> set (account_numbers secs) = {}"
      using that(2) by (simp add: acc)
    from disjoint_join [OF x y sub]
    have "snd ` set nums \<inter> snd ` set s_nums = {}"
      "(snd ` set nums \<union> snd ` set s_nums) \<inter> set (account_numbers secs) = {}" by simp_all
    then show ?thesis using that(1) d by (simp add: image_Un)
  qed
  have tagged: "set (map (\<lambda>(n, _). (n, name)) d) = {(n, l). l = name \<and> n \<in> fst ` set d}" for d :: names
    by (induction d) auto
  have nick: "fst ` set s_nums = nicknames_of (section_accounts sec)" using P by simp
  show ?case
  proof (intro conjI impI)
    show "names_ok nums' envs'" "map fst logins' = map fst nums'" using IH by blast+
    show "distinct (map snd nums')"
      if "distinct (map snd nums)" "distinct (account_numbers (entry # secs))"
        "snd ` set nums \<inter> set (account_numbers (entry # secs)) = {}"
      using IH vals [OF that] that(2) by (simp add: acc)
    have "set logins' = set (logins @ map (\<lambda>(n, _). (n, name)) s_nums)
        \<union> {(n, name). \<exists>sec. (name, sec) \<in> set secs \<and> n \<in> nicknames_of (section_accounts sec)}"
      using IH by blast
    then show "set logins' = set logins
        \<union> {(n, name). \<exists>sec. (name, sec) \<in> set (entry # secs) \<and> n \<in> nicknames_of (section_accounts sec)}"
      unfolding set_append tagged nick entry by auto
  qed
qed (auto simp: account_numbers_def)

lemma dict_get_update:
  "dict_get (dict_update d e) k = (case map_of (rev e) k of Some v \<Rightarrow> Some v | None \<Rightarrow> dict_get d k)"
proof (induction e rule: rev_induct)
  case (snoc p e)
  then show ?case by (cases p) (simp add: dict_update_snoc)
qed (simp add: dict_update_def)

definition swapped :: "names \<Rightarrow> names" where
  "swapped d = map (\<lambda>(k, v). (v, k)) d"

lemma swapped_simps: "(a, n) \<in> set (swapped d) \<longleftrightarrow> (n, a) \<in> set d" "map fst (swapped d) = map snd d"
  by (force simp: swapped_def, induction d) (auto simp: swapped_def)

lemma mk_mapper_inverse:
  assumes "distinct (map fst nums)" "m = mk_mapper nums dflt login envs logins"
  shows "to_nickname m a = Inr n \<Longrightarrow> to_account_number m n = Inr a"
    and "distinct (map snd nums) \<Longrightarrow> to_account_number m n = Inr a \<Longrightarrow> to_nickname m a = Inr n"
proof -
  have num2n: "dict_get (num2n m) a = map_of (rev (swapped nums)) a"
    by (simp add: assms(2) mk_mapper_def dict_get_update swapped_def split: option.splits)
  have n2num: "n2num m = nums" by (simp add: assms(2) mk_mapper_def)
  show "to_account_number m n = Inr a" if "to_nickname m a = Inr n"
  proof -
    from that have "map_of (rev (swapped nums)) a = Some n"
      by (auto simp: to_nickname_def num2n split: option.splits)
    then have "(a, n) \<in> set (rev (swapped nums))" by (rule map_of_SomeD)
    then have "(n, a) \<in> set nums" by (simp add: swapped_simps)
    then show ?thesis using assms(1) by (simp add: to_account_number_def n2num)
  qed
  show "to_nickname m a = Inr n" if "distinct (map snd nums)" "to_account_number m n = Inr a"
  proof -
    from that(2) have "dict_get nums n = Some a" by (auto simp: to_account_number_def n2num split: option.splits)
    then have "(n, a) \<in> set nums" by (rule map_of_SomeD)
    then have "(a, n) \<in> set (rev (swapped nums))" by (simp add: swapped_simps)
    moreover have "distinct (map fst (rev (swapped nums)))"
      using that(1) by (metis distinct_rev rev_map swapped_simps(2))
    ultimately have "map_of (rev (swapped nums)) a = Some n" by simp
    then show ?thesis by (simp add: to_nickname_def num2n)
  qed
qed

lemma from_toml_ok:
  assumes "from_toml data login = Inr m"
  shows "\<exists>secs nums envs logins dflt resolved. sections_of data login = Inr secs
    \<and> names_ok nums envs \<and> map fst logins = map fst nums
    \<and> (distinct (account_numbers secs) \<longrightarrow> distinct (map snd nums))
    \<and> set logins = {(n, name). \<exists>sec. (name, sec) \<in> set secs \<and> n \<in> nicknames_of (section_accounts sec)}
    \<and> m = mk_mapper nums dflt resolved (Some envs) (Some logins)"
proof -
  obtain secs where S: "sections_of data login = Inr secs"
    using assms by (auto simp: from_toml_def split: sum.splits)
  obtain r where R: "merge_sections secs ([], [], [], None) = Inr r"
    using assms S by (auto simp: from_toml_def split: sum.splits)
  obtain nums envs logins dflt where r: "r = (nums, envs, logins, dflt)" by (rule prod_cases4)
  obtain resolved where m: "m = mk_mapper nums dflt resolved (Some envs) (Some logins)"
    using assms S R r by (simp add: from_toml_def Let_def) (metis (no_types))
  have "names_ok [] []" "map fst ([] :: names) = map fst ([] :: names)" by (simp_all add: names_ok_def)
  from merge_sections_ok [OF R [unfolded r] this]
  show ?thesis
    by (intro exI [of _ secs] exI [of _ nums] exI [of _ envs] exI [of _ logins] exI [of _ dflt] exI [of _ resolved])
      (simp add: S m)
qed

text \<open>
  Nicknames and account numbers translate into each other: what a loaded mapper
  turns an account number into is always turned back into that number, and, when the file lists no
  account number twice, every nickname survives the way to the broker and back.
\<close>

theorem account_names_round_trip:
  assumes "from_toml data login = Inr m" and "sections_of data login = Inr secs"
  shows "(to_nickname m a = Inr n \<longrightarrow> to_account_number m n = Inr a)
    \<and> (distinct (account_numbers secs) \<longrightarrow> to_account_number m n = Inr a \<longrightarrow> to_nickname m a = Inr n)"
proof -
  obtain secs' nums envs logins dflt resolved where s: "sections_of data login = Inr secs'"
    and ok: "names_ok nums envs" and "map fst logins = map fst nums"
    and d: "distinct (account_numbers secs') \<longrightarrow> distinct (map snd nums)"
    and "set logins = {(n, name). \<exists>sec. (name, sec) \<in> set secs' \<and> n \<in> nicknames_of (section_accounts sec)}"
    and m: "m = mk_mapper nums dflt resolved (Some envs) (Some logins)"
    using from_toml_ok [OF assms(1)] by blast
  have "secs' = secs" using s assms(2) by simp
  with d mk_mapper_inverse [OF names_okD(1) [OF ok] m] show ?thesis by blast
qed

definition example_toml :: toml where
  "example_toml =
     [(''title'', Scalar),
      (''trader1'', Section \<lparr> ls_accounts = Some
          [(''5WT1'', \<lparr>am_nickname = Some ''main'', am_env = None\<rparr>),
           (''5WT2'', \<lparr>am_nickname = Some ''Paper-A'', am_env = Some ''paper''\<rparr>)],
        ls_default = Some ''5WT1'', ls_client_id = None, ls_client_secret = None, ls_refresh_token = None \<rparr>),
      (''trader2'', Section \<lparr> ls_accounts = Some
          [(''6AB1'', \<lparr>am_nickname = Some ''ira'', am_env = None\<rparr>)],
        ls_default = None, ls_client_id = None, ls_client_secret = None, ls_refresh_token = None \<rparr>)]"

theorem account_names_round_trip_witness:
  "\<exists>m. from_toml example_toml None = Inr m \<and> to_nickname m ''6AB1'' = Inr ''ira''
     \<and> to_account_number m ''ira'' = Inr ''6AB1''"
proof -
  obtain m secs where m: "from_toml example_toml None = Inr m" "sections_of example_toml None = Inr secs"
    "to_nickname m ''6AB1'' = Inr ''ira''"
  proof -
    have "(case from_toml example_toml None of Inr m \<Rightarrow> to_nickname m ''6AB1'' = Inr ''ira'' | _ \<Rightarrow> False)"
      by code_simp
    moreover have "(case sections_of example_toml None of Inr _ \<Rightarrow> True | _ \<Rightarrow> False)" by code_simp
    ultimately show ?thesis using that by (auto split: sum.splits)
  qed
  then show ?thesis using account_names_round_trip [OF m(1,2)] by blast
qed



end
