(* ===== verification/Repositories.thy ===== *)
theory Repositories
  imports Store_Laws Symbology Accounts
begin

text \<open>
  The repositories (\<^verbatim>\<open>tt_ledger/repositories/__init__.py\<close>) over the store, with the broker-native
  shapes they consume (\<^verbatim>\<open>tt_ledger/ingest/broker.py\<close>) and \<open>ResolvedSecurity\<close>
  (\<^verbatim>\<open>tt_ledger/identity/securities.py\<close>). The injected symbology resolver is a parameter: it
  returns a resolved security, or raises with a message, which ends the operation and keeps the
  securities written so far.
\<close>

section \<open>Broker shapes\<close>

record placed_fill =
  pf_fill_id :: string
  pf_quantity :: decimal
  pf_fill_price :: decimal
  pf_filled_at :: datetime
  pf_destination_venue :: "string option"
  pf_ext_exec_id :: "string option"
  pf_ext_group_fill_id :: "string option"

record placed_leg =
  pl_instrument_type :: string
  pl_symbol :: string
  pl_action :: string
  pl_quantity :: decimal
  pl_remaining_quantity :: decimal
  pl_fills :: "placed_fill list"

record placed_order =
  po_id :: string
  po_account_number :: string
  po_received_at :: datetime
  po_legs :: "placed_leg list"
  po_underlying_symbol :: "string option"
  po_underlying_instrument_type :: "string option"
  po_order_type :: "string option"
  po_time_in_force :: "string option"
  po_gtc_date :: "string option"
  po_price :: "decimal option"
  po_stop_trigger :: "decimal option"
  po_price_effect :: "string option"
  po_status :: "string option"
  po_reject_reason :: "string option"
  po_complex_order_id :: "string option"
  po_complex_order_tag :: "string option"
  po_updated_at :: "datetime option"
  po_terminal_at :: "datetime option"

definition po_is_complex :: "placed_order \<Rightarrow> bool" where
  "po_is_complex po \<longleftrightarrow> po_complex_order_id po \<noteq> None"

record broker_transaction =
  bt_id :: string
  bt_account_number :: string
  bt_order_id :: "string option"
  bt_underlying_symbol :: "string option"
  bt_symbol :: "string option"
  bt_instrument_type :: "string option"
  bt_transaction_type :: "string option"
  bt_transaction_sub_type :: "string option"
  bt_action :: "string option"
  bt_quantity :: "decimal option"
  bt_price :: "decimal option"
  bt_value :: "decimal option"
  bt_value_effect :: "string option"
  bt_net_value :: "decimal option"
  bt_net_value_effect :: "string option"
  bt_commission :: "decimal option"
  bt_clearing_fees :: "decimal option"
  bt_regulatory_fees :: "decimal option"
  bt_proprietary_index_option_fees :: "decimal option"
  bt_is_estimated_fee :: "bool option"
  bt_description :: "string option"
  bt_executed_at :: "datetime option"
  bt_transaction_date :: "date option"

record broker_position =
  bp_account_number :: string
  bp_symbol :: string
  bp_quantity :: decimal
  bp_quantity_direction :: string
  bp_underlying_symbol :: "string option"
  bp_instrument_type :: "string option"
  bp_average_open_price :: "decimal option"
  bp_mark_price :: "decimal option"
  bp_close_price :: "decimal option"
  bp_realized_day_gain :: "decimal option"
  bp_realized_day_gain_effect :: "string option"
  bp_multiplier :: int
  bp_expires_at :: "datetime option"

record balance_message =
  bm_account_number :: string
  bm_raw :: json
  bm_net_liquidating_value :: "decimal option"
  bm_cash_balance :: "decimal option"
  bm_equity_buying_power :: "decimal option"
  bm_derivative_buying_power :: "decimal option"
  bm_maintenance_requirement :: "decimal option"
  bm_pending_cash :: "decimal option"
  bm_day_trading_buying_power :: "decimal option"
  bm_captured_at :: "datetime option"

section \<open>Securities and accounts\<close>

definition security_of :: "resolved_security \<Rightarrow> string option \<Rightarrow> security_row" where
  "security_of resolved tt_symbol =
     \<lparr> sec_security_id = rs_security_id resolved, sec_product_type = str0 (rs_product_type resolved),
       sec_underlying = rs_underlying resolved, sec_expiry = rs_expiry resolved,
       sec_strike = rs_strike resolved, sec_option_type = rs_option_type resolved,
       sec_multiplier = rs_multiplier resolved, sec_exchange = None, sec_currency = None,
       sec_tt_symbol = tt_symbol, sec_occ_symbol = None, sec_streamer_symbol = None,
       sec_source_system = ''tastytrade'', sec_metadata = None \<rparr>"

text \<open>Resolve a symbol and upsert its security the first time the call sees it.\<close>

definition resolve_once ::
  "resolver \<Rightarrow> string \<Rightarrow> string option \<Rightarrow> string list \<times> ledger
     \<Rightarrow> (string + resolved_security) \<times> string list \<times> ledger" where
  "resolve_once resolver symbol instrument_type acc =
     (case acc of (seen, s) \<Rightarrow>
      (case resolver symbol instrument_type of
         Inl msg \<Rightarrow> (Inl msg, seen, s)
       | Inr resolved \<Rightarrow>
           if rs_security_id resolved \<in> set seen then (Inr resolved, seen, s)
           else (Inr resolved, seen @ [rs_security_id resolved],
                 upsert_security (security_of resolved (Some symbol)) s)))"

text \<open>An unknown nickname raises before anything is written; a known one is upserted once per
  cache.\<close>

definition ensure_account :: "account_mapper \<Rightarrow> string \<Rightarrow> string list \<times> ledger \<Rightarrow> (string + unit) \<times> string list \<times> ledger" where
  "ensure_account m nickname acc =
     (case acc of (cache, s) \<Rightarrow>
      if nickname \<in> set cache then (Inr (), cache, s)
      else
        (case to_account_number m nickname of
           Inl msg \<Rightarrow> (Inl msg, cache, s)
         | Inr number \<Rightarrow>
             (Inr (), nickname # cache,
              upsert_account
                \<lparr> acct_nickname = nickname, acct_account_number = number,
                  acct_login = Some (str0 (login_for m nickname)), acct_env = env_for m nickname,
                  acct_source_system = ''tastytrade'' \<rparr> s)))"

section \<open>Order status and fills\<close>

definition STATUS_MAP :: "(string \<times> order_status) list" where
  "STATUS_MAP =
     [(''received'', OS_PENDING), (''routed'', OS_SUBMITTED), (''in flight'', OS_SUBMITTED),
      (''live'', OS_WORKING), (''contingent'', OS_WORKING), (''cancel requested'', OS_WORKING),
      (''replace requested'', OS_WORKING), (''filled'', OS_FILLED), (''cancelled'', OS_CANCELLED),
      (''canceled'', OS_CANCELLED), (''removed'', OS_CANCELLED), (''partially removed'', OS_CANCELLED),
      (''rejected'', OS_REJECTED), (''expired'', OS_EXPIRED)]"

definition map_order_status :: "string option \<Rightarrow> order_status option" where
  "map_order_status raw =
     (case raw of None \<Rightarrow> None | Some r \<Rightarrow> map_of STATUS_MAP (py_lower (py_strip r)))"

definition status_text :: "order_status option \<Rightarrow> string option \<Rightarrow> string option" where
  "status_text status old = (case status of None \<Rightarrow> old | Some st \<Rightarrow> Some (order_status_value st))"

definition apply_fill_event :: "fill_event \<Rightarrow> ledger \<Rightarrow> order_row option \<times> ledger" where
  "apply_fill_event evt s =
     (case get_order s (fe_tt_order_id evt) of
        None \<Rightarrow> (None, s)
      | Some existing \<Rightarrow>
          let updated = existing
                \<lparr> o_oms_status := status_text (map_order_status (fe_status evt)) (o_oms_status existing),
                  o_tt_status := or_else (fe_status evt) (o_tt_status existing),
                  o_average_fill_price := or_else (fe_average_fill_price evt) (o_average_fill_price existing),
                  o_filled_quantity := or_else (fe_filled_quantity evt) (o_filled_quantity existing),
                  o_remaining_quantity := or_else (fe_remaining_quantity evt) (o_remaining_quantity existing),
                  o_filled_at := or_else (fe_filled_at evt) (o_filled_at existing) \<rparr>
          in (Some updated, snd (upsert_orders [updated] s)))"

definition fill_total :: "placed_fill list \<Rightarrow> decimal" where
  "fill_total fills = sum_list (map pf_quantity fills)"

definition vwap :: "placed_fill list \<Rightarrow> decimal option" where
  "vwap fills =
     (if fills = [] \<or> fill_total fills = 0 then None
      else Some (sum_list (map (\<lambda>f. pf_quantity f * pf_fill_price f) fills) / fill_total fills))"

text \<open>\<open>leg.quantity\<close> is a positive integer; \<open>int\<close> of it.\<close>

definition whole_quantity :: "placed_leg \<Rightarrow> bool" where
  "whole_quantity leg \<longleftrightarrow> 0 < pl_quantity leg \<and> pl_quantity leg = of_int \<lfloor>pl_quantity leg\<rfloor>"

definition lot_count :: "placed_leg \<Rightarrow> nat" where
  "lot_count leg = nat \<lfloor>pl_quantity leg\<rfloor>"

definition structure_units :: "placed_leg list \<Rightarrow> nat" where
  "structure_units legs = (case map lot_count legs of [] \<Rightarrow> 0 | q # qs \<Rightarrow> foldl gcd q qs)"

definition leg_ratio :: "nat \<Rightarrow> placed_leg \<Rightarrow> decimal" where
  "leg_ratio units leg = of_nat (lot_count leg div units)"

definition sells :: "placed_leg \<Rightarrow> bool" where
  "sells leg \<longleftrightarrow> py_startswith (py_lower (pl_action leg)) ''sell''"

fun net_price :: "nat \<Rightarrow> placed_leg list \<Rightarrow> decimal option" where
  "net_price units [] = Some 0"
| "net_price units (leg # legs) =
     (case (vwap (pl_fills leg), net_price units legs) of
        (Some v, Some rest) \<Rightarrow> Some ((if sells leg then v else - v) * leg_ratio units leg + rest)
      | _ \<Rightarrow> None)"

definition order_level_fill_fields ::
  "placed_leg list \<Rightarrow> string option \<Rightarrow> decimal option \<times> decimal option \<times> decimal option" where
  "order_level_fill_fields legs price_effect =
     (case legs of
        [] \<Rightarrow> (None, None, None)
      | [leg] \<Rightarrow> (vwap (pl_fills leg), Some (fill_total (pl_fills leg)), Some (pl_remaining_quantity leg))
      | _ \<Rightarrow>
          if \<not> (\<forall>leg \<in> set legs. whole_quantity leg) then (None, None, None)
          else
            let units = structure_units legs;
                filled = Min (set (map (\<lambda>leg. fill_total (pl_fills leg) / leg_ratio units leg) legs));
                remaining = Max (set (map (\<lambda>leg. pl_remaining_quantity leg / leg_ratio units leg) legs));
                net = net_price units legs
            in (if price_effect = Some ''Debit'' then map_option uminus net else net,
                Some filled, Some remaining))"

section \<open>Order history\<close>

fun resolve_legs ::
  "resolver \<Rightarrow> placed_leg list \<Rightarrow> string list \<times> ledger
     \<Rightarrow> (string + resolved_security list) \<times> string list \<times> ledger" where
  "resolve_legs resolver [] acc = (Inr [], acc)"
| "resolve_legs resolver (leg # legs) acc =
     (case resolve_once resolver (pl_symbol leg) (Some (pl_instrument_type leg)) acc of
        (Inl msg, acc1) \<Rightarrow> (Inl msg, acc1)
      | (Inr r, acc1) \<Rightarrow>
          (case resolve_legs resolver legs acc1 of
             (Inl msg, acc2) \<Rightarrow> (Inl msg, acc2)
           | (Inr rs, acc2) \<Rightarrow> (Inr (r # rs), acc2)))"

fun resolve_orders ::
  "resolver \<Rightarrow> placed_order list \<Rightarrow> string list \<times> ledger
     \<Rightarrow> (string + resolved_security list list) \<times> string list \<times> ledger" where
  "resolve_orders resolver [] acc = (Inr [], acc)"
| "resolve_orders resolver (po # pos) acc =
     (case resolve_legs resolver (po_legs po) acc of
        (Inl msg, acc1) \<Rightarrow> (Inl msg, acc1)
      | (Inr rs, acc1) \<Rightarrow>
          (case resolve_orders resolver pos acc1 of
             (Inl msg, acc2) \<Rightarrow> (Inl msg, acc2)
           | (Inr rss, acc2) \<Rightarrow> (Inr (rs # rss), acc2)))"

definition enriched_order ::
  "placed_order \<Rightarrow> decimal option \<times> decimal option \<times> decimal option \<Rightarrow> order_row \<Rightarrow> order_row" where
  "enriched_order po fill_fields existing =
     (case fill_fields of (average_fill_price, filled_quantity, remaining_quantity) \<Rightarrow>
      existing
        \<lparr> o_oms_status := status_text (map_order_status (po_status po)) (o_oms_status existing),
          o_tt_status := po_status po,
          o_status_message := or_else (po_reject_reason po) (o_status_message existing),
          o_average_fill_price := or_else average_fill_price (o_average_fill_price existing),
          o_filled_quantity := or_else filled_quantity (o_filled_quantity existing),
          o_remaining_quantity := or_else remaining_quantity (o_remaining_quantity existing),
          o_filled_at := (if map_order_status (po_status po) = Some OS_FILLED then po_terminal_at po
                          else o_filled_at existing) \<rparr>)"

definition broker_order ::
  "placed_order \<Rightarrow> string \<Rightarrow> string option \<Rightarrow> decimal option \<times> decimal option \<times> decimal option
     \<Rightarrow> order_row option \<Rightarrow> order_row" where
  "broker_order po account sid fill_fields existing =
     (case fill_fields of (average_fill_price, filled_quantity, remaining_quantity) \<Rightarrow>
      let status = map_order_status (po_status po) in
      \<lparr> o_tt_order_id = Some (po_id po), o_account = account, o_origin = BROKER, o_ingest = ORDER_HISTORY,
        o_oms_order_id = Option.bind existing o_oms_order_id, o_client_order_id = None,
        o_account_number = None, o_source_system = ''tastytrade'', o_security_id = sid,
        o_underlying = po_underlying_symbol po, o_order_type = po_order_type po,
        o_time_in_force = po_time_in_force po, o_gtc_date = po_gtc_date po, o_price = po_price po,
        o_stop_trigger = po_stop_trigger po, o_price_effect = po_price_effect po,
        o_average_fill_price = average_fill_price, o_is_complex = po_is_complex po,
        o_complex_order_type = po_complex_order_tag po, o_oms_status = status_text status None,
        o_tt_status = po_status po, o_status_message = po_reject_reason po,
        o_filled_quantity = filled_quantity, o_remaining_quantity = remaining_quantity,
        o_signal_id = Option.bind existing o_signal_id, o_trace_id = Option.bind existing o_trace_id,
        o_strategy_id = Option.bind existing o_strategy_id,
        o_trade_group_id = Option.bind existing o_trade_group_id, o_market_context_id = None,
        o_received_at = Some (po_received_at po), o_submitted_at = Some (po_received_at po),
        o_filled_at = (if status = Some OS_FILLED then po_terminal_at po else None),
        o_terminal_at = po_terminal_at po \<rparr>)"

definition build_order_row ::
  "ledger \<Rightarrow> string \<Rightarrow> placed_order \<times> resolved_security list \<Rightarrow> order_row" where
  "build_order_row s account entry =
     (case entry of (po, resolved) \<Rightarrow>
      let sid = (case resolved of [r] \<Rightarrow> Some (rs_security_id r) | _ \<Rightarrow> None);
          fill_fields = order_level_fill_fields (po_legs po) (po_price_effect po);
          existing = get_order s (po_id po)
      in (case existing of
            Some e \<Rightarrow> if o_origin e = ZTS then enriched_order po fill_fields e
                      else broker_order po account sid fill_fields existing
          | None \<Rightarrow> broker_order po account sid fill_fields None))"

definition leg_rows_of :: "nat \<Rightarrow> placed_order \<Rightarrow> resolved_security list \<Rightarrow> leg_row list" where
  "leg_rows_of order_id po resolved =
     map (\<lambda>(i, leg, r).
        \<lparr> lg_order_id = order_id, lg_leg_index = i, lg_security_id = rs_security_id r,
          lg_action = Some (pl_action leg), lg_quantity = Some (pl_quantity leg),
          lg_remaining_quantity = Some (pl_remaining_quantity leg), lg_quantity_direction = None,
          lg_price = None, lg_fill_price = vwap (pl_fills leg) \<rparr>)
       (zip [0..<length (po_legs po)] (zip (po_legs po) resolved))"

definition fill_rows_of :: "nat \<Rightarrow> placed_order \<Rightarrow> placed_leg \<Rightarrow> nat \<Rightarrow> fill_row list" where
  "fill_rows_of order_id po leg leg_id =
     map (\<lambda>f. \<lparr> fl_fill_id = pf_fill_id f, fl_order_id = Some order_id, fl_order_leg_id = Some leg_id,
                fl_tt_order_id = Some (po_id po), fl_quantity = Some (pf_quantity f),
                fl_fill_price = Some (pf_fill_price f), fl_filled_at = Some (pf_filled_at f),
                fl_destination_venue = pf_destination_venue f, fl_ext_exec_id = pf_ext_exec_id f,
                fl_ext_group_fill_id = pf_ext_group_fill_id f \<rparr>) (pl_fills leg)"

definition upsert_from_history ::
  "resolver \<Rightarrow> string \<Rightarrow> placed_order list \<Rightarrow> ledger \<Rightarrow> (string + nat) \<times> ledger" where
  "upsert_from_history resolver account placed s =
     (if placed = [] then (Inr 0, s)
      else
        (case resolve_orders resolver placed ([], s) of
           (Inl msg, _, s1) \<Rightarrow> (Inl msg, s1)
         | (Inr resolved, _, s1) \<Rightarrow>
             let entries = zip placed resolved;
                 order_rows = map (build_order_row s1 account) entries;
                 (order_ids, s2) = upsert_orders order_rows s1;
                 (leg_ids, s3) = upsert_legs
                   (concat (map (\<lambda>(oid, po, rs). leg_rows_of oid po rs) (zip order_ids entries))) s2;
                 owners = concat (map (\<lambda>(oid, po, _). map (\<lambda>leg. (oid, po, leg)) (po_legs po)) (zip order_ids entries));
                 fills = concat (map (\<lambda>((oid, po, leg), leg_id). fill_rows_of oid po leg leg_id) (zip owners leg_ids))
             in (Inr (length order_rows), upsert_fills fills s3)))"

section \<open>Transactions, positions, balances\<close>

definition txn_of :: "broker_transaction \<Rightarrow> string \<Rightarrow> string \<Rightarrow> string option \<Rightarrow> txn_row" where
  "txn_of t account source_system sid =
     ledger_row.extend
       \<lparr> r_tt_transaction_id = bt_id t, r_tt_order_id = bt_order_id t, r_account = account,
         r_transaction_type = bt_transaction_type t, r_transaction_sub_type = bt_transaction_sub_type t,
         r_action = bt_action t, r_security_id = sid, r_underlying = bt_underlying_symbol t,
         r_quantity = bt_quantity t, r_price = bt_price t, r_net_value = bt_net_value t,
         r_net_value_effect = bt_net_value_effect t, r_commission = bt_commission t,
         r_clearing_fees = bt_clearing_fees t, r_regulatory_fees = bt_regulatory_fees t,
         r_proprietary_index_option_fees = bt_proprietary_index_option_fees t,
         r_order_id = None, r_trade_group_id = None, r_executed_at = bt_executed_at t \<rparr>
       (txn_row.fields (Some (bt_account_number t)) source_system (bt_value t) (bt_value_effect t)
         (bt_is_estimated_fee t) (bt_description t) None None None (bt_transaction_date t))"

fun txn_rows ::
  "resolver \<Rightarrow> string \<Rightarrow> string \<Rightarrow> broker_transaction list \<Rightarrow> string list \<times> ledger
     \<Rightarrow> (string + txn_row list) \<times> string list \<times> ledger" where
  "txn_rows resolver account source_system [] acc = (Inr [], acc)"
| "txn_rows resolver account source_system (t # ts) acc =
     (case (if str_true (bt_symbol t)
            then (case resolve_once resolver (str0 (bt_symbol t)) (bt_instrument_type t) acc of
                    (Inl msg, acc1) \<Rightarrow> (Inl msg, acc1)
                  | (Inr r, acc1) \<Rightarrow> (Inr (Some (rs_security_id r)), acc1))
            else (Inr None, acc)) of
        (Inl msg, acc1) \<Rightarrow> (Inl msg, acc1)
      | (Inr sid, acc1) \<Rightarrow>
          (case txn_rows resolver account source_system ts acc1 of
             (Inl msg, acc2) \<Rightarrow> (Inl msg, acc2)
           | (Inr rows, acc2) \<Rightarrow> (Inr (txn_of t account source_system sid # rows), acc2)))"

definition upsert_broker_transactions ::
  "resolver \<Rightarrow> string \<Rightarrow> string \<Rightarrow> broker_transaction list \<Rightarrow> ledger \<Rightarrow> (string + nat) \<times> ledger" where
  "upsert_broker_transactions resolver account source_system txns s =
     (if txns = [] then (Inr 0, s)
      else
        (case txn_rows resolver account source_system txns ([], s) of
           (Inl msg, _, s1) \<Rightarrow> (Inl msg, s1)
         | (Inr rows, _, s1) \<Rightarrow> (Inr (length rows), upsert_transactions rows s1)))"

definition derive_unrealized_pnl :: "broker_position \<Rightarrow> decimal option" where
  "derive_unrealized_pnl p =
     (case (bp_mark_price p, bp_average_open_price p) of
        (Some mark, Some open_price) \<Rightarrow>
          let diff = mark - open_price;
              signed = (if py_lower (py_strip (bp_quantity_direction p)) = ''short'' then - diff else diff)
          in Some (signed * bp_quantity p * of_int (bp_multiplier p))
      | _ \<Rightarrow> None)"

definition apply_effect :: "decimal option \<Rightarrow> string option \<Rightarrow> decimal option" where
  "apply_effect magnitude effect =
     (case magnitude of None \<Rightarrow> None
      | Some m \<Rightarrow> Some (if py_lower (py_strip (str0 effect)) = ''debit'' then - m else m))"

definition position_of :: "broker_position \<Rightarrow> string \<Rightarrow> string \<Rightarrow> position_row option \<Rightarrow> position_row" where
  "position_of p account sid existing =
     \<lparr> ps_account = account, ps_security_id = sid, ps_quantity = bp_quantity p,
       ps_quantity_direction = bp_quantity_direction p, ps_average_open_price = bp_average_open_price p,
       ps_mark_price = bp_mark_price p, ps_close_price = bp_close_price p,
       ps_unrealized_pnl = derive_unrealized_pnl p,
       ps_realized_day_gain = apply_effect (bp_realized_day_gain p) (bp_realized_day_gain_effect p),
       ps_multiplier = bp_multiplier p, ps_expires_at = bp_expires_at p,
       ps_strategy_id = Option.bind existing ps_strategy_id,
       ps_opening_order_id = Option.bind existing ps_opening_order_id,
       ps_trade_group_id = Option.bind existing ps_trade_group_id,
       ps_position_opened_at = Option.bind existing ps_position_opened_at \<rparr>"

fun position_rows ::
  "resolver \<Rightarrow> string \<Rightarrow> broker_position list \<Rightarrow> string list \<times> ledger
     \<Rightarrow> (string + position_row list) \<times> string list \<times> ledger" where
  "position_rows resolver account [] acc = (Inr [], acc)"
| "position_rows resolver account (p # ps) acc =
     (case resolve_once resolver (bp_symbol p) (bp_instrument_type p) acc of
        (Inl msg, acc1) \<Rightarrow> (Inl msg, acc1)
      | (Inr r, acc1) \<Rightarrow>
          (case position_rows resolver account ps acc1 of
             (Inl msg, acc2) \<Rightarrow> (Inl msg, acc2)
           | (Inr rows, acc2) \<Rightarrow>
               (Inr (position_of p account (rs_security_id r) (get_position (snd acc1) account (rs_security_id r)) # rows),
                acc2)))"

definition upsert_broker_positions ::
  "resolver \<Rightarrow> string \<Rightarrow> broker_position list \<Rightarrow> ledger \<Rightarrow> (string + nat) \<times> ledger" where
  "upsert_broker_positions resolver account positions s =
     (if positions = [] then (Inr 0, s)
      else
        (case position_rows resolver account positions ([], s) of
           (Inl msg, _, s1) \<Rightarrow> (Inl msg, s1)
         | (Inr rows, _, s1) \<Rightarrow> (Inr (length rows), upsert_positions rows s1)))"

definition record_balance :: "balance_message \<Rightarrow> string \<Rightarrow> string \<Rightarrow> ledger \<Rightarrow> ledger" where
  "record_balance msg account source s =
     upsert_balance_snapshot
       \<lparr> bs_account = account,
         bs_captured_at = (case bm_captured_at msg of None \<Rightarrow> env_now s | Some t \<Rightarrow> t),
         bs_source = source, bs_net_liquidating_value = bm_net_liquidating_value msg,
         bs_cash_balance = bm_cash_balance msg, bs_equity_buying_power = bm_equity_buying_power msg,
         bs_derivative_buying_power = bm_derivative_buying_power msg,
         bs_maintenance_requirement = bm_maintenance_requirement msg,
         bs_pending_cash = bm_pending_cash msg,
         bs_day_trading_buying_power = bm_day_trading_buying_power msg, bs_raw = Some (bm_raw msg) \<rparr> s"

end
