(* ===== verification/Passes.thy ===== *)
theory Passes
  imports Attribution Repositories
begin

text \<open>
  What the passes of a reconcile run promise beside attribution: a dry run writes the links and
  nothing else; an exit is applied once; the synthesized settlements add up to the account's
  exposure and flatten the group they settle; and a run leaves no open group fully closed.
\<close>

section \<open>Dry runs\<close>

lemma run_clusters_dry: "rs_ledger (run_clusters True account since s) = s"
  unfolding run_clusters_def
  by (rule foldl_invariant [where P = "\<lambda>st. rs_ledger st = s"])
    (auto simp: run_cluster_def apply_intent_rows_def open_rest_def Let_def case_prod_beta)

lemma synthesize_dry: "snd (synthesize_lapsed_settlements account resolver settle_after True s) = s"
  by (rule synthesize_cases [of account resolver settle_after True s]) simp_all

lemma heal_dry: "snd (heal_fully_closed_groups account True s) = s"
  by (simp add: heal_fully_closed_groups_def Let_def)

lemma reconcile_account_dry:
  "snd (reconcile_account since resolver settle_after True account acc) = link_edges account (snd acc)"
proof -
  let ?syn = "synthesize_lapsed_settlements account resolver settle_after True (link_edges account (snd acc))"
  have "snd ?syn = link_edges account (snd acc)" by (rule synthesize_dry)
  then obtain res where "?syn = (res, link_edges account (snd acc))" by (metis prod.collapse)
  then show ?thesis
    by (cases acc; cases res)
      (simp_all add: reconcile_account_def Let_def case_prod_beta run_clusters_dry heal_dry)
qed

lemma foldl_snd:
  "(\<And>acc x. snd (f acc x) = g (snd acc) x) \<Longrightarrow> snd (foldl f acc xs) = foldl g (snd acc) xs"
  by (induction xs arbitrary: acc) simp_all

text \<open>
  A dry run is a preview: whatever it reports, over one account or all of them,
  the only thing it writes is the exact-match links of transactions, orders and closed
  positions; it creates no group or event, attaches nothing and synthesizes nothing.\<close>

theorem dry_run_writes_only_links:
  "snd (reconcile account since resolver settle_after True s) =
     foldl (\<lambda>s' acct. link_edges acct s') s
       (case account of Some a \<Rightarrow> [a] | None \<Rightarrow> accounts_with_activity s since)"
  unfolding reconcile_def
  by (subst foldl_snd [where g = "\<lambda>s' acct. link_edges acct s'"]) (simp_all add: reconcile_account_dry)

section \<open>An exit is applied once\<close>

lemma attach_attached:
  assumes "st_transactions s' = st_transactions (attach_transactions_to_trade_group ids pk s)"
    and "set ids' \<subseteq> set ids"
  shows "attach_transactions_to_trade_group ids' pk s' = s'"
proof -
  let ?f = "\<lambda>ids (_::nat) txn. if r_tt_transaction_id txn \<in> set ids then txn\<lparr>r_trade_group_id := Some pk\<rparr> else txn"
  have "st_transactions s' = table_modify (?f ids) (st_transactions s)"
    using assms(1) by (simp add: attach_transactions_to_trade_group_def)
  then have "table_modify (?f ids') (st_transactions s')
      = table_modify (\<lambda>i txn. ?f ids' i (?f ids i txn)) (st_transactions s)"
    by (simp add: table_modify_comp)
  also have "(\<lambda>i txn. ?f ids' i (?f ids i txn)) = ?f ids"
    using assms(2) by (intro ext) auto
  finally have "table_modify (?f ids') (st_transactions s') = st_transactions s'"
    using assms(1) by (simp add: attach_transactions_to_trade_group_def)
  then show ?thesis by (simp add: attach_transactions_to_trade_group_def)
qed

lemma apply_exit_transactions:
  "st_transactions (snd (snd (apply_exit g rows rolled delivery s)))
     = st_transactions (attach_transactions_to_trade_group (tids rows) (og_pk g) s)"
  by (simp add: apply_exit_def Let_def)

lemma apply_exit_members:
  "set (tids rows) \<subseteq> set (tids (og_rows (fst (snd (apply_exit g rows rolled delivery s)))))"
  by (auto simp: apply_exit_def extend_unique_def tids_def Let_def filter_empty_conv)

lemma apply_exit_closed:
  "ae_fully_closed (fst (apply_exit g rows rolled delivery s))
     = fully_closed (og_rows (fst (snd (apply_exit g rows rolled delivery s))))"
  by (simp add: apply_exit_def Let_def)

lemma apply_exit_known:
  assumes "set (tids rows) \<subseteq> set (tids (og_rows g))"
  shows "fst (snd (apply_exit g rows rolled delivery s)) = g"
    and "snd (snd (apply_exit g rows rolled delivery s))
       = attach_transactions_to_trade_group (tids rows) (og_pk g) s"
    and "ae_rows (fst (apply_exit g rows rolled delivery s)) = []"
proof -
  have "filter (\<lambda>r. r_tt_transaction_id r \<notin> r_tt_transaction_id ` set (og_rows g)) rows = []"
    using assms by (auto simp: tids_def filter_empty_conv)
  then show "fst (snd (apply_exit g rows rolled delivery s)) = g"
    and "snd (snd (apply_exit g rows rolled delivery s))
       = attach_transactions_to_trade_group (tids rows) (og_pk g) s"
    and "ae_rows (fst (apply_exit g rows rolled delivery s)) = []"
    by (simp_all add: apply_exit_def Let_def)
qed

text \<open>
  C11 (equivalence). Two passes that race over one closing fill do not apply it twice: once an
  exit has been applied to a group, applying the same rows to it again, with any roll or
  delivery link, leaves the group and the whole ledger exactly as they are (no second event, no
  restamped P&L), reports no row, and still reports whether the group is fully closed.\<close>

theorem exit_applied_once:
  "let (applied, g1, s1) = apply_exit g rows rolled delivery s;
       (again, g2, s2) = apply_exit g1 rows rolled' delivery' s1
   in g2 = g1 \<and> s2 = s1 \<and> ae_rows again = [] \<and> ae_fully_closed again = ae_fully_closed applied"
proof -
  obtain applied g1 s1 where one: "apply_exit g rows rolled delivery s = (applied, g1, s1)"
    by (metis prod_cases3)
  obtain again g2 s2 where two: "apply_exit g1 rows rolled' delivery' s1 = (again, g2, s2)"
    by (metis prod_cases3)
  have pk: "og_pk g1 = og_pk g" using apply_exit_pk [of g rows rolled delivery s] by (simp add: one)
  have mem: "set (tids rows) \<subseteq> set (tids (og_rows g1))"
    using apply_exit_members [of rows g rolled delivery s] by (simp add: one)
  have txns: "st_transactions s1 = st_transactions (attach_transactions_to_trade_group (tids rows) (og_pk g1) s)"
    using apply_exit_transactions [of g rows rolled delivery s] by (simp add: one pk)
  note known = apply_exit_known [OF mem, of rolled' delivery' s1, unfolded two, simplified]
  have "s2 = s1" using known(2) attach_attached [OF txns subset_refl] by simp
  moreover have "ae_fully_closed again = ae_fully_closed applied"
    using apply_exit_closed [of g rows rolled delivery s] apply_exit_closed [of g1 rows rolled' delivery' s1] known(1)
    by (simp add: one two)
  ultimately show ?thesis using known by (simp add: one two)
qed

section \<open>Groups under a heal\<close>

lemma upsert_known_group:
  assumes ok: "ledger_ok s" and "get_trade_group_by_id s pk = Some tg" and "tg_group_id tg' = tg_group_id tg"
  shows "get_trade_group_by_id (snd (upsert_trade_group tg' s)) pk' =
     (if pk' = pk then Some tg' else get_trade_group_by_id s pk')"
proof -
  note tab = ledger_ok_tables(5) [OF ok]
  have key: "trade_group_key tg' = Some (tg_group_id tg)" by (simp add: trade_group_key_def assms(3))
  have "table_id_of (st_trade_groups s) (tg_group_id tg) = Some pk"
    using table_ok_index [OF tab, of "tg_group_id tg" pk] assms(2)
    by (simp add: table_id_of_def get_trade_group_by_id_def table_get_def trade_group_key_def)
  with table_upsert_key(4) [OF tab key] table_upsert_get [OF tab, of tg' pk'] show ?thesis
    by (simp add: get_trade_group_by_id_def upsert_trade_group_def case_prod_beta)
qed

lemma in_range_all [simp]: "in_range t None None"
  by (simp add: in_range_def split: option.split)

lemma in_load_open_groups:
  assumes ok: "ledger_ok s"
  shows "g \<in> set (load_open_groups s account) \<longleftrightarrow>
     (\<exists>tg. get_trade_group_by_id s (og_pk g) = Some tg \<and> tg_account tg = account \<and> tg_status tg = ''open'')
     \<and> og_rows g = group_rows s (og_pk g)"
proof -
  note tab = ledger_ok_tables(5) [OF ok]
  have id: "get_trade_group_id s (tg_group_id tg) = Some pk \<longleftrightarrow>
      (\<exists>tg'. get_trade_group_by_id s pk = Some tg' \<and> tg_group_id tg' = tg_group_id tg)" for tg :: trade_group_row and pk
    using table_ok_index [OF tab, of "tg_group_id tg" pk]
    by (simp add: get_trade_group_id_def table_id_of_def get_trade_group_by_id_def table_get_def trade_group_key_def)
  have stored: "tg \<in> snd ` set (table_all (st_trade_groups s)) \<longleftrightarrow> (\<exists>i. get_trade_group_by_id s i = Some tg)" for tg
    using in_table_all [OF tab] by (force simp: get_trade_group_by_id_def image_iff)
  have unique: "i = j" if "get_trade_group_by_id s i = Some a" "get_trade_group_by_id s j = Some b"
      "tg_group_id a = tg_group_id b" for i j a b
    using table_ok_unique [OF tab, of i a j b "tg_group_id a"] that
    by (simp add: get_trade_group_by_id_def table_get_def trade_group_key_def)
  let ?all = "map snd (table_all (st_trade_groups s))"
  let ?filter = "trade_filter0\<lparr>tf_account := Some account, tf_status := Some ''open''\<rparr>"
  let ?load = "\<lambda>trade. map_option (\<lambda>pk. \<lparr>og_pk = pk, og_rows = group_rows s pk\<rparr>) (get_trade_group_id s (tr_group_id trade))"
  have "g \<in> set (load_open_groups s account) \<longleftrightarrow>
      (\<exists>tg \<in> set ?all. trade_matches ?filter tg \<and> ?load (trade_group_to_row tg) = Some g)"
    unfolding load_open_groups_def unified_trades_def set_somes set_map set_filter
    by (auto simp: image_iff eq_commute [of "Some g"])
  also have "\<dots> \<longleftrightarrow> (\<exists>tg pk. tg \<in> snd ` set (table_all (st_trade_groups s)) \<and> tg_account tg = account \<and> tg_status tg = ''open''
        \<and> get_trade_group_id s (tg_group_id tg) = Some pk \<and> g = \<lparr>og_pk = pk, og_rows = group_rows s pk\<rparr>)"
    unfolding set_map by (force simp: trade_matches_def trade_filter0_def trade_group_to_row_def)
  also have "\<dots> \<longleftrightarrow> (\<exists>tg. get_trade_group_by_id s (og_pk g) = Some tg \<and> tg_account tg = account \<and> tg_status tg = ''open'')
     \<and> og_rows g = group_rows s (og_pk g)"
    (is "?listed \<longleftrightarrow> ?open")
  proof
    assume ?listed
    then obtain tg pk i tg' where tg: "get_trade_group_by_id s i = Some tg" "tg_account tg = account" "tg_status tg = ''open''"
      and pk: "get_trade_group_by_id s pk = Some tg'" "tg_group_id tg' = tg_group_id tg"
      and g: "g = \<lparr>og_pk = pk, og_rows = group_rows s pk\<rparr>"
      unfolding stored id by blast
    have "i = pk" using unique [OF tg(1) pk(1)] pk(2) by simp
    then show ?open using tg g by simp
  next
    assume ?open
    then obtain tg where tg: "get_trade_group_by_id s (og_pk g) = Some tg" "tg_account tg = account" "tg_status tg = ''open''"
      and rows: "og_rows g = group_rows s (og_pk g)" by blast
    have "g = \<lparr>og_pk = og_pk g, og_rows = group_rows s (og_pk g)\<rparr>" using rows by (cases g) simp
    then show ?listed unfolding stored id using tg by blast
  qed
  finally show ?thesis .
qed

text \<open>Stamping a group that exists: it is no longer open, and no other group changes.\<close>

lemma stamp_closed_get:
  assumes "ledger_ok s" and "get_trade_group_by_id s pk = Some tg"
  shows "\<exists>tg'. get_trade_group_by_id (stamp_closed pk rows t s) pk = Some tg' \<and> tg_status tg' \<noteq> ''open''
     \<and> tg_account tg' = tg_account tg"
    and "pk' \<noteq> pk \<Longrightarrow> get_trade_group_by_id (stamp_closed pk rows t s) pk' = get_trade_group_by_id s pk'"
  using assms by (simp_all add: stamp_closed_def upsert_known_group status_of_causes_not_open)

lemma heal_group_get:
  assumes "ledger_ok s" and "get_trade_group_by_id (heal_group s g) pk = Some tg" and "tg_status tg = ''open''"
  shows "pk \<noteq> og_pk g \<and> get_trade_group_by_id s pk = Some tg"
proof (cases "get_trade_group_by_id s (og_pk g)")
  case None
  then show ?thesis using assms by (auto simp: heal_group_def Let_def)
next
  case (Some old)
  have events: "get_trade_group_by_id (add_trade_group_event ev s') p = get_trade_group_by_id s' p" for ev s' p
    by (simp add: add_trade_group_event_def get_trade_group_by_id_def Let_def)
  let ?t = "max_opt (event_times (og_rows g))"
  have healed: "get_trade_group_by_id (stamp_closed (og_pk g) (og_rows g) ?t s) pk = Some tg"
    using assms(2) Some by (simp add: heal_group_def Let_def events)
  note stamped = stamp_closed_get [OF assms(1) Some, where rows = "og_rows g" and t = ?t]
  have "pk \<noteq> og_pk g" using stamped(1) healed assms(3) by auto
  with stamped(2) healed show ?thesis by simp
qed

lemma heal_walk:
  assumes "ledger_ok s" and "get_trade_group_by_id (foldl heal_group s groups) pk = Some tg" and "tg_status tg = ''open''"
  shows "pk \<notin> pks groups \<and> get_trade_group_by_id s pk = Some tg"
  using assms
proof (induction groups arbitrary: s)
  case (Cons g groups)
  have "ledger_ok (heal_group s g)"
    using Cons.prems(1) by (simp add: heal_group_def Let_def ledger_ok_intros)
  from Cons.IH [OF this] Cons.prems(2,3)
  have "pk \<notin> pks groups" "get_trade_group_by_id (heal_group s g) pk = Some tg" by simp_all
  with heal_group_get [OF Cons.prems(1) this(2) Cons.prems(3)] show ?case by (auto simp: pks_def)
qed (simp add: pks_def)

lemma group_rows_same: "st_transactions s' = st_transactions s \<Longrightarrow> group_rows s' pk = group_rows s pk"
  by (simp add: group_rows_def get_group_transactions_def)

lemma healed_none_left:
  assumes ok: "ledger_ok s"
  shows "filter (\<lambda>g. fully_closed (og_rows g))
     (load_open_groups (snd (heal_fully_closed_groups account False s)) account) = []"
proof -
  let ?stuck = "filter (\<lambda>g. fully_closed (og_rows g)) (load_open_groups s account)"
  let ?s' = "snd (heal_fully_closed_groups account False s)"
  have run: "?s' = foldl heal_group s ?stuck" by (simp add: heal_fully_closed_groups_def Let_def)
  have ok': "ledger_ok ?s'" by (rule ledger_ok_heal [OF ok])
  have "\<not> fully_closed (og_rows g)" if g: "g \<in> set (load_open_groups ?s' account)" for g
  proof
    assume full: "fully_closed (og_rows g)"
    obtain tg where tg: "get_trade_group_by_id ?s' (og_pk g) = Some tg" "tg_account tg = account" "tg_status tg = ''open''"
      and rows: "og_rows g = group_rows ?s' (og_pk g)"
      using g in_load_open_groups [OF ok'] by blast
    from heal_walk [OF ok, of ?stuck "og_pk g" tg] tg run
    have unhealed: "og_pk g \<notin> pks ?stuck" "get_trade_group_by_id s (og_pk g) = Some tg" by simp_all
    have "og_rows g = group_rows s (og_pk g)"
      using rows group_rows_same [of ?s' s] by simp
    then have "g \<in> set (load_open_groups s account)"
      using unhealed(2) tg in_load_open_groups [OF ok] by blast
    then show False using unhealed(1) full by (auto simp: pks_def)
  qed
  then show ?thesis by (simp add: filter_empty_conv)
qed

lemma clean_run_closes_groups:
  assumes ok: "ledger_ok s"
    and run: "reconcile_account since resolver settle_after False account (r, s) = (r', s')"
    and clean: "sr_errors r' = sr_errors r"
  shows "filter (\<lambda>g. fully_closed (og_rows g)) (load_open_groups s' account) = []
    \<and> fst (heal_fully_closed_groups account dry_run s') = 0"
proof -
  let ?syn = "synthesize_lapsed_settlements account resolver settle_after False (link_edges account s)"
  obtain res s2 where syn: "?syn = (res, s2)" by fastforce
  have ok2: "ledger_ok s2"
    using ledger_ok_synthesize [OF ledger_ok_link_edges [OF ok], of account resolver settle_after False account] syn by simp
  obtain rows where rows: "res = Inr rows"
    using run clean syn by (cases res) (auto simp: reconcile_account_def Let_def)
  let ?st = "run_clusters False account since s2"
  let ?s3 = "link_cross_cluster_rolls (rs_exits ?st) (rs_created ?st) (rs_ledger ?st)"
  have "s' = snd (heal_fully_closed_groups account False ?s3)"
    using run syn rows by (auto simp: reconcile_account_def Let_def case_prod_beta)
  moreover have "ledger_ok ?s3" using ok2 by (simp add: ledger_ok_intros)
  ultimately have none: "filter (\<lambda>g. fully_closed (og_rows g)) (load_open_groups s' account) = []"
    using healed_none_left by blast
  then show ?thesis by (simp add: heal_fully_closed_groups_def Let_def)
qed

text \<open>
  C3 (liveness). A run that is not dry and ends without an error leaves nothing half closed:
  afterwards no open group of the account has a membership that is fully closed, however such a
  group came to be, so another heal would find nothing to repair.\<close>

theorem reconcile_leaves_no_closed_group_open:
  assumes ok: "ledger_ok s"
    and run: "reconcile_account since resolver settle_after False account (r, s) = (r', s')"
    and clean: "sr_errors r' = sr_errors r"
  shows "filter (\<lambda>g. fully_closed (og_rows g)) (load_open_groups s' account) = []
    \<and> fst (heal_fully_closed_groups account dry_run s') = 0"
  by (rule clean_run_closes_groups) (rule assms)+

theorem reconcile_leaves_no_closed_group_open_witness:
  "filter (\<lambda>g. fully_closed (og_rows g))
     (load_open_groups (snd (reconcile_account None None DEFAULT_SETTLE_AFTER False ''acct'' (sync_result0, example_pending))) ''acct'') = []"
proof -
  have ok: "ledger_ok example_pending"
    unfolding example_pending_def by (simp add: ledger_ok_upsert_transaction ledger_ok_empty)
  obtain r' s' where run: "reconcile_account None None DEFAULT_SETTLE_AFTER False ''acct'' (sync_result0, example_pending) = (r', s')"
    by fastforce
  have "sr_errors r' = sr_errors sync_result0"
    using reconcile_account_no_resolver [of None DEFAULT_SETTLE_AFTER False "''acct''" "(sync_result0, example_pending)"] run
    by simp
  from reconcile_leaves_no_closed_group_open [OF ok run this] run show ?thesis by simp
qed

section \<open>Synthesized settlements\<close>

text \<open>What one lapse row is worth to its group, and to the account.\<close>

lemma signed_net_lapse_row:
  "signed_net (lapse_row account pk sid sec ex points n)
     = points * n * of_int (int_or_1 (sec_multiplier sec))"
  by (simp add: lapse_row_def signed_net_def Let_def abs_if)

lemma sum_nonzero: "sum_list (map f (filter (\<lambda>x. f x \<noteq> 0) xs)) = sum_list (map f xs)"
  for f :: "'a \<Rightarrow> rat"
  by (induction xs) simp_all

lemma is_nontrade_lapse: "is_nontrade_close (lapse_row account pk sid sec ex points n)"
  by (simp add: lapse_row_def is_nontrade_close_def rd_event_by_subtype_def Let_def)

lemma lapse_row_shape [simp]:
  "r_security_id (lapse_row account pk sid sec ex points n) = Some sid"
  "r_quantity (lapse_row account pk sid sec ex points n) = Some \<bar>n\<bar>"
  "r_transaction_type (lapse_row account pk sid sec ex points n) = Some ''Receive Deliver''"
  "r_executed_at (lapse_row account pk sid sec ex points n) = Some (lapse_time ex)"
  by (simp_all add: lapse_row_def Let_def)

lemma lapse_row_flattens:
  assumes "dec0 cur = n"
  shows "dec0 (net_move cur (lapse_row account pk sid sec ex points n)) = 0"
proof -
  let ?row = "lapse_row account pk sid sec ex points n"
  have "group_net_step n ?row = (if n = 0 then None else Some (toward_zero n \<bar>n\<bar>))"
    by (simp add: group_net_step_def is_nontrade_lapse row_qty_def)
  moreover have "toward_zero n \<bar>n\<bar> = 0" by (simp add: toward_zero_def abs_if)
  ultimately show ?thesis using assms by (simp add: net_move_def split: option.split)
qed

lemma security_rows_blank: "security_rows [] rows = []"
  by (auto simp: security_rows_def ordered_position_rows_def str_true_def str0_def filter_empty_conv
      split: option.splits)

text \<open>
  C19 (functional). The settlements synthesized for one expired security are the account's real
  exposure: summed over the groups that hold it, long and short alike, their cash is the
  settlement value times the multiplier times the sum of the groups' own nets, so offsetting
  siblings cancel; and each row flattens the group it is made for, as long as the group traded
  the security no later than the settlement.\<close>

theorem lapse_settlements_are_the_exposure:
  assumes "g \<in> set groups" and "dict_get_or (net_quantities (og_rows g)) sid 0 = n"
    and "\<forall>r \<in> set (og_rows g). time_key (r_executed_at r) \<le> time_key (Some (lapse_time ex))"
  shows "sum_list (map (\<lambda>(_, txn). signed_net (ledger_row.truncate txn))
        (lapse_security account groups sid sec ex points))
      = points * of_int (int_or_1 (sec_multiplier sec))
        * sum_list (map (\<lambda>g. dict_get_or (net_quantities (og_rows g)) sid 0) groups)
    \<and> dict_get_or (net_quantities (og_rows g @ [lapse_row account (og_pk g) sid sec ex points n])) sid 0 = 0"
proof
  let ?net = "\<lambda>g. dict_get_or (net_quantities (og_rows g)) sid 0"
  let ?k = "points * of_int (int_or_1 (sec_multiplier sec))"
  let ?held = "filter (\<lambda>g. ?net g \<noteq> 0) (sort_key og_pk groups)"
  have "map (\<lambda>(_, txn). signed_net (ledger_row.truncate txn)) (lapse_security account groups sid sec ex points)
      = map (\<lambda>g. ?k * ?net g) ?held"
    by (simp add: lapse_security_def filter_map comp_def signed_net_lapse_row mult_ac)
  also have "sum_list \<dots> = ?k * sum_list (map ?net ?held)" by (simp add: sum_list_const_mult)
  also have "sum_list (map ?net ?held) = sum_list (map ?net groups)"
    unfolding sum_nonzero by (rule sum_list_mset_cong) simp
  finally show "sum_list (map (\<lambda>(_, txn). signed_net (ledger_row.truncate txn))
      (lapse_security account groups sid sec ex points)) = ?k * sum_list (map ?net groups)" .
  let ?row = "lapse_row account (og_pk g) sid sec ex points n"
  have "ordered_position_rows (og_rows g @ [?row]) = ordered_position_rows (og_rows g) @ ordered_position_rows [?row]"
    by (rule ordered_position_rows_append) (use assms(3) in simp)
  then have "security_rows sid (og_rows g @ [?row])
      = security_rows sid (og_rows g) @ (if sid = [] then [] else [?row])"
    by (auto simp: security_rows_def ordered_position_rows_def str_true_def)
  then show "dict_get_or (net_quantities (og_rows g @ [?row])) sid 0 = 0"
    using assms(2) lapse_row_flattens [of "dict_get (net_quantities (og_rows g)) sid" n]
    by (cases "sid = []") (simp_all add: dict_get_or_dec0 net_quantities_get security_rows_blank)
qed

theorem lapse_settlements_are_the_exposure_witness:
  "let long = \<lparr>og_pk = 1, og_rows = [example_row ''1'' ''Buy to Open'' 2 1 0]\<rparr>;
       short = \<lparr>og_pk = 2, og_rows = [example_row ''2'' ''Sell to Open'' 2 1 0]\<rparr>;
       sec = security_of \<lparr> rs_security_id = ''opt'', rs_product_type = None, rs_underlying = None,
               rs_expiry = Some 5, rs_strike = None, rs_option_type = None, rs_multiplier = Some 100 \<rparr> None
   in sum_list (map (\<lambda>(_, txn). signed_net (ledger_row.truncate txn))
        (lapse_security ''acct'' [long, short] ''opt'' sec 5 3)) = 0"
proof -
  let ?long = "\<lparr>og_pk = 1, og_rows = [example_row ''1'' ''Buy to Open'' 2 1 0]\<rparr>"
  let ?short = "\<lparr>og_pk = 2, og_rows = [example_row ''2'' ''Sell to Open'' 2 1 0]\<rparr>"
  have net: "dict_get_or (net_quantities (og_rows ?long)) ''opt'' 0 = 2"
    "dict_get_or (net_quantities (og_rows ?short)) ''opt'' 0 = - 2" by code_simp+
  have mem: "?long \<in> set [?long, ?short]" by simp
  have early: "\<forall>r \<in> set (og_rows ?long). time_key (r_executed_at r) \<le> time_key (Some (lapse_time 5))" by code_simp
  from lapse_settlements_are_the_exposure [OF mem net(1) early, where account = "''acct''" and points = 3] net
  show ?thesis by (simp add: Let_def)
qed

end
