(* ===== verification/Repository_Laws.thy ===== *)
theory Repository_Laws
  imports Repositories
begin

text \<open>
  What the importers promise: a re-synced order keeps its origin and every linkage column, a
  re-synced position its attribution; importing the same page of transactions twice is importing
  it once; a redelivered stream event changes nothing; and the order-level fill figures derived
  from the legs are consistent with the legs.
\<close>

section \<open>What resolving securities touches\<close>

lemma resolve_once_tables:
  "st_orders (snd (snd (resolve_once resolver vendor ity acc))) = st_orders (snd acc)
     \<and> st_transactions (snd (snd (resolve_once resolver vendor ity acc))) = st_transactions (snd acc)
     \<and> st_positions (snd (snd (resolve_once resolver vendor ity acc))) = st_positions (snd acc)"
  by (cases acc) (simp add: resolve_once_def upsert_security_def split: sum.split)

lemma resolve_once_ok:
  "ledger_ok (snd acc) \<Longrightarrow> ledger_ok (snd (snd (resolve_once resolver vendor ity acc)))"
  by (cases acc) (simp add: resolve_once_def ledger_ok_upsert_security split: sum.split)

lemma resolve_once_result: "fst (resolve_once resolver vendor ity acc) = resolver vendor ity"
  by (cases acc) (simp add: resolve_once_def split: sum.split)

lemma resolve_legs_tables:
  "st_orders (snd (snd (resolve_legs resolver legs acc))) = st_orders (snd acc)
     \<and> (ledger_ok (snd acc) \<longrightarrow> ledger_ok (snd (snd (resolve_legs resolver legs acc))))"
proof (induction legs arbitrary: acc)
  case (Cons leg legs)
  obtain res acc1 where one: "resolve_once resolver (pl_symbol leg) (Some (pl_instrument_type leg)) acc = (res, acc1)"
    by (metis surj_pair)
  then have tables: "st_orders (snd acc1) = st_orders (snd acc)" "ledger_ok (snd acc) \<Longrightarrow> ledger_ok (snd acc1)"
    using resolve_once_tables [of resolver "pl_symbol leg" "Some (pl_instrument_type leg)" acc]
      resolve_once_ok [of acc resolver "pl_symbol leg" "Some (pl_instrument_type leg)"] by simp_all
  show ?case
    using tables Cons.IH [of acc1] by (simp add: one case_prod_beta split: sum.split)
qed simp

lemma resolve_orders_tables:
  "st_orders (snd (snd (resolve_orders resolver placed acc))) = st_orders (snd acc)
     \<and> (ledger_ok (snd acc) \<longrightarrow> ledger_ok (snd (snd (resolve_orders resolver placed acc))))"
proof (induction placed arbitrary: acc)
  case (Cons po placed)
  obtain res acc1 where one: "resolve_legs resolver (po_legs po) acc = (res, acc1)" by (metis surj_pair)
  then have tables: "st_orders (snd acc1) = st_orders (snd acc)" "ledger_ok (snd acc) \<Longrightarrow> ledger_ok (snd acc1)"
    using resolve_legs_tables [of resolver "po_legs po" acc] by simp_all
  show ?case
    using tables Cons.IH [of acc1] by (simp add: one case_prod_beta split: sum.split)
qed simp

section \<open>Orders\<close>

definition link_columns ::
  "order_row \<Rightarrow> string option \<times> string option \<times> string option \<times> string option \<times> nat option \<times> nat option \<times> nat option"
  where
  "link_columns ord =
     (o_oms_order_id ord, o_client_order_id ord, o_signal_id ord, o_trace_id ord, o_strategy_id ord,
     o_trade_group_id ord, o_market_context_id ord)"


lemma or_else_keeps: "a \<in> {None, b} \<Longrightarrow> or_else a b = b"
  by (auto simp: or_else_def split: option.split)

lemma order_preserve_links:
  assumes "o_oms_order_id row \<in> {None, o_oms_order_id e}" "o_client_order_id row \<in> {None, o_client_order_id e}"
    "o_signal_id row \<in> {None, o_signal_id e}" "o_trace_id row \<in> {None, o_trace_id e}"
    "o_strategy_id row \<in> {None, o_strategy_id e}" "o_trade_group_id row \<in> {None, o_trade_group_id e}"
    "o_market_context_id row \<in> {None, o_market_context_id e}"
  shows "link_columns (order_preserve e row) = link_columns e"
  using assms [THEN or_else_keeps] by (simp add: link_columns_def order_preserve_def)

text \<open>An incoming row that the store merges into a row linked like \<open>e\<close> without changing its
  linkage or its origin; for an order of the host, without moving it either.\<close>

definition same_standing :: "order_row \<Rightarrow> order_row \<Rightarrow> bool" where
  "same_standing e row \<longleftrightarrow>
     link_columns row = link_columns e \<and> o_origin row = o_origin e
   \<and> (o_origin e = ZTS \<longrightarrow> o_account row = o_account e \<and> o_security_id row = o_security_id e
        \<and> o_price row = o_price e \<and> o_ingest row = o_ingest e)"

definition merges_into :: "order_row \<Rightarrow> order_row \<Rightarrow> bool" where
  "merges_into e row \<longleftrightarrow> (\<forall>x. link_columns x = link_columns e \<longrightarrow> same_standing e (order_preserve x row))"

lemma merges_intoI:
  assumes "o_oms_order_id row \<in> {None, o_oms_order_id e}" "o_client_order_id row \<in> {None, o_client_order_id e}"
    "o_signal_id row \<in> {None, o_signal_id e}" "o_trace_id row \<in> {None, o_trace_id e}"
    "o_strategy_id row \<in> {None, o_strategy_id e}" "o_trade_group_id row \<in> {None, o_trade_group_id e}"
    "o_market_context_id row \<in> {None, o_market_context_id e}" "o_origin row = o_origin e"
    "o_origin e = ZTS \<Longrightarrow> o_account row = o_account e \<and> o_security_id row = o_security_id e
        \<and> o_price row = o_price e \<and> o_ingest row = o_ingest e"
  shows "merges_into e row"
  unfolding merges_into_def
proof (intro allI impI)
  fix x assume x: "link_columns x = link_columns e"
  then have cols: "o_oms_order_id x = o_oms_order_id e" "o_client_order_id x = o_client_order_id e"
    "o_signal_id x = o_signal_id e" "o_trace_id x = o_trace_id e" "o_strategy_id x = o_strategy_id e"
    "o_trade_group_id x = o_trade_group_id e" "o_market_context_id x = o_market_context_id e"
    by (simp_all add: link_columns_def)
  have "link_columns (order_preserve x row) = link_columns x"
    by (rule order_preserve_links) (use assms cols in simp_all)
  then show "same_standing e (order_preserve x row)"
    using x assms(8,9) by (auto simp: same_standing_def order_preserve_def)
qed

lemma upsert_order_lookup:
  assumes ok: "ledger_ok s" and key: "o_tt_order_id row = Some tt'"
  shows "get_order (snd (upsert_order row s)) tt =
     (if tt = tt' then Some (synced_order s row) else get_order s tt)"
proof -
  note tab = ledger_ok_tables(1) [OF ok]
  have "order_key (synced_order s row) = Some tt'"
    using key by (auto simp: synced_order_def order_key_def order_preserve_def split: option.split)
  from tbl.upsert_stored [OF tab this] tbl.upsert_frame [OF tab this, of tt] show ?thesis
    by (simp add: get_order_def upsert_order_alt)
qed

lemma upsert_orders_standing:
  assumes "ledger_ok s" and "get_order s tt = Some x" and "same_standing e x" and "tt \<noteq> []"
    and "\<forall>row \<in> set rows. o_tt_order_id row \<noteq> None \<and> (o_tt_order_id row = Some tt \<longrightarrow> merges_into e row)"
  shows "\<exists>y. get_order (snd (upsert_orders rows s)) tt = Some y \<and> same_standing e y
      \<and> (Some tt \<notin> o_tt_order_id ` set rows \<longrightarrow> y = x)"
  using assms
proof (induction rows arbitrary: s x)
  case (Cons row rows)
  let ?s = "snd (upsert_order row s)"
  obtain tt' where tt': "o_tt_order_id row = Some tt'" using Cons.prems(5) by auto
  have ok: "ledger_ok ?s" by (rule ledger_ok_upsert_order [OF Cons.prems(1)])
  obtain x' where x': "get_order ?s tt = Some x'" "same_standing e x'" "o_tt_order_id row \<noteq> Some tt \<longrightarrow> x' = x"
  proof (cases "tt' = tt")
    case True
    have "synced_order s row = order_preserve x row"
      using Cons.prems(2,4) tt' True by (simp add: synced_order_def get_order_def str_true_def)
    moreover have "same_standing e (order_preserve x row)"
      using Cons.prems(3,5) tt' True by (auto simp: merges_into_def same_standing_def)
    ultimately show ?thesis
      using that upsert_order_lookup [OF Cons.prems(1) tt', of tt] True tt' by simp
  next
    case False
    then show ?thesis
      using that upsert_order_lookup [OF Cons.prems(1) tt', of tt] Cons.prems(2,3) by simp
  qed
  have "\<forall>row \<in> set rows. o_tt_order_id row \<noteq> None \<and> (o_tt_order_id row = Some tt \<longrightarrow> merges_into e row)"
    using Cons.prems(5) by simp
  from Cons.IH [OF ok x'(1,2) Cons.prems(4) this] x'(3) show ?case
    by (auto simp: case_prod_beta)
qed simp


lemma get_order_id:
  assumes "ledger_ok s" and "get_order s tt = Some e"
  shows "o_tt_order_id e = Some tt"
  using assms(2) table_get_by_key_ok [OF ledger_ok_tables(1) [OF assms(1)], of tt e]
  by (auto simp: get_order_def order_key_def)

lemma enriched_order_merges:
  "o_origin e = ZTS \<Longrightarrow> merges_into e (enriched_order po figures e)"
  by (rule merges_intoI) (simp_all add: enriched_order_def case_prod_beta)

lemma broker_order_merges:
  "o_origin e = BROKER \<Longrightarrow> merges_into e (broker_order po account sid figures (Some e))"
  by (rule merges_intoI) (simp_all add: broker_order_def case_prod_beta Let_def)

lemma build_order_row_merges:
  assumes "get_order s (po_id po) = Some e"
  shows "merges_into e (build_order_row s account (po, rs))"
  using assms by (cases "o_origin e")
    (simp_all add: build_order_row_def Let_def enriched_order_merges broker_order_merges)

lemma build_order_row_id:
  assumes "ledger_ok s"
  shows "o_tt_order_id (build_order_row s account (po, rs)) = Some (po_id po)"
proof (cases "get_order s (po_id po)")
  case None
  then show ?thesis by (simp add: build_order_row_def Let_def broker_order_def case_prod_beta)
next
  case (Some e)
  then show ?thesis
    using get_order_id [OF assms Some]
    by (simp add: build_order_row_def Let_def enriched_order_def broker_order_def case_prod_beta)
qed

lemma st_orders_upsert_legs: "st_orders (snd (upsert_legs rows s)) = st_orders s"
proof (induction rows arbitrary: s)
  case (Cons row rows)
  show ?case
    using Cons.IH [of "s\<lparr>st_legs := snd (table_upsert leg_row_key row (st_legs s))\<rparr>"]
    by (simp add: Let_def case_prod_beta)
qed simp

lemma st_orders_upsert_fills: "st_orders (upsert_fills rows s) = st_orders s"
  by (induction rows arbitrary: s) simp_all

text \<open>The orders an import of a history page leaves.\<close>

lemma upsert_from_history_orders:
  "\<exists>s1 rows. st_orders s1 = st_orders s \<and> (ledger_ok s \<longrightarrow> ledger_ok s1)
     \<and> st_orders (snd (upsert_from_history resolver account placed s)) = st_orders (snd (upsert_orders rows s1))
     \<and> set rows \<subseteq> {build_order_row s1 account (po, rs) | po rs. po \<in> set placed}"
proof (cases "resolve_orders resolver placed ([], s)")
  case (fields res seen s1)
  have s1: "st_orders s1 = st_orders s" "ledger_ok s \<longrightarrow> ledger_ok s1"
    using resolve_orders_tables [of resolver placed "([], s)"] by (simp_all add: fields)
  show ?thesis
  proof (cases "placed = [] \<or> isl res")
    case True
    then have "st_orders (snd (upsert_from_history resolver account placed s)) = st_orders (snd (upsert_orders [] s1))"
      by (auto simp: upsert_from_history_def fields s1 isl_def)
    then show ?thesis
      using s1 by (intro exI [of _ s1] exI [of _ "[]"]) simp
  next
    case False
    then obtain rss where res: "res = Inr rss" by (cases res) simp_all
    let ?rows = "map (build_order_row s1 account) (zip placed rss)"
    have "st_orders (snd (upsert_from_history resolver account placed s)) = st_orders (snd (upsert_orders ?rows s1))"
      using False by (simp add: upsert_from_history_def fields res Let_def case_prod_beta
          st_orders_upsert_legs st_orders_upsert_fills)
    moreover have "set ?rows \<subseteq> {build_order_row s1 account (po, rs) | po rs. po \<in> set placed}"
      by (auto dest: set_zip_leftD)
    ultimately show ?thesis
      using s1 by blast
  qed
qed

text \<open>
  C17 (invariant). Importing a page of broker order history, whatever the resolver does, never
  rewrites who an order belongs to: an order already in the ledger keeps its origin and every
  linkage column (host order id, client id, signal, trace, strategy, trade group, market
  context); an order the host placed (origin zts) also keeps its account, security, limit price
  and ingest path; and an order the page does not mention is left exactly as it was.\<close>

theorem order_history_keeps_standing:
  assumes "ledger_ok s" and "get_order s tt = Some e" and "tt \<noteq> []"
  shows "\<exists>e'. get_order (snd (upsert_from_history resolver account placed s)) tt = Some e'
      \<and> same_standing e e' \<and> (tt \<notin> po_id ` set placed \<longrightarrow> e' = e)"
proof -
  obtain s1 rows where s1: "st_orders s1 = st_orders s" "ledger_ok s1"
    and after: "st_orders (snd (upsert_from_history resolver account placed s)) = st_orders (snd (upsert_orders rows s1))"
    and rows: "set rows \<subseteq> {build_order_row s1 account (po, rs) | po rs. po \<in> set placed}"
    using upsert_from_history_orders [of s resolver account placed] assms(1) by blast
  have e: "get_order s1 tt = Some e" using assms(2) s1(1) by (simp add: get_order_def)
  have each: "\<exists>po. po \<in> set placed \<and> o_tt_order_id row = Some (po_id po) \<and> (po_id po = tt \<longrightarrow> merges_into e row)"
    if "row \<in> set rows" for row
  proof -
    obtain po rs where "row = build_order_row s1 account (po, rs)" "po \<in> set placed"
      using rows \<open>row \<in> set rows\<close> by blast
    then show ?thesis
      using build_order_row_id [OF s1(2)] build_order_row_merges e by fastforce
  qed
  then have "\<forall>row \<in> set rows. o_tt_order_id row \<noteq> None \<and> (o_tt_order_id row = Some tt \<longrightarrow> merges_into e row)"
    by fastforce
  moreover have "same_standing e e" by (simp add: same_standing_def)
  ultimately obtain y where y: "get_order (snd (upsert_orders rows s1)) tt = Some y" "same_standing e y"
    "Some tt \<notin> o_tt_order_id ` set rows \<longrightarrow> y = e"
    using upsert_orders_standing [OF s1(2) e _ assms(3), of e rows] by blast
  have "tt \<notin> po_id ` set placed \<longrightarrow> y = e"
    using y(3) each by fastforce
  then show ?thesis
    using y(1,2) after by (auto simp: get_order_def)
qed

definition example_order_leg :: "decimal \<Rightarrow> decimal \<Rightarrow> placed_leg" where
  "example_order_leg quantity filled =
     \<lparr> pl_instrument_type = ''Equity Option'', pl_symbol = ''SPY'', pl_action = ''Buy to Open'',
       pl_quantity = quantity, pl_remaining_quantity = quantity - filled,
       pl_fills = [\<lparr> pf_fill_id = ''f1'', pf_quantity = filled, pf_fill_price = 2, pf_filled_at = 0,
                    pf_destination_venue = None, pf_ext_exec_id = None, pf_ext_group_fill_id = None \<rparr>] \<rparr>"

definition example_placed :: placed_order where
  "example_placed =
     \<lparr> po_id = ''T1'', po_account_number = ''5W1'', po_received_at = 0, po_legs = [example_order_leg 2 2],
       po_underlying_symbol = Some ''SPY'', po_underlying_instrument_type = None,
       po_order_type = None, po_time_in_force = None, po_gtc_date = None, po_price = Some 3,
       po_stop_trigger = None, po_price_effect = Some ''Debit'', po_status = Some ''Filled'',
       po_reject_reason = None, po_complex_order_id = None, po_complex_order_tag = None,
       po_updated_at = None, po_terminal_at = Some 7 \<rparr>"

definition example_resolver :: resolver where
  "example_resolver vendor ity =
     Inr \<lparr> rs_security_id = vendor, rs_product_type = None, rs_underlying = None, rs_expiry = None,
           rs_strike = None, rs_option_type = None, rs_multiplier = None \<rparr>"

definition example_host_order :: order_row where
  "example_host_order =
     (broker_order example_placed ''acct'' None (None, None, None) None)
       \<lparr>o_origin := ZTS, o_signal_id := Some ''sig''\<rparr>"

definition example_host_ledger :: ledger where
  "example_host_ledger = snd (upsert_order example_host_order (ledger_empty 0 (\<lambda>_. [])))"

lemma example_host_ledger_order:
  "ledger_ok example_host_ledger" "get_order example_host_ledger ''T1'' = Some example_host_order"
proof -
  have key: "o_tt_order_id example_host_order = Some ''T1''"
    by (simp add: example_host_order_def broker_order_def Let_def example_placed_def)
  show "ledger_ok example_host_ledger"
    by (simp add: example_host_ledger_def ledger_ok_upsert_order ledger_ok_empty)
  show "get_order example_host_ledger ''T1'' = Some example_host_order"
    unfolding example_host_ledger_def upsert_order_lookup [OF ledger_ok_empty key]
    by (simp add: synced_order_def key str_true_def ledger_empty_def table_empty_def table_get_by_key_def)
qed

theorem order_history_keeps_standing_witness:
  "\<exists>e'. get_order (snd (upsert_from_history example_resolver ''acct'' [example_placed] example_host_ledger)) ''T1''
        = Some e' \<and> same_standing example_host_order e'"
  using order_history_keeps_standing [OF example_host_ledger_order, of example_resolver "''acct''" "[example_placed]"]
  by blast

section \<open>Stream fills\<close>

lemma dict_set_twice [simp]: "dict_set k v (dict_set k w d) = dict_set k v d"
  by (induction d) auto

lemma order_preserve_known:
  "link_columns row = link_columns e \<Longrightarrow> order_preserve e row = row"
  by (auto simp: link_columns_def order_preserve_def or_else_def split: option.split)

lemma or_else_twice: "or_else a (or_else a b) = or_else a b"
  by (simp add: or_else_def split: option.split)

lemma status_text_twice: "status_text st (status_text st old) = status_text st old"
  by (simp add: status_text_def split: option.split)

text \<open>The order a stream event leaves.\<close>

definition event_applied :: "fill_event \<Rightarrow> order_row \<Rightarrow> order_row" where
  "event_applied evt e =
     e\<lparr> o_oms_status := status_text (map_order_status (fe_status evt)) (o_oms_status e),
        o_tt_status := or_else (fe_status evt) (o_tt_status e),
        o_average_fill_price := or_else (fe_average_fill_price evt) (o_average_fill_price e),
        o_filled_quantity := or_else (fe_filled_quantity evt) (o_filled_quantity e),
        o_remaining_quantity := or_else (fe_remaining_quantity evt) (o_remaining_quantity e),
        o_filled_at := or_else (fe_filled_at evt) (o_filled_at e) \<rparr>"

lemma event_applied_twice: "event_applied evt (event_applied evt e) = event_applied evt e"
  by (simp add: event_applied_def or_else_twice status_text_twice)

lemma apply_fill_event_known:
  assumes ok: "ledger_ok s" and e: "get_order s (fe_tt_order_id evt) = Some e"
    and i: "table_id_of (st_orders s) (fe_tt_order_id evt) = Some i"
  shows "apply_fill_event evt s =
     (Some (event_applied evt e),
      s\<lparr>st_orders := st_orders s\<lparr>tb_rows := dict_set i (event_applied evt e) (tb_rows (st_orders s))\<rparr>\<rparr>)"
proof -
  let ?u = "event_applied evt e"
  have id: "o_tt_order_id ?u = Some (fe_tt_order_id evt)"
    using get_order_id [OF ok e] by (simp add: event_applied_def)
  have "link_columns ?u = link_columns e" by (simp add: event_applied_def link_columns_def)
  from order_preserve_known [OF this] have "synced_order s ?u = ?u"
    using e by (simp add: synced_order_def id get_order_def)
  moreover have "table_upsert order_key ?u (st_orders s) =
      (i, st_orders s\<lparr>tb_rows := dict_set i ?u (tb_rows (st_orders s))\<rparr>)"
    by (rule table_upsert_known [OF _ i]) (simp add: order_key_def id)
  ultimately show ?thesis
    by (simp add: apply_fill_event_def e event_applied_def [symmetric] upsert_order_alt Let_def)
qed

text \<open>
  The stream is at-least-once, and a redelivered event is harmless: applying a
  fill event to a well-formed ledger twice returns the same order and leaves the same ledger as
  applying it once; for an order the ledger does not know it is a no-op that returns nothing.\<close>

theorem fill_event_redelivery:
  assumes ok: "ledger_ok s"
  shows "apply_fill_event evt (snd (apply_fill_event evt s)) = apply_fill_event evt s
    \<and> (get_order s (fe_tt_order_id evt) = None \<longrightarrow> apply_fill_event evt s = (None, s))"
proof (cases "get_order s (fe_tt_order_id evt)")
  case None
  then show ?thesis by (simp add: apply_fill_event_def)
next
  case (Some e)
  let ?k = "fe_tt_order_id evt" and ?u = "event_applied evt e"
  obtain i where i: "table_id_of (st_orders s) ?k = Some i"
    using Some by (auto simp: get_order_def table_get_by_key_def table_id_of_def split: option.splits)
  note once = apply_fill_event_known [OF ok Some i]
  let ?s = "s\<lparr>st_orders := st_orders s\<lparr>tb_rows := dict_set i ?u (tb_rows (st_orders s))\<rparr>\<rparr>"
  have "?s = snd (upsert_orders [?u] s)"
    using once by (simp add: apply_fill_event_def Some event_applied_def [symmetric] Let_def)
  then have ok': "ledger_ok ?s" by (metis ok ledger_ok_upsert_orders)
  have "get_order ?s ?k = Some ?u" "table_id_of (st_orders ?s) ?k = Some i"
    using i by (simp_all add: get_order_def table_get_by_key_def table_id_of_def)
  from apply_fill_event_known [OF ok' this] show ?thesis
    by (simp add: once event_applied_twice Some)
qed

definition example_event :: fill_event where
  "example_event =
     \<lparr> fe_tt_order_id = ''T1'', fe_status = Some ''Filled'', fe_average_fill_price = Some 2,
       fe_filled_quantity = Some 2, fe_remaining_quantity = Some 0, fe_filled_at = Some 9 \<rparr>"

theorem fill_event_redelivery_witness:
  "apply_fill_event example_event (snd (apply_fill_event example_event example_host_ledger))
     = apply_fill_event example_event example_host_ledger"
  using fill_event_redelivery [OF example_host_ledger_order(1), of example_event] by (rule conjunct1)

section \<open>Fill figures of an order\<close>

lemma fill_total_pos:
  "fills \<noteq> [] \<Longrightarrow> \<forall>f \<in> set fills. 0 < pf_quantity f \<Longrightarrow> 0 < fill_total fills"
proof (induction fills)
  case (Cons f fills)
  then show ?case by (cases "fills = []") (auto simp: fill_total_def intro: add_pos_pos)
qed simp

lemma fill_value_bounds:
  assumes "\<forall>f \<in> set fills. 0 < pf_quantity f \<and> lo \<le> pf_fill_price f \<and> pf_fill_price f \<le> hi"
  shows "lo * fill_total fills \<le> sum_list (map (\<lambda>f. pf_quantity f * pf_fill_price f) fills)
    \<and> sum_list (map (\<lambda>f. pf_quantity f * pf_fill_price f) fills) \<le> hi * fill_total fills"
  using assms
proof (induction fills)
  case (Cons f fills)
  have "lo * pf_quantity f \<le> pf_quantity f * pf_fill_price f" "pf_quantity f * pf_fill_price f \<le> hi * pf_quantity f"
    using Cons.prems by (simp_all add: mult.commute)
  moreover note Cons.IH
  ultimately show ?case using Cons.prems by (simp add: fill_total_def distrib_left add_mono)
qed (simp add: fill_total_def)

text \<open>
  A leg's average fill price is a weighted average: whenever a leg has fills, all of
  positive size, its VWAP exists and lies between the lowest and the highest fill price.\<close>

theorem vwap_within_fill_prices:
  assumes "fills \<noteq> []"
    and "\<forall>f \<in> set fills. 0 < pf_quantity f \<and> lo \<le> pf_fill_price f \<and> pf_fill_price f \<le> hi"
  shows "\<exists>v. vwap fills = Some v \<and> lo \<le> v \<and> v \<le> hi"
proof -
  have pos: "0 < fill_total fills" using fill_total_pos assms by blast
  with fill_value_bounds [OF assms(2)] assms(1) show ?thesis
    by (simp add: vwap_def pos_le_divide_eq pos_divide_le_eq)
qed

theorem vwap_within_fill_prices_witness:
  "\<exists>v. vwap (pl_fills (example_order_leg 2 2)) = Some v \<and> 1 \<le> v \<and> v \<le> 3"
  by (rule vwap_within_fill_prices) (simp_all add: example_order_leg_def)

text \<open>The structure units.\<close>

lemma foldl_gcd_dvd:
  fixes q :: nat
  shows "foldl gcd q qs dvd q \<and> (\<forall>x \<in> set qs. foldl gcd q qs dvd x)"
proof (induction qs arbitrary: q)
  case (Cons y qs)
  from Cons.IH [of "gcd q y"] show ?case by auto
qed simp

lemma structure_units_dvd: "leg \<in> set legs \<Longrightarrow> structure_units legs dvd lot_count leg"
  using foldl_gcd_dvd [of "lot_count (hd legs)" "map lot_count (tl legs)"]
  by (cases legs) (auto simp: structure_units_def)

lemma whole_lot_count: "whole_quantity leg \<Longrightarrow> of_nat (lot_count leg) = pl_quantity leg \<and> 0 < lot_count leg"
  unfolding whole_quantity_def lot_count_def
  by (metis of_nat_nat of_int_of_nat_eq of_int_0_less_iff zero_less_nat_eq order_less_imp_le)

lemma leg_ratio_pos:
  assumes "leg \<in> set legs" and "\<forall>leg \<in> set legs. whole_quantity leg"
  shows "0 < leg_ratio (structure_units legs) leg"
    and "of_nat (structure_units legs) * leg_ratio (structure_units legs) leg = pl_quantity leg"
    and "0 < structure_units legs"
proof -
  have lots: "of_nat (lot_count leg) = pl_quantity leg" "0 < lot_count leg"
    using whole_lot_count assms by blast+
  obtain r where r: "lot_count leg = structure_units legs * r"
    using structure_units_dvd [OF assms(1)] by (auto simp: dvd_def)
  with lots(2) have pos: "0 < structure_units legs" "0 < r" by auto
  then show "0 < structure_units legs" by simp
  have "leg_ratio (structure_units legs) leg = of_nat r"
    using r pos by (simp add: leg_ratio_def)
  then show "0 < leg_ratio (structure_units legs) leg"
    and "of_nat (structure_units legs) * leg_ratio (structure_units legs) leg = pl_quantity leg"
    using pos r lots(1) by (simp_all add: of_nat_mult [symmetric] del: of_nat_mult)
qed

lemma Max_of_complement:
  fixes u :: rat
  assumes "finite A" and "A \<noteq> {}"
  shows "Max ((\<lambda>x. u - x) ` A) = u - Min A"
proof (rule Max_eqI)
  show "u - Min A \<in> (\<lambda>x. u - x) ` A" using Min_in [OF assms] by (rule imageI)
qed (use assms in auto)

lemma net_price_None: "net_price units legs = None \<longleftrightarrow> (\<exists>leg \<in> set legs. vwap (pl_fills leg) = None)"
  by (induction legs) (auto split: option.split)

lemma order_level_fill_fields_multi:
  assumes "1 < length legs" and "\<forall>leg \<in> set legs. whole_quantity leg"
  shows "\<exists>avg. order_level_fill_fields legs eff =
     (avg, Some (Min (set (map (\<lambda>leg. fill_total (pl_fills leg) / leg_ratio (structure_units legs) leg) legs))),
      Some (Max (set (map (\<lambda>leg. pl_remaining_quantity leg / leg_ratio (structure_units legs) leg) legs))))
     \<and> (avg = None \<longleftrightarrow> net_price (structure_units legs) legs = None)"
proof -
  obtain a b rest where "legs = a # b # rest"
    using assms(1) by (cases legs; cases "tl legs") auto
  with assms(2) show ?thesis by (simp add: order_level_fill_fields_def Let_def)
qed

text \<open>
  The figures of a multi-leg order count whole structures: when every leg's
  fills and remaining quantity make up its (positive, whole) quantity, filled plus remaining
  units are exactly the structure's unit count, every leg has filled at least its share of the
  units reported filled, and the average price is missing exactly when some leg has no fill yet.\<close>

theorem structure_fills_account_for_units:
  assumes multi: "1 < length legs" and whole: "\<forall>leg \<in> set legs. whole_quantity leg"
    and split: "\<forall>leg \<in> set legs. fill_total (pl_fills leg) + pl_remaining_quantity leg = pl_quantity leg"
  shows "\<exists>avg f r. order_level_fill_fields legs eff = (avg, Some f, Some r)
      \<and> f + r = of_nat (structure_units legs) \<and> 0 < structure_units legs
      \<and> (\<forall>leg \<in> set legs. f * leg_ratio (structure_units legs) leg \<le> fill_total (pl_fills leg))
      \<and> (avg = None \<longleftrightarrow> (\<exists>leg \<in> set legs. vwap (pl_fills leg) = None))"
proof -
  let ?u = "structure_units legs"
  let ?done = "\<lambda>leg. fill_total (pl_fills leg) / leg_ratio ?u leg"
  let ?A = "?done ` set legs"
  have ne: "finite ?A" "?A \<noteq> {}" using multi by auto
  have left: "pl_remaining_quantity leg / leg_ratio ?u leg = of_nat ?u - ?done leg" if "leg \<in> set legs" for leg
  proof -
    note ratio = leg_ratio_pos [OF that whole]
    have "pl_remaining_quantity leg = of_nat ?u * leg_ratio ?u leg - fill_total (pl_fills leg)"
      using split that ratio(2) by fastforce
    then show ?thesis using ratio(1) by (simp add: diff_divide_distrib)
  qed
  have "(\<lambda>leg. pl_remaining_quantity leg / leg_ratio ?u leg) ` set legs = (\<lambda>x. of_nat ?u - x) ` ?A"
    unfolding image_image by (rule image_cong [OF refl left])
  then have remaining: "Max ((\<lambda>leg. pl_remaining_quantity leg / leg_ratio ?u leg) ` set legs) = of_nat ?u - Min ?A"
    using Max_of_complement [OF ne] by simp
  have "0 < ?u" using leg_ratio_pos(3) [OF _ whole] multi by (metis length_greater_0_conv not_less_zero nth_mem gr_zeroI)
  moreover have "Min ?A * leg_ratio ?u leg \<le> fill_total (pl_fills leg)" if "leg \<in> set legs" for leg
  proof -
    have "Min ?A \<le> ?done leg" using that by (intro Min_le) simp_all
    then show ?thesis using leg_ratio_pos(1) [OF that whole] by (simp add: pos_le_divide_eq)
  qed
  moreover obtain avg where "order_level_fill_fields legs eff = (avg, Some (Min ?A), Some (of_nat ?u - Min ?A))"
    "avg = None \<longleftrightarrow> (\<exists>leg \<in> set legs. vwap (pl_fills leg) = None)"
    using order_level_fill_fields_multi [OF multi whole, of eff] by (auto simp: remaining net_price_None)
  ultimately show ?thesis by (intro exI [of _ avg] exI [of _ "Min ?A"] exI [of _ "of_nat ?u - Min ?A"]) simp
qed

theorem structure_fills_account_for_units_witness:
  "\<exists>avg f r. order_level_fill_fields [example_order_leg 2 1, example_order_leg 4 4] (Some ''Debit'') = (avg, Some f, Some r)
     \<and> f + r = of_nat (structure_units [example_order_leg 2 1, example_order_leg 4 4])"
proof -
  have "\<forall>leg \<in> set [example_order_leg 2 1, example_order_leg 4 4]. whole_quantity leg"
    by (simp add: example_order_leg_def whole_quantity_def)
  from structure_fills_account_for_units [OF _ this, of "Some ''Debit''"] show ?thesis
    by (auto simp: example_order_leg_def fill_total_def)
qed

section \<open>Importing transactions\<close>

definition txn_bare :: "txn_row \<Rightarrow> bool" where
  "txn_bare r \<longleftrightarrow> r_order_id r = None \<and> t_order_leg_id r = None \<and> t_position_id r = None
     \<and> t_closed_position_id r = None \<and> r_trade_group_id r = None"

lemma txn_of_bare: "txn_bare (txn_of t account source sid)"
  by (simp add: txn_bare_def txn_of_def ledger_row.defs txn_row.defs)

lemma or_else_simps [simp]: "or_else None b = b" "or_else a None = a"
  by (simp_all add: or_else_def split: option.split)

lemma txn_preserve_bare:
  assumes "txn_bare r"
  shows "txn_bare r' \<Longrightarrow> txn_preserve (txn_preserve e r) r' = txn_preserve e r'"
    and "txn_bare r' \<Longrightarrow> txn_preserve r r' = r'"
  using assms by (simp_all add: txn_bare_def txn_preserve_def or_else_twice)

lemma upsert_transaction_lookup:
  assumes "ledger_ok s"
  shows "table_get_by_key (st_transactions (upsert_transaction row s)) tid =
     (if tid = r_tt_transaction_id row
      then Some (case table_get_by_key (st_transactions s) tid of None \<Rightarrow> row | Some e \<Rightarrow> txn_preserve e row)
      else table_get_by_key (st_transactions s) tid)"
proof -
  note tab = ledger_ok_tables(2) [OF assms]
  have key: "txn_key row = Some (r_tt_transaction_id row)" by (simp add: txn_key_def)
  from txn_group.resync_stored [OF tab key] txn_group.resync_frame [OF tab key, of tid] show ?thesis
    by (simp add: upsert_transaction_resync)
qed

text \<open>What a page of broker rows leaves under a transaction id: the last row of the id on the
  page, with the linkage of the row it replaces.\<close>

definition last_of :: "string \<Rightarrow> txn_row list \<Rightarrow> txn_row option" where
  "last_of tid rows = map_of (rev (map (\<lambda>r. (r_tt_transaction_id r, r)) rows)) tid"

lemma last_of_Cons:
  "last_of tid (r # rows) =
     (case last_of tid rows of Some x \<Rightarrow> Some x | None \<Rightarrow> if r_tt_transaction_id r = tid then Some r else None)"
  by (simp add: last_of_def map_add_def split: option.split)

lemma last_of_bare:
  "last_of tid rows = Some x \<Longrightarrow> \<forall>r \<in> set rows. txn_bare r \<Longrightarrow> txn_bare x"
  by (auto simp: last_of_def dest!: map_of_SomeD)

lemma upsert_transactions_lookup:
  assumes "ledger_ok s" and "\<forall>r \<in> set rows. txn_bare r"
  shows "table_get_by_key (st_transactions (upsert_transactions rows s)) tid =
     (case last_of tid rows of
        None \<Rightarrow> table_get_by_key (st_transactions s) tid
      | Some r \<Rightarrow> Some (case table_get_by_key (st_transactions s) tid of
                         None \<Rightarrow> r | Some e \<Rightarrow> txn_preserve e r))"
  using assms
proof (induction rows arbitrary: s)
  case Nil
  then show ?case by (simp add: last_of_def)
next
  case (Cons r rows)
  have ok: "ledger_ok (upsert_transaction r s)" by (rule ledger_ok_upsert_transaction [OF Cons.prems(1)])
  have bare: "txn_bare r" "\<forall>r \<in> set rows. txn_bare r" using Cons.prems(2) by simp_all
  note step = Cons.IH [OF ok bare(2)] upsert_transaction_lookup [OF Cons.prems(1), of r tid]
  show ?case
  proof (cases "last_of tid rows")
    case None
    then show ?thesis by (simp add: step last_of_Cons)
  next
    case (Some x)
    have "txn_bare x" by (rule last_of_bare [OF Some bare(2)])
    then show ?thesis
      using Some bare(1) by (auto simp: step last_of_Cons txn_preserve_bare split: option.split)
  qed
qed

lemma upsert_transactions_twice:
  assumes "ledger_ok s" and "\<forall>r \<in> set rows. txn_bare r" and "ledger_ok s'"
    and "st_transactions s' = st_transactions (upsert_transactions rows s)"
  shows "table_get_by_key (st_transactions (upsert_transactions rows s')) tid =
     table_get_by_key (st_transactions s') tid"
proof (cases "last_of tid rows")
  case None
  then show ?thesis by (simp add: upsert_transactions_lookup [OF assms(3,2)])
next
  case (Some x)
  have "txn_bare x" by (rule last_of_bare [OF Some assms(2)])
  then show ?thesis
    using Some by (auto simp: upsert_transactions_lookup [OF assms(3,2)] assms(4)
        upsert_transactions_lookup [OF assms(1,2)] txn_preserve_bare split: option.split)
qed

text \<open>The rows of a page do not depend on the ledger they are imported into.\<close>

lemma txn_rows_result:
  "fst (txn_rows resolver account source ts acc) = fst (txn_rows resolver account source ts acc')
     \<and> st_transactions (snd (snd (txn_rows resolver account source ts acc))) = st_transactions (snd acc)
     \<and> (ledger_ok (snd acc) \<longrightarrow> ledger_ok (snd (snd (txn_rows resolver account source ts acc))))
     \<and> (\<forall>rows. fst (txn_rows resolver account source ts acc) = Inr rows \<longrightarrow> (\<forall>r \<in> set rows. txn_bare r))"
proof (induction ts arbitrary: acc acc')
  case (Cons t ts)
  define one where "one a = resolve_once resolver (str0 (bt_symbol t)) (bt_instrument_type t) a" for a
  have tables: "st_transactions (snd (snd (one a))) = st_transactions (snd a)"
    "ledger_ok (snd a) \<Longrightarrow> ledger_ok (snd (snd (one a)))"
    "fst (one a) = resolver (str0 (bt_symbol t)) (bt_instrument_type t)" for a
    using resolve_once_tables [of resolver "str0 (bt_symbol t)" "bt_instrument_type t" a]
      resolve_once_ok [of a] resolve_once_result by (simp_all add: one_def)
  show ?case
  proof (cases "str_true (bt_symbol t)")
    case False
    then show ?thesis
      using Cons.IH [of acc acc'] by (auto simp: case_prod_beta txn_of_bare split: sum.splits)
  next
    case True
    then show ?thesis
      using Cons.IH [of "snd (one acc)" "snd (one acc')"] tables [of acc] tables [of acc']
      by (auto simp: case_prod_beta one_def [symmetric] txn_of_bare split: sum.splits)
  qed
qed simp

lemma upsert_broker_transactions_cases:
  assumes "ledger_ok s"
  shows "\<exists>s1. st_transactions s1 = st_transactions s \<and> ledger_ok s1 \<and>
    (case fst (txn_rows resolver account source ts ([], s)) of
       Inl msg \<Rightarrow> st_transactions (snd (upsert_broker_transactions resolver account source ts s)) = st_transactions s
     | Inr rows \<Rightarrow> (\<forall>r \<in> set rows. txn_bare r) \<and>
         snd (upsert_broker_transactions resolver account source ts s)
           = (if ts = [] then s else upsert_transactions rows s1))
    \<and> fst (upsert_broker_transactions resolver account source ts s) =
        (if ts = [] then Inr 0 else map_sum id length (fst (txn_rows resolver account source ts ([], s))))
    \<and> ledger_ok (snd (upsert_broker_transactions resolver account source ts s))"
proof -
  obtain res seen s1 where rows: "txn_rows resolver account source ts ([], s) = (res, seen, s1)"
    by (metis prod_cases3)
  have s1: "st_transactions s1 = st_transactions s" "ledger_ok s1"
    "res = Inr rs \<Longrightarrow> \<forall>r \<in> set rs. txn_bare r" for rs
    using txn_rows_result [of resolver account source ts "([], s)"] assms by (simp_all add: rows)
  then show ?thesis
    using assms by (cases res)
      (auto simp: upsert_broker_transactions_def rows ledger_ok_upsert_transactions intro!: exI [of _ s1])
qed

text \<open>
  C16 (equivalence). The transaction import is idempotent and safe to re-run over overlapping
  windows: importing the same page a second time reports the same count (or the same resolver
  error) and leaves every transaction as the first import left it, and neither run changes the
  trade group, order, leg or position links of a transaction that was already in the ledger.\<close>

theorem transaction_import_idempotent:
  assumes ok: "ledger_ok s"
  shows "fst (upsert_broker_transactions resolver account source ts
           (snd (upsert_broker_transactions resolver account source ts s)))
         = fst (upsert_broker_transactions resolver account source ts s)
    \<and> table_get_by_key (st_transactions (snd (upsert_broker_transactions resolver account source ts
           (snd (upsert_broker_transactions resolver account source ts s))))) tid
         = table_get_by_key (st_transactions (snd (upsert_broker_transactions resolver account source ts s))) tid
    \<and> (\<forall>e. table_get_by_key (st_transactions s) tid = Some e \<longrightarrow>
         (\<exists>e'. table_get_by_key (st_transactions (snd (upsert_broker_transactions resolver account source ts s))) tid
                 = Some e'
            \<and> r_trade_group_id e' = r_trade_group_id e \<and> r_order_id e' = r_order_id e
            \<and> t_order_leg_id e' = t_order_leg_id e \<and> t_position_id e' = t_position_id e
            \<and> t_closed_position_id e' = t_closed_position_id e))"
proof -
  let ?import = "\<lambda>s. upsert_broker_transactions resolver account source ts s"
  let ?rows = "\<lambda>s. fst (txn_rows resolver account source ts ([], s))"
  have same: "?rows a = ?rows b" for a b
    using txn_rows_result [of resolver account source ts "([], a)" "([], b)"] by (rule conjunct1)
  obtain s1 where s1: "st_transactions s1 = st_transactions s" "ledger_ok s1"
    and first: "case ?rows s of Inl msg \<Rightarrow> st_transactions (snd (?import s)) = st_transactions s
      | Inr rows \<Rightarrow> (\<forall>r \<in> set rows. txn_bare r) \<and> snd (?import s) = (if ts = [] then s else upsert_transactions rows s1)"
    and r1: "fst (?import s) = (if ts = [] then Inr 0 else map_sum id length (?rows s))"
    and ok1: "ledger_ok (snd (?import s))"
    using upsert_broker_transactions_cases [OF ok] by blast
  obtain s2 where s2: "st_transactions s2 = st_transactions (snd (?import s))" "ledger_ok s2"
    and second: "case ?rows s of Inl msg \<Rightarrow> st_transactions (snd (?import (snd (?import s)))) = st_transactions (snd (?import s))
      | Inr rows \<Rightarrow> (\<forall>r \<in> set rows. txn_bare r)
          \<and> snd (?import (snd (?import s))) = (if ts = [] then snd (?import s) else upsert_transactions rows s2)"
    and r2: "fst (?import (snd (?import s))) = (if ts = [] then Inr 0 else map_sum id length (?rows s))"
    using upsert_broker_transactions_cases [OF ok1, of resolver account source ts]
    unfolding same [of "snd (?import s)" s] by blast
  show ?thesis
  proof (cases "?rows s")
    case (Inl msg)
    with first second r1 r2 show ?thesis by simp
  next
    case (Inr rows)
    then have bare: "\<forall>r \<in> set rows. txn_bare r" using first by simp
    show ?thesis
    proof (cases "ts = []")
      case True
      with first second r1 r2 Inr show ?thesis by simp
    next
      case False
      have after: "snd (?import s) = upsert_transactions rows s1"
        "snd (?import (snd (?import s))) = upsert_transactions rows s2"
        using first second Inr False by simp_all
      have again: "table_get_by_key (st_transactions (upsert_transactions rows s2)) tid
          = table_get_by_key (st_transactions (upsert_transactions rows s1)) tid"
        using upsert_transactions_twice [OF s1(2) bare s2(2)] s2(1) after(1) by simp
      have twice: "table_get_by_key (st_transactions (snd (?import (snd (?import s))))) tid
          = table_get_by_key (st_transactions (snd (?import s))) tid"
        by (subst after(2), subst after(1), rule again)
      have "\<exists>e'. table_get_by_key (st_transactions (snd (?import s))) tid = Some e'
          \<and> r_trade_group_id e' = r_trade_group_id e \<and> r_order_id e' = r_order_id e
          \<and> t_order_leg_id e' = t_order_leg_id e \<and> t_position_id e' = t_position_id e
          \<and> t_closed_position_id e' = t_closed_position_id e"
        if "table_get_by_key (st_transactions s) tid = Some e" for e
        unfolding after(1) upsert_transactions_lookup [OF s1(2) bare] s1(1) that
        using last_of_bare [OF _ bare, of tid]
        by (auto simp: txn_preserve_def txn_bare_def split: option.split)
      with r1 r2 twice show ?thesis by simp
    qed
  qed
qed

definition example_broker_txn :: broker_transaction where
  "example_broker_txn =
     \<lparr> bt_id = ''1'', bt_account_number = ''5W1'', bt_order_id = None, bt_underlying_symbol = None,
       bt_symbol = Some ''SPY'', bt_instrument_type = None, bt_transaction_type = Some ''Trade'',
       bt_transaction_sub_type = None, bt_action = None, bt_quantity = Some 1, bt_price = Some 1,
       bt_value = Some 9, bt_value_effect = None, bt_net_value = None, bt_net_value_effect = None,
       bt_commission = None, bt_clearing_fees = None, bt_regulatory_fees = None,
       bt_proprietary_index_option_fees = None, bt_is_estimated_fee = None, bt_description = None,
       bt_executed_at = None, bt_transaction_date = None \<rparr>"

theorem transaction_import_idempotent_witness:
  "\<exists>e'. table_get_by_key (st_transactions (snd (upsert_broker_transactions example_resolver ''acct'' ''tastytrade''
          [example_broker_txn] (upsert_transaction (example_txn ''1'' (Some 4) 5) (ledger_empty 0 (\<lambda>_. [])))))) ''1''
        = Some e' \<and> r_trade_group_id e' = Some 4"
proof -
  let ?s = "upsert_transaction (example_txn ''1'' (Some 4) 5) (ledger_empty 0 (\<lambda>_. []))"
  have ok: "ledger_ok ?s" by (simp add: ledger_ok_upsert_transaction ledger_ok_empty)
  have "table_get_by_key (st_transactions ?s) ''1'' = Some (example_txn ''1'' (Some 4) 5)"
    unfolding upsert_transaction_lookup [OF ledger_ok_empty]
    by (simp add: ledger_empty_def table_empty_def table_get_by_key_def)
  with transaction_import_idempotent [OF ok, of example_resolver "''acct''" "''tastytrade''" "[example_broker_txn]" "''1''"]
  show ?thesis by fastforce
qed

section \<open>Positions\<close>

definition position_attribution ::
  "position_row \<Rightarrow> nat option \<times> nat option \<times> nat option \<times> datetime option" where
  "position_attribution r =
     (ps_strategy_id r, ps_opening_order_id r, ps_trade_group_id r, ps_position_opened_at r)"

lemma position_of_attribution:
  "position_attribution (position_of p account sid (Some e)) = position_attribution e"
  "position_key (position_of p account sid x) = Some (account, sid)"
  by (simp_all add: position_attribution_def position_of_def position_key_def)

lemma upsert_positions_attribution:
  assumes "ledger_ok s" and "get_position s account sid = Some x" and "position_attribution x = a"
    and "\<forall>r \<in> set rows. position_key r = Some (account, sid) \<longrightarrow> position_attribution r = a"
  shows "\<exists>y. get_position (upsert_positions rows s) account sid = Some y \<and> position_attribution y = a
      \<and> (Some (account, sid) \<notin> position_key ` set rows \<longrightarrow> y = x)"
  using assms
proof (induction rows arbitrary: s x)
  case (Cons r rows)
  let ?s = "s\<lparr>st_positions := snd (table_upsert position_key r (st_positions s))\<rparr>"
  have ok: "ledger_ok ?s" using ledger_ok_upsert_positions [OF Cons.prems(1), of "[r]"] by simp
  note tab = ledger_ok_tables(3) [OF Cons.prems(1)]
  obtain k where k: "position_key r = Some k" by (simp add: position_key_def)
  have look: "get_position ?s account sid = (if (account, sid) = k then Some r else get_position s account sid)"
    using tbl.upsert_stored [OF tab k] tbl.upsert_frame [OF tab k, of "(account, sid)"]
    by (simp add: get_position_def)
  define x' where "x' = (if (account, sid) = k then r else x)"
  have x': "get_position ?s account sid = Some x'" "position_attribution x' = a"
    "position_key r \<noteq> Some (account, sid) \<longrightarrow> x' = x"
    using Cons.prems(2-4) k by (auto simp: look x'_def)
  have "\<forall>r \<in> set rows. position_key r = Some (account, sid) \<longrightarrow> position_attribution r = a"
    using Cons.prems(4) by simp
  from Cons.IH [OF ok x'(1,2) this] x'(3) show ?case by fastforce
qed simp

definition row_from ::
  "resolver \<Rightarrow> string \<Rightarrow> ledger \<Rightarrow> broker_position list \<Rightarrow> position_row \<Rightarrow> bool" where
  "row_from resolver account s ps r \<longleftrightarrow>
     (\<exists>p res. p \<in> set ps \<and> resolver (bp_symbol p) (bp_instrument_type p) = Inr res
        \<and> r = position_of p account (rs_security_id res) (get_position s account (rs_security_id res)))"

lemma row_from_mono:
  "row_from resolver account s ps r \<Longrightarrow> st_positions s' = st_positions s \<Longrightarrow> row_from resolver account s' (p # ps) r"
  unfolding row_from_def get_position_def by force

lemma position_rows_result:
  "st_positions (snd (snd (position_rows resolver account ps acc))) = st_positions (snd acc)
     \<and> (ledger_ok (snd acc) \<longrightarrow> ledger_ok (snd (snd (position_rows resolver account ps acc))))
     \<and> (\<forall>rows. fst (position_rows resolver account ps acc) = Inr rows \<longrightarrow>
          (\<forall>r \<in> set rows. row_from resolver account (snd acc) ps r))"
proof (induction ps arbitrary: acc)
  case (Cons p ps)
  define one where "one = resolve_once resolver (bp_symbol p) (bp_instrument_type p) acc"
  have tables: "st_positions (snd (snd one)) = st_positions (snd acc)"
    "ledger_ok (snd acc) \<Longrightarrow> ledger_ok (snd (snd one))"
    "fst one = resolver (bp_symbol p) (bp_instrument_type p)"
    using resolve_once_tables [of resolver "bp_symbol p" "bp_instrument_type p" acc]
      resolve_once_ok [of acc] resolve_once_result by (simp_all add: one_def)
  show ?case
  proof (cases "fst one")
    case (Inl msg)
    then show ?thesis
      using tables by (auto simp: case_prod_beta one_def [symmetric])
  next
    case (Inr res)
    have this_row: "row_from resolver account (snd acc) (p # ps)
        (position_of p account (rs_security_id res) (get_position (snd (snd one)) account (rs_security_id res)))"
      using Inr tables(1,3) by (auto simp: row_from_def get_position_def)
    note other_rows = row_from_mono [of resolver account "snd (snd one)" ps, OF _ tables(1) [symmetric]]
    show ?thesis
      using Cons.IH [of "snd one"] tables(1,2) Inr this_row other_rows
      by (cases "fst (position_rows resolver account ps (snd one))")
        (auto simp: case_prod_beta one_def [symmetric])
  qed
qed simp

text \<open>
  A position snapshot refreshes market data only: after a sync of any page, a
  position the ledger already held keeps its strategy, opening order, trade group and opening
  time, and a position whose security is not on the page is left exactly as it was.\<close>

theorem position_sync_keeps_attribution:
  assumes "ledger_ok s" and "get_position s account sid = Some e"
  shows "\<exists>e'. get_position (snd (upsert_broker_positions resolver account page s)) account sid = Some e'
      \<and> position_attribution e' = position_attribution e
      \<and> ((\<forall>p \<in> set page. \<forall>res. resolver (bp_symbol p) (bp_instrument_type p) = Inr res \<longrightarrow>
            rs_security_id res \<noteq> sid) \<longrightarrow> e' = e)"
proof -
  obtain res seen s1 where rows: "position_rows resolver account page ([], s) = (res, seen, s1)"
    by (metis prod_cases3)
  note result = position_rows_result [of resolver account page "([], s)", unfolded rows, simplified]
  have s1: "get_position s1 account sid = Some e" "ledger_ok s1"
    using result assms by (simp_all add: get_position_def)
  show ?thesis
  proof (cases "page = [] \<or> isl res")
    case True
    then have "get_position (snd (upsert_broker_positions resolver account page s)) account sid = Some e"
      using s1 assms by (auto simp: upsert_broker_positions_def rows isl_def)
    then show ?thesis by simp
  next
    case False
    then obtain rs where rs: "res = Inr rs" by (cases res) simp_all
    have each: "row_from resolver account s page r" if "r \<in> set rs" for r
      using result rs that by simp
    have "\<forall>r \<in> set rs. position_key r = Some (account, sid) \<longrightarrow> position_attribution r = position_attribution e"
      using each assms(2) by (force simp: row_from_def position_of_attribution)
    from upsert_positions_attribution [OF s1(2,1) refl this]
    obtain y where y: "get_position (upsert_positions rs s1) account sid = Some y"
      "position_attribution y = position_attribution e" "Some (account, sid) \<notin> position_key ` set rs \<longrightarrow> y = e"
      by blast
    have "snd (upsert_broker_positions resolver account page s) = upsert_positions rs s1"
      using False by (simp add: upsert_broker_positions_def rows rs)
    moreover have "y = e" if "\<forall>p \<in> set page. \<forall>res. resolver (bp_symbol p) (bp_instrument_type p) = Inr res \<longrightarrow>
            rs_security_id res \<noteq> sid"
      using y(3) that each by (force simp: row_from_def position_of_attribution)
    ultimately show ?thesis using y(1,2) by auto
  qed
qed

definition example_position :: "nat option \<Rightarrow> broker_position \<times> position_row" where
  "example_position group_pk =
     (let p = \<lparr> bp_account_number = ''5W1'', bp_symbol = ''SPY'', bp_quantity = 2,
                bp_quantity_direction = ''Short'', bp_underlying_symbol = None, bp_instrument_type = None,
                bp_average_open_price = Some 5, bp_mark_price = Some 4, bp_close_price = None,
                bp_realized_day_gain = None, bp_realized_day_gain_effect = None, bp_multiplier = 100,
                bp_expires_at = None \<rparr>
      in (p, (position_of p ''acct'' ''SPY'' None)\<lparr>ps_trade_group_id := group_pk\<rparr>))"

theorem position_sync_keeps_attribution_witness:
  "\<exists>e'. get_position (snd (upsert_broker_positions example_resolver ''acct'' [fst (example_position None)]
          (upsert_positions [snd (example_position (Some 3))] (ledger_empty 0 (\<lambda>_. []))))) ''acct'' ''SPY'' = Some e'
      \<and> ps_trade_group_id e' = Some 3"
proof -
  let ?row = "snd (example_position (Some 3))"
  let ?s = "upsert_positions [?row] (ledger_empty 0 (\<lambda>_. []))"
  have ok: "ledger_ok ?s" by (rule ledger_ok_upsert_positions [OF ledger_ok_empty])
  have key: "position_key ?row = Some (''acct'', ''SPY'')"
    by (simp add: example_position_def position_key_def position_of_def Let_def)
  have "get_position ?s ''acct'' ''SPY'' = Some ?row"
    using tbl.upsert_stored [of position_key table_empty, OF table_ok_empty key] by (simp add: get_position_def ledger_empty_def)
  from position_sync_keeps_attribution [OF ok this, of example_resolver "[fst (example_position None)]"]
  show ?thesis by (auto simp: position_attribution_def example_position_def Let_def)
qed

end
