(* ===== verification/Pull.thy ===== *)
theory Pull
  imports Passes Repository_Laws
begin

text \<open>
  Pull ingestion (\<^verbatim>\<open>tt_ledger/ingest/pull.py\<close>): the four feeds of a sync and \<open>sync_all\<close>, which
  runs them in order, records a failing feed as an error line and carries on, and reconciles
  last. The broker client is a record of functions that answer or raise (the protocol of
  \<^verbatim>\<open>tt_ledger/ingest/broker.py\<close>); the in-memory client of \<^verbatim>\<open>tt_ledger/ingest/mock_broker.py\<close> is
  one such record, built from its seeded tables; its page size is positive, as \<open>range\<close> requires. \<open>date.today()\<close> is the argument \<open>today\<close>.
\<close>

section \<open>The broker client\<close>

record broker_client =
  get_order_history :: "string \<Rightarrow> date \<Rightarrow> date \<Rightarrow> string + placed_order list"
  get_transaction_history :: "string \<Rightarrow> date \<Rightarrow> date \<Rightarrow> string + broker_transaction list"
  get_broker_positions :: "string \<Rightarrow> string + broker_position list"
  get_broker_balances :: "string \<Rightarrow> string + balance_message"

section \<open>The feeds\<close>

definition PULL_EPOCH :: date where
  "PULL_EPOCH = 0"

definition start_of :: "date option \<Rightarrow> date" where
  "start_of since = (case since of None \<Rightarrow> PULL_EPOCH | Some d \<Rightarrow> d)"

definition sync_orders ::
  "broker_client \<Rightarrow> account_mapper \<Rightarrow> resolver \<Rightarrow> date \<Rightarrow> date option \<Rightarrow> string \<Rightarrow> ledger \<Rightarrow> (string + nat) \<times> ledger" where
  "sync_orders client m resolver today since account s =
     (case to_account_number m account of
        Inl msg \<Rightarrow> (Inl msg, s)
      | Inr number \<Rightarrow>
          (case get_order_history client number (start_of since) today of
             Inl msg \<Rightarrow> (Inl msg, s)
           | Inr placed \<Rightarrow> upsert_from_history resolver account placed s))"

definition sync_transactions ::
  "broker_client \<Rightarrow> account_mapper \<Rightarrow> resolver \<Rightarrow> date \<Rightarrow> date option \<Rightarrow> string \<Rightarrow> ledger \<Rightarrow> (string + nat) \<times> ledger" where
  "sync_transactions client m resolver today since account s =
     (case to_account_number m account of
        Inl msg \<Rightarrow> (Inl msg, s)
      | Inr number \<Rightarrow>
          (case get_transaction_history client number (start_of since) today of
             Inl msg \<Rightarrow> (Inl msg, s)
           | Inr txns \<Rightarrow> upsert_broker_transactions resolver account ''tastytrade'' txns s))"

definition sync_positions ::
  "broker_client \<Rightarrow> account_mapper \<Rightarrow> resolver \<Rightarrow> string \<Rightarrow> ledger \<Rightarrow> (string + nat) \<times> ledger" where
  "sync_positions client m resolver account s =
     (case to_account_number m account of
        Inl msg \<Rightarrow> (Inl msg, s)
      | Inr number \<Rightarrow>
          (case get_broker_positions client number of
             Inl msg \<Rightarrow> (Inl msg, s)
           | Inr positions \<Rightarrow> upsert_broker_positions resolver account positions s))"

definition sync_balances ::
  "broker_client \<Rightarrow> account_mapper \<Rightarrow> string \<Rightarrow> ledger \<Rightarrow> (string + nat) \<times> ledger" where
  "sync_balances client m account s =
     (case to_account_number m account of
        Inl msg \<Rightarrow> (Inl msg, s)
      | Inr number \<Rightarrow>
          (case get_broker_balances client number of
             Inl msg \<Rightarrow> (Inl msg, s)
           | Inr balance \<Rightarrow> (Inr 1, record_balance balance account ''rest_sync'' s)))"

text \<open>One \<open>try\<close> block of \<open>sync_all\<close>: a count is stored, a failure becomes an error line, and what
  the feed wrote before it failed stays written.\<close>

definition sync_step ::
  "string \<Rightarrow> (nat \<Rightarrow> sync_result \<Rightarrow> sync_result) \<Rightarrow> (ledger \<Rightarrow> (string + nat) \<times> ledger)
     \<Rightarrow> sync_result \<times> ledger \<Rightarrow> sync_result \<times> ledger" where
  "sync_step name store_count feed acc =
     (case acc of (result, s) \<Rightarrow>
      (case feed s of
         (Inl msg, s') \<Rightarrow> (result\<lparr>sr_errors := sr_errors result @ [name @ '': '' @ msg]\<rparr>, s')
       | (Inr n, s') \<Rightarrow> (store_count n result, s')))"

definition sync_feeds ::
  "broker_client \<Rightarrow> account_mapper \<Rightarrow> resolver \<Rightarrow> date \<Rightarrow> date option \<Rightarrow> string \<Rightarrow> ledger \<Rightarrow> sync_result \<times> ledger" where
  "sync_feeds client m resolver today since account s =
     sync_step ''sync_balances'' (\<lambda>n r. r\<lparr>sr_balances := n\<rparr>) (sync_balances client m account)
       (sync_step ''sync_positions'' (\<lambda>n r. r\<lparr>sr_positions := n\<rparr>) (sync_positions client m resolver account)
         (sync_step ''sync_transactions'' (\<lambda>n r. r\<lparr>sr_transactions := n\<rparr>)
            (sync_transactions client m resolver today since account)
           (sync_step ''sync_orders'' (\<lambda>n r. r\<lparr>sr_orders := n\<rparr>)
              (sync_orders client m resolver today since account) (sync_result0, s))))"

definition sync_all ::
  "broker_client \<Rightarrow> account_mapper \<Rightarrow> resolver \<Rightarrow> price_resolver option \<Rightarrow> date \<Rightarrow> date option \<Rightarrow> string
     \<Rightarrow> ledger \<Rightarrow> sync_result \<times> ledger" where
  "sync_all client m resolver settlement_price today since account s =
     (let (result, s1) = sync_feeds client m resolver today since account s;
          (rec, s2) = reconcile (Some account) since settlement_price DEFAULT_SETTLE_AFTER False s1
      in (result\<lparr> sr_trade_groups := sr_trade_groups result + sr_trade_groups rec,
                  sr_errors := sr_errors result @ sr_errors rec \<rparr>, s2))"

section \<open>The in-memory client\<close>

record mock_client =
  mc_page_size :: nat
  mc_orders :: "(string, placed_order list) dict"
  mc_transactions :: "(string, broker_transaction list) dict"
  mc_positions :: "(string, broker_position list) dict"
  mc_balances :: "(string, balance_message) dict"

function paginate :: "nat \<Rightarrow> 'a list \<Rightarrow> 'a list" where
  "paginate page_size items =
     (if items = [] \<or> page_size = 0 then []
      else take page_size items @ paginate page_size (drop page_size items))"
  by pat_completeness auto
termination by (relation "measure (\<lambda>(_, items). length items)") auto

declare paginate.simps [simp del]

definition mock_order_history :: "mock_client \<Rightarrow> string \<Rightarrow> date \<Rightarrow> date \<Rightarrow> placed_order list" where
  "mock_order_history c number start stop =
     paginate (mc_page_size c)
       (sort_key po_received_at
         (filter (\<lambda>po. start \<le> date_of (po_received_at po) \<and> date_of (po_received_at po) \<le> stop)
           (dict_get_or (mc_orders c) number [])))"

definition mock_transaction_history :: "mock_client \<Rightarrow> string \<Rightarrow> date \<Rightarrow> date \<Rightarrow> broker_transaction list" where
  "mock_transaction_history c number start stop =
     paginate (mc_page_size c)
       (sort_key (\<lambda>t. case bt_executed_at t of None \<Rightarrow> 0 | Some executed \<Rightarrow> executed)
         (filter (\<lambda>t. case bt_executed_at t of None \<Rightarrow> False | Some executed \<Rightarrow> start \<le> date_of executed \<and> date_of executed \<le> stop)
           (dict_get_or (mc_transactions c) number [])))"

definition empty_balance :: "string \<Rightarrow> balance_message" where
  "empty_balance number =
     \<lparr> bm_account_number = number, bm_raw = JObj [], bm_net_liquidating_value = None, bm_cash_balance = None,
       bm_equity_buying_power = None, bm_derivative_buying_power = None, bm_maintenance_requirement = None,
       bm_pending_cash = None, bm_day_trading_buying_power = None, bm_captured_at = None \<rparr>"

definition mock_broker :: "mock_client \<Rightarrow> broker_client" where
  "mock_broker c =
     \<lparr> get_order_history = \<lambda>number start stop. Inr (mock_order_history c number start stop),
       get_transaction_history = \<lambda>number start stop. Inr (mock_transaction_history c number start stop),
       get_broker_positions = \<lambda>number. Inr (dict_get_or (mc_positions c) number []),
       get_broker_balances = \<lambda>number. Inr (dict_get_or (mc_balances c) number (empty_balance number)) \<rparr>"

lemma paginate_id: "0 < page_size \<Longrightarrow> paginate page_size items = items"
  by (induction page_size items rule: paginate.induct) (subst paginate.simps, simp)


section \<open>What the feeds leave alone\<close>

text \<open>Resolving symbols writes securities and nothing else.\<close>

definition only_securities :: "ledger \<Rightarrow> ledger \<Rightarrow> bool" where
  "only_securities s s' \<longleftrightarrow> (\<exists>secs. s' = s\<lparr>st_securities := secs\<rparr>) \<and> (ledger_ok s \<longrightarrow> ledger_ok s')"

lemma only_securities_refl [simp]: "only_securities s s"
  by (auto simp: only_securities_def intro: exI [of _ "st_securities s"])

lemma only_securities_trans: "only_securities s s' \<Longrightarrow> only_securities s' s'' \<Longrightarrow> only_securities s s''"
  by (auto simp: only_securities_def)

lemma only_securities_once:
  "only_securities (snd acc) (snd (snd (resolve_once resolver vendor ity acc)))"
  by (cases acc) (auto simp: resolve_once_def upsert_security_def only_securities_def ledger_ok_def table_ok_upsert
      intro: exI [of _ "st_securities (snd acc)"] split: sum.split)

lemma only_securities_legs: "only_securities (snd acc) (snd (snd (resolve_legs resolver legs acc)))"
proof (induction legs arbitrary: acc)
  case (Cons leg legs)
  obtain res acc1 where one: "resolve_once resolver (pl_symbol leg) (Some (pl_instrument_type leg)) acc = (res, acc1)"
    by (metis surj_pair)
  then show ?case
    using only_securities_once [of acc resolver "pl_symbol leg" "Some (pl_instrument_type leg)"] Cons.IH [of acc1]
    by (auto simp: case_prod_beta split: sum.split intro: only_securities_trans)
qed simp

lemma only_securities_orders: "only_securities (snd acc) (snd (snd (resolve_orders resolver placed acc)))"
proof (induction placed arbitrary: acc)
  case (Cons po placed)
  obtain res acc1 where one: "resolve_legs resolver (po_legs po) acc = (res, acc1)" by (metis surj_pair)
  then show ?case
    using only_securities_legs [of acc resolver "po_legs po"] Cons.IH [of acc1]
    by (auto simp: case_prod_beta split: sum.split intro: only_securities_trans)
qed simp

lemma only_securities_positions: "only_securities (snd acc) (snd (snd (position_rows resolver account page acc)))"
proof (induction page arbitrary: acc)
  case (Cons p page)
  obtain res acc1 where one: "resolve_once resolver (bp_symbol p) (bp_instrument_type p) acc = (res, acc1)"
    by (metis surj_pair)
  then show ?case
    using only_securities_once [of acc resolver "bp_symbol p" "bp_instrument_type p"] Cons.IH [of acc1]
    by (auto simp: case_prod_beta Let_def split: sum.split intro: only_securities_trans)
qed simp

lemma st_transactions_upsert_legs [simp]: "st_transactions (snd (upsert_legs rows s)) = st_transactions s"
proof (induction rows arbitrary: s)
  case (Cons row rows)
  show ?case
    using Cons.IH [of "s\<lparr>st_legs := snd (table_upsert leg_row_key row (st_legs s))\<rparr>"]
    by (simp add: Let_def case_prod_beta)
qed simp

lemma st_transactions_upsert_fills [simp]: "st_transactions (upsert_fills rows s) = st_transactions s"
  by (induction rows arbitrary: s) simp_all

lemma only_securitiesD:
  "only_securities s s' \<Longrightarrow> st_transactions s' = st_transactions s"
  "only_securities s s' \<Longrightarrow> ledger_ok s \<Longrightarrow> ledger_ok s'"
  by (auto simp: only_securities_def)

lemma history_keeps:
  "st_transactions (snd (upsert_from_history resolver account placed s)) = st_transactions s
     \<and> (ledger_ok s \<longrightarrow> ledger_ok (snd (upsert_from_history resolver account placed s)))"
  using only_securities_orders [of "([], s)" resolver placed]
  by (auto simp: upsert_from_history_def Let_def case_prod_beta only_securitiesD ledger_ok_upsert_orders
      ledger_ok_upsert_legs ledger_ok_upsert_fills split: sum.split prod.split)

lemma positions_keep:
  "st_transactions (snd (upsert_broker_positions resolver account page s)) = st_transactions s
     \<and> (ledger_ok s \<longrightarrow> ledger_ok (snd (upsert_broker_positions resolver account page s)))"
  using only_securities_positions [of "([], s)" resolver account page]
  by (auto simp: upsert_broker_positions_def case_prod_beta only_securitiesD ledger_ok_upsert_positions
      split: sum.split prod.split)

lemma balance_keeps:
  "st_transactions (record_balance msg account source s) = st_transactions s
     \<and> (ledger_ok s \<longrightarrow> ledger_ok (record_balance msg account source s))"
  by (simp add: record_balance_def ledger_ok_upsert_balance) (simp add: upsert_balance_snapshot_def)

lemma import_keeps_group:
  assumes "ledger_ok s" and "txn_group_of s tid = Some g"
  shows "txn_group_of (snd (upsert_broker_transactions resolver account source ts s)) tid = Some g"
proof -
  let ?rows = "fst (txn_rows resolver account source ts ([], s))"
  obtain s1 where s1: "st_transactions s1 = st_transactions s" "ledger_ok s1"
    and import: "case ?rows of Inl msg \<Rightarrow> st_transactions (snd (upsert_broker_transactions resolver account source ts s)) = st_transactions s
      | Inr rows \<Rightarrow> (\<forall>r \<in> set rows. txn_bare r)
          \<and> snd (upsert_broker_transactions resolver account source ts s) = (if ts = [] then s else upsert_transactions rows s1)"
    using upsert_broker_transactions_cases [OF assms(1)] by blast
  show ?thesis
  proof (cases ?rows)
    case (Inl msg)
    with import assms(2) show ?thesis by (simp add: txn_group_of_def)
  next
    case (Inr rows)
    with import have bare: "\<forall>r \<in> set rows. txn_bare r"
      and eq: "snd (upsert_broker_transactions resolver account source ts s) = (if ts = [] then s else upsert_transactions rows s1)"
      by simp_all
    obtain e where e: "table_get_by_key (st_transactions s) tid = Some e" "r_trade_group_id e = Some g"
      using assms(2) by (auto simp: txn_group_of_def bind_eq_Some_conv)
    have "txn_group_of (upsert_transactions rows s1) tid = Some g"
      using last_of_bare [OF _ bare, of tid] e
      by (auto simp: txn_group_of_def upsert_transactions_lookup [OF s1(2) bare] s1(1) txn_preserve_def
          txn_bare_def split: option.split)
    then show ?thesis using eq assms(2) by simp
  qed
qed

lemma import_ok: "ledger_ok s \<Longrightarrow> ledger_ok (snd (upsert_broker_transactions resolver account source ts s))"
  using upsert_broker_transactions_cases by blast

text \<open>A feed as a step that keeps the invariant and every attribution.\<close>

definition keeps_groups :: "(ledger \<Rightarrow> 'a \<times> ledger) \<Rightarrow> bool" where
  "keeps_groups feed \<longleftrightarrow>
     (\<forall>s tid g. ledger_ok s \<longrightarrow> ledger_ok (snd (feed s))
        \<and> (txn_group_of s tid = Some g \<longrightarrow> txn_group_of (snd (feed s)) tid = Some g))"

lemma feeds_keep_groups:
  "keeps_groups (sync_orders client m resolver today since account)"
  "keeps_groups (sync_transactions client m resolver today since account)"
  "keeps_groups (sync_positions client m resolver account)"
  "keeps_groups (sync_balances client m account)"
  by (auto simp: keeps_groups_def sync_orders_def sync_transactions_def sync_positions_def sync_balances_def
      txn_group_of_def history_keeps positions_keep balance_keeps import_ok
      intro: import_keeps_group [unfolded txn_group_of_def] split: sum.split)

lemma sync_step_keeps:
  assumes "keeps_groups feed" "ledger_ok (snd acc)"
  shows "ledger_ok (snd (sync_step name store_count feed acc))
     \<and> (txn_group_of (snd acc) tid = Some g \<longrightarrow> txn_group_of (snd (sync_step name store_count feed acc)) tid = Some g)"
proof -
  obtain r s where acc: "acc = (r, s)" by (cases acc)
  have "snd (sync_step name store_count feed acc) = snd (feed s)"
    by (simp add: sync_step_def acc case_prod_beta split: sum.split)
  with assms show ?thesis by (simp add: keeps_groups_def acc)
qed

lemma sync_feeds_keep:
  assumes "ledger_ok s"
  shows "ledger_ok (snd (sync_feeds client m resolver today since account s))
     \<and> (txn_group_of s tid = Some g \<longrightarrow>
          txn_group_of (snd (sync_feeds client m resolver today since account s)) tid = Some g)"
  using assms unfolding sync_feeds_def
  by (simp add: sync_step_keeps feeds_keep_groups)

lemma sync_all_ledger:
  "snd (sync_all client m resolver settlement_price today since account s) =
     snd (reconcile (Some account) since settlement_price DEFAULT_SETTLE_AFTER False
       (snd (sync_feeds client m resolver today since account s)))"
  by (simp add: sync_all_def Let_def case_prod_beta)

section \<open>What a sync guarantees\<close>

text \<open>
  Whatever the broker answers, and whichever feeds or resolvers fail, a sync never
  takes a transaction out of its trade group nor moves it to another: the imports rewrite broker
  columns only and the reconcile pass at the end attaches ungrouped rows only. The settlements the
  pass synthesizes itself, whose ids start with \<open>lapse-\<close>, are the one exception.
\<close>

theorem sync_never_reattributes:
  assumes "ledger_ok s" and "txn_group_of s tid = Some g" and "\<not> is_lapse_id tid"
  shows "txn_group_of (snd (sync_all client m resolver settlement_price today since account s)) tid = Some g"
  unfolding sync_all_ledger
  using assms sync_feeds_keep [OF assms(1)] by (intro reconcile_keeps_group) simp_all

definition example_mapper :: account_mapper where
  "example_mapper = mk_mapper [(''acct'', ''5W1'')] None None None None"

definition silent_mock :: mock_client where
  "silent_mock = \<lparr> mc_page_size = 250, mc_orders = [], mc_transactions = [], mc_positions = [], mc_balances = [] \<rparr>"

theorem sync_never_reattributes_witness:
  "txn_group_of (snd (sync_all (mock_broker (silent_mock\<lparr>mc_transactions := [(''5W1'', [example_broker_txn])]\<rparr>))
       example_mapper passthrough_resolver None 20000 None ''acct''
       (upsert_transaction (example_txn ''1'' (Some 4) 5) (ledger_empty 0 (\<lambda>_. []))))) ''1'' = Some 4"
proof (rule sync_never_reattributes)
  show "ledger_ok (upsert_transaction (example_txn ''1'' (Some 4) 5) (ledger_empty 0 (\<lambda>_. [])))"
    by (simp add: ledger_ok_upsert_transaction ledger_ok_empty)
  show "txn_group_of (upsert_transaction (example_txn ''1'' (Some 4) 5) (ledger_empty 0 (\<lambda>_. []))) ''1'' = Some 4"
    by code_simp
  show "\<not> is_lapse_id ''1''" by code_simp
qed

text \<open>
  A sync that reports no error leaves nothing to attribute and nothing half closed:
  every transaction in range that carries an order, a settlement or a delivery is in a group, and no
  open group of the account has a fully closed membership.
\<close>

theorem clean_sync_settles_the_account:
  assumes "ledger_ok s"
    and "sync_all client m resolver settlement_price today since account s = (r, s')" and "sr_errors r = []"
  shows "candidates s' account since = []
    \<and> filter (\<lambda>g. fully_closed (og_rows g)) (load_open_groups s' account) = []"
proof -
  define s1 where "s1 = snd (sync_feeds client m resolver today since account s)"
  have ok: "ledger_ok s1" using sync_feeds_keep [OF assms(1)] by (simp add: s1_def)
  obtain rec where run: "reconcile_account since settlement_price DEFAULT_SETTLE_AFTER False account (sync_result0, s1) = (rec, s')"
    using assms(2) sync_all_ledger [of client m resolver settlement_price today since account s]
    by (cases "reconcile_account since settlement_price DEFAULT_SETTLE_AFTER False account (sync_result0, s1)")
      (simp add: reconcile_def s1_def)
  have "sr_errors rec = []"
    using assms(2,3) run by (auto simp: sync_all_def Let_def case_prod_beta reconcile_def s1_def)
  then have clean: "sr_errors rec = sr_errors sync_result0" by (simp add: sync_result0_def)
  show ?thesis
    using clean_run_groups_candidates [OF run clean] clean_run_closes_groups [OF ok run clean] by blast
qed

text \<open>A client whose failing list feeds answer with an empty list instead.\<close>

definition or_empty :: "string + 'a list \<Rightarrow> string + 'a list" where
  "or_empty answer = (case answer of Inl _ \<Rightarrow> Inr [] | Inr xs \<Rightarrow> Inr xs)"

definition silenced :: "broker_client \<Rightarrow> broker_client" where
  "silenced client = client
     \<lparr> get_order_history := \<lambda>number start stop. or_empty (get_order_history client number start stop),
       get_transaction_history := \<lambda>number start stop. or_empty (get_transaction_history client number start stop),
       get_broker_positions := \<lambda>number. or_empty (get_broker_positions client number) \<rparr>"

definition outage :: "string \<Rightarrow> string + 'a \<Rightarrow> string list" where
  "outage name answer = (case answer of Inl msg \<Rightarrow> [name @ '': '' @ msg] | Inr _ \<Rightarrow> [])"

text \<open>Two runs that differ in error lines only.\<close>

definition same_but_errors :: "string list \<Rightarrow> sync_result \<times> ledger \<Rightarrow> sync_result \<times> ledger \<Rightarrow> bool" where
  "same_but_errors lines acc acc' \<longleftrightarrow>
     snd acc = snd acc' \<and> (fst acc)\<lparr>sr_errors := []\<rparr> = (fst acc')\<lparr>sr_errors := []\<rparr>
   \<and> mset (sr_errors (fst acc)) = mset (sr_errors (fst acc')) + mset lines"

lemma same_but_errors_step:
  assumes rel: "same_but_errors lines acc acc'"
    and count: "\<And>n r e. store_count n (r\<lparr>sr_errors := e\<rparr>) = (store_count n r)\<lparr>sr_errors := e\<rparr>"
      "\<And>n r. sr_errors (store_count n r) = sr_errors r"
    and feed: "(\<exists>msg. feed s = (Inl msg, s) \<and> feed' s = (Inr 0, s) \<and> new = [name @ '': '' @ msg]) \<or> feed s = feed' s \<and> new = []"
    and s: "s = snd acc'" and zero: "store_count 0 (fst acc') = fst acc'"
  shows "same_but_errors (lines @ new) (sync_step name store_count feed acc) (sync_step name store_count feed' acc')"
proof -
  obtain r r' where acc: "acc = (r, s)" "acc' = (r', s)"
    using rel s by (cases acc; cases acc') (simp add: same_but_errors_def)
  have r: "r\<lparr>sr_errors := []\<rparr> = r'\<lparr>sr_errors := []\<rparr>" "mset (sr_errors r) = mset (sr_errors r') + mset lines"
    using rel by (simp_all add: same_but_errors_def acc)
  have counts: "(store_count n r)\<lparr>sr_errors := []\<rparr> = (store_count n r')\<lparr>sr_errors := []\<rparr>" for n
    using arg_cong [OF r(1), of "store_count n"] by (simp add: count(1))
  from feed show ?thesis
  proof
    assume "\<exists>msg. feed s = (Inl msg, s) \<and> feed' s = (Inr 0, s) \<and> new = [name @ '': '' @ msg]"
    then obtain msg where "feed s = (Inl msg, s)" "feed' s = (Inr 0, s)" "new = [name @ '': '' @ msg]" by blast
    then show ?thesis
      using r zero by (simp add: acc sync_step_def same_but_errors_def)
  next
    assume "feed s = feed' s \<and> new = []"
    then show ?thesis
      using r counts by (simp add: acc sync_step_def same_but_errors_def count(2) case_prod_beta split: sum.split)
  qed
qed

lemma same_but_errors_sync_all:
  assumes "same_but_errors lines (sync_feeds client m resolver today since account s)
      (sync_feeds client' m resolver today since account s)"
  shows "let (r, s') = sync_all client m resolver settlement_price today since account s;
             (r', s'') = sync_all client' m resolver settlement_price today since account s
    in s' = s'' \<and> r\<lparr>sr_errors := []\<rparr> = r'\<lparr>sr_errors := []\<rparr>
     \<and> mset (sr_errors r) = mset (sr_errors r') + mset lines"
proof -
  obtain r1 s1 r2 s2 where 1: "sync_feeds client m resolver today since account s = (r1, s1)"
    and 2: "sync_feeds client' m resolver today since account s = (r2, s2)" by fastforce
  have same: "s1 = s2" "r1\<lparr>sr_errors := []\<rparr> = r2\<lparr>sr_errors := []\<rparr>" "mset (sr_errors r1) = mset (sr_errors r2) + mset lines"
    using assms by (simp_all add: same_but_errors_def 1 2)
  have tg: "sr_trade_groups r1 = sr_trade_groups r2" using arg_cong [OF same(2), of sr_trade_groups] by simp
  have upd: "r1\<lparr>sr_trade_groups := x, sr_errors := []\<rparr> = r2\<lparr>sr_trade_groups := x, sr_errors := []\<rparr>" for x
    using same(2) by (cases r1; cases r2) simp
  obtain rec s3 where rec: "reconcile (Some account) since settlement_price DEFAULT_SETTLE_AFTER False s2 = (rec, s3)" by fastforce
  show ?thesis
    using same upd by (simp add: sync_all_def 1 2 rec tg)
qed

text \<open>
  A failing feed costs its own data and nothing else: for a known account, a sync whose
  order, transaction or position feeds raise leaves the ledger and every count as if those feeds had
  answered with nothing, and its report has one more error line for each of them.
\<close>

theorem outage_is_silence:
  assumes "to_account_number m account = Inr number"
  shows "let (r, s') = sync_all client m resolver settlement_price today since account s;
             (r', s'') = sync_all (silenced client) m resolver settlement_price today since account s
    in s' = s'' \<and> r\<lparr>sr_errors := []\<rparr> = r'\<lparr>sr_errors := []\<rparr>
     \<and> mset (sr_errors r) = mset (sr_errors r')
          + mset (outage ''sync_orders'' (get_order_history client number (start_of since) today)
               @ outage ''sync_transactions'' (get_transaction_history client number (start_of since) today)
               @ outage ''sync_positions'' (get_broker_positions client number))"
proof -
  note feed_defs = sync_orders_def sync_transactions_def sync_positions_def sync_balances_def assms silenced_def
    or_empty_def outage_def upsert_from_history_def upsert_broker_transactions_def upsert_broker_positions_def
  let ?step1 = "\<lambda>c. sync_step ''sync_orders'' (\<lambda>n r. r\<lparr>sr_orders := n\<rparr>)
              (sync_orders c m resolver today since account) (sync_result0, s)"
  let ?step2 = "\<lambda>c. sync_step ''sync_transactions'' (\<lambda>n r. r\<lparr>sr_transactions := n\<rparr>)
            (sync_transactions c m resolver today since account) (?step1 c)"
  let ?step3 = "\<lambda>c. sync_step ''sync_positions'' (\<lambda>n r. r\<lparr>sr_positions := n\<rparr>) (sync_positions c m resolver account) (?step2 c)"
  let ?step4 = "\<lambda>c. sync_step ''sync_balances'' (\<lambda>n r. r\<lparr>sr_balances := n\<rparr>) (sync_balances c m account) (?step3 c)"
  let ?q = "silenced client"
  have "same_but_errors ([] @ outage ''sync_orders'' (get_order_history client number (start_of since) today))
      (?step1 client) (?step1 ?q)"
    by (rule same_but_errors_step [where s = s]) (auto simp: same_but_errors_def feed_defs sync_result0_def split: sum.split)
  then have "same_but_errors (([] @ outage ''sync_orders'' (get_order_history client number (start_of since) today))
        @ outage ''sync_transactions'' (get_transaction_history client number (start_of since) today))
      (?step2 client) (?step2 ?q)"
    by (rule same_but_errors_step [where s = "snd (?step1 ?q)"])
      (auto simp: feed_defs sync_step_def sync_result0_def case_prod_beta split: sum.split)
  then have "same_but_errors ((([] @ outage ''sync_orders'' (get_order_history client number (start_of since) today))
        @ outage ''sync_transactions'' (get_transaction_history client number (start_of since) today))
        @ outage ''sync_positions'' (get_broker_positions client number))
      (?step3 client) (?step3 ?q)"
    by (rule same_but_errors_step [where s = "snd (?step2 ?q)"])
      (auto simp: feed_defs sync_step_def sync_result0_def case_prod_beta split: sum.split)
  then have "same_but_errors (((([] @ outage ''sync_orders'' (get_order_history client number (start_of since) today))
        @ outage ''sync_transactions'' (get_transaction_history client number (start_of since) today))
        @ outage ''sync_positions'' (get_broker_positions client number)) @ [])
      (?step4 client) (?step4 ?q)"
    by (rule same_but_errors_step [where s = "snd (?step3 ?q)"])
      (auto simp: feed_defs sync_step_def sync_result0_def case_prod_beta split: sum.split)
  then have "same_but_errors (outage ''sync_orders'' (get_order_history client number (start_of since) today)
        @ outage ''sync_transactions'' (get_transaction_history client number (start_of since) today)
        @ outage ''sync_positions'' (get_broker_positions client number))
      (sync_feeds client m resolver today since account s) (sync_feeds ?q m resolver today since account s)"
    by (simp only: sync_feeds_def append_Nil append_Nil2 append_assoc)
  from same_but_errors_sync_all [OF this] show ?thesis .
qed

theorem outage_is_silence_witness:
  "let client = (mock_broker silent_mock)\<lparr>get_order_history := \<lambda>_ _ _. Inl ''timeout''\<rparr>
   in snd (sync_all client example_mapper passthrough_resolver None 20000 None ''acct'' example_pending)
        = snd (sync_all (silenced client) example_mapper passthrough_resolver None 20000 None ''acct'' example_pending)
    \<and> ''sync_orders: timeout'' \<in> set (sr_errors (fst (sync_all client example_mapper passthrough_resolver None 20000 None ''acct'' example_pending)))"
proof -
  let ?client = "(mock_broker silent_mock)\<lparr>get_order_history := \<lambda>_ _ _. Inl ''timeout''\<rparr>"
  have number: "to_account_number example_mapper ''acct'' = Inr ''5W1''" by code_simp
  obtain r s' r' s'' where 1: "sync_all ?client example_mapper passthrough_resolver None 20000 None ''acct'' example_pending = (r, s')"
    and 2: "sync_all (silenced ?client) example_mapper passthrough_resolver None 20000 None ''acct'' example_pending = (r', s'')"
    by fastforce
  from outage_is_silence [OF number, of ?client passthrough_resolver None 20000 None example_pending]
  have "s' = s''" and m: "mset (sr_errors r) = mset (sr_errors r') + mset (outage ''sync_orders'' (Inl ''timeout'' :: string + placed_order list)
      @ outage ''sync_transactions'' (get_transaction_history ?client ''5W1'' (start_of None) 20000)
      @ outage ''sync_positions'' (get_broker_positions ?client ''5W1''))"
    by (simp_all add: 1 2)
  have "''sync_orders: timeout'' \<in># mset (sr_errors r)" unfolding m by (simp add: outage_def)
  with \<open>s' = s''\<close> show ?thesis by (simp add: 1 2)
qed

end
