(* ===== verification/Push.thy ===== *)
theory Push
  imports Pull
begin

text \<open>
  Push ingestion (\<^verbatim>\<open>tt_ledger/ingest/push.py\<close>): the stream consumer. Its own state is the
  throttle of the balance series (per account the instant and the net liquidating value last
  persisted) and the cache of accounts already seeded; the transport is the sequence of events it
  sees, each message with the wall clock at its arrival, interleaved with calls of \<open>stop\<close> from
  other tasks. A message whose handler raises is logged and skipped, and what it wrote before stays
  written. The optional balance hook is a flag and the list of messages handed to it.
\<close>

section \<open>The consumer\<close>

datatype stream_message = Fill fill_event | Position broker_position | Balance balance_message

record consumer_config =
  cc_accounts :: account_mapper
  cc_resolver :: resolver
  cc_has_hook :: bool
  cc_persist_balances :: bool
  cc_min_interval :: timedelta

record consumer =
  c_ledger :: ledger
  c_last :: "(string, datetime \<times> decimal option) dict"
  c_ensured :: "string list"
  c_forwarded :: "balance_message list"

definition consumer_start :: "ledger \<Rightarrow> consumer" where
  "consumer_start s = \<lparr> c_ledger = s, c_last = [], c_ensured = [], c_forwarded = [] \<rparr>"

text \<open>The account of a broker message, seeded in the accounts table on first sight.\<close>

definition account_of_message :: "consumer_config \<Rightarrow> string \<Rightarrow> consumer \<Rightarrow> (string + string) \<times> consumer" where
  "account_of_message cfg number st =
     (case to_nickname (cc_accounts cfg) number of
        Inl msg \<Rightarrow> (Inl msg, st)
      | Inr account \<Rightarrow>
          (case ensure_account (cc_accounts cfg) account (c_ensured st, c_ledger st) of
             (Inl msg, _, _) \<Rightarrow> (Inl msg, st)
           | (Inr _, cache, s) \<Rightarrow> (Inr account, st\<lparr>c_ensured := cache, c_ledger := s\<rparr>)))"

definition apply_position :: "consumer_config \<Rightarrow> broker_position \<Rightarrow> consumer \<Rightarrow> (string + unit) \<times> consumer" where
  "apply_position cfg pos st =
     (case account_of_message cfg (bp_account_number pos) st of
        (Inl msg, st1) \<Rightarrow> (Inl msg, st1)
      | (Inr account, st1) \<Rightarrow>
          (case upsert_broker_positions (cc_resolver cfg) account [pos] (c_ledger st1) of
             (Inl msg, s) \<Rightarrow> (Inl msg, st1\<lparr>c_ledger := s\<rparr>)
           | (Inr _, s) \<Rightarrow> (Inr (), st1\<lparr>c_ledger := s\<rparr>)))"

text \<open>Persist when nothing is on record, when the interval has passed, or when the value moved.\<close>

definition throttle_passes :: "timedelta \<Rightarrow> (datetime \<times> decimal option) option \<Rightarrow> datetime \<Rightarrow> decimal option \<Rightarrow> bool" where
  "throttle_passes interval last_persisted now nlv =
     (case last_persisted of
        None \<Rightarrow> True
      | Some (at_last, nlv_last) \<Rightarrow> interval \<le> now - at_last \<or> nlv \<noteq> nlv_last)"

definition message_time :: "datetime \<Rightarrow> balance_message \<Rightarrow> datetime" where
  "message_time clock msg = (case bm_captured_at msg of None \<Rightarrow> clock | Some t \<Rightarrow> t)"

definition persist_balance :: "consumer_config \<Rightarrow> string \<Rightarrow> balance_message \<Rightarrow> consumer \<Rightarrow> consumer" where
  "persist_balance cfg account msg st =
     (let now = message_time (env_now (c_ledger st)) msg; nlv = bm_net_liquidating_value msg in
      if throttle_passes (cc_min_interval cfg) (dict_get (c_last st) account) now nlv
      then st\<lparr> c_ledger := record_balance msg account ''stream'' (c_ledger st),
               c_last := dict_set account (now, nlv) (c_last st) \<rparr>
      else st)"

definition forward_balance :: "consumer_config \<Rightarrow> balance_message \<Rightarrow> consumer \<Rightarrow> consumer" where
  "forward_balance cfg msg st = (if cc_has_hook cfg then st\<lparr>c_forwarded := c_forwarded st @ [msg]\<rparr> else st)"

definition apply_balance :: "consumer_config \<Rightarrow> balance_message \<Rightarrow> consumer \<Rightarrow> (string + unit) \<times> consumer" where
  "apply_balance cfg msg st =
     (if \<not> cc_persist_balances cfg then (Inr (), forward_balance cfg msg st)
      else
        (case account_of_message cfg (bm_account_number msg) st of
           (Inl e, st1) \<Rightarrow> (Inl e, st1)
         | (Inr account, st1) \<Rightarrow> (Inr (), forward_balance cfg msg (persist_balance cfg account msg st1))))"

definition apply_fill :: "fill_event \<Rightarrow> consumer \<Rightarrow> (string + unit) \<times> consumer" where
  "apply_fill evt st = (Inr (), st\<lparr>c_ledger := snd (apply_fill_event evt (c_ledger st))\<rparr>)"

definition tick :: "datetime \<Rightarrow> consumer \<Rightarrow> consumer" where
  "tick clock st = st\<lparr>c_ledger := (c_ledger st)\<lparr>env_now := clock\<rparr>\<rparr>"

text \<open>One iteration of the loop: dispatch, and swallow what the handler raises.\<close>

definition handle_message :: "consumer_config \<Rightarrow> datetime \<Rightarrow> stream_message \<Rightarrow> consumer \<Rightarrow> consumer" where
  "handle_message cfg clock msg st =
     snd (case msg of
            Fill evt \<Rightarrow> apply_fill evt (tick clock st)
          | Position pos \<Rightarrow> apply_position cfg pos (tick clock st)
          | Balance bal \<Rightarrow> apply_balance cfg bal (tick clock st))"

datatype stream_event = Arrives datetime stream_message | Stop

text \<open>\<open>run()\<close>: a stop takes effect at the next message, which is dropped; an exhausted source
  ends the loop.\<close>

fun run_consumer :: "consumer_config \<Rightarrow> bool \<Rightarrow> stream_event list \<Rightarrow> consumer \<Rightarrow> consumer" where
  "run_consumer cfg stopped [] st = st"
| "run_consumer cfg stopped (Stop # es) st = run_consumer cfg True es st"
| "run_consumer cfg stopped (Arrives clock msg # es) st =
     (if stopped then st else run_consumer cfg stopped es (handle_message cfg clock msg st))"

section \<open>The consumer as a state machine\<close>

inductive consumer_step :: "consumer_config \<Rightarrow> bool \<times> consumer \<Rightarrow> bool \<times> consumer \<Rightarrow> bool" for cfg where
  message: "consumer_step cfg (False, st) (False, handle_message cfg clock msg st)"
| stop: "consumer_step cfg (stopped, st) (True, st)"

inductive_cases consumer_stepE: "consumer_step cfg (stopped, st) (stopped', st')"

lemma run_consumer_reachable:
  "\<exists>stopped'. (consumer_step cfg)\<^sup>*\<^sup>* (stopped, st) (stopped', run_consumer cfg stopped es st)"
proof (induction cfg stopped es st rule: run_consumer.induct)
  case (2 cfg stopped es st)
  then obtain stopped' where "(consumer_step cfg)\<^sup>*\<^sup>* (True, st) (stopped', run_consumer cfg True es st)" by blast
  then have "(consumer_step cfg)\<^sup>*\<^sup>* (stopped, st) (stopped', run_consumer cfg True es st)"
    by (rule converse_rtranclp_into_rtranclp [where r = "consumer_step cfg", rotated]) (rule consumer_step.stop)
  then show ?case by auto
next
  case (3 cfg stopped clock msg es st)
  show ?case
  proof (cases stopped)
    case True
    then show ?thesis by auto
  next
    case False
    then have "consumer_step cfg (stopped, st) (False, handle_message cfg clock msg st)"
      by (simp add: consumer_step.message)
    moreover obtain stopped' where "(consumer_step cfg)\<^sup>*\<^sup>* (False, handle_message cfg clock msg st)
        (stopped', run_consumer cfg False es (handle_message cfg clock msg st))" using 3 False by auto
    ultimately have "(consumer_step cfg)\<^sup>*\<^sup>* (stopped, st) (stopped', run_consumer cfg False es (handle_message cfg clock msg st))"
      by (rule converse_rtranclp_into_rtranclp)
    then show ?thesis using False by auto
  qed
qed auto

text \<open>A stopped consumer changes no more.\<close>

lemma stopped_stays: "(consumer_step cfg)\<^sup>*\<^sup>* p q \<Longrightarrow> fst p \<Longrightarrow> q = p"
proof (induction rule: rtranclp_induct)
  case (step q r)
  then show ?case by (cases p; cases r) (auto elim!: consumer_stepE)
qed simp

section \<open>The accounts and the rows of the series\<close>

lemma ensure_account_balances:
  "st_balance_snapshots (snd (snd (ensure_account m account acc))) = st_balance_snapshots (snd acc)"
  by (cases acc) (simp add: ensure_account_def upsert_account_def split: sum.split)

lemma account_of_message_keeps:
  "st_balance_snapshots (c_ledger (snd (account_of_message cfg number st))) = st_balance_snapshots (c_ledger st)
   \<and> c_last (snd (account_of_message cfg number st)) = c_last st"
  using ensure_account_balances [of "cc_accounts cfg" _ "(c_ensured st, c_ledger st)"]
  by (auto simp: account_of_message_def split: sum.split prod.split) (metis snd_conv)

lemma position_keeps_balances:
  "st_balance_snapshots (snd (upsert_broker_positions resolver account page s)) = st_balance_snapshots s"
proof -
  have "st_balance_snapshots (upsert_positions rows s') = st_balance_snapshots s'" for rows s'
    by (induction rows arbitrary: s') simp_all
  then show ?thesis
    using only_securities_positions [of "([], s)" resolver account page]
    by (auto simp: upsert_broker_positions_def case_prod_beta only_securities_def split: sum.split prod.split)
qed

lemma fill_keeps_balances: "st_balance_snapshots (snd (apply_fill_event evt s)) = st_balance_snapshots s"
proof -
  have "st_balance_snapshots (snd (upsert_orders rows s')) = st_balance_snapshots s'" for rows s'
    by (induction rows arbitrary: s') (simp_all add: case_prod_beta upsert_order_alt)
  then show ?thesis by (simp add: apply_fill_event_def Let_def del: upsert_orders.simps split: option.split)
qed

lemma apply_position_keeps:
  "st_balance_snapshots (c_ledger (snd (apply_position cfg pos st))) = st_balance_snapshots (c_ledger st)
   \<and> c_last (snd (apply_position cfg pos st)) = c_last st"
proof (cases "account_of_message cfg (bp_account_number pos) st")
  case (Pair res st1)
  then have st1: "st_balance_snapshots (c_ledger st1) = st_balance_snapshots (c_ledger st)" "c_last st1 = c_last st"
    using account_of_message_keeps [of cfg "bp_account_number pos" st] by simp_all
  show ?thesis
  proof (cases res)
    case (Inr account)
    have "snd (apply_position cfg pos st)
        = st1\<lparr>c_ledger := snd (upsert_broker_positions (cc_resolver cfg) account [pos] (c_ledger st1))\<rparr>"
      by (simp add: apply_position_def Pair Inr case_prod_beta split: sum.split)
    then show ?thesis using st1 by (simp add: position_keeps_balances)
  qed (simp add: apply_position_def Pair st1)
qed

text \<open>A mapper whose two directions agree, as every loaded one does.\<close>

definition mapper_ok :: "account_mapper \<Rightarrow> bool" where
  "mapper_ok m \<longleftrightarrow> (\<forall>number n. to_nickname m number = Inr n \<longrightarrow> to_account_number m n = Inr number)"

lemma from_toml_mapper_ok: "from_toml data login = Inr m \<Longrightarrow> mapper_ok m"
  using from_toml_ok [of data login m] mk_mapper_inverse(1) names_okD(1) by (metis (no_types) mapper_ok_def)

lemma account_of_message_ok:
  "mapper_ok (cc_accounts cfg) \<Longrightarrow> fst (account_of_message cfg number st) = to_nickname (cc_accounts cfg) number"
  by (auto simp: account_of_message_def ensure_account_def mapper_ok_def split: sum.split)

text \<open>What a balance message does to the series of an account.\<close>

definition stream_nlv :: "ledger \<Rightarrow> string \<Rightarrow> datetime \<Rightarrow> decimal option option" where
  "stream_nlv s account t =
     map_option bs_net_liquidating_value (table_get_by_key (st_balance_snapshots s) (account, t, ''stream''))"

abbreviation balances_ok :: "consumer \<Rightarrow> bool" where
  "balances_ok st \<equiv> table_ok balance_key (st_balance_snapshots (c_ledger st))"

lemma record_balance_series:
  assumes "table_ok balance_key (st_balance_snapshots s)"
  shows "stream_nlv (record_balance msg account ''stream'' s) a t =
     (if a = account \<and> t = message_time (env_now s) msg then Some (bm_net_liquidating_value msg) else stream_nlv s a t)
   \<and> table_ok balance_key (st_balance_snapshots (record_balance msg account ''stream'' s))"
  using assms
  by (auto simp: record_balance_def upsert_balance_snapshot_def stream_nlv_def message_time_def
      table_ok_upsert balance_key_def table_upsert_key table_upsert_other_key)

definition of_account :: "consumer_config \<Rightarrow> string \<Rightarrow> balance_message \<Rightarrow> bool" where
  "of_account cfg account bal \<longleftrightarrow> to_nickname (cc_accounts cfg) (bm_account_number bal) = Inr account"

lemma tick_keeps [simp]:
  "c_last (tick clock st) = c_last st" "st_balance_snapshots (c_ledger (tick clock st)) = st_balance_snapshots (c_ledger st)"
  "env_now (c_ledger (tick clock st)) = clock"
  by (simp_all add: tick_def)

lemma env_now_account_of_message [simp]:
  "env_now (c_ledger (snd (account_of_message cfg number st))) = env_now (c_ledger st)"
  by (auto simp: account_of_message_def ensure_account_def upsert_account_def split: sum.split if_split)

lemma handle_other:
  assumes "\<forall>bal. msg = Balance bal \<longrightarrow> \<not> cc_persist_balances cfg"
  shows "st_balance_snapshots (c_ledger (handle_message cfg clock msg st)) = st_balance_snapshots (c_ledger st)
    \<and> c_last (handle_message cfg clock msg st) = c_last st"
proof (cases msg)
  case (Fill evt)
  then show ?thesis
    using fill_keeps_balances [of evt "c_ledger (tick clock st)"] by (simp add: handle_message_def apply_fill_def)
next
  case (Position pos)
  then show ?thesis
    using apply_position_keeps [of cfg pos "tick clock st"] by (simp add: handle_message_def)
next
  case (Balance bal)
  with assms show ?thesis by (simp add: handle_message_def apply_balance_def forward_balance_def)
qed

lemma handle_balance:
  fixes clock and bal
  assumes "mapper_ok (cc_accounts cfg)" "cc_persist_balances cfg" "balances_ok st"
  defines "now \<equiv> message_time clock bal" and "nlv \<equiv> bm_net_liquidating_value bal"
  shows "balances_ok (handle_message cfg clock (Balance bal) st)
    \<and> (if of_account cfg a bal \<and> throttle_passes (cc_min_interval cfg) (dict_get (c_last st) a) now nlv
       then dict_get (c_last (handle_message cfg clock (Balance bal) st)) a = Some (now, nlv)
          \<and> (\<forall>t. stream_nlv (c_ledger (handle_message cfg clock (Balance bal) st)) a t
                = (if t = now then Some nlv else stream_nlv (c_ledger st) a t))
       else dict_get (c_last (handle_message cfg clock (Balance bal) st)) a = dict_get (c_last st) a
          \<and> (\<forall>t. stream_nlv (c_ledger (handle_message cfg clock (Balance bal) st)) a t = stream_nlv (c_ledger st) a t))"
proof (cases "account_of_message cfg (bm_account_number bal) (tick clock st)")
  case (Pair res st1)
  have res: "res = to_nickname (cc_accounts cfg) (bm_account_number bal)"
    using account_of_message_ok [OF assms(1), of "bm_account_number bal" "tick clock st"] Pair by simp
  have st1: "st_balance_snapshots (c_ledger st1) = st_balance_snapshots (c_ledger st)" "c_last st1 = c_last st"
    "env_now (c_ledger st1) = clock"
    using account_of_message_keeps [of cfg "bm_account_number bal" "tick clock st"]
      env_now_account_of_message [of cfg "bm_account_number bal" "tick clock st"] Pair by simp_all
  have same: "stream_nlv (c_ledger st1) b t = stream_nlv (c_ledger st) b t" for b t
    by (simp add: stream_nlv_def st1)
  show ?thesis
  proof (cases res)
    case (Inl msg)
    then have "handle_message cfg clock (Balance bal) st = st1"
      using assms(2) Pair by (simp add: handle_message_def apply_balance_def)
    moreover have "\<not> of_account cfg a bal" using res [symmetric] Inl by (simp add: of_account_def)
    ultimately show ?thesis using assms(3) st1 same by simp
  next
    case (Inr account)
    then have st': "handle_message cfg clock (Balance bal) st = forward_balance cfg bal (persist_balance cfg account bal st1)"
      using assms(2) Pair by (simp add: handle_message_def apply_balance_def)
    have acc: "of_account cfg a bal \<longleftrightarrow> a = account" using res Inr by (auto simp: of_account_def)
    have ok1: "table_ok balance_key (st_balance_snapshots (c_ledger st1))" using assms(3) st1 by simp
    show ?thesis
      using record_balance_series [OF ok1, of bal account] assms(3)
      by (auto simp: st' forward_balance_def persist_balance_def Let_def st1 same acc now_def nlv_def)
  qed
qed

text \<open>The abstract series: the messages of an account that pass the throttle.\<close>

fun balance_series :: "consumer_config \<Rightarrow> string \<Rightarrow> stream_event list \<Rightarrow> (datetime \<times> decimal option) list" where
  "balance_series cfg a [] = []"
| "balance_series cfg a (Stop # es) = []"
| "balance_series cfg a (Arrives clock (Balance bal) # es) =
     (if of_account cfg a bal then [(message_time clock bal, bm_net_liquidating_value bal)] else [])
       @ balance_series cfg a es"
| "balance_series cfg a (Arrives clock (Fill evt) # es) = balance_series cfg a es"
| "balance_series cfg a (Arrives clock (Position pos) # es) = balance_series cfg a es"

fun throttled :: "timedelta \<Rightarrow> (datetime \<times> decimal option) option \<Rightarrow> (datetime \<times> decimal option) list
     \<Rightarrow> (datetime \<times> decimal option) list" where
  "throttled interval last_persisted [] = []"
| "throttled interval last_persisted ((t, nlv) # xs) =
     (if throttle_passes interval last_persisted t nlv
      then (t, nlv) # throttled interval (Some (t, nlv)) xs
      else throttled interval last_persisted xs)"

lemma run_stopped [simp]: "run_consumer cfg True es st = st"
  by (induction cfg True es st rule: run_consumer.induct) simp_all

lemma run_records:
  assumes "mapper_ok (cc_accounts cfg)" "cc_persist_balances cfg" "balances_ok st"
  shows "let kept = throttled (cc_min_interval cfg) (dict_get (c_last st) a) (balance_series cfg a es)
    in dict_get (c_last (run_consumer cfg False es st)) a =
           (if kept = [] then dict_get (c_last st) a else Some (last kept))
    \<and> stream_nlv (c_ledger (run_consumer cfg False es st)) a t =
           (case map_of (rev kept) t of Some nlv \<Rightarrow> Some nlv | None \<Rightarrow> stream_nlv (c_ledger st) a t)"
  using assms
proof (induction cfg a es arbitrary: st rule: balance_series.induct)
  case (3 cfg a clock bal es)
  let ?st = "handle_message cfg clock (Balance bal) st"
  note H = handle_balance [OF "3.prems", of clock bal a]
  have ok: "balances_ok ?st" using H by (rule conjunct1)
  note IH = "3.IH" [OF "3.prems"(1,2) ok]
  show ?case
  proof (cases "of_account cfg a bal \<and> throttle_passes (cc_min_interval cfg) (dict_get (c_last st) a)
      (message_time clock bal) (bm_net_liquidating_value bal)")
    case True
    then show ?thesis using IH H by (simp add: Let_def map_add_def split: option.split)
  next
    case False
    then have *: "dict_get (c_last ?st) a = dict_get (c_last st) a"
      "stream_nlv (c_ledger ?st) a t = stream_nlv (c_ledger st) a t" using H by simp_all
    then show ?thesis using IH False by (auto simp: Let_def cong: option.case_cong)
  qed
next
  case (4 cfg a clock evt es)
  have "balances_ok (handle_message cfg clock (Fill evt) st)"
    "stream_nlv (c_ledger (handle_message cfg clock (Fill evt) st)) a t = stream_nlv (c_ledger st) a t"
    "c_last (handle_message cfg clock (Fill evt) st) = c_last st"
    using handle_other [of "Fill evt" cfg clock st] "4.prems"(3) by (simp_all add: stream_nlv_def)
  with "4.IH" [OF "4.prems"(1,2), of "handle_message cfg clock (Fill evt) st"] show ?case
    by (simp add: Let_def cong: option.case_cong)
next
  case (5 cfg a clock pos es)
  have "balances_ok (handle_message cfg clock (Position pos) st)"
    "stream_nlv (c_ledger (handle_message cfg clock (Position pos) st)) a t = stream_nlv (c_ledger st) a t"
    "c_last (handle_message cfg clock (Position pos) st) = c_last st"
    using handle_other [of "Position pos" cfg clock st] "5.prems"(3) by (simp_all add: stream_nlv_def)
  with "5.IH" [OF "5.prems"(1,2), of "handle_message cfg clock (Position pos) st"] show ?case
    by (simp add: Let_def cong: option.case_cong)
qed simp_all

text \<open>How often the value moves, and how much of the window an interval fits into.\<close>

fun changes :: "'a \<Rightarrow> 'a list \<Rightarrow> nat" where
  "changes x [] = 0"
| "changes x (y # ys) = (if y = x then 0 else 1) + changes y ys"

lemma throttled_count:
  assumes "0 < interval" "sorted (t0 # map fst xs)"
  shows "length (throttled interval (Some (t0, n0)) xs)
       \<le> changes n0 (map snd xs) + nat ((last (t0 # map fst xs) - t0) div interval)"
  using assms(2)
proof (induction xs arbitrary: t0 n0)
  case (Cons x xs)
  obtain t n where x: "x = (t, n)" by (cases x)
  define u where "u = last (t # map fst xs)"
  have sorted: "sorted (t # map fst xs)" "t0 \<le> t" using Cons.prems x by simp_all
  have "u \<in> set (t # map fst xs)" unfolding u_def by (rule last_in_set) simp
  then have u: "t \<le> u" using sorted(1) by auto
  have last: "last (t0 # map fst (x # xs)) = u" by (simp add: u_def x)
  have from_t: "length (throttled interval (Some (t, n)) xs) \<le> changes n (map snd xs) + nat ((u - t) div interval)"
    using Cons.IH [OF sorted(1)] by (simp add: u_def)
  show ?case
  proof (cases "interval \<le> t - t0")
    case True
    have "(u - t) div interval + 1 = (u - t + interval) div interval" using assms(1) by simp
    also have "\<dots> \<le> (u - t0) div interval" by (rule zdiv_mono1) (use True assms(1) in simp_all)
    finally have "nat ((u - t) div interval) + 1 \<le> nat ((u - t0) div interval)"
      using pos_imp_zdiv_nonneg_iff [OF assms(1), of "u - t"] u by linarith
    with True from_t show ?thesis by (simp add: x throttle_passes_def last [unfolded x, simplified])
  next
    case False
    have mono: "nat ((u - t) div interval) \<le> nat ((u - t0) div interval)"
      by (rule nat_mono, rule zdiv_mono1) (use sorted(2) assms(1) in simp_all)
    show ?thesis
    proof (cases "n = n0")
      case True
      have "sorted (t0 # map fst xs)" using Cons.prems by simp
      from Cons.IH [OF this, of n0]
      have "length (throttled interval (Some (t0, n0)) xs) \<le> changes n0 (map snd xs) + nat ((last (t0 # map fst xs) - t0) div interval)" .
      moreover have "last (t0 # map fst xs) \<le> u" using sorted by (cases xs) (simp_all add: u_def)
      then have "nat ((last (t0 # map fst xs) - t0) div interval) \<le> nat ((u - t0) div interval)"
        by (intro nat_mono zdiv_mono1) (use assms(1) in simp_all)
      ultimately show ?thesis using False True by (simp add: x throttle_passes_def last [unfolded x, simplified])
    next
      case moved: False
      with False from_t mono show ?thesis by (simp add: x throttle_passes_def last [unfolded x, simplified])
    qed
  qed
qed simp

lemma consumer_start_simps [simp]:
  "c_ledger (consumer_start s) = s" "c_last (consumer_start s) = []"
  by (simp_all add: consumer_start_def)

lemma throttled_last:
  "(if throttled interval (Some p) xs = [] then snd p else snd (last (throttled interval (Some p) xs)))
     = snd (last (p # xs))"
proof (induction xs arbitrary: p)
  case (Cons x xs)
  obtain t n where x: "x = (t, n)" by (cases x)
  obtain t0 n0 where p: "p = (t0, n0)" by (cases p)
  show ?case
  proof (cases "throttle_passes interval (Some p) t n")
    case True
    then show ?thesis using Cons.IH [of x] by (auto simp: x)
  next
    case False
    then have "n = n0" by (simp add: throttle_passes_def p)
    then show ?thesis using False Cons.IH [of p] by (cases xs) (auto simp: x p)
  qed
qed simp

lemma throttled_first: "throttled interval None (x # xs) = x # throttled interval (Some x) xs"
  by (cases x) (simp add: throttle_passes_def)

lemma map_of_rev_last: "kept \<noteq> [] \<Longrightarrow> map_of (rev kept) (fst (last kept)) = Some (snd (last kept))"
  by (cases kept rule: rev_cases) (auto split: prod.split)


text \<open>
  A material update is never dropped: once any balance message of an account has
  arrived, the value the consumer has on record for it, and has written to the ledger under that
  record's instant, is the net liquidating value of the latest message, throttled or not.
\<close>

theorem no_material_update_dropped:
  assumes "mapper_ok (cc_accounts cfg)" "cc_persist_balances cfg"
    and "table_ok balance_key (st_balance_snapshots s)" and "balance_series cfg a es \<noteq> []"
  shows "\<exists>t. dict_get (c_last (run_consumer cfg False es (consumer_start s))) a
        = Some (t, snd (last (balance_series cfg a es)))
    \<and> stream_nlv (c_ledger (run_consumer cfg False es (consumer_start s))) a t
        = Some (snd (last (balance_series cfg a es)))"
proof -
  obtain x xs where series: "balance_series cfg a es = x # xs" using assms(4) by (cases "balance_series cfg a es") simp_all
  define kept where "kept = throttled (cc_min_interval cfg) None (balance_series cfg a es)"
  have kept: "kept = x # throttled (cc_min_interval cfg) (Some x) xs" by (simp only: kept_def series throttled_first)
  have nlv: "snd (last kept) = snd (last (balance_series cfg a es))"
    using throttled_last [of "cc_min_interval cfg" x xs] by (auto simp: kept series split: if_splits)
  have "kept \<noteq> []" by (simp add: kept)
  note map_of_rev_last [OF this]
  moreover have "dict_get (c_last (run_consumer cfg False es (consumer_start s))) a = Some (last kept)"
    and "stream_nlv (c_ledger (run_consumer cfg False es (consumer_start s))) a t =
      (case map_of (rev kept) t of Some nlv \<Rightarrow> Some nlv | None \<Rightarrow> stream_nlv s a t)" for t
    using run_records [OF assms(1,2), of "consumer_start s" a es t] assms(3) \<open>kept \<noteq> []\<close>
    by (simp_all add: Let_def kept_def [symmetric] cong: option.case_cong if_cong)
  ultimately show ?thesis
    by (intro exI [of _ "fst (last kept)"]) (simp add: nlv [symmetric])
qed

text \<open>
  The throttle holds: over a run in which the messages of an account arrive in time
  order, the ledger gains at most one row, plus one for every change of the net liquidating value,
  plus one for every full interval between the first and the last message.
\<close>

theorem balance_rows_bounded:
  assumes "mapper_ok (cc_accounts cfg)" "cc_persist_balances cfg"
    and "table_ok balance_key (st_balance_snapshots s)" and "0 < cc_min_interval cfg"
    and series: "balance_series cfg a es = (t0, n0) # xs" and sorted: "sorted (t0 # map fst xs)"
  shows "card ({t. stream_nlv (c_ledger (run_consumer cfg False es (consumer_start s))) a t \<noteq> None}
            - {t. stream_nlv s a t \<noteq> None})
    \<le> 1 + changes n0 (map snd xs) + nat ((last (t0 # map fst xs) - t0) div cc_min_interval cfg)"
proof -
  define kept where "kept = throttled (cc_min_interval cfg) None (balance_series cfg a es)"
  have "stream_nlv (c_ledger (run_consumer cfg False es (consumer_start s))) a t =
    (case map_of (rev kept) t of Some nlv \<Rightarrow> Some nlv | None \<Rightarrow> stream_nlv s a t)" for t
    using run_records [OF assms(1,2), of "consumer_start s" a es t] assms(3)
    by (simp add: Let_def kept_def cong: option.case_cong)
  then have "{t. stream_nlv (c_ledger (run_consumer cfg False es (consumer_start s))) a t \<noteq> None}
            - {t. stream_nlv s a t \<noteq> None} \<subseteq> fst ` set kept"
    by (auto dest: map_of_SomeD split: option.splits) (force dest: map_of_SomeD)
  then have "card ({t. stream_nlv (c_ledger (run_consumer cfg False es (consumer_start s))) a t \<noteq> None}
            - {t. stream_nlv s a t \<noteq> None}) \<le> card (fst ` set kept)" by (intro card_mono) simp_all
  also have "\<dots> \<le> length kept" by (metis card_length length_map list.set_map)
  also have "kept = (t0, n0) # throttled (cc_min_interval cfg) (Some (t0, n0)) xs"
    by (simp only: kept_def series throttled_first)
  finally show ?thesis using throttled_count [OF assms(4) sorted, of n0] by simp
qed

section \<open>An example stream\<close>

definition example_config :: consumer_config where
  "example_config =
     \<lparr> cc_accounts = example_mapper, cc_resolver = passthrough_resolver, cc_has_hook = False,
       cc_persist_balances = True, cc_min_interval = 60 * us_per_second \<rparr>"

definition example_balance :: "int \<Rightarrow> decimal \<Rightarrow> stream_event" where
  "example_balance seconds nlv =
     Arrives 0 (Balance ((empty_balance ''5W1'')
       \<lparr> bm_net_liquidating_value := Some nlv, bm_captured_at := Some (seconds * us_per_second) \<rparr>))"

definition example_stream :: "stream_event list" where
  "example_stream = [example_balance 0 100, example_balance 10 100, example_balance 20 105, example_balance 90 105]"

lemma example_config_ok: "mapper_ok (cc_accounts example_config)" "cc_persist_balances example_config"
  "0 < cc_min_interval example_config"
proof -
  have "mapper_ok example_mapper"
    unfolding mapper_ok_def example_mapper_def
    using mk_mapper_inverse(1) [OF _ refl, of "[(''acct'', ''5W1'')]" None None None None] by simp
  then show "mapper_ok (cc_accounts example_config)" by (simp add: example_config_def)
qed (simp_all add: example_config_def)

lemma example_series:
  "balance_series example_config ''acct'' example_stream =
     [(0, Some 100), (10000000, Some 100), (20000000, Some 105), (90000000, Some 105)]"
  by code_simp

lemma example_ledger_balances: "table_ok balance_key (st_balance_snapshots (ledger_empty 0 show_nat))"
  by (simp add: ledger_empty_def table_ok_empty)


theorem no_material_update_dropped_witness:
  "\<exists>t. stream_nlv (c_ledger (run_consumer example_config False example_stream (consumer_start (ledger_empty 0 show_nat))))
     ''acct'' t = Some (Some 105)"
  using no_material_update_dropped [OF example_config_ok(1,2) example_ledger_balances, of "''acct''" example_stream]
  by (auto simp: example_series)

theorem balance_rows_bounded_witness:
  "card ({t. stream_nlv (c_ledger (run_consumer example_config False example_stream
          (consumer_start (ledger_empty 0 show_nat)))) ''acct'' t \<noteq> None}
       - {t. stream_nlv (ledger_empty 0 show_nat) ''acct'' t \<noteq> None}) \<le> 3"
  using balance_rows_bounded [OF example_config_ok(1,2) example_ledger_balances example_config_ok(3) example_series]
  by (simp add: example_config_def)

end
