(* ===== verification/Sdk.thy ===== *)
theory Sdk
  imports Push
begin

text \<open>
  The in-process API (\<^verbatim>\<open>tt_ledger/sdk.py\<close>): a \<open>LedgerClient\<close> over the store. Its own state beside
  the ledger is the cache of nicknames already seeded in the accounts table; its collaborators
  (account mapper, symbology resolver, optional broker client, optional settlement prices) are the
  record \<open>ledger_client\<close>. Keyword arguments become records, the \<open>ValueError\<close>, \<open>KeyError\<close> and
  \<open>RuntimeError\<close> an operation can raise the text of the exception, with the state it leaves behind.
  The methods that only pass their arguments on to a store or ingest function are in theory
  Client_Session.
\<close>

section \<open>The client\<close>

record ledger_client =
  lc_accounts :: account_mapper
  lc_resolver :: resolver
  lc_client :: "broker_client option"
  lc_settlement_price :: "price_resolver option"

type_synonym sdk_state = "string list \<times> ledger"

definition no_client_error :: string where
  "no_client_error =
     ''LedgerClient.sync() requires a broker client -- pass client=<BrokerClient> to LedgerClient.open()/__init__ ''
     @ ''(a real TastyTrade REST client, or MockTastyTradeClient for testing).''"

definition sdk_sync :: "ledger_client \<Rightarrow> date \<Rightarrow> date option \<Rightarrow> string \<Rightarrow> sdk_state \<Rightarrow> (string + sync_result) \<times> sdk_state" where
  "sdk_sync lc today since account st =
     (case lc_client lc of
        None \<Rightarrow> (Inl no_client_error, st)
      | Some client \<Rightarrow>
          (case ensure_account (lc_accounts lc) account st of
             (Inl msg, st1) \<Rightarrow> (Inl msg, st1)
           | (Inr _, cache, s1) \<Rightarrow>
               let (result, s2) = sync_all client (lc_accounts lc) (lc_resolver lc) (lc_settlement_price lc)
                     today since account s1
               in (Inr result, cache, s2)))"

section \<open>Recording an order\<close>

record order_leg_input =
  oli_symbol :: string
  oli_instrument_type :: "string option"
  oli_action :: "string option"
  oli_quantity :: "decimal option"
  oli_price :: "decimal option"

record order_input =
  oi_account :: string
  oi_tt_order_id :: "string option"
  oi_oms_order_id :: "string option"
  oi_client_order_id :: "string option"
  oi_security_id :: "string option"
  oi_underlying :: "string option"
  oi_order_type :: "string option"
  oi_time_in_force :: "string option"
  oi_price :: "decimal option"
  oi_price_effect :: "string option"
  oi_is_complex :: bool
  oi_complex_order_type :: "string option"
  oi_signal_id :: "string option"
  oi_trace_id :: "string option"
  oi_strategy_id :: "nat option"
  oi_market_context_id :: "nat option"
  oi_trade_group :: "string option"
  oi_legs :: "order_leg_input list"

definition unknown_group_error :: "string \<Rightarrow> string" where
  "unknown_group_error group_id =
     ''unknown trade_group '' @ py_repr group_id @ '' -- open_trade_group() first''"

definition submitted_order :: "order_input \<Rightarrow> nat option \<Rightarrow> datetime \<Rightarrow> order_row" where
  "submitted_order oi trade_group_id now =
     \<lparr> o_tt_order_id = oi_tt_order_id oi, o_account = oi_account oi, o_origin = ZTS,
       o_ingest = OMS_SUBMIT, o_oms_order_id = oi_oms_order_id oi,
       o_client_order_id = oi_client_order_id oi, o_account_number = None,
       o_source_system = ''tastytrade'', o_security_id = oi_security_id oi,
       o_underlying = oi_underlying oi, o_order_type = oi_order_type oi,
       o_time_in_force = oi_time_in_force oi, o_gtc_date = None, o_price = oi_price oi,
       o_stop_trigger = None, o_price_effect = oi_price_effect oi, o_average_fill_price = None,
       o_is_complex = oi_is_complex oi, o_complex_order_type = oi_complex_order_type oi,
       o_oms_status = None, o_tt_status = None, o_status_message = None, o_filled_quantity = None,
       o_remaining_quantity = None, o_signal_id = oi_signal_id oi, o_trace_id = oi_trace_id oi,
       o_strategy_id = oi_strategy_id oi, o_trade_group_id = trade_group_id,
       o_market_context_id = oi_market_context_id oi, o_received_at = Some now,
       o_submitted_at = None, o_filled_at = None, o_terminal_at = None \<rparr>"

definition leg_of_input :: "nat \<Rightarrow> nat \<Rightarrow> order_leg_input \<Rightarrow> resolved_security \<Rightarrow> leg_row" where
  "leg_of_input order_id leg_index leg resolved =
     \<lparr> lg_order_id = order_id, lg_leg_index = leg_index, lg_security_id = rs_security_id resolved,
       lg_action = oli_action leg, lg_quantity = oli_quantity leg,
       lg_remaining_quantity = oli_quantity leg, lg_quantity_direction = None,
       lg_price = oli_price leg, lg_fill_price = None \<rparr>"

fun submitted_legs ::
  "resolver \<Rightarrow> nat \<Rightarrow> nat \<Rightarrow> order_leg_input list \<Rightarrow> string list \<times> ledger
     \<Rightarrow> (string + leg_row list) \<times> string list \<times> ledger" where
  "submitted_legs resolver order_id leg_index [] acc = (Inr [], acc)"
| "submitted_legs resolver order_id leg_index (leg # legs) acc =
     (case resolve_once resolver (oli_symbol leg) (oli_instrument_type leg) acc of
        (Inl msg, acc1) \<Rightarrow> (Inl msg, acc1)
      | (Inr resolved, acc1) \<Rightarrow>
          (case submitted_legs resolver order_id (leg_index + 1) legs acc1 of
             (Inl msg, acc2) \<Rightarrow> (Inl msg, acc2)
           | (Inr rows, acc2) \<Rightarrow> (Inr (leg_of_input order_id leg_index leg resolved # rows), acc2)))"

text \<open>The group an order is recorded into: none, a known one, or an error.\<close>

definition intended_group :: "order_input \<Rightarrow> ledger \<Rightarrow> string + nat option" where
  "intended_group oi s =
     (case oi_trade_group oi of
        None \<Rightarrow> Inr None
      | Some group_id \<Rightarrow>
          (case get_trade_group_id s group_id of
             None \<Rightarrow> Inl (unknown_group_error group_id)
           | Some pk \<Rightarrow> Inr (Some pk)))"

text \<open>The row that is returned is the one the store holds: \<open>upsert_orders\<close> fills its linkage
  columns in place.\<close>

definition record_order :: "ledger_client \<Rightarrow> order_input \<Rightarrow> sdk_state \<Rightarrow> (string + order_row) \<times> sdk_state" where
  "record_order lc oi st =
     (case ensure_account (lc_accounts lc) (oi_account oi) st of
        (Inl msg, st1) \<Rightarrow> (Inl msg, st1)
      | (Inr _, cache, s1) \<Rightarrow>
          (case intended_group oi s1 of
             Inl msg \<Rightarrow> (Inl msg, cache, s1)
           | Inr trade_group_id \<Rightarrow>
               let row = submitted_order oi trade_group_id (env_now s1);
                   (order_id, s2) = upsert_order row s1
               in (case submitted_legs (lc_resolver lc) order_id 0 (oi_legs oi) ([], s2) of
                     (Inl msg, _, s3) \<Rightarrow> (Inl msg, cache, s3)
                   | (Inr leg_rows, _, s3) \<Rightarrow>
                       (Inr (case table_get (st_orders s2) order_id of None \<Rightarrow> row | Some stored \<Rightarrow> stored),
                        cache, snd (upsert_legs leg_rows s3)))))"

section \<open>Opening a trade group\<close>

record trade_plan =
  tp_strategy_type :: "string option"
  tp_underlying :: "string option"
  tp_security_id :: "string option"
  tp_quantity :: "decimal option"
  tp_total_premium :: "decimal option"
  tp_max_profit :: "decimal option"
  tp_max_loss :: "decimal option"
  tp_initial_risk :: "decimal option"
  tp_profit_target :: "string option"
  tp_stop_loss :: "string option"
  tp_exit_strategy :: "string option"
  tp_structure :: "json option"
  tp_strategy_id :: "nat option"
  tp_bot :: "string option"
  tp_signal :: "string option"
  tp_reviewed_by :: "string option"

definition planned_group :: "string \<Rightarrow> string \<Rightarrow> trade_plan \<Rightarrow> datetime \<Rightarrow> trade_group_row" where
  "planned_group group_id account plan now =
     (trade_group_default group_id account ZTS)
       \<lparr> tg_review_status := CONFIRMED, tg_manually_attributed := True,
         tg_reviewed_at := Some now, tg_reviewed_by := tp_reviewed_by plan,
         tg_underlying := tp_underlying plan, tg_security_id := tp_security_id plan,
         tg_strategy_type := tp_strategy_type plan, tg_total_premium := tp_total_premium plan,
         tg_quantity := tp_quantity plan, tg_max_profit := tp_max_profit plan,
         tg_max_loss := tp_max_loss plan, tg_initial_risk := tp_initial_risk plan,
         tg_profit_target := tp_profit_target plan, tg_stop_loss := tp_stop_loss plan,
         tg_exit_strategy := tp_exit_strategy plan, tg_structure := tp_structure plan,
         tg_strategy_id := tp_strategy_id plan, tg_bot_name := tp_bot plan,
         tg_signal_id := tp_signal plan, tg_executed_at := Some now \<rparr>"

definition planned_entry :: "nat \<Rightarrow> trade_plan \<Rightarrow> datetime \<Rightarrow> event_row" where
  "planned_entry pk plan now =
     (event_default pk EV_ENTRY)
       \<lparr> ev_quantity_change := dec0 (tp_quantity plan), ev_premium_change := dec0 (tp_total_premium plan),
         ev_event_at := Some now \<rparr>"

definition open_trade_group :: "ledger_client \<Rightarrow> string \<Rightarrow> trade_plan \<Rightarrow> sdk_state \<Rightarrow> (string + trade_row) \<times> sdk_state" where
  "open_trade_group lc account plan st =
     (case ensure_account (lc_accounts lc) account st of
        (Inl msg, st1) \<Rightarrow> (Inl msg, st1)
      | (Inr _, cache, s1) \<Rightarrow>
          let now = env_now s1;
              (group_id, s2) = fresh_uuid s1;
              row = planned_group group_id account plan now;
              (group_pk, s3) = upsert_trade_group row s2
          in (Inr (trade_group_to_row row), cache, add_trade_group_event (planned_entry group_pk plan now) s3))"

definition import_transactions ::
  "ledger_client \<Rightarrow> string \<Rightarrow> broker_transaction list \<Rightarrow> string \<Rightarrow> bool \<Rightarrow> sdk_state
     \<Rightarrow> (string + sync_result) \<times> sdk_state" where
  "import_transactions lc account txns source_system reconcile_after st =
     (case ensure_account (lc_accounts lc) account st of
        (Inl msg, st1) \<Rightarrow> (Inl msg, st1)
      | (Inr _, cache, s1) \<Rightarrow>
          (case upsert_broker_transactions (lc_resolver lc) account source_system txns s1 of
             (Inl msg, s2) \<Rightarrow> (Inl msg, cache, s2)
           | (Inr n, s2) \<Rightarrow>
               let result = sync_result0\<lparr>sr_transactions := n\<rparr> in
               if \<not> reconcile_after then (Inr result, cache, s2)
               else
                 let (rec, s3) = reconcile (Some account) None (lc_settlement_price lc) DEFAULT_SETTLE_AFTER False s2
                 in (Inr (result\<lparr> sr_trade_groups := sr_trade_groups rec,
                                  sr_errors := sr_errors result @ sr_errors rec \<rparr>), cache, s3)))"

definition stream_consumer :: "ledger_client \<Rightarrow> bool \<Rightarrow> bool \<Rightarrow> timedelta \<Rightarrow> consumer_config" where
  "stream_consumer lc has_hook persist_balances min_interval =
     \<lparr> cc_accounts = lc_accounts lc, cc_resolver = lc_resolver lc, cc_has_hook = has_hook,
       cc_persist_balances = persist_balances, cc_min_interval = min_interval \<rparr>"

definition sdk_reconcile ::
  "ledger_client \<Rightarrow> string option \<Rightarrow> date option \<Rightarrow> timedelta option \<Rightarrow> bool \<Rightarrow> ledger \<Rightarrow> sync_result \<times> ledger" where
  "sdk_reconcile lc account since settle_after dry_run s =
     reconcile account since (lc_settlement_price lc)
       (case settle_after of None \<Rightarrow> DEFAULT_SETTLE_AFTER | Some d \<Rightarrow> d) dry_run s"

section \<open>Reads\<close>

text \<open>An enum given as text is looked up by value: \<open>Origin("zts")\<close>.\<close>

definition enum_error :: "string \<Rightarrow> string \<Rightarrow> string" where
  "enum_error enum value = py_repr value @ '' is not a valid '' @ enum"

definition origin_of :: "string \<Rightarrow> string + origin" where
  "origin_of value =
     (case find (\<lambda>e. origin_value e = value) [ZTS, BROKER] of
        None \<Rightarrow> Inl (enum_error ''Origin'' value) | Some e \<Rightarrow> Inr e)"

definition review_status_of :: "string \<Rightarrow> string + review_status" where
  "review_status_of value =
     (case find (\<lambda>e. review_status_value e = value) [NEEDS_REVIEW, CONFIRMED, IGNORED, INVALID] of
        None \<Rightarrow> Inl (enum_error ''ReviewStatus'' value) | Some e \<Rightarrow> Inr e)"

definition order_filter_of :: "string option \<Rightarrow> order_filter \<Rightarrow> string + order_filter" where
  "order_filter_of origin_text f =
     (case origin_text of
        None \<Rightarrow> Inr f
      | Some value \<Rightarrow> (case origin_of value of Inl msg \<Rightarrow> Inl msg | Inr e \<Rightarrow> Inr (f\<lparr>of_origin := Some e\<rparr>)))"

definition sdk_orders :: "string option \<Rightarrow> order_filter \<Rightarrow> ledger \<Rightarrow> string + order_row list" where
  "sdk_orders origin_text f s =
     (case order_filter_of origin_text f of Inl msg \<Rightarrow> Inl msg | Inr f' \<Rightarrow> Inr (query_orders s f'))"

definition sdk_trades :: "string option \<Rightarrow> string option \<Rightarrow> trade_filter \<Rightarrow> ledger \<Rightarrow> string + trade_row list" where
  "sdk_trades origin_text review_text f s =
     (case (case origin_text of None \<Rightarrow> Inr f
            | Some value \<Rightarrow> (case origin_of value of Inl msg \<Rightarrow> Inl msg | Inr e \<Rightarrow> Inr (f\<lparr>tf_origin := Some e\<rparr>))) of
        Inl msg \<Rightarrow> Inl msg
      | Inr f1 \<Rightarrow>
          (case review_text of None \<Rightarrow> Inr (unified_trades s f1)
           | Some value \<Rightarrow>
               (case review_status_of value of Inl msg \<Rightarrow> Inl msg
                | Inr e \<Rightarrow> Inr (unified_trades s (f1\<lparr>tf_review_status := Some e\<rparr>)))))"

definition sdk_trade :: "string \<Rightarrow> ledger \<Rightarrow> trade_row option" where
  "sdk_trade group_id s = map_option trade_group_to_row (get_trade_group s group_id)"

text \<open>Orders with their legs and fills, collected in one pass over both lists.\<close>

definition details_of :: "ledger \<Rightarrow> (nat \<times> order_row) list \<Rightarrow> order_detail list" where
  "details_of s pairs =
     (let order_ids = map fst pairs;
          legs_by_order = group_by (\<lambda>(_, leg). lg_order_id leg) (get_legs_for_orders s order_ids);
          fills_by_order = group_by (\<lambda>fill. case fl_order_id fill of None \<Rightarrow> 0 | Some i \<Rightarrow> i)
            (filter (\<lambda>fill. fl_order_id fill \<noteq> None) (get_fills_for_orders s order_ids))
      in map (\<lambda>(pk, row). \<lparr> od_order_pk = pk, od_order = row,
                            od_legs = dict_get_or legs_by_order pk [],
                            od_fills = dict_get_or fills_by_order pk [] \<rparr>) pairs)"

definition order_details :: "string option \<Rightarrow> order_filter \<Rightarrow> ledger \<Rightarrow> string + order_detail list" where
  "order_details origin_text f s =
     (case order_filter_of origin_text f of
        Inl msg \<Rightarrow> Inl msg | Inr f' \<Rightarrow> Inr (details_of s (query_orders_with_ids s f')))"

definition unlinked_orders :: "string option \<Rightarrow> string option \<Rightarrow> order_filter \<Rightarrow> ledger \<Rightarrow> string + order_detail list" where
  "unlinked_orders account origin_text f s = order_details origin_text (f\<lparr>of_account := account, of_unlinked := True\<rparr>) s"

definition trade_structure :: "string \<Rightarrow> ledger \<Rightarrow> order_detail list" where
  "trade_structure group_id s =
     (case get_trade_group_id s group_id of
        None \<Rightarrow> [] | Some pk \<Rightarrow> details_of s (get_group_orders_with_ids s pk))"

definition trade_detail :: "string \<Rightarrow> ledger \<Rightarrow> order_row list \<times> activity_row list" where
  "trade_detail group_id s =
     (case (get_trade_group_id s group_id, get_trade_group s group_id) of
        (Some pk, Some tg) \<Rightarrow>
          (query_orders s (order_filter0\<lparr>of_trade_group_id := Some pk\<rparr>),
           filter (\<lambda>row. r_trade_group_id row = Some pk)
             (account_activity s (activity_filter0\<lparr>af_account := Some (tg_account tg)\<rparr>)))
      | _ \<Rightarrow> ([], []))"

definition newest_group_step ::
  "(string \<times> string, nat) dict \<Rightarrow> string \<times> string \<times> nat \<Rightarrow> (string \<times> string, nat) dict" where
  "newest_group_step mapping row =
     (case row of (acct, sid, pk) \<Rightarrow>
      (case dict_get mapping (acct, sid) of
         None \<Rightarrow> dict_set (acct, sid) pk mapping
       | Some held \<Rightarrow> if held < pk then dict_set (acct, sid) pk mapping else mapping))"

definition open_position_groups :: "string option \<Rightarrow> ledger \<Rightarrow> (string \<times> string, nat) dict" where
  "open_position_groups account s = foldl newest_group_step [] (get_open_position_groups s account)"

definition open_position_shares :: "string option \<Rightarrow> ledger \<Rightarrow> (string \<times> string, open_leg_row list) dict" where
  "open_position_shares account s =
     map (\<lambda>(key, claims). (key, sort_key ol_trade_group_id claims))
       (group_by (\<lambda>leg. (ol_account leg, ol_security_id leg))
         (filter (\<lambda>leg. \<not> ol_net_open leg \<le> 0) (open_group_legs s account)))"

definition sdk_positions :: "string \<Rightarrow> bool \<Rightarrow> ledger \<Rightarrow> position_row list" where
  "sdk_positions account open_only s =
     filter (\<lambda>r. \<not> open_only \<or> ps_quantity r \<noteq> 0) (get_positions s account)"

definition securities_for :: "string list \<Rightarrow> ledger \<Rightarrow> (string, security_row) dict" where
  "securities_for sids s =
     foldl (\<lambda>d row. dict_set (sec_security_id row) row d) [] (get_securities s sids)"

end
