(* ===== verification/Intent.thy ===== *)
theory Intent
  imports Passes
begin

text \<open>
  Submit-time intent (\<^verbatim>\<open>_apply_intent_rows\<close> of \<^verbatim>\<open>tt_ledger/ingest/reconcile.py\<close>): an order that was
  recorded into a trade group takes its fills there, past every heuristic of the run. The lemmas
  follow one transaction through a whole run: what leaves it alone, and the one step that attaches
  it.
\<close>

section \<open>Groups are never deleted\<close>

definition has_group :: "ledger \<Rightarrow> nat \<Rightarrow> bool" where
  "has_group s pk \<longleftrightarrow> get_trade_group_by_id s pk \<noteq> None"

named_theorems has_group_intros

lemma has_group_same: "st_trade_groups s' = st_trade_groups s \<Longrightarrow> has_group s' pk = has_group s pk"
  by (simp add: has_group_def get_trade_group_by_id_def)

lemma has_group_frames [simp]:
  "has_group (add_trade_group_event ev s) pk = has_group s pk"
  "has_group (attach_transactions_to_trade_group ids g s) pk = has_group s pk"
  "has_group (snd (upsert_order row s)) pk = has_group s pk"
  "has_group (snd (fresh_uuid s)) pk = has_group s pk"
  "has_group (upsert_transaction txn s) pk = has_group s pk"
  "has_group (link_edges account s) pk = has_group s pk"
  by (rule has_group_same,
      simp add: add_trade_group_event_def attach_transactions_to_trade_group_def upsert_order_alt fresh_uuid_def
        upsert_transaction_def link_edges_def link_transactions_to_orders_def link_orders_to_groups_def
        link_closed_positions_to_groups_def Let_def)+

lemma has_group_orders [simp]: "has_group (snd (upsert_orders rows s)) pk = has_group s pk"
  by (induction rows arbitrary: s) (simp_all add: case_prod_beta)

lemma has_group_transactions [simp]: "has_group (upsert_transactions rows s) pk = has_group s pk"
  by (induction rows arbitrary: s) simp_all

lemma has_group_events [simp]: "has_group (add_events evs s) pk = has_group s pk"
  by (induction evs arbitrary: s) simp_all

lemma has_group_upsert [has_group_intros]: "has_group s pk \<Longrightarrow> has_group (snd (upsert_trade_group tg s)) pk"
  by (auto simp: has_group_def get_trade_group_by_id_def upsert_trade_group_def table_get_def table_upsert_def
      Let_def case_prod_beta split: option.split)

lemma has_group_stamp [has_group_intros]: "has_group s pk \<Longrightarrow> has_group (stamp_closed g rows t s) pk"
  by (simp add: stamp_closed_def has_group_intros split: option.split)

lemma has_group_refresh [has_group_intros]: "has_group s pk \<Longrightarrow> has_group (refresh_group_financials g s) pk"
  by (simp add: refresh_group_financials_def Let_def has_group_intros split: option.split)

lemma has_group_exit [has_group_intros]:
  "has_group s pk \<Longrightarrow> has_group (snd (snd (apply_exit g rows rolled delivery s))) pk"
  by (simp add: apply_exit_def Let_def has_group_intros)

lemma has_group_create [has_group_intros]:
  "has_group s pk \<Longrightarrow> has_group (snd (create_trade_group account rows s)) pk"
  by (simp add: create_trade_group_def Let_def case_prod_beta has_group_intros)

lemma has_group_intent_step [has_group_intros]:
  "has_group (snd (snd acc)) pk \<Longrightarrow> has_group (snd (snd (intent_step acc entry))) pk"
  by (cases acc; cases entry)
    (simp add: intent_step_def intent_opening_def intent_closing_def Let_def case_prod_beta has_group_intros
      split: option.split)

lemma has_group_intent_steps [has_group_intros]:
  "has_group (snd (snd acc)) pk \<Longrightarrow> has_group (snd (snd (foldl intent_step acc entries))) pk"
  by (rule foldl_invariant [where P = "\<lambda>acc. has_group (snd (snd acc)) pk"]) (simp_all add: has_group_intros)

lemma has_group_run_cluster [has_group_intros]:
  assumes "has_group (rs_ledger st) pk"
  shows "has_group (rs_ledger (run_cluster dry_run account st cluster)) pk"
proof -
  obtain rows groups s where i: "apply_intent_rows dry_run (rs_groups st) cluster (rs_ledger st) = (rows, groups, s)"
    by (metis prod_cases3)
  have "has_group (snd (snd (apply_intent_rows dry_run (rs_groups st) cluster (rs_ledger st)))) pk"
    using assms by (simp add: apply_intent_rows_def Let_def has_group_intent_steps)
  then have s: "has_group s pk" by (simp add: i)
  have bucket: "has_group (rs_ledger (exit_bucket new_pk rest st b)) pk" if "has_group (rs_ledger st) pk"
    for new_pk rest st b
    using that by (cases b) (simp add: exit_bucket_def Let_def case_prod_beta has_group_intros split: option.split)
  show ?thesis
    using s by (simp add: run_cluster_def i Let_def case_prod_beta open_rest_def has_group_intros
        foldl_invariant [where P = "\<lambda>st. has_group (rs_ledger st) pk"] bucket)
qed

lemma has_group_run_clusters [has_group_intros]:
  "has_group (rs_ledger st) pk \<Longrightarrow> has_group (rs_ledger (foldl (run_cluster dry_run account) st clusters)) pk"
  by (rule foldl_invariant [where P = "\<lambda>st. has_group (rs_ledger st) pk"]) (simp_all add: has_group_intros)

lemma has_group_synthesize [has_group_intros]:
  assumes "has_group s pk"
  shows "has_group (snd (synthesize_lapsed_settlements account resolver settle_after dry_run s)) pk"
proof (rule synthesize_cases [of account resolver settle_after dry_run s])
  fix synthesized
  assume "snd (synthesize_lapsed_settlements account resolver settle_after dry_run s)
    = foldl (settle_group synthesized) (upsert_transactions (map snd synthesized) s) (load_open_groups s account)"
  then show ?thesis
    using assms by (simp add: foldl_invariant [where P = "\<lambda>s. has_group s pk"] settle_group_alt has_group_intros)
qed (use assms in simp)

section \<open>The step that attaches\<close>

text \<open>A stored transaction, and its group after an attachment that names it.\<close>

definition stored :: "ledger \<Rightarrow> string \<Rightarrow> bool" where
  "stored s tid \<longleftrightarrow> table_get_by_key (st_transactions s) tid \<noteq> None"

lemma stored_attaches:
  assumes "attaches ids s s'" and "stored s tid"
  shows "stored s' tid"
proof -
  obtain h where "st_transactions s' = table_modify
      (\<lambda>_ t. t\<lparr>r_trade_group_id := h (r_tt_transaction_id t) (r_trade_group_id t)\<rparr>) (st_transactions s)"
    using assms(1) by (auto simp: attaches_def)
  with assms(2) show ?thesis
    by (auto simp: stored_def table_get_by_key_modify) (auto simp: table_get_by_key_def table_id_of_def
        table_get_def split: option.splits)
qed

lemma txn_group_of_attach:
  assumes ok: "ledger_ok s" and "stored s tid" and "tid \<in> set ids"
  shows "txn_group_of (attach_transactions_to_trade_group ids pk s) tid = Some pk"
proof -
  obtain t where t: "table_get_by_key (st_transactions s) tid = Some t" using assms(2) by (auto simp: stored_def)
  then have "r_tt_transaction_id t = tid"
    using table_get_by_key_ok [OF ledger_ok_tables(2) [OF ok]] by (auto simp: txn_key_def)
  with t assms(3) show ?thesis
    by (auto simp: txn_group_of_def attach_transactions_to_trade_group_def table_get_by_key_modify)
      (auto simp: table_get_by_key_def table_id_of_def table_get_def split: option.splits)
qed

lemma txn_group_of_exit:
  assumes "ledger_ok s" and "stored s tid" and "tid \<in> set (tids rows)"
  shows "txn_group_of (snd (snd (apply_exit g rows rolled delivery s))) tid = Some (og_pk g)"
proof -
  have "st_transactions (snd (snd (apply_exit g rows rolled delivery s)))
      = st_transactions (attach_transactions_to_trade_group (tids rows) (og_pk g) s)"
    by (simp add: apply_exit_def Let_def)
  from txn_group_of_same [OF this] txn_group_of_attach [OF assms] show ?thesis by simp
qed

lemma txn_group_of_opening:
  assumes "ledger_ok s" and "stored s tid" and "tid \<in> set (tids rows)"
  shows "txn_group_of (snd (intent_opening g rows s)) tid = Some (og_pk g)"
proof -
  have "rows \<noteq> []" using assms(3) by (auto simp: tids_def)
  then have "st_transactions (snd (intent_opening g rows s))
      = st_transactions (attach_transactions_to_trade_group (tids rows) (og_pk g) s)"
    by (simp add: intent_opening_def Let_def)
  from txn_group_of_same [OF this] txn_group_of_attach [OF assms] show ?thesis by simp
qed

lemma group_for_pk_finds:
  assumes "has_group s pk"
  obtains g groups1 where "group_for_pk s groups pk = Some (g, groups1)" "og_pk g = pk"
proof (cases "find_group groups pk")
  case None
  then show ?thesis using assms that by (auto simp: group_for_pk_def has_group_def Let_def)
next
  case (Some g)
  then have "og_pk g = pk" by (auto simp: find_group_def find_Some_iff)
  with Some that show ?thesis by (simp add: group_for_pk_def)
qed

lemma distinct_tids_filter: "distinct (tids rows) \<Longrightarrow> distinct (tids (filter P rows))"
  by (simp add: tids_def distinct_map_filter)

lemma intent_step_puts:
  assumes ok: "ledger_ok s" and st: "stored s tid" and pk: "has_group s pk"
    and tid: "tid \<in> set (tids rows)" and dist: "distinct (tids rows)"
  shows "txn_group_of (snd (snd (intent_step (remaining, groups, s) (pk, rows)))) tid = Some pk
    \<and> fst (intent_step (remaining, groups, s) (pk, rows)) = remaining"
proof -
  obtain g groups1 where g: "group_for_pk s groups pk = Some (g, groups1)" "og_pk g = pk"
    using group_for_pk_finds [OF pk] by blast
  let ?open = "filter (\<lambda>r. \<not> is_closing r) rows" and ?close = "filter is_closing rows"
  obtain g1 s1 where o: "intent_opening g ?open s = (g1, s1)" by (metis surj_pair)
  have g1: "og_pk g1 = pk" using o g(2) by (auto simp: intent_opening_def extend_unique_def Let_def split: if_splits)
  have att: "attaches (set (tids ?open)) s s1" using attaches_intent_opening [where rows = ?open and s = s and g = g] o by simp
  have ok1: "ledger_ok s1" using o ok
    by (auto simp: intent_opening_def Let_def ledger_ok_intros split: if_splits)
  have st1: "stored s1 tid" using stored_attaches [OF att st] .
  have put: "txn_group_of (snd (snd (intent_closing g1 ?close s1))) tid = Some pk"
  proof (cases "tid \<in> set (tids ?close)")
    case True
    then have "?close \<noteq> []" by (metis list.map(1) tids_def empty_iff empty_set)
    then show ?thesis
      using txn_group_of_exit [OF ok1 st1 True, of g1 None None] g1 by (simp add: intent_closing_def case_prod_beta)
  next
    case False
    then have "tid \<in> set (tids ?open)" using tid by (auto simp: tids_def)
    then have "txn_group_of s1 tid = Some pk" using txn_group_of_opening [OF ok st] o g(2) by (metis snd_conv)
    then show ?thesis
      using txn_group_of_attaches [OF ok1 attaches_intent_closing False] by simp
  qed
  then show ?thesis by (simp add: intent_step_def g o case_prod_beta Let_def)
qed

section \<open>A whole cluster, a whole run\<close>

lemma intent_step_remaining:
  "fst (intent_step (remaining, groups, s) (pk, rows)) = remaining
   \<or> fst (intent_step (remaining, groups, s) (pk, rows)) = remaining @ rows"
  by (simp add: intent_step_def case_prod_beta Let_def split: option.split)

lemma intent_steps_put:
  assumes ok: "ledger_ok s" and st: "stored s tid" and pk: "has_group s pk"
    and entry: "(pk, rows) \<in> set entries" "tid \<in> set (tids rows)"
    and dist: "distinct (tids remaining @ tids (concat (map snd entries)))"
  shows "txn_group_of (snd (snd (foldl intent_step (remaining, groups, s) entries))) tid = Some pk
    \<and> tid \<notin> set (tids (fst (foldl intent_step (remaining, groups, s) entries)))"
  using ok st pk entry dist
proof (induction entries arbitrary: remaining groups s)
  case (Cons e entries)
  obtain pk' rows' where e: "e = (pk', rows')" by (cases e)
  obtain rem1 groups1 s1 where step: "intent_step (remaining, groups, s) (pk', rows') = (rem1, groups1, s1)"
    by (metis prod_cases3)
  have ok1: "ledger_ok s1"
    using ledger_ok_intent_step [of "(remaining, groups, s)" "(pk', rows')"] Cons.prems(1) step by simp
  obtain A where A: "attaches A s s1" "A \<union> set (tids rem1) = set (tids remaining) \<union> set (tids rows')"
    using intent_step_attaches [of s remaining groups pk' rows'] step by auto
  show ?case
  proof (cases "(pk, rows) \<in> set entries")
    case True
    then have tid: "tid \<in> set (tids (concat (map snd entries)))"
      using Cons.prems(5) by (force simp: tids_def)
    have "tid \<notin> set (tids remaining) \<union> set (tids rows')" using Cons.prems(6) tid by (auto simp: e)
    have "has_group s1 pk" using has_group_intent_step [of "(remaining, groups, s)" pk "(pk', rows')"] Cons.prems(3) step by simp
    moreover have "rem1 = remaining \<or> rem1 = remaining @ rows'"
      using intent_step_remaining [of remaining groups s pk' rows'] step by simp
    then have "distinct (tids rem1 @ tids (concat (map snd entries)))"
      using Cons.prems(6) by (auto simp: e)
    ultimately show ?thesis
      using Cons.IH [OF ok1 stored_attaches [OF A(1) Cons.prems(2)] _ True Cons.prems(5)] by (simp add: e step)
  next
    case False
    then have here: "pk' = pk" "rows' = rows" using Cons.prems(4) by (auto simp: e)
    have "distinct (tids rows)" using Cons.prems(6) by (simp add: e here)
    from intent_step_puts [OF Cons.prems(1-3,5) this, of remaining groups]
    have put: "txn_group_of s1 tid = Some pk" "rem1 = remaining" using step here by simp_all
    have out: "tid \<notin> set (tids remaining) \<union> set (tids (concat (map snd entries)))"
      using Cons.prems(5,6) by (auto simp: e here)
    obtain B where B: "attaches B s1 (snd (snd (foldl intent_step (rem1, groups1, s1) entries)))"
        "B \<union> set (tids (fst (foldl intent_step (rem1, groups1, s1) entries)))
          = set (tids rem1) \<union> set (tids (concat (map snd entries)))"
      using intent_steps_attach by blast
    have "tid \<notin> B" "tid \<notin> set (tids (fst (foldl intent_step (rem1, groups1, s1) entries)))"
      using out put(2) B(2) by blast+
    then show ?thesis using txn_group_of_attaches [OF ok1 B(1)] put(1) by (simp add: e step)
  qed
qed simp


definition intent_of :: "activity_row \<Rightarrow> nat" where
  "intent_of a = (case a_order_trade_group_id a of None \<Rightarrow> 0 | Some pk \<Rightarrow> pk)"

lemma run_cluster_intent:
  assumes ok: "ledger_ok (rs_ledger st)" and st: "stored (rs_ledger st) (r_tt_transaction_id a)"
    and pk: "has_group (rs_ledger st) pk" "a_order_trade_group_id a = Some pk"
    and a: "a \<in> set cluster" and dist: "distinct (tids cluster)"
  shows "txn_group_of (rs_ledger (run_cluster False account st cluster)) (r_tt_transaction_id a) = Some pk"
proof -
  let ?tid = "r_tt_transaction_id a"
  let ?bare = "filter (\<lambda>r. a_order_trade_group_id r = None) cluster"
  let ?linked = "filter (\<lambda>r. a_order_trade_group_id r \<noteq> None) cluster"
  let ?groups = "group_by intent_of ?linked"
  let ?intent = "map (\<lambda>(pk, rs). (pk, map ledger_row.truncate rs)) ?groups"
  have run: "apply_intent_rows False groups cluster s = foldl intent_step (map ledger_row.truncate ?bare, groups, s) ?intent"
    for groups s
    by (auto simp: apply_intent_rows_def Let_def intent_of_def [abs_def])
  obtain rows groups s where i: "apply_intent_rows False (rs_groups st) cluster (rs_ledger st) = (rows, groups, s)"
    by (metis prod_cases3)
  have "a \<in> set (concat (map snd ?groups))"
    unfolding mset_eq_setD [OF mset_group_by] using a pk(2) by simp
  then obtain k rs where entry: "(k, rs) \<in> set ?groups" "a \<in> set rs" by auto
  have "k = pk" using group_by_member(1) [OF entry(1)] entry(2) pk(2) by (simp add: intent_of_def)
  have cat: "concat (map snd ?intent) = map ledger_row.truncate (concat (map snd ?groups))"
    by (simp add: map_concat comp_def case_prod_beta)
  have "mset (tids ?bare @ tids (concat (map snd ?groups))) = mset (tids cluster)"
  proof -
    have "mset ?bare + mset ?linked = mset cluster" by (simp add: union_filter_mset_complement)
    then show ?thesis
      by (simp add: tids_def mset_group_by del: mset_concat mset_filter flip: image_mset_union)
  qed
  then have "distinct (tids ?bare @ tids (concat (map snd ?groups)))" using dist by (metis mset_eq_imp_distinct_iff)
  then have dist': "distinct (tids (map ledger_row.truncate ?bare) @ tids (concat (map snd ?intent)))"
    unfolding cat tids_truncate .
  have entry': "(pk, map ledger_row.truncate rs) \<in> set ?intent" using entry(1) \<open>k = pk\<close> by force
  have tid': "?tid \<in> set (tids (map ledger_row.truncate rs))"
    using entry(2) unfolding tids_truncate by (simp add: tids_def)
  have run': "foldl intent_step (map ledger_row.truncate ?bare, rs_groups st, rs_ledger st) ?intent = (rows, groups, s)"
    using run [of "rs_groups st" "rs_ledger st"] i by (simp only:)
  have put: "txn_group_of s ?tid = Some pk" "?tid \<notin> set (tids rows)"
    using intent_steps_put [OF ok st pk(1) entry' tid' dist', of "rs_groups st"] unfolding run' by simp_all
  have "ledger_ok s" using ledger_ok_intent_rows [OF ok, of False "rs_groups st" cluster] i by simp
  from txn_group_of_attaches [OF this run_rest_attaches [OF i] put(2)] put(1) show ?thesis by simp
qed

lemma run_clusters_intent:
  assumes "ledger_ok (rs_ledger st)" and "stored (rs_ledger st) (r_tt_transaction_id a)"
    and "has_group (rs_ledger st) pk" "a_order_trade_group_id a = Some pk"
    and "a \<in> set (concat clusters)" and "distinct (tids (concat clusters))"
  shows "txn_group_of (rs_ledger (foldl (run_cluster False account) st clusters)) (r_tt_transaction_id a) = Some pk"
  using assms
proof (induction clusters arbitrary: st)
  case (Cons c clusters)
  let ?st = "run_cluster False account st c" and ?tid = "r_tt_transaction_id a"
  have ok: "ledger_ok (rs_ledger ?st)" using Cons.prems(1) by (rule ledger_ok_run_cluster)
  show ?case
  proof (cases "a \<in> set c")
    case True
    then have "txn_group_of (rs_ledger ?st) ?tid = Some pk"
      using Cons.prems by (intro run_cluster_intent) simp_all
    moreover have "?tid \<notin> set (tids (concat clusters))" using Cons.prems(6) True by (auto simp: tids_def)
    ultimately show ?thesis
      using txn_group_of_attaches [OF ok run_clusters_fold_attaches] by simp
  next
    case False
    then show ?thesis
      using Cons.prems Cons.IH [OF ok stored_attaches [OF run_cluster_attaches Cons.prems(2)] has_group_run_cluster [OF Cons.prems(3)]]
      by simp
  qed
qed simp

lemma distinct_tids_table:
  assumes ok: "table_ok txn_key t"
  shows "distinct (tids (map snd (table_all t)))"
proof -
  have "inj_on (r_tt_transaction_id \<circ> snd) (set (tb_rows t))"
  proof (rule inj_onI)
    fix p q assume p: "p \<in> set (tb_rows t)" and q: "q \<in> set (tb_rows t)"
      and eq: "(r_tt_transaction_id \<circ> snd) p = (r_tt_transaction_id \<circ> snd) q"
    have rows: "dict_get (tb_rows t) (fst p) = Some (snd p)" "dict_get (tb_rows t) (fst q) = Some (snd q)"
      using p q table_ok_distinct [OF ok] by simp_all
    have "fst p = fst q"
      by (rule table_ok_unique [OF ok rows, of "r_tt_transaction_id (snd p)"]) (use eq in \<open>simp_all add: txn_key_def\<close>)
    then show "p = q" using rows by (metis option.inject prod_eqI)
  qed
  moreover have "distinct (tb_rows t)" using table_ok_distinct [OF ok] by (simp add: distinct_map)
  ultimately show ?thesis by (simp add: tids_def table_all_def distinct_map)
qed

lemma distinct_tids_candidates:
  assumes "ledger_ok s"
  shows "distinct (tids (candidates s account since))"
proof -
  have "tids (candidates s account since) = tids (map (activity_of s) (filter (\<lambda>t. is_candidate (activity_of s t))
      (filter (activity_matches (activity_filter0\<lparr>af_account := Some account, af_start := since\<rparr>))
        (map snd (table_all (st_transactions s))))))"
    by (simp add: candidates_def account_activity_def filter_map comp_def)
  also have "\<dots> = tids (filter (\<lambda>t. is_candidate (activity_of s t))
      (filter (activity_matches (activity_filter0\<lparr>af_account := Some account, af_start := since\<rparr>))
        (map snd (table_all (st_transactions s)))))"
    by (simp add: tids_def comp_def)
  finally show ?thesis
    using distinct_tids_table [OF ledger_ok_tables(2) [OF assms]] by (simp only: distinct_tids_filter)
qed

text \<open>A fill waiting for its order: imported, not yet linked, and the order was recorded into
  a group.\<close>

definition awaits_intent :: "string \<Rightarrow> ledger \<Rightarrow> string \<Rightarrow> nat \<Rightarrow> bool" where
  "awaits_intent account s tid pk \<longleftrightarrow>
     (\<exists>t tt ord. table_get_by_key (st_transactions s) tid = Some t
        \<and> r_account t = account \<and> r_trade_group_id t = None \<and> r_order_id t = None
        \<and> r_tt_order_id t = Some tt \<and> get_order s tt = Some ord
        \<and> o_account ord = account \<and> o_trade_group_id ord = Some pk)
   \<and> has_group s pk"

lemma get_by_key_modify_Some:
  "table_get_by_key t k = Some r \<Longrightarrow> table_id_of t k = Some i \<Longrightarrow>
     table_get_by_key (table_modify f t) k = Some (f i r)"
  by (simp add: table_get_by_key_modify) (simp add: table_get_by_key_def table_id_of_def table_get_def)

lemma get_by_key_id: "table_get_by_key t k = Some r \<Longrightarrow> \<exists>i. table_id_of t k = Some i \<and> table_get t i = Some r"
  by (auto simp: table_get_by_key_def table_id_of_def table_get_def split: option.splits)

text \<open>Linking gives it the order, and the order keeps its group.\<close>

lemma awaits_intent_linked:
  assumes "awaits_intent account s tid pk"
  shows "\<exists>t i ord. table_get_by_key (st_transactions (link_edges account s)) tid = Some t
     \<and> r_account t = account \<and> r_trade_group_id t = None \<and> r_order_id t = Some i
     \<and> table_get (st_orders (link_edges account s)) i = Some ord \<and> o_trade_group_id ord = Some pk"
proof -
  obtain t tt ord where t: "table_get_by_key (st_transactions s) tid = Some t" "r_account t = account"
      "r_trade_group_id t = None" "r_order_id t = None" "r_tt_order_id t = Some tt"
    and ord: "get_order s tt = Some ord" "o_account ord = account" "o_trade_group_id ord = Some pk"
    using assms by (auto simp: awaits_intent_def)
  obtain i where i: "table_id_of (st_orders s) tt = Some i" "table_get (st_orders s) i = Some ord"
    using get_by_key_id ord(1) by (fastforce simp: get_order_def)
  obtain j where j: "table_id_of (st_transactions s) tid = Some j" using get_by_key_id [OF t(1)] by blast
  have links: "links_to_order account s t" using t ord by (simp add: links_to_order_def get_order_def)
  have txns: "st_transactions (link_edges account s) = st_transactions (snd (link_transactions_to_orders account s))"
    by (simp add: link_edges_def link_orders_to_groups_def link_closed_positions_to_groups_def)
  have "table_get_by_key (st_transactions (link_edges account s)) tid = Some (t\<lparr>r_order_id := Some i\<rparr>)"
    unfolding txns
    by (simp add: link_transactions_to_orders_def get_by_key_modify_Some [OF t(1) j] links t(5) i(1))
  moreover have "table_get (st_orders (link_edges account s)) i = Some ord"
    using ord i(2)
    by (simp add: link_edges_def link_orders_to_groups_def link_closed_positions_to_groups_def
        link_transactions_to_orders_def order_group_to_link_def)
  ultimately show ?thesis using t ord by (intro exI [of _ "t\<lparr>r_order_id := Some i\<rparr>"]) auto
qed

lemma clean_run_honours_intent:
  assumes ok: "ledger_ok s" and waits: "awaits_intent account s tid pk" and plain: "\<not> is_lapse_id tid"
    and run: "reconcile_account None resolver settle_after False account (r, s) = (r', s')"
    and clean: "sr_errors r' = sr_errors r"
  shows "txn_group_of s' tid = Some pk"
proof -
  let ?s1 = "link_edges account s"
  define s2 where "s2 = snd (synthesize_lapsed_settlements account resolver settle_after False ?s1)"
  have ok1: "ledger_ok ?s1" and ok2: "ledger_ok s2" using ok by (simp_all add: s2_def ledger_ok_intros)
  obtain t i ord where t1: "table_get_by_key (st_transactions ?s1) tid = Some t"
      "r_account t = account" "r_trade_group_id t = None" "r_order_id t = Some i"
    and ord: "table_get (st_orders ?s1) i = Some ord" "o_trade_group_id ord = Some pk"
    using awaits_intent_linked [OF waits] by blast
  have t: "table_get_by_key (st_transactions s2) tid = Some t"
    unfolding s2_def using synthesize_frame [OF ok1 plain] t1(1) by simp
  have ord2: "table_get (st_orders s2) i = Some ord" unfolding s2_def using ord(1) by simp
  have pk: "has_group s2 pk" unfolding s2_def using waits by (simp add: awaits_intent_def has_group_synthesize)
  have id: "r_tt_transaction_id t = tid"
    using table_get_by_key_ok [OF ledger_ok_tables(2) [OF ok2]] t by (auto simp: txn_key_def)
  have "(\<exists>j. (j, t) \<in> set (table_all (st_transactions s2)))"
    using get_by_key_id [OF t] in_table_all [OF ledger_ok_tables(2) [OF ok2]] by blast
  then have cand: "activity_of s2 t \<in> set (candidates s2 account None)"
    using t1 by (force simp: candidates_def account_activity_def is_candidate_def activity_matches_def
        activity_filter0_def in_range_def split: option.split)
  have "a_order_trade_group_id (activity_of s2 t) = Some pk"
    using t1(4) ord2 ord(2) by (simp add: activity_of_def Let_def ledger_row.defs activity_row.defs)
  moreover have "distinct (tids (concat (cluster_by_time (candidates s2 account None))))"
    using distinct_tids_candidates [OF ok2, of account None] mset_concat_clusters [of "candidates s2 account None"]
    by (metis (no_types) mset_eq_imp_distinct_iff mset_map tids_def)
  moreover have "stored s2 tid" using t by (simp add: stored_def)
  ultimately have "txn_group_of (rs_ledger (run_clusters False account None s2)) tid = Some pk"
    using run_clusters_intent [of "\<lparr> rs_ledger = s2, rs_groups = load_open_groups s2 account, rs_exits = [],
        rs_created = [], rs_count = 0 \<rparr>" "activity_of s2 t" pk _ account] ok2 pk cand
      mset_eq_setD [OF mset_concat_clusters [of "candidates s2 account None"]]
    by (simp add: run_clusters_def id del: set_concat)
  moreover have "st_transactions s' = st_transactions (rs_ledger (run_clusters False account None s2))"
    using reconcile_account_stages [where dry_run = False and account = account and resolver = resolver
        and settle_after = settle_after and s = s and since = None and r = r] run clean
    by (auto simp: s2_def)
  ultimately show ?thesis by (simp add: txn_group_of_def)
qed

end
