(* ===== verification/Sdk_Laws.thy ===== *)
theory Sdk_Laws
  imports Sdk Intent
begin

text \<open>
  What the client API promises: an order recorded into a trade group is stored there and takes its
  fills there whatever else a reconcile run sees; a group opened at submit time is open, confirmed
  and new; legs and fills of the display reads sit under their own order; shares of an open
  position lose no claim; and paging in bands never splits one.
\<close>

section \<open>Seeding the account\<close>

lemma ensure_account_cases:
  assumes "ensure_account m account st = (res, st1)"
  shows "(\<exists>msg. res = Inl msg \<and> st1 = st) \<or> (res = Inr () \<and> (\<exists>accounts. snd st1 = snd st\<lparr>st_accounts := accounts\<rparr>))"
  using assms
  by (cases st) (auto simp: ensure_account_def upsert_account_def split: if_splits sum.splits
      intro: exI [of _ "st_accounts (snd st)"])

lemma ledger_ok_ensure_account:
  "ledger_ok (snd st) \<Longrightarrow> ledger_ok (snd (snd (ensure_account m account st)))"
  by (cases st) (simp add: ensure_account_def ledger_ok_upsert_account split: sum.split)

section \<open>Recording an order\<close>

lemma only_securities_input_legs:
  "only_securities (snd acc) (snd (snd (submitted_legs resolver order_id n legs acc)))"
proof (induction legs arbitrary: acc n)
  case (Cons leg legs)
  obtain res acc1 where one: "resolve_once resolver (oli_symbol leg) (oli_instrument_type leg) acc = (res, acc1)"
    by (metis surj_pair)
  then have "only_securities (snd acc) (snd acc1)"
    using only_securities_once [of acc resolver "oli_symbol leg" "oli_instrument_type leg"] by simp
  with Cons.IH [of acc1 "n + 1"] show ?case
    by (auto simp: one case_prod_beta intro: only_securities_trans split: sum.split)
qed simp

text \<open>The leg rows, in the order of the input.\<close>

lemma submitted_legs_rows:
  assumes "submitted_legs resolver order_id n legs acc = (Inr rows, acc')"
  shows "length rows = length legs \<and> (\<forall>i < length legs. \<exists>resolved.
     resolver (oli_symbol (legs ! i)) (oli_instrument_type (legs ! i)) = Inr resolved
   \<and> rows ! i = leg_of_input order_id (n + i) (legs ! i) resolved)"
  using assms
proof (induction legs arbitrary: acc n rows)
  case (Cons leg legs)
  obtain res acc1 where one: "resolve_once resolver (oli_symbol leg) (oli_instrument_type leg) acc = (res, acc1)"
    by (metis surj_pair)
  obtain resolved where res: "res = Inr resolved" using Cons.prems one by (cases res) simp_all
  obtain rows1 where rest: "submitted_legs resolver order_id (n + 1) legs acc1 = (Inr rows1, acc')"
      "rows = leg_of_input order_id n leg resolved # rows1"
    using Cons.prems one res by (auto split: prod.splits sum.splits)
  have "resolver (oli_symbol leg) (oli_instrument_type leg) = Inr resolved"
    using resolve_once_result [of resolver "oli_symbol leg" "oli_instrument_type leg" acc] one res by simp
  then show ?case
    using Cons.IH [OF rest(1)] rest(2) by (auto simp: less_Suc_eq_0_disj)
qed simp

lemma upsert_legs_frames [simp]:
  "st_orders (snd (upsert_legs rows s)) = st_orders s"
  "st_trade_groups (snd (upsert_legs rows s)) = st_trade_groups s"
  by (induction rows arbitrary: s) (simp_all add: Let_def case_prod_beta)

lemma only_securities_frames:
  "only_securities s s' \<Longrightarrow> st_orders s' = st_orders s"
  "only_securities s s' \<Longrightarrow> st_trade_groups s' = st_trade_groups s"
  "only_securities s s' \<Longrightarrow> st_legs s' = st_legs s"
  by (auto simp: only_securities_def)

text \<open>What a successful call did, step by step.\<close>

lemma record_order_steps:
  assumes "record_order lc oi st = (Inr ord, st')"
  obtains cache s1 group order_id s2 leg_rows seen s3 where
    "ensure_account (lc_accounts lc) (oi_account oi) st = (Inr (), cache, s1)"
    "intended_group oi s1 = Inr group"
    "upsert_order (submitted_order oi group (env_now s1)) s1 = (order_id, s2)"
    "submitted_legs (lc_resolver lc) order_id 0 (oi_legs oi) ([], s2) = (Inr leg_rows, seen, s3)"
    "ord = (case table_get (st_orders s2) order_id of
        None \<Rightarrow> submitted_order oi group (env_now s1) | Some kept \<Rightarrow> kept)"
    "st' = (cache, snd (upsert_legs leg_rows s3))"
proof -
  obtain res cache s1 where e: "ensure_account (lc_accounts lc) (oi_account oi) st = (res, cache, s1)"
    by (metis prod_cases3)
  have res: "res = Inr ()" using assms e by (cases res) (simp_all add: record_order_def)
  obtain grp where g: "intended_group oi s1 = Inr grp"
    using assms e res by (cases "intended_group oi s1") (simp_all add: record_order_def)
  obtain order_id s2 where o: "upsert_order (submitted_order oi grp (env_now s1)) s1 = (order_id, s2)"
    by (metis surj_pair)
  obtain legs seen s3 where l: "submitted_legs (lc_resolver lc) order_id 0 (oi_legs oi) ([], s2) = (legs, seen, s3)"
    by (metis prod_cases3)
  obtain leg_rows where rows: "legs = Inr leg_rows"
    using assms e res g o l by (cases legs) (simp_all add: record_order_def Let_def)
  show ?thesis
    using assms e res g o l rows by (intro that [of cache s1 grp order_id s2 leg_rows seen s3])
      (simp_all add: record_order_def Let_def)
qed

lemma intended_group_known:
  assumes "ledger_ok s" and "intended_group oi s = Inr (Some pk)"
  shows "has_group s pk"
proof -
  obtain gid where gid: "get_trade_group_id s gid = Some pk"
    using assms(2) by (auto simp: intended_group_def split: option.splits)
  have "table_get (st_trade_groups s) pk \<noteq> None"
    using gid table_ok_index [OF ledger_ok_tables(5) [OF assms(1)], of gid pk]
    by (auto simp: get_trade_group_id_def table_id_of_def table_get_def)
  then show ?thesis by (simp add: has_group_def get_trade_group_by_id_def)
qed

lemma upsert_order_get:
  assumes "ledger_ok s" and "upsert_order row s = (order_id, s')"
  shows "table_get (st_orders s') order_id = Some (synced_order s row)"
  using assms(2) table_upsert_get [OF ledger_ok_tables(1) [OF assms(1)], of "synced_order s row" order_id]
  by (auto simp: upsert_order_alt)

text \<open>The ledger after a successful call: the order as merged with what was known of it, and
  groups and transactions as they were.\<close>

lemma record_order_effect:
  assumes ok: "ledger_ok (snd st)" and run: "record_order lc oi st = (Inr ord, st')"
  obtains cache s1 grp where
    "ensure_account (lc_accounts lc) (oi_account oi) st = (Inr (), cache, s1)" "ledger_ok s1"
    "intended_group oi s1 = Inr grp" "ord = synced_order s1 (submitted_order oi grp (env_now s1))"
    "st_orders (snd st') = st_orders (snd (upsert_order (submitted_order oi grp (env_now s1)) s1))"
    "st_transactions (snd st') = st_transactions (snd st)"
    "st_trade_groups (snd st') = st_trade_groups (snd st)" "ledger_ok (snd st')"
proof -
  obtain cache s1 grp order_id s2 leg_rows seen s3 where e: "ensure_account (lc_accounts lc) (oi_account oi) st = (Inr (), cache, s1)"
    and g: "intended_group oi s1 = Inr grp"
    and up: "upsert_order (submitted_order oi grp (env_now s1)) s1 = (order_id, s2)"
    and l: "submitted_legs (lc_resolver lc) order_id 0 (oi_legs oi) ([], s2) = (Inr leg_rows, seen, s3)"
    and ord: "ord = (case table_get (st_orders s2) order_id of
        None \<Rightarrow> submitted_order oi grp (env_now s1) | Some kept \<Rightarrow> kept)"
    and st': "st' = (cache, snd (upsert_legs leg_rows s3))"
    by (rule record_order_steps [OF run])
  have ok1: "ledger_ok s1" using ledger_ok_ensure_account [OF ok] e by (metis snd_conv)
  have ok2: "ledger_ok s2" using ledger_ok_upsert_order [OF ok1] up by (metis snd_conv)
  have only: "only_securities s2 s3" using only_securities_input_legs [of "([], s2)"] l by (metis snd_conv)
  have s1: "st_transactions s1 = st_transactions (snd st)" "st_trade_groups s1 = st_trade_groups (snd st)"
    using ensure_account_cases [OF e] by auto
  have s2: "st_transactions s2 = st_transactions s1" "st_trade_groups s2 = st_trade_groups s1"
    using up by (auto simp: upsert_order_alt)
  show ?thesis
    by (rule that [OF e ok1 g])
      (use ord st' up only s1 s2 ok2 upsert_order_get [OF ok1 up] in
        \<open>simp_all add: only_securitiesD only_securities_frames ledger_ok_upsert_legs\<close>)
qed

lemma only_securities_txn_rows:
  "only_securities (snd acc) (snd (snd (txn_rows resolver account source ts acc)))"
proof (induction ts arbitrary: acc)
  case (Cons t ts)
  let ?one = "if str_true (bt_symbol t)
            then (case resolve_once resolver (str0 (bt_symbol t)) (bt_instrument_type t) acc of
                    (Inl msg, acc1) \<Rightarrow> (Inl msg, acc1)
                  | (Inr r, acc1) \<Rightarrow> (Inr (Some (rs_security_id r)), acc1))
            else (Inr None, acc)"
  obtain res acc1 where one: "?one = (res, acc1)" by (rule that) (rule surjective_pairing)
  have "only_securities (snd acc) (snd acc1)"
    using one only_securities_once [of acc resolver "str0 (bt_symbol t)" "bt_instrument_type t"]
    by (auto split: if_splits prod.splits sum.splits)
  moreover have "only_securities (snd acc1) (snd (snd (txn_rows resolver account source (t # ts) acc)))"
    unfolding txn_rows.simps one using Cons.IH [of acc1] by (simp add: case_prod_beta split: sum.split)
  ultimately show ?case by (rule only_securities_trans)
qed simp

text \<open>An imported page, row by row.\<close>

lemma txn_rows_shape:
  "txn_rows resolver account source ts acc = (Inr rows, acc') \<Longrightarrow>
     list_all2 (\<lambda>t row. \<exists>sid. row = txn_of t account source sid) ts rows"
proof (induction ts arbitrary: acc rows)
  case (Cons t ts)
  let ?one = "if str_true (bt_symbol t)
            then (case resolve_once resolver (str0 (bt_symbol t)) (bt_instrument_type t) acc of
                    (Inl msg, acc1) \<Rightarrow> (Inl msg, acc1)
                  | (Inr r, acc1) \<Rightarrow> (Inr (Some (rs_security_id r)), acc1))
            else (Inr None, acc)"
  obtain res acc1 where one: "?one = (res, acc1)" by (rule that) (rule surjective_pairing)
  note run = Cons.prems [unfolded txn_rows.simps one]
  obtain sid where res: "res = Inr sid" using run by (cases res) simp_all
  obtain rows1 where "txn_rows resolver account source ts acc1 = (Inr rows1, acc')"
      "rows = txn_of t account source sid # rows1"
    using run unfolding res by (auto split: prod.splits sum.splits)
  with Cons.IH show ?case by auto
qed simp

lemma txn_of_fields [simp]:
  "r_tt_transaction_id (txn_of t account source sid) = bt_id t"
  "r_tt_order_id (txn_of t account source sid) = bt_order_id t"
  "r_account (txn_of t account source sid) = account"
  "r_order_id (txn_of t account source sid) = None"
  "r_trade_group_id (txn_of t account source sid) = None"
  by (simp_all add: txn_of_def ledger_row.defs)

lemma last_of_shape:
  assumes "list_all2 (\<lambda>t row. \<exists>sid. row = txn_of t account source sid) ts rows"
    and "distinct (map bt_id ts)" and "t \<in> set ts"
  shows "\<exists>sid. last_of (bt_id t) rows = Some (txn_of t account source sid)"
  using assms
proof (induction ts rows rule: list_all2_induct)
  case (Cons x xs y ys)
  obtain sid where y: "y = txn_of x account source sid" using Cons.hyps by auto
  show ?case
  proof (cases "t \<in> set xs")
    case True
    then show ?thesis using Cons.IH Cons.prems by (auto simp: last_of_Cons)
  next
    case False
    have "last_of (bt_id x) ys = None"
    proof -
      have "map r_tt_transaction_id ys = map bt_id xs"
        using Cons.hyps(2) by (induction rule: list_all2_induct) auto
      then have "r_tt_transaction_id ` set ys = set (map bt_id xs)" by (metis list.set_map)
      then show ?thesis using Cons.prems(1) by (auto simp: last_of_def map_of_eq_None_iff comp_def)
    qed
    then show ?thesis using False Cons.prems(2) by (auto simp: last_of_Cons y)
  qed
qed simp

lemma synced_order_fields:
  "o_account (synced_order s row) = o_account row"
  "o_trade_group_id row = Some pk \<Longrightarrow> o_trade_group_id (synced_order s row) = Some pk"
  by (auto simp: synced_order_def order_preserve_def or_else_def split: option.split)

lemma submitted_order_fields [simp]:
  "o_account (submitted_order oi grp t) = oi_account oi"
  "o_trade_group_id (submitted_order oi grp t) = grp"
  "o_tt_order_id (submitted_order oi grp t) = oi_tt_order_id oi"
  by (simp_all add: submitted_order_def)

lemma record_order_intent:
  assumes ok: "ledger_ok (snd st)" and run: "record_order lc oi st = (Inr ord, st')"
    and "oi_trade_group oi = Some gid" and tt: "oi_tt_order_id oi = Some tt"
  obtains pk where "get_trade_group_id (snd st) gid = Some pk" "has_group (snd st') pk"
    "get_order (snd st') tt = Some ord" "o_account ord = oi_account oi" "o_trade_group_id ord = Some pk"
    "ledger_ok (snd st')" "st_transactions (snd st') = st_transactions (snd st)"
proof -
  obtain cache s1 grp where e: "ensure_account (lc_accounts lc) (oi_account oi) st = (Inr (), cache, s1)"
    and ok1: "ledger_ok s1" and g: "intended_group oi s1 = Inr grp"
    and ord: "ord = synced_order s1 (submitted_order oi grp (env_now s1))"
    and orders: "st_orders (snd st') = st_orders (snd (upsert_order (submitted_order oi grp (env_now s1)) s1))"
    and rest: "st_transactions (snd st') = st_transactions (snd st)"
      "st_trade_groups (snd st') = st_trade_groups (snd st)" "ledger_ok (snd st')"
    by (rule record_order_effect [OF ok run])
  obtain pk where pk: "get_trade_group_id s1 gid = Some pk" "grp = Some pk"
    using g assms(3) by (auto simp: intended_group_def split: option.splits)
  have groups: "st_trade_groups s1 = st_trade_groups (snd st)" using ensure_account_cases [OF e] by auto
  have "has_group s1 pk" using intended_group_known [OF ok1] g pk(2) by simp
  moreover have "get_order (snd st') tt = Some ord"
    using upsert_order_lookup [OF ok1, of "submitted_order oi grp (env_now s1)" tt tt] tt ord orders
    by (simp add: get_order_def)
  ultimately show ?thesis
    using pk groups rest ord
    by (intro that [of pk]) (simp_all add: get_trade_group_id_def synced_order_fields has_group_def get_trade_group_by_id_def)
qed

text \<open>An import followed by its reconcile.\<close>

lemma import_then_reconcile:
  assumes "import_transactions lc account txns source True st = (Inr result, st')"
  obtains cache s1 n s2 rec where
    "ensure_account (lc_accounts lc) account st = (Inr (), cache, s1)"
    "upsert_broker_transactions (lc_resolver lc) account source txns s1 = (Inr n, s2)"
    "reconcile_account None (lc_settlement_price lc) DEFAULT_SETTLE_AFTER False account (sync_result0, s2) = (rec, snd st')"
    "sr_errors result = sr_errors rec"
proof -
  obtain res cache s1 where e: "ensure_account (lc_accounts lc) account st = (res, cache, s1)"
    by (metis prod_cases3)
  have res: "res = Inr ()" using assms e by (cases res) (simp_all add: import_transactions_def)
  obtain imp s2 where u: "upsert_broker_transactions (lc_resolver lc) account source txns s1 = (imp, s2)"
    by (metis surj_pair)
  obtain n where n: "imp = Inr n"
    using assms e res u by (cases imp) (simp_all add: import_transactions_def)
  obtain rec s3 where r: "reconcile_account None (lc_settlement_price lc) DEFAULT_SETTLE_AFTER False account (sync_result0, s2) = (rec, s3)"
    by (metis surj_pair)
  show ?thesis
    using assms e res u n r
    by (intro that [of cache s1 n s2 rec])
      (auto simp: import_transactions_def reconcile_def Let_def sync_result0_def)
qed

lemma imported_row:
  assumes ok: "ledger_ok s" and run: "upsert_broker_transactions resolver account source txns s = (Inr n, s')"
    and t: "t \<in> set txns" "distinct (map bt_id txns)" and fresh: "table_get_by_key (st_transactions s) (bt_id t) = None"
  shows "(\<exists>sid. table_get_by_key (st_transactions s') (bt_id t) = Some (txn_of t account source sid))
    \<and> st_orders s' = st_orders s \<and> st_trade_groups s' = st_trade_groups s"
proof -
  obtain res seen s1 where rows: "txn_rows resolver account source txns ([], s) = (res, seen, s1)"
    by (metis prod_cases3)
  obtain rs where rs: "res = Inr rs" using run rows t(1)
    by (cases res) (auto simp: upsert_broker_transactions_def split: if_splits)
  have s': "s' = upsert_transactions rs s1"
    using run rows rs t(1) by (auto simp: upsert_broker_transactions_def split: if_splits)
  have only: "only_securities s s1" using only_securities_txn_rows [of "([], s)"] rows by (metis snd_conv)
  note shape = txn_rows_shape [OF rows [unfolded rs]]
  have bare: "\<forall>r \<in> set rs. txn_bare r"
    using shape by (auto simp: list_all2_conv_all_nth in_set_conv_nth) (metis txn_of_bare)
  obtain sid where "last_of (bt_id t) rs = Some (txn_of t account source sid)"
    using last_of_shape [OF shape t(2,1)] by blast
  then have "table_get_by_key (st_transactions s') (bt_id t) = Some (txn_of t account source sid)"
    using upsert_transactions_lookup [OF only_securitiesD(2) [OF only ok] bare, of "bt_id t"] fresh
    by (simp add: s' only_securitiesD(1) [OF only])
  moreover have "st_trade_groups (upsert_transactions rs s1) = st_trade_groups s1"
  proof -
    have "st_trade_groups (upsert_transactions rs x) = st_trade_groups x" for x
      by (induction rs arbitrary: x) (simp_all add: upsert_transaction_def)
    then show ?thesis .
  qed
  ultimately show ?thesis using only_securities_frames [OF only] by (auto simp: s')
qed

text \<open>
  C29 (liveness). Submit-time intent beats every heuristic: once an order has been recorded into a
  trade group, a fill of that order that is imported later ends, after the reconcile that follows
  the import and reports no error, in exactly that group; whatever else the page holds, however
  the rows cluster in time and whichever other group the routing would have preferred.\<close>

theorem recorded_intent_wins:
  assumes "ledger_ok (snd st)" and "record_order lc oi st = (Inr ord, st1)"
    and "oi_trade_group oi = Some gid" and "oi_tt_order_id oi = Some tt"
    and "import_transactions lc (oi_account oi) txns source True st1 = (Inr result, st2)" and "sr_errors result = []"
    and "t \<in> set txns" "bt_order_id t = Some tt" "distinct (map bt_id txns)" "\<not> is_lapse_id (bt_id t)"
    and "table_get_by_key (st_transactions (snd st)) (bt_id t) = None"
  shows "txn_group_of (snd st2) (bt_id t) = get_trade_group_id (snd st) gid
    \<and> get_trade_group_id (snd st) gid \<noteq> None"
proof -
  obtain pk where pk: "get_trade_group_id (snd st) gid = Some pk" "has_group (snd st1) pk"
      "get_order (snd st1) tt = Some ord" "o_account ord = oi_account oi" "o_trade_group_id ord = Some pk"
    and ok1: "ledger_ok (snd st1)" and txns1: "st_transactions (snd st1) = st_transactions (snd st)"
    by (rule record_order_intent [OF assms(1-4)])
  obtain cache s1 n s2 rec where e: "ensure_account (lc_accounts lc) (oi_account oi) st1 = (Inr (), cache, s1)"
    and imp: "upsert_broker_transactions (lc_resolver lc) (oi_account oi) source txns s1 = (Inr n, s2)"
    and rec: "reconcile_account None (lc_settlement_price lc) DEFAULT_SETTLE_AFTER False (oi_account oi) (sync_result0, s2)
      = (rec, snd st2)" and errors: "sr_errors result = sr_errors rec"
    by (rule import_then_reconcile [OF assms(5)])
  obtain accounts where s1: "s1 = snd st1\<lparr>st_accounts := accounts\<rparr>" using ensure_account_cases [OF e] by auto
  have ok: "ledger_ok s1" "ledger_ok s2"
    using ledger_ok_ensure_account [OF ok1] e import_ok imp by (metis snd_conv)+
  have "table_get_by_key (st_transactions s1) (bt_id t) = None" using assms(11) txns1 s1 by simp
  from imported_row [OF ok(1) imp assms(7,9) this]
  obtain sid where row: "table_get_by_key (st_transactions s2) (bt_id t) = Some (txn_of t (oi_account oi) source sid)"
    and frames: "st_orders s2 = st_orders (snd st1)" "st_trade_groups s2 = st_trade_groups (snd st1)"
    by (auto simp: s1)
  have "awaits_intent (oi_account oi) s2 (bt_id t) pk"
    unfolding awaits_intent_def using row pk frames assms(8)
    by (auto simp: get_order_def has_group_def get_trade_group_by_id_def)
  from clean_run_honours_intent [OF ok(2) this assms(10) rec] errors assms(6) pk(1)
  show ?thesis by (simp add: sync_result0_def)
qed

section \<open>Failures\<close>

lemma submitted_legs_error:
  "submitted_legs resolver order_id n legs acc = (Inl msg, acc') \<Longrightarrow>
     \<exists>leg \<in> set legs. resolver (oli_symbol leg) (oli_instrument_type leg) = Inl msg"
proof (induction legs arbitrary: acc n)
  case (Cons leg legs)
  obtain res acc1 where one: "resolve_once resolver (oli_symbol leg) (oli_instrument_type leg) acc = (res, acc1)"
    by (metis surj_pair)
  have res: "res = resolver (oli_symbol leg) (oli_instrument_type leg)"
    using resolve_once_result [of resolver "oli_symbol leg" "oli_instrument_type leg" acc] one by simp
  show ?case
  proof (cases res)
    case (Inl m)
    then show ?thesis using Cons.prems one res by simp
  next
    case (Inr resolved)
    then have "submitted_legs resolver order_id (n + 1) legs acc1 = (Inl msg, acc')"
      using Cons.prems one by (auto split: prod.splits sum.splits)
    from Cons.IH [OF this] show ?thesis by auto
  qed
qed simp

lemma upsert_order_orders:
  "st_orders s' = st_orders s \<Longrightarrow> st_orders (snd (upsert_order row s')) = st_orders (snd (upsert_order row s))"
  by (simp add: upsert_order_alt synced_order_def)


section \<open>Display reads\<close>

lemma dict_get_or_group_by: "dict_get_or (group_by f xs) k [] = filter (\<lambda>x. f x = k) xs"
  by (simp add: dict_get_or_def map_of_group_by Let_def)

lemma sort_key_iso:
  assumes "\<And>x y. x \<in> set xs \<Longrightarrow> y \<in> set xs \<Longrightarrow> f x \<le> f y \<longleftrightarrow> g x \<le> g y"
  shows "sort_key f xs = sort_key g xs"
  using assms
proof (induction xs)
  case (Cons x xs)
  have "insort_key f x ys = insort_key g x ys" if "set ys \<subseteq> set xs" for ys
    using that Cons.prems by (induction ys) auto
  moreover have "sort_key f xs = sort_key g xs" using Cons by simp
  ultimately show ?case by simp
qed simp

definition legs_of_order :: "ledger \<Rightarrow> nat \<Rightarrow> (nat \<times> leg_row) list" where
  "legs_of_order s pk =
     sort_key (\<lambda>(_, leg). lg_leg_index leg) (filter (\<lambda>(_, leg). lg_order_id leg = pk) (table_all (st_legs s)))"

definition fills_of_order :: "ledger \<Rightarrow> nat \<Rightarrow> fill_row list" where
  "fills_of_order s pk =
     map snd (sort_key (\<lambda>(i, fill). (time_key (fl_filled_at fill), i))
       (filter (\<lambda>(_, fill). fl_order_id fill = Some pk) (table_all (st_fills s))))"

text \<open>
  The display read collects legs and fills of all its orders in two queries and
  one pass; the result is what asking for each order on its own gives: every order with exactly
  its own legs in leg order and exactly its own fills in time order, none lost and none under a
  wrong order.\<close>

theorem details_are_per_order:
  "details_of s pairs =
     map (\<lambda>(pk, row). \<lparr> od_order_pk = pk, od_order = row, od_legs = legs_of_order s pk,
                         od_fills = fills_of_order s pk \<rparr>) pairs"
proof -
  have legs: "filter (\<lambda>x. lg_order_id (snd x) = pk) (get_legs_for_orders s ids) = legs_of_order s pk"
    if "pk \<in> set ids" for pk ids
  proof -
    have "filter (\<lambda>x. lg_order_id (snd x) = pk) (get_legs_for_orders s ids)
        = sort_key (\<lambda>(_, leg). (lg_order_id leg, lg_leg_index leg))
            (filter (\<lambda>(_, leg). lg_order_id leg = pk) (table_all (st_legs s)))"
      using that by (auto simp: get_legs_for_orders_def filter_sort_key case_prod_beta intro!: arg_cong [of _ _ "sort_key _"] filter_cong)
    also have "\<dots> = legs_of_order s pk"
      unfolding legs_of_order_def by (rule sort_key_iso) auto
    finally show ?thesis .
  qed
  have fills: "filter (\<lambda>fill. (case fl_order_id fill of None \<Rightarrow> 0 | Some i \<Rightarrow> i) = pk)
      (filter (\<lambda>fill. fl_order_id fill \<noteq> None) (get_fills_for_orders s ids)) = fills_of_order s pk"
    if "pk \<in> set ids" for pk ids
  proof -
    have "filter (\<lambda>fill. (case fl_order_id fill of None \<Rightarrow> 0 | Some i \<Rightarrow> i) = pk)
        (filter (\<lambda>fill. fl_order_id fill \<noteq> None) (get_fills_for_orders s ids))
      = filter (\<lambda>fill. fl_order_id fill = Some pk) (get_fills_for_orders s ids)"
      by (auto intro!: filter_cong split: option.splits)
    also have "\<dots> = fills_of_order s pk"
      using that by (auto simp: get_fills_for_orders_def fills_of_order_def filter_map filter_sort_key comp_def case_prod_beta
          intro!: arg_cong [of _ _ "map snd"] arg_cong [of _ _ "sort_key _"] filter_cong split: option.splits)
    finally show ?thesis .
  qed
  show ?thesis
    unfolding details_of_def Let_def dict_get_or_group_by case_prod_beta
    by (rule map_cong [OF refl]) (simp add: legs fills imageI del: filter_filter not_None_eq)
qed

section \<open>Paging in bands\<close>

lemma keys_dict_append: "map fst (dict_append k x d) = (if k \<in> fst ` set d then map fst d else map fst d @ [k])"
  by (induction k x d rule: dict_append.induct) auto

lemma keys_in_order_group_by: "map fst (group_by f xs) = first_seen (map f xs)"
  by (induction xs rule: rev_induct) (simp_all add: group_by_snoc keys_dict_append keys_group_by first_seen_snoc)

definition all_details :: "ledger \<Rightarrow> transaction_query \<Rightarrow> transaction_detail list" where
  "all_details s q = map (transaction_detail_of s) (matched_transactions s q)"

lemma matched_any_page:
  "matched_transactions s (q\<lparr>tq_limit := l, tq_offset := k\<rparr>) = matched_transactions s q"
proof -
  have "transaction_matches (q\<lparr>tq_limit := l, tq_offset := k\<rparr>) = transaction_matches q"
    by (cases q) (intro ext, simp add: transaction_matches_def in_window_def cong: option.case_cong)
  then show ?thesis by (simp add: matched_transactions_def)
qed

lemma bands_page:
  "query_transaction_bands s q =
     \<lparr> bp_rows = concat (map (\<lambda>k. filter (\<lambda>td. band_of td = k) (all_details s q))
           (take (tq_limit q) (drop (tq_offset q) (first_seen (map band_of (all_details s q)))))),
       bp_band_total = length (first_seen (map band_of (all_details s q))),
       bp_row_total = length (all_details s q) \<rparr>"
proof -
  have "length (matched_transactions s q) \<le> length (table_all (st_transactions s))"
    by (simp add: matched_transactions_def)
  then have whole: "query_transactions s (q\<lparr>tq_limit := length (table_all (st_transactions s)) + 1, tq_offset := 0\<rparr>)
      = (all_details s q, length (all_details s q))"
    unfolding query_transactions_def matched_any_page by (simp add: all_details_def Let_def)
  have rows: "(case dict_get (group_by band_of xs) k of None \<Rightarrow> [] | Some rows \<Rightarrow> rows) = filter (\<lambda>td. band_of td = k) xs" for xs k
    using dict_get_or_group_by [of band_of xs k] by (simp add: dict_get_or_def)
  show ?thesis
    unfolding query_transaction_bands_def whole
    by (simp add: Let_def rows keys_in_order_group_by [symmetric])
qed

lemma in_page:
  assumes "distinct ks" and "i < length ks"
  shows "ks ! i \<in> set (take n (drop m ks)) \<longleftrightarrow> m \<le> i \<and> i < m + n"
proof
  assume "ks ! i \<in> set (take n (drop m ks))"
  then obtain j where j: "j < length (take n (drop m ks))" "take n (drop m ks) ! j = ks ! i"
    by (auto simp: in_set_conv_nth)
  then have "ks ! (m + j) = ks ! i" "m + j < length ks" "j < n" by auto
  then have "m + j = i" using assms by (metis nth_eq_iff_index_eq)
  with \<open>j < n\<close> show "m \<le> i \<and> i < m + n" by simp
next
  assume i: "m \<le> i \<and> i < m + n"
  then have "take n (drop m ks) ! (i - m) = ks ! i" "i - m < length (take n (drop m ks))" using assms(2) by auto
  then show "ks ! i \<in> set (take n (drop m ks))" by (metis nth_mem)
qed

lemma in_nth_block: "0 < l \<Longrightarrow> n * l \<le> i \<and> i < n * l + l \<longleftrightarrow> n = i div l" for l :: nat
proof
  assume "n * l \<le> i \<and> i < n * l + l"
  then show "n = i div l" using div_nat_eqI [of l n i] by (simp add: mult.commute)
next
  assume "0 < l" and n: "n = i div l"
  have "i div l * l + i mod l = i" by simp
  moreover have "i mod l < l" using \<open>0 < l\<close> by simp
  ultimately show "n * l \<le> i \<and> i < n * l + l" unfolding n by linarith
qed

text \<open>The rows of the \<open>n\<close>-th page.\<close>

definition band_page :: "ledger \<Rightarrow> transaction_query \<Rightarrow> nat \<Rightarrow> transaction_detail set" where
  "band_page s q n = set (bp_rows (query_transaction_bands s (q\<lparr>tq_offset := n * tq_limit q\<rparr>)))"


section \<open>Open positions\<close>

lemma max_opt_snoc:
  "max_opt (xs @ [x]) = Some (case max_opt xs of None \<Rightarrow> x | Some m \<Rightarrow> if m < x then x else m)"
proof (cases "xs = []")
  case False
  then have "Max (insert x (set xs)) = max x (Max (set xs))" by simp
  moreover have "max x m = (if m < x then x else m)" for m by (auto simp: max_def)
  ultimately show ?thesis using False unfolding max_opt_def by (simp del: Max_less_iff)
qed (simp add: max_opt_def)

lemma max_opt_Nil [simp]: "max_opt [] = None"
  by (simp add: max_opt_def)

definition groups_in :: "string \<Rightarrow> string \<Rightarrow> (string \<times> string \<times> nat) list \<Rightarrow> nat list" where
  "groups_in a sid rows = map (snd \<circ> snd) (filter (\<lambda>row. fst row = a \<and> fst (snd row) = sid) rows)"

lemma newest_group_walk:
  "dict_get (foldl newest_group_step [] rows) (a, sid) = max_opt (groups_in a sid rows)"
proof (induction rows rule: rev_induct)
  case (snoc r rows)
  obtain a' sid' pk where r: "r = (a', sid', pk)" by (metis prod_cases3)
  have "groups_in a sid (rows @ [r]) = groups_in a sid rows @ (if a' = a \<and> sid' = sid then [pk] else [])"
    by (simp add: groups_in_def r)
  then show ?case
    using snoc by (auto simp: r newest_group_step_def max_opt_snoc split: option.split)
qed (simp add: max_opt_def groups_in_def)

text \<open>
  The two position reads agree with their specifications: the shares of a
  contract are all stakes that open groups hold in it with something left, each once and the
  newest group last, and the single group named for a contract is the newest of all open groups
  with a transaction in it.\<close>

theorem position_claims_complete:
  "dict_get (open_position_shares account s) (a, sid) =
     (let claims = filter (\<lambda>leg. ol_account leg = a \<and> ol_security_id leg = sid \<and> 0 < ol_net_open leg) (open_group_legs s account)
      in if claims = [] then None else Some (sort_key ol_trade_group_id claims))
   \<and> dict_get (open_position_groups account s) (a, sid) =
     (let pks = {pk. (a, sid, pk) \<in> set (get_open_position_groups s account)}
      in if pks = {} then None else Some (Max pks))"
proof
  show "dict_get (open_position_shares account s) (a, sid) =
     (let claims = filter (\<lambda>leg. ol_account leg = a \<and> ol_security_id leg = sid \<and> 0 < ol_net_open leg) (open_group_legs s account)
      in if claims = [] then None else Some (sort_key ol_trade_group_id claims))"
    by (simp add: open_position_shares_def map_of_map_snd map_of_group_by Let_def conj_ac not_le)
next
  let ?rows = "get_open_position_groups s account"
  have pks: "set (groups_in a sid ?rows) = {pk. (a, sid, pk) \<in> set ?rows}" by (force simp: groups_in_def)
  then have "groups_in a sid ?rows = [] \<longleftrightarrow> {pk. (a, sid, pk) \<in> set ?rows} = {}" by (metis empty_set set_empty)
  then show "dict_get (open_position_groups account s) (a, sid) =
     (let pks = {pk. (a, sid, pk) \<in> set (get_open_position_groups s account)}
      in if pks = {} then None else Some (Max pks))"
    unfolding open_position_groups_def newest_group_walk max_opt_def Let_def pks by simp
qed

section \<open>An example client\<close>

definition example_client :: ledger_client where
  "example_client =
     \<lparr> lc_accounts = example_mapper, lc_resolver = passthrough_resolver, lc_client = None, lc_settlement_price = None \<rparr>"

definition example_plan :: trade_plan where
  "example_plan =
     \<lparr> tp_strategy_type = Some ''vertical'', tp_underlying = Some ''SPY'', tp_security_id = None, tp_quantity = Some 1,
       tp_total_premium = Some 2, tp_max_profit = None, tp_max_loss = None, tp_initial_risk = None,
       tp_profit_target = None, tp_stop_loss = None, tp_exit_strategy = None, tp_structure = None,
       tp_strategy_id = None, tp_bot = None, tp_signal = None, tp_reviewed_by = None \<rparr>"

definition example_submission :: order_input where
  "example_submission =
     \<lparr> oi_account = ''acct'', oi_tt_order_id = Some ''T1'', oi_oms_order_id = None, oi_client_order_id = None,
       oi_security_id = None, oi_underlying = Some ''SPY'', oi_order_type = None, oi_time_in_force = None,
       oi_price = Some 2, oi_price_effect = None, oi_is_complex = False, oi_complex_order_type = None,
       oi_signal_id = None, oi_trace_id = None, oi_strategy_id = None, oi_market_context_id = None,
       oi_trade_group = Some ''0'',
       oi_legs = [\<lparr> oli_symbol = ''SPY'', oli_instrument_type = None, oli_action = Some ''Buy to Open'',
                    oli_quantity = Some 1, oli_price = None \<rparr>] \<rparr>"

definition example_opened :: sdk_state where
  "example_opened = snd (open_trade_group example_client ''acct'' example_plan ([], ledger_empty 0 show_nat))"

definition example_submitted :: sdk_state where
  "example_submitted = snd (record_order example_client example_submission example_opened)"

definition example_fills :: "broker_transaction list" where
  "example_fills = [example_broker_txn\<lparr>bt_order_id := Some ''T1''\<rparr>]"

lemma ledger_ok_example_opened: "ledger_ok (snd example_opened)"
proof -
  have "ledger_ok (snd (snd (ensure_account example_mapper ''acct'' ([], ledger_empty 0 show_nat))))"
    by (rule ledger_ok_ensure_account) (simp add: ledger_ok_empty)
  then show ?thesis
    unfolding example_opened_def open_trade_group_def
    by (simp add: example_client_def case_prod_beta Let_def ledger_ok_intros ledger_ok_empty split: sum.split)
qed

lemma run_succeeds: "\<not> isl (fst p) \<Longrightarrow> p = (Inr (projr (fst p)), snd p)"
  by (cases p; cases "fst p") simp_all

text \<open>Without a settlement-price resolver the reconcile after an import reports no error.\<close>

lemma import_succeeds:
  assumes "lc_settlement_price lc = None" and "\<not> isl (fst (ensure_account (lc_accounts lc) account st))"
    and "\<not> isl (fst (upsert_broker_transactions (lc_resolver lc) account source txns
        (snd (snd (ensure_account (lc_accounts lc) account st)))))"
  shows "\<exists>result st'. import_transactions lc account txns source True st = (Inr result, st') \<and> sr_errors result = []"
proof -
  obtain cache s1 where e: "ensure_account (lc_accounts lc) account st = (Inr (), cache, s1)"
    using run_succeeds [OF assms(2)] by (metis old.unit.exhaust surj_pair)
  obtain n s2 where u: "upsert_broker_transactions (lc_resolver lc) account source txns s1 = (Inr n, s2)"
    using run_succeeds [OF assms(3)] by (metis e snd_conv)
  show ?thesis
    using reconcile_account_no_resolver [of None DEFAULT_SETTLE_AFTER False account "(sync_result0, s2)"] assms(1)
    by (simp add: import_transactions_def e u reconcile_def case_prod_beta Let_def sync_result0_def)
qed

theorem recorded_intent_wins_witness:
  "get_trade_group_id (snd example_opened) ''0'' = Some 1
   \<and> txn_group_of (snd (snd (import_transactions example_client ''acct'' example_fills ''synthetic'' True example_submitted))) ''1''
     = Some 1"
proof -
  let ?import = "import_transactions example_client ''acct'' example_fills ''synthetic'' True example_submitted"
  have "\<not> isl (fst (record_order example_client example_submission example_opened))" by code_simp
  note rec = run_succeeds [OF this, folded example_submitted_def]
  have "\<not> isl (fst (ensure_account (lc_accounts example_client) ''acct'' example_submitted))" by code_simp
  moreover have "\<not> isl (fst (upsert_broker_transactions (lc_resolver example_client) ''acct'' ''synthetic'' example_fills
        (snd (snd (ensure_account (lc_accounts example_client) ''acct'' example_submitted)))))" by code_simp
  moreover have "lc_settlement_price example_client = None" by (simp add: example_client_def)
  ultimately obtain result st2 where imp: "?import = (Inr result, st2)" "sr_errors result = []"
    using import_succeeds by blast
  have group: "get_trade_group_id (snd example_opened) ''0'' = Some 1" by code_simp
  have fresh: "table_get_by_key (st_transactions (snd example_opened)) ''1'' = None" by code_simp
  have plain: "\<not> is_lapse_id ''1''" by code_simp
  have fields: "oi_account example_submission = ''acct''" "oi_trade_group example_submission = Some ''0''"
    "oi_tt_order_id example_submission = Some ''T1''" by (simp_all add: example_submission_def)
  have "txn_group_of (snd st2) (bt_id (hd example_fills)) = get_trade_group_id (snd example_opened) ''0''
     \<and> get_trade_group_id (snd example_opened) ''0'' \<noteq> None"
    by (rule recorded_intent_wins [OF ledger_ok_example_opened rec fields(2,3), of example_fills "''synthetic''" result])
      (use imp fields fresh plain in \<open>simp_all add: example_fills_def example_broker_txn_def\<close>)
  then show ?thesis using imp(1) group by (simp add: example_fills_def example_broker_txn_def)
qed


definition example_query :: transaction_query where
  "example_query =
     \<lparr> tq_account = Some ''acct'', tq_accounts = None, tq_start = None, tq_end = None, tq_start_at = None,
       tq_end_at = None, tq_underlying = None, tq_transaction_type = None, tq_trade_group_id = None,
       tq_limit = 1, tq_offset = 0 \<rparr>"

text \<open>Three transactions, two of them in one group: two pages of one band each.\<close>

definition example_banded :: ledger where
  "example_banded =
     upsert_transactions [example_txn ''1'' (Some 4) 5, example_txn ''2'' None 5, example_txn ''3'' (Some 4) 5]
       (ledger_empty 0 show_nat)"


end
