(* ===== verification/Sql_Reads.thy ===== *)
theory Sql_Reads
  imports Sql_Laws Sdk_Laws
begin

text \<open>
  The reads of the two stores against each other. \<open>sql_of s\<close> holds the rows of \<open>rounded s\<close>, the
  ledger with its amounts in millionths, so what the database answers is compared with what the
  in-memory store answers on that ledger: for the reads by key, the filtered and ordered reads, the
  transaction pages and the aggregates over the open book.
\<close>

section \<open>The ledger a database holds\<close>

definition rounded :: "ledger \<Rightarrow> ledger" where
  "rounded s =
     s\<lparr> st_orders := table_modify (\<lambda>_. stored_order) (st_orders s),
        st_legs := table_modify (\<lambda>_. stored_leg) (st_legs s),
        st_fills := table_modify (\<lambda>_. stored_fill) (st_fills s),
        st_transactions := table_modify (\<lambda>_. stored_txn) (st_transactions s),
        st_securities := table_modify (\<lambda>_. stored_security) (st_securities s),
        st_positions := table_modify (\<lambda>_. stored_position) (st_positions s),
        st_closed_positions := table_modify (\<lambda>_. stored_closed_position) (st_closed_positions s),
        st_trade_groups := table_modify (\<lambda>_. stored_trade_group) (st_trade_groups s),
        st_events := table_modify (\<lambda>_. stored_event) (st_events s),
        st_balance_snapshots := table_modify (\<lambda>_. stored_balance) (st_balance_snapshots s) \<rparr>"

text \<open>The tables of a ledger as they are.\<close>

definition db_of :: "ledger \<Rightarrow> database" where
  "db_of s =
     \<lparr> db_accounts = tb_rows (st_accounts s), db_orders = tb_rows (st_orders s), db_legs = tb_rows (st_legs s),
       db_fills = tb_rows (st_fills s), db_transactions = tb_rows (st_transactions s),
       db_securities = tb_rows (st_securities s), db_positions = tb_rows (st_positions s),
       db_closed_positions = tb_rows (st_closed_positions s), db_trade_groups = tb_rows (st_trade_groups s),
       db_events = tb_rows (st_events s), db_balance_snapshots = tb_rows (st_balance_snapshots s),
       db_now = env_now s \<rparr>"

lemma rows_of_id: "rows_of id t = tb_rows t"
  by (simp add: rows_of_def)

lemma sql_of_rounded: "sql_of s = db_of (rounded s)"
  by (simp add: sql_of_def db_of_def rounded_def rows_of_def table_modify_def)

lemma ledger_ok_rounded: "ledger_ok s \<Longrightarrow> ledger_ok (rounded s)"
  by (simp add: ledger_ok_def rounded_def table_ok_modify)

section \<open>Reads by key\<close>

lemma first_row_find: "first_row (select_where cs t) = find (\<lambda>p. holds (cs p)) t"
  by (simp add: first_row_def select_where_def first_where_find)

lemma keyed_read:
  assumes ok: "table_ok key_of t" and cs: "\<And>p. holds (cs p) \<longleftrightarrow> key_of (snd p) = Some k"
  shows "first_row (select_where cs (tb_rows t)) =
      (case table_id_of t k of None \<Rightarrow> None | Some i \<Rightarrow> map_option (Pair i) (table_get t i))"
    and "map_option snd (first_row (select_where cs (tb_rows t))) = table_get_by_key t k"
    and "map_option fst (first_row (select_where cs (tb_rows t))) = table_id_of t k"
proof -
  have "(\<lambda>p. holds (cs p)) = (\<lambda>p. key_of (snd p) = Some k)" by (simp add: cs)
  then show row: "first_row (select_where cs (tb_rows t)) =
      (case table_id_of t k of None \<Rightarrow> None | Some i \<Rightarrow> map_option (Pair i) (table_get t i))"
    using find_by_key [OF ok, of id k, unfolded rows_of_id, unfolded id_def] by (simp add: first_row_find)
  show "map_option snd (first_row (select_where cs (tb_rows t))) = table_get_by_key t k"
    unfolding row by (auto simp: table_get_by_key_def table_id_of_def table_get_def option.map_comp comp_def
        option.map_ident split: option.split)
  have "table_get t i \<noteq> None" if "table_id_of t k = Some i" for i
    using table_ok_index [OF ok, of k i] that by (auto simp: table_get_def table_id_of_def)
  then show "map_option fst (first_row (select_where cs (tb_rows t))) = table_id_of t k"
    unfolding row by (auto split: option.split simp: option.map_comp comp_def)
qed

lemma find_id: "distinct (map fst t) \<Longrightarrow> map_option snd (find (\<lambda>p. fst p = i) t) = dict_get t i"
  by (induction t) auto

lemma reads_by_key:
  assumes "ledger_ok s"
  shows "sql_get_order (db_of s) tt = get_order s tt"
    and "sql_get_position (db_of s) account sid = get_position s account sid"
    and "sql_get_position_id (db_of s) account sid = get_position_id s account sid"
    and "sql_get_security (db_of s) sid = get_security s sid"
    and "sql_get_trade_group (db_of s) gid = get_trade_group s gid"
    and "sql_get_trade_group_id (db_of s) gid = get_trade_group_id s gid"
    and "sql_get_trade_group_by_id (db_of s) pk = get_trade_group_by_id s pk"
proof -
  note ok = ledger_ok_tables [OF assms]
  show "sql_get_order (db_of s) tt = get_order s tt"
    unfolding sql_get_order_def get_order_def db_of_def
    by (simp add: keyed_read(2) [OF ok(1)] case_prod_beta sql_conditions order_key_def)
  show "sql_get_position (db_of s) account sid = get_position s account sid"
    unfolding sql_get_position_def position_row_of_def get_position_def db_of_def
    by (simp add: keyed_read(2) [OF ok(3), where k = "(account, sid)"] case_prod_beta sql_conditions position_key_def)
  show "sql_get_position_id (db_of s) account sid = get_position_id s account sid"
    unfolding sql_get_position_id_def position_row_of_def get_position_id_def db_of_def
    by (simp add: keyed_read(3) [OF ok(3), where k = "(account, sid)"] case_prod_beta sql_conditions position_key_def)
  show "sql_get_security (db_of s) sid = get_security s sid"
    unfolding sql_get_security_def get_security_def db_of_def
    by (simp add: keyed_read(2) [OF ok(6)] case_prod_beta sql_conditions security_key_def)
  show "sql_get_trade_group (db_of s) gid = get_trade_group s gid"
    unfolding sql_get_trade_group_def trade_group_row_of_def get_trade_group_def db_of_def
    by (simp add: keyed_read(2) [OF ok(5)] case_prod_beta sql_conditions trade_group_key_def)
  show "sql_get_trade_group_id (db_of s) gid = get_trade_group_id s gid"
    unfolding sql_get_trade_group_id_def trade_group_row_of_def get_trade_group_id_def db_of_def
    by (simp add: keyed_read(3) [OF ok(5)] case_prod_beta sql_conditions trade_group_key_def)
  show "sql_get_trade_group_by_id (db_of s) pk = get_trade_group_by_id s pk"
    using find_id [OF table_ok_distinct [OF ok(5)], of pk]
    by (simp add: sql_get_trade_group_by_id_def get_trade_group_by_id_def db_of_def first_row_find table_get_def
        case_prod_beta sql_conditions)
qed

section \<open>Filtered and ordered reads\<close>

text \<open>A day range over a nullable instant keeps the same rows in both stores.\<close>

lemma day_conditions_in_range: "holds (day_conditions col start until) \<longleftrightarrow> in_range col start until"
proof -
  have "t < day_start d + us_per_day \<longleftrightarrow> date_of t \<le> d" for t d
    using date_of_less_iff [of t d] by (simp add: day_start_def distrib_right)
  then show ?thesis
    by (auto simp: day_conditions_def in_range_def sql_conditions date_of_ge_iff not_less split: option.split)
qed

lemma key_order: "asc_nulls_last = time_key"
  by (intro ext) (simp add: asc_nulls_last_def time_key_def)

lemma sort_key_map_snd: "map snd (sort_key (\<lambda>p. f (snd p)) ps) = sort_key f (map snd ps)"
proof (induction ps)
  case (Cons p ps)
  have "map snd (insort_key (\<lambda>p. f (snd p)) p qs) = insort_key f (snd p) (map snd qs)" for qs
    by (induction qs) auto
  with Cons show ?case by simp
qed simp

lemma hd_insort: "insort_key f x xs \<noteq> [] \<and> hd (insort_key f x xs) = (if xs = [] \<or> f x \<le> f (hd xs) then x else hd xs)"
  by (cases xs) auto

lemma first_max_sorted:
  "first_max f best xs =
     (if xs = [] \<or> f (hd (sort_key (\<lambda>x. - f x) xs)) \<le> f best then best else hd (sort_key (\<lambda>x. - f x) xs))"
  for f :: "'a \<Rightarrow> int"
proof (induction xs arbitrary: best)
  case (Cons x xs)
  have "sort_key (\<lambda>x. - f x) xs = [] \<longleftrightarrow> xs = []" by (metis length_0_conv length_sort)
  then show ?case
    using hd_insort [of "\<lambda>x. - f x" x "sort_key (\<lambda>x. - f x) xs"] Cons.IH [of "if f best < f x then x else best"]
    by auto
qed simp

lemma newest_balance:
  "(case xs of [] \<Rightarrow> None | r # rs \<Rightarrow> Some (first_max f r rs)) =
     (case sort_key (\<lambda>x. - f x) xs of [] \<Rightarrow> None | r # _ \<Rightarrow> Some r)"
  for f :: "'a \<Rightarrow> int"
proof (cases xs)
  case (Cons r rs)
  have "sort_key (\<lambda>x. - f x) rs = [] \<longleftrightarrow> rs = []" by (metis length_0_conv length_sort)
  then have "hd (sort_key (\<lambda>x. - f x) xs) = first_max f r rs"
    using hd_insort [of "\<lambda>x. - f x" r "sort_key (\<lambda>x. - f x) rs"] first_max_sorted [of f r rs] by (simp add: Cons)
  moreover have "sort_key (\<lambda>x. - f x) xs \<noteq> []" by (simp add: Cons insort_not_Nil)
  ultimately show ?thesis by (simp add: Cons split: list.split) (metis hd_insort list.sel(1))
qed simp

lemma stored_enum_inject:
  "origin_value x = origin_value x' \<longleftrightarrow> x = x'" "review_status_value y = review_status_value y' \<longleftrightarrow> y = y'"
  by (cases x; cases x'; simp) (cases y; cases y'; simp)

lemma first_row_take: "map_option snd (first_row (take 1 xs)) = (case map snd xs of [] \<Rightarrow> None | r # _ \<Rightarrow> Some r)"
  by (cases xs) (simp_all add: first_row_def)

lemma page_reads:
  "sql_get_positions (db_of s) account = get_positions s account"
  "sql_get_closed_positions (db_of s) account sid_filter = get_closed_positions s account sid_filter"
  "sql_get_transactions_by_id (db_of s) txn_ids = get_transactions_by_id s txn_ids"
  "sql_query_orders_with_ids (db_of s) f = query_orders_with_ids s f"
  "mset (sql_query_orders (db_of s) f) = mset (query_orders s f)"
  "sql_get_group_orders_with_ids (db_of s) pk = get_group_orders_with_ids s pk"
  "sql_get_legs_for_orders (db_of s) order_ids = get_legs_for_orders s order_ids"
  "sql_get_fills_for_orders (db_of s) order_ids = get_fills_for_orders s order_ids"
  "sql_unified_trades (db_of s) tf = unified_trades s tf"
  "sql_get_balances (db_of s) account start until = get_balances s account start until"
  "sql_get_latest_balance (db_of s) account = get_latest_balance s account"
proof -
  have orders: "(\<lambda>p. holds (order_conditions f p)) = (\<lambda>(_, r). order_matches f r)"
    by (intro ext) (auto simp: order_conditions_def order_matches_def sql_conditions day_conditions_in_range
        stored_enum_inject case_prod_beta case_prod_beta' split: option.split)
  show "sql_query_orders_with_ids (db_of s) f = query_orders_with_ids s f"
    unfolding sql_query_orders_with_ids_def query_orders_with_ids_def db_of_def select_where_def orders key_order
      table_all_def by simp
  show "mset (sql_query_orders (db_of s) f) = mset (query_orders s f)"
    unfolding sql_query_orders_def query_orders_def query_orders_with_ids_def db_of_def select_where_def orders
      table_all_def by simp
  show "sql_get_positions (db_of s) account = get_positions s account"
    by (simp add: sql_get_positions_def get_positions_def db_of_def select_where_def sql_conditions table_all_def
        filter_map comp_def case_prod_beta case_prod_beta')
  show "sql_get_closed_positions (db_of s) account sid_filter = get_closed_positions s account sid_filter"
    by (cases sid_filter) (simp_all add: sql_get_closed_positions_def get_closed_positions_def db_of_def select_where_def
        sql_conditions table_all_def filter_map comp_def case_prod_beta case_prod_beta')
  show "sql_get_transactions_by_id (db_of s) txn_ids = get_transactions_by_id s txn_ids"
    by (simp add: sql_get_transactions_by_id_def get_transactions_by_id_def db_of_def select_where_def sql_conditions
        table_all_def case_prod_beta case_prod_beta')
  show "sql_get_group_orders_with_ids (db_of s) pk = get_group_orders_with_ids s pk"
    by (simp add: sql_get_group_orders_with_ids_def get_group_orders_with_ids_def db_of_def select_where_def
        sql_conditions table_all_def case_prod_beta case_prod_beta' key_order)
  show "sql_get_legs_for_orders (db_of s) order_ids = get_legs_for_orders s order_ids"
    by (simp add: sql_get_legs_for_orders_def get_legs_for_orders_def db_of_def select_where_def sql_conditions
        table_all_def case_prod_beta case_prod_beta')
  have no_ids: "(case i of None \<Rightarrow> False | Some (_ :: nat) \<Rightarrow> False) = False" for i by (cases i) simp_all
  show "sql_get_fills_for_orders (db_of s) order_ids = get_fills_for_orders s order_ids"
    by (simp add: sql_get_fills_for_orders_def get_fills_for_orders_def db_of_def select_where_def sql_conditions
        table_all_def case_prod_beta case_prod_beta' key_order no_ids cong: option.case_cong)
  have trades: "holds (when_given (tf_origin tf) (\<lambda>v. is_value (Some (origin_value (tg_origin r))) (Some (origin_value v)))
          @ when_given (tf_review_status tf)
              (\<lambda>v. is_value (Some (review_status_value (tg_review_status r))) (Some (review_status_value v)))
          @ when_given (tf_status tf) (\<lambda>v. is_value (Some (tg_status r)) (Some v))
          @ when_given (tf_account tf) (\<lambda>v. is_value (Some (tg_account r)) (Some v))
          @ when_given (tf_underlying tf) (\<lambda>v. is_value (tg_underlying r) (Some v))
          @ day_conditions (tg_executed_at r) (tf_start tf) (tf_end tf)) = trade_matches tf r" for r
    by (auto simp: trade_matches_def sql_conditions day_conditions_in_range stored_enum_inject split: option.split)
  show "sql_unified_trades (db_of s) tf = unified_trades s tf"
    unfolding sql_unified_trades_def unified_trades_def select_where_def case_prod_beta' trades
    by (simp add: db_of_def table_all_def filter_map comp_def case_prod_beta case_prod_beta')
  have window: "holds (is_value (Some (bs_account r)) (Some account)
           # when_given start (\<lambda>d. at_least (Some (bs_captured_at r)) (day_start d))
           @ when_given until (\<lambda>d. less_than (Some (bs_captured_at r)) (day_start d + us_per_day)))
      \<longleftrightarrow> bs_account r = account
             \<and> (case start of None \<Rightarrow> True | Some d \<Rightarrow> \<not> bs_captured_at r < day_start d)
             \<and> (case until of None \<Rightarrow> True | Some d \<Rightarrow> \<not> day_start d + us_per_day \<le> bs_captured_at r)" for r
    by (auto simp: sql_conditions split: option.split)
  show "sql_get_balances (db_of s) account start until = get_balances s account start until"
    unfolding sql_get_balances_def get_balances_def select_where_def case_prod_beta' window
    by (simp add: sort_key_map_snd db_of_def table_all_def filter_map comp_def case_prod_beta case_prod_beta')
  let ?rows = "filter (\<lambda>r. bs_account r = account) (map snd (tb_rows (st_balance_snapshots s)))"
  have "sql_get_latest_balance (db_of s) account
      = (case sort_key (\<lambda>r. - bs_captured_at r) ?rows of [] \<Rightarrow> None | r # _ \<Rightarrow> Some r)"
    unfolding sql_get_latest_balance_def first_row_take case_prod_beta' sort_key_map_snd [of "\<lambda>r. - bs_captured_at r"]
    by (simp add: db_of_def select_where_def sql_conditions filter_map comp_def case_prod_beta')
  then show "sql_get_latest_balance (db_of s) account = get_latest_balance s account"
    by (simp add: get_latest_balance_def newest_balance table_all_def)
qed

section \<open>Transactions\<close>

text \<open>The windows the two stores read alike: calendar bounds only, or each calendar bound shadowed by
  the instant of its own end.\<close>

definition windows_agree :: "transaction_query \<Rightarrow> bool" where
  "windows_agree q \<longleftrightarrow>
     (if tq_start_at q = None \<and> tq_end_at q = None then True
      else (tq_start q = None \<or> tq_start_at q \<noteq> None) \<and> (tq_end q = None \<or> tq_end_at q \<noteq> None))"

definition window_conditions :: "transaction_query \<Rightarrow> datetime option \<Rightarrow> tri list" where
  "window_conditions q col =
     (case tq_start_at q of
        Some t \<Rightarrow> [at_least col t] | None \<Rightarrow> when_given (tq_start q) (\<lambda>d. at_least col (day_start d)))
     @ (case tq_end_at q of
        Some t \<Rightarrow> [less_than col t] | None \<Rightarrow> when_given (tq_end q) (\<lambda>d. less_than col (day_start d + us_per_day)))"

text \<open>What the database applies on top of the in-memory window: a calendar bound whose other end is
  an instant.\<close>

definition beyond_calendar :: "transaction_query \<Rightarrow> datetime option \<Rightarrow> bool" where
  "beyond_calendar q value \<longleftrightarrow>
     (tq_start_at q = None \<and> tq_end_at q \<noteq> None \<and> \<not> in_range value (tq_start q) None)
   \<or> (tq_start_at q \<noteq> None \<and> tq_end_at q = None \<and> \<not> in_range value None (tq_end q))"

lemma window_conditions_holds:
  "holds (window_conditions q col) \<longleftrightarrow> in_window col q \<and> \<not> beyond_calendar q col"
proof -
  have "t < day_start d + us_per_day \<longleftrightarrow> date_of t \<le> d" for t d
    using date_of_less_iff [of t d] by (simp add: day_start_def distrib_right)
  then show ?thesis
    by (cases "tq_start_at q"; cases "tq_end_at q"; cases col)
      (auto simp: window_conditions_def in_window_def beyond_calendar_def in_range_def sql_conditions date_of_ge_iff
        not_less split: option.splits)
qed

lemma transaction_conditions_holds:
  "holds (transaction_conditions q (i, txn)) \<longleftrightarrow>
     transaction_matches q txn \<and> \<not> beyond_calendar q (r_executed_at txn)"
proof -
  have "holds (transaction_conditions q (i, txn)) \<longleftrightarrow>
      (tq_account q = None \<or> tq_account q = Some (r_account txn))
   \<and> (case tq_accounts q of None \<Rightarrow> True | Some accts \<Rightarrow> r_account txn \<in> set accts)
   \<and> holds (window_conditions q (r_executed_at txn))
   \<and> (tq_underlying q = None \<or> r_underlying txn = tq_underlying q)
   \<and> (tq_transaction_type q = None \<or> r_transaction_type txn = tq_transaction_type q)
   \<and> (tq_trade_group_id q = None \<or> r_trade_group_id txn = tq_trade_group_id q)"
    by (auto simp: transaction_conditions_def window_conditions_def sql_conditions split: option.splits)
  then show ?thesis by (auto simp: window_conditions_holds transaction_matches_def)
qed

lemma windows_agree_calendar: "windows_agree q \<Longrightarrow> in_window v q \<Longrightarrow> \<not> beyond_calendar q v"
  by (cases v) (auto simp: windows_agree_def beyond_calendar_def in_range_def in_window_def split: if_splits)

lemma select_transactions:
  "select_where (transaction_conditions q) (db_transactions (db_of s))
   = filter (\<lambda>(i, txn). transaction_matches q txn \<and> \<not> beyond_calendar q (r_executed_at txn)) (table_all (st_transactions s))"
  unfolding select_where_def
  by (rule filter_cong) (auto simp: db_of_def table_all_def transaction_conditions_holds)

lemma select_transactions_agree:
  assumes "windows_agree q"
  shows "select_where (transaction_conditions q) (db_transactions (db_of s))
     = filter (\<lambda>(_, txn). transaction_matches q txn) (table_all (st_transactions s))"
  unfolding select_transactions
  by (rule filter_cong [OF refl]) (auto simp: transaction_matches_def dest: windows_agree_calendar [OF assms])

lemma detail_of_row: "detail_row (db_of s) p = transaction_detail_of s p"
  by (auto simp: detail_row_def transaction_detail_of_def join_on_dict db_of_def table_get_def
      split: prod.split option.split)

lemma sort_newest: "sort_key (\<lambda>(i, txn). (desc_nulls_last (r_executed_at txn), - int i)) rows = sort_key newest_key rows"
proof (rule sort_key_iso, goal_cases)
  case (1 p p')
  obtain i txn j txn' where p: "p = (i, txn)" "p' = (j, txn')" by (metis prod.collapse)
  show ?case
    unfolding p by (cases "r_executed_at txn"; cases "r_executed_at txn'") (auto simp: newest_key_def desc_nulls_last_def)
qed

lemma transaction_page_reads:
  assumes "windows_agree q"
  shows "sql_query_transactions (db_of s) q = query_transactions s q"
  unfolding sql_query_transactions_def query_transactions_def matched_transactions_def
    select_transactions_agree [OF assms] sort_newest Let_def page_of_def
  by (simp add: detail_of_row)

lemma account_activity_reads: "sql_account_activity (db_of s) f = account_activity s f"
proof -
  have conds: "holds (when_given (af_account f) (\<lambda>v. is_value (Some (r_account txn)) (Some v))
          @ day_conditions (r_executed_at txn) (af_start f) (af_end f)
          @ (if af_unreconciled_only f then [is_null (r_order_id txn)] else [])) = activity_matches f txn" for txn
    by (auto simp: activity_matches_def sql_conditions day_conditions_in_range split: option.split)
  have join: "join_on col (tb_rows t) = (case col of None \<Rightarrow> None | Some i \<Rightarrow> table_get t i)" for col and t :: "('k, 'v) ptable"
    by (cases col) (simp_all add: join_on_dict [of None] join_on_dict [of "Some x" for x] table_get_def)
  have fields: "map_option g x = (case x of None \<Rightarrow> None | Some y \<Rightarrow> Some (g y))" for g :: "'x \<Rightarrow> 'y" and x
    by (cases x) simp_all
  show ?thesis
    unfolding sql_account_activity_def account_activity_def select_where_def case_prod_beta' conds
    by (simp add: db_of_def table_all_def filter_map comp_def case_prod_beta' join activity_of_def fields Let_def)
qed

text \<open>The undated rows of a group come first from the database and last from memory.\<close>

lemma sorted_separate:
  assumes "sorted (map f ys)" and "\<And>x y. x \<in> set ys \<Longrightarrow> y \<in> set ys \<Longrightarrow> P x \<Longrightarrow> \<not> P y \<Longrightarrow> f x < f y"
  shows "ys = filter P ys @ filter (\<lambda>y. \<not> P y) ys"
  using assms
proof (induction ys)
  case (Cons y ys)
  show ?case
  proof (cases "P y")
    case False
    have "\<not> P z" if "z \<in> set ys" for z
    proof
      assume "P z"
      then have "f z < f y" using Cons.prems(2) [of z y] that False by simp
      moreover have "f y \<le> f z" using Cons.prems(1) that by simp
      ultimately show False by simp
    qed
    then show ?thesis using False by (simp add: filter_empty_conv)
  qed (use Cons in simp)
qed simp

lemma sort_partition:
  assumes "\<And>x y. x \<in> set xs \<Longrightarrow> y \<in> set xs \<Longrightarrow> P x \<Longrightarrow> \<not> P y \<Longrightarrow> f x < f y"
  shows "sort_key f xs = sort_key f (filter P xs) @ sort_key f (filter (\<lambda>x. \<not> P x) xs)"
  using sorted_separate [of f "sort_key f xs" P] assms by (simp add: filter_sort_key)

lemma group_transaction_reads:
  "\<exists>dated undated. get_group_transactions s pk = dated @ undated
     \<and> sql_get_group_transactions (db_of s) pk = undated @ dated
     \<and> list_all (\<lambda>t. r_executed_at t \<noteq> None) dated \<and> list_all (\<lambda>t. r_executed_at t = None) undated"
proof -
  let ?rows = "filter (\<lambda>t. r_trade_group_id t = Some pk) (map snd (tb_rows (st_transactions s)))"
  let ?dated = "\<lambda>t :: txn_row. r_executed_at t \<noteq> None"
  let ?D = "sort_key (\<lambda>t. time_key (r_executed_at t)) (filter ?dated ?rows)"
  let ?U = "filter (\<lambda>t. r_executed_at t = None) ?rows"
  have undated: "sort_key (\<lambda>t. g (r_executed_at t)) ?U = ?U" for g :: "datetime option \<Rightarrow> bool \<times> int"
    using sort_key_cong [of ?U "\<lambda>t. g (r_executed_at t)" "\<lambda>_. g None"] by (simp add: sort_key_const)
  have asc: "sort_key (\<lambda>t. asc (r_executed_at t)) (filter ?dated ?rows) = ?D"
    by (rule sort_key_iso) (auto simp: asc_def time_key_def split: option.split)
  have "sql_get_group_transactions (db_of s) pk = sort_key (\<lambda>t. asc (r_executed_at t)) ?rows"
    unfolding sql_get_group_transactions_def case_prod_beta' sort_key_map_snd [of "\<lambda>t. asc (r_executed_at t)"]
    by (simp add: select_where_def db_of_def sql_conditions filter_map comp_def)
  also have "\<dots> = sort_key (\<lambda>t. asc (r_executed_at t)) ?U
      @ sort_key (\<lambda>t. asc (r_executed_at t)) (filter ?dated ?rows)"
    by (rule sort_partition) (auto simp: asc_def)
  also have "\<dots> = ?U @ ?D" unfolding undated asc ..
  finally have "sql_get_group_transactions (db_of s) pk = ?U @ ?D" .
  moreover have "sort_key (\<lambda>t. time_key (r_executed_at t)) ?rows = ?D
      @ sort_key (\<lambda>t. time_key (r_executed_at t)) (filter (\<lambda>t. \<not> ?dated t) ?rows)"
    by (rule sort_partition) (auto simp: time_key_def)
  then have "get_group_transactions s pk = ?D @ ?U"
    unfolding not_not undated by (simp add: get_group_transactions_def table_all_def)
  ultimately show ?thesis by (intro exI [of _ ?D] exI [of _ ?U]) (auto simp: list_all_iff)
qed

section \<open>Aggregates\<close>

lemma sum_list_somes: "sum_list (somes xs) = sum_list (map dec0 xs)"
proof (induction xs)
  case (Cons x xs)
  then show ?case by (cases x) simp_all
qed simp

lemma value_total_reads: "sql_transaction_value_total (db_of s) account = transaction_value_total s account"
proof -
  have given: "sum_list (map g (filter (\<lambda>t. P t \<and> h t \<noteq> None) rows)) = sum_list (map g (filter P rows))"
    if "\<And>t. h t = None \<Longrightarrow> g t = 0" for g :: "txn_row \<Rightarrow> decimal" and P h rows
    by (induction rows) (auto simp: that)
  have "sum_list (map (\<lambda>t. dec0 (t_value t)) (filter (\<lambda>t. r_account t = account \<and> t_value t \<noteq> None)
      (map snd (tb_rows (st_transactions s)))))
    = sum_list (map (\<lambda>t. dec0 (t_value t)) (filter (\<lambda>t. r_account t = account) (map snd (tb_rows (st_transactions s)))))"
    by (rule given) simp
  moreover have "(case sql_sum xs of None \<Rightarrow> 0 | Some x \<Rightarrow> x) = sum_list (map dec0 xs)" for xs
    using sum_list_somes [of xs] by (cases "somes xs = []") (simp_all add: sql_sum_def)
  ultimately show ?thesis
    by (simp add: sql_transaction_value_total_def transaction_value_total_def db_of_def select_where_def table_all_def
        sql_conditions filter_map comp_def case_prod_beta')
qed

lemma open_group_known:
  assumes "ledger_ok s"
  shows "g \<in> set (open_group_ids s) \<longleftrightarrow>
    (case table_get (st_trade_groups s) g of None \<Rightarrow> False | Some tg \<Rightarrow> tg_status tg = ''open'')"
proof -
  have "distinct (map fst (tb_rows (st_trade_groups s)))"
    by (rule table_ok_distinct [OF ledger_ok_tables(5) [OF assms]])
  then have "table_get (st_trade_groups s) g = Some tg \<longleftrightarrow> (g, tg) \<in> set (tb_rows (st_trade_groups s))" for tg
    by (simp add: table_get_def)
  moreover have "g \<in> set (open_group_ids s) \<longleftrightarrow>
      (\<exists>tg. (g, tg) \<in> set (tb_rows (st_trade_groups s)) \<and> tg_status tg = ''open'')"
    by (force simp: open_group_ids_def table_all_def)
  ultimately have "g \<in> set (open_group_ids s) \<longleftrightarrow>
      (\<exists>tg. table_get (st_trade_groups s) g = Some tg \<and> tg_status tg = ''open'')" by blast
  then show ?thesis by (simp split: option.split)
qed

lemma open_members_of:
  assumes "ledger_ok s"
  shows "open_members (db_of s) account =
     filter (\<lambda>t. (case r_trade_group_id t of None \<Rightarrow> False | Some g \<Rightarrow> g \<in> set (open_group_ids s))
        \<and> r_security_id t \<noteq> None \<and> (case account of None \<Rightarrow> True | Some a \<Rightarrow> r_account t = a))
       (map snd (table_all (st_transactions s)))"
proof -
  have joined: "holds ((case join_on (r_trade_group_id t) (db_trade_groups (db_of s)) of
             None \<Rightarrow> [Some False]
           | Some g \<Rightarrow> [is_value (Some (tg_status g)) (Some ''open''), is_not_null (r_security_id t)])
          @ when_given account (\<lambda>a. is_value (Some (r_account t)) (Some a)))
    \<longleftrightarrow> (case r_trade_group_id t of None \<Rightarrow> False | Some g \<Rightarrow> g \<in> set (open_group_ids s))
        \<and> r_security_id t \<noteq> None \<and> (case account of None \<Rightarrow> True | Some a \<Rightarrow> r_account t = a)" for t
    by (cases "r_trade_group_id t")
      (auto simp: join_on_dict [of None] join_on_dict [of "Some g" for g] db_of_def sql_conditions
        open_group_known [OF assms] table_get_def split: option.split)
  show ?thesis
    unfolding open_members_def select_where_def case_prod_beta' joined
    by (simp add: db_of_def table_all_def filter_map comp_def)
qed

lemma fold_open_group_legs_secured:
  "fold_open_group_legs (map leg_record_of (filter (\<lambda>t. P t \<and> r_security_id t \<noteq> None \<and> R t) rows))
   = fold_open_group_legs (map leg_record_of (filter (\<lambda>t. P t \<and> R t) rows))"
proof -
  have "foldl leg_acc_step acc (map leg_record_of (filter (\<lambda>t. P t \<and> r_security_id t \<noteq> None \<and> R t) rows))
      = foldl leg_acc_step acc (map leg_record_of (filter (\<lambda>t. P t \<and> R t) rows))" for acc
    by (induction rows arbitrary: acc) (auto simp: leg_acc_step_def leg_record_of_def)
  then show ?thesis by (simp add: fold_open_group_legs_def)
qed

lemma open_leg_reads: "ledger_ok s \<Longrightarrow> sql_open_group_legs (db_of s) account = open_group_legs s account"
  unfolding sql_open_group_legs_def open_group_legs_def open_members_of fold_open_group_legs_secured ..

lemma open_position_group_reads:
  assumes "ledger_ok s"
  shows "distinct (sql_get_open_position_groups (db_of s) account)
    \<and> set (sql_get_open_position_groups (db_of s) account) = set (get_open_position_groups s account)"
proof -
  define rows where "rows = map snd (table_all (st_transactions s))"
  let ?member = "\<lambda>(a, sid, g) t. t \<in> set rows \<and> r_account t = a \<and> r_security_id t = Some sid
     \<and> r_trade_group_id t = Some g \<and> g \<in> set (open_group_ids s) \<and> (account = None \<or> account = Some a)"
  have sql: "e \<in> set (sql_get_open_position_groups (db_of s) account) \<longleftrightarrow> (\<exists>t. ?member e t)" for e
    unfolding sql_get_open_position_groups_def open_members_of [OF assms] rows_def [symmetric] set_first_seen set_map set_filter
    by (cases e; cases account; auto simp: str0_def split: option.splits intro!: rev_image_eqI; blast)
  have mem: "e \<in> set (get_open_position_groups s account) \<longleftrightarrow> (\<exists>t. ?member e t)" for e
  proof -
    let ?pick = "\<lambda>t. case (r_trade_group_id t, r_security_id t) of
          (Some g, Some sid) \<Rightarrow>
            if (case account of None \<Rightarrow> False | Some a \<Rightarrow> r_account t \<noteq> a) then None
            else (case table_get (st_trade_groups s) g of None \<Rightarrow> None
                  | Some tg \<Rightarrow> if tg_status tg = ''open'' then Some (r_account t, sid, g) else None)
        | _ \<Rightarrow> None"
    have "?pick t = Some e \<longleftrightarrow> (t \<in> set rows \<longrightarrow> ?member e t)" if "t \<in> set rows" for t
      using that by (cases e; cases account; cases "r_trade_group_id t"; cases "r_security_id t")
        (auto simp: open_group_known [OF assms] split: option.splits)
    moreover have "e \<in> set (get_open_position_groups s account) \<longleftrightarrow> (\<exists>t \<in> set rows. ?pick t = Some e)"
      unfolding get_open_position_groups_def rows_def [symmetric] set_sort set_remdups set_somes by (simp add: image_iff eq_commute)
    ultimately show ?thesis by (cases e) blast
  qed
  have "set (sql_get_open_position_groups (db_of s) account) = set (get_open_position_groups s account)"
    by (rule set_eqI) (simp only: sql mem)
  then show ?thesis by (simp add: sql_get_open_position_groups_def)
qed

subsection \<open>The open quantities of the legs\<close>

definition leg_rows :: "nat \<times> string \<Rightarrow> txn_row list \<Rightarrow> txn_row list" where
  "leg_rows key rows = filter (\<lambda>t. r_trade_group_id t = Some (fst key) \<and> r_security_id t = Some (snd key)) rows"

definition units_of :: "txn_row \<Rightarrow> int" where
  "units_of t = py_int (dec0 (r_quantity t))"

definition traded_units :: "txn_row \<Rightarrow> int" where
  "traded_units t =
     (let action = py_strip (str0 (r_action t)) in
      if py_endswith action ''to Open'' then units_of t
      else if py_endswith action ''to Close'' then - units_of t else 0)"

definition removes :: "txn_row \<Rightarrow> bool" where
  "removes t = is_position_removal (r_action t) (r_transaction_sub_type t)"

lemma removes_not_traded:
  "removes t \<Longrightarrow> \<not> py_endswith (py_strip (str0 (r_action t))) ''to Open'' \<and> \<not> py_endswith (py_strip (str0 (r_action t))) ''to Close''"
  by (auto simp: removes_def is_position_removal_def action_nets_as_trade_def Let_def split: if_splits)

lemma net_open_walk:
  assumes "g \<in> set wanted"
  shows "dict_get (fst (foldl (net_open_row wanted) ([], []) rows)) (g, sid) =
      (if leg_rows (g, sid) rows = [] then None else Some (sum_list (map traded_units (leg_rows (g, sid) rows))))
    \<and> dict_get_or (snd (foldl (net_open_row wanted) ([], []) rows)) (g, sid) 0 =
      foldl (\<lambda>m t. if removes t then max m (units_of t) else m) 0 (leg_rows (g, sid) rows)"
proof (induction rows rule: rev_induct)
  case Nil
  then show ?case by (simp add: leg_rows_def dict_get_or_def)
next
  case (snoc t rows)
  obtain traded removed where acc: "foldl (net_open_row wanted) ([], []) rows = (traded, removed)" by fastforce
  show ?case
  proof (cases "r_trade_group_id t = Some g \<and> r_security_id t = Some sid")
    case True
    then have "leg_rows (g, sid) (rows @ [t]) = leg_rows (g, sid) rows @ [t]" by (simp add: leg_rows_def)
    moreover have "net_open_row wanted (traded, removed) t =
        (dict_set (g, sid) (dict_get_or traded (g, sid) 0 + traded_units t) traded,
         if removes t then dict_set (g, sid) (max (dict_get_or removed (g, sid) 0) (units_of t)) removed else removed)"
      using True assms removes_not_traded [of t]
      by (simp add: net_open_row_def Let_def traded_units_def units_of_def) (simp add: removes_def)
    ultimately show ?thesis
      using snoc by (auto simp: acc dict_get_set dict_get_or_def split: if_splits)
  next
    case False
    then have "leg_rows (g, sid) (rows @ [t]) = leg_rows (g, sid) rows" by (auto simp: leg_rows_def)
    moreover have "dict_get (fst (net_open_row wanted (traded, removed) t)) (g, sid) = dict_get traded (g, sid)"
      "dict_get_or (snd (net_open_row wanted (traded, removed) t)) (g, sid) 0 = dict_get_or removed (g, sid) 0"
      using False by (auto simp: net_open_row_def Let_def dict_get_set dict_get_or_set split: option.split)
    ultimately show ?thesis using snoc by (simp add: acc)
  qed
qed

text \<open>A row both stores read alike: its action and sub type as the broker writes them, without
  blanks and in its own letter case, and a whole quantity.\<close>

definition plain_row :: "txn_row \<Rightarrow> bool" where
  "plain_row t \<longleftrightarrow>
     (let act = str0 (r_action t); sub = str0 (r_transaction_sub_type t) in
      py_strip act = act \<and> py_strip sub = sub
      \<and> py_endswith (py_lower act) ''to open'' = py_endswith act ''to Open''
      \<and> py_endswith (py_lower act) ''to close'' = py_endswith act ''to Close''
      \<and> 0 \<le> dec0 (r_quantity t) \<and> of_int \<lfloor>dec0 (r_quantity t)\<rfloor> = dec0 (r_quantity t))"

lemma plain_units: "plain_row t \<Longrightarrow> of_int (units_of t) = dec0 (r_quantity t) \<and> 0 \<le> units_of t"
  by (simp add: plain_row_def Let_def units_of_def py_int_def)

lemma like_action:
  "like_suffix (coalesce (r_action t) (Some [])) ''to Open'' = Some (py_endswith (py_lower (str0 (r_action t))) ''to open'')"
  "like_suffix (coalesce (r_action t) (Some [])) ''to Close'' = Some (py_endswith (py_lower (str0 (r_action t))) ''to close'')"
proof -
  have "py_lower ''to Open'' = ''to open''" "py_lower ''to Close'' = ''to close''" by code_simp+
  then show "like_suffix (coalesce (r_action t) (Some [])) ''to Open'' = Some (py_endswith (py_lower (str0 (r_action t))) ''to open'')"
    "like_suffix (coalesce (r_action t) (Some [])) ''to Close'' = Some (py_endswith (py_lower (str0 (r_action t))) ''to close'')"
    by (simp_all add: like_suffix_def coalesce_def str0_def split: option.split)
qed

lemma plain_traded:
  assumes "plain_row t" shows "dec0 (traded_case t) = of_int (traded_units t)"
  using assms plain_units [OF assms]
  by (cases "r_quantity t") (auto simp: traded_case_def traded_units_def like_action plain_row_def Let_def units_of_def)

lemma plain_removal:
  assumes "plain_row t" shows "removal_case t = (if removes t then r_quantity t else Some 0)"
proof -
  have sub: "is_in (r_transaction_sub_type t) POSITION_REMOVING_SUB_TYPES = Some True
      \<longleftrightarrow> str0 (r_transaction_sub_type t) \<in> set POSITION_REMOVING_SUB_TYPES"
    by (cases "r_transaction_sub_type t") (simp_all add: is_in_def str0_def POSITION_REMOVING_SUB_TYPES_def)
  show ?thesis
    using assms sub
    by (auto simp: removal_case_def like_action removes_def is_position_removal_def action_nets_as_trade_def plain_row_def
        Let_def tri_or_def tri_not_def)
qed


lemma foldl_removal_max:
  "foldl (\<lambda>m t. if P t then max m (h t) else m) m0 rows = Max (insert m0 (h ` {t \<in> set rows. P t}))"
  for h :: "'a \<Rightarrow> int"
proof (induction rows arbitrary: m0)
  case (Cons t rows)
  have "insert m0 (h ` {x \<in> set (t # rows). P x}) =
      (if P t then insert (h t) (insert m0 (h ` {x \<in> set rows. P x})) else insert m0 (h ` {x \<in> set rows. P x}))"
    by auto
  moreover have "Max (insert (max a b) S) = Max (insert b (insert a S))" if "finite S" for a b :: int and S
    using that by (cases "S = {}") (simp_all add: max.assoc max.commute max.left_commute)
  ultimately show ?case using Cons.IH by simp
qed simp

lemma largest_removal:
  assumes plain: "list_all plain_row rows"
  shows "whole_units (sql_max (map removal_case rows)) =
     foldl (\<lambda>m t. if removes t then max m (units_of t) else m) 0 rows"
proof -
  define m where "m = Max (insert 0 (units_of ` {t \<in> set rows. removes t}))"
  have m: "foldl (\<lambda>m t. if removes t then max m (units_of t) else m) 0 rows = m"
    by (simp add: m_def foldl_removal_max)
  have bound: "units_of t \<le> m" if "t \<in> set rows" "removes t" for t
    unfolding m_def by (rule Max_ge) (use that in auto)
  have m0: "0 \<le> m" unfolding m_def by (rule Max_ge) auto
  have attained: "m = 0 \<or> (\<exists>t \<in> set rows. removes t \<and> units_of t = m)"
    using Max_in [of "insert 0 (units_of ` {t \<in> set rows. removes t})"] unfolding m_def by auto
  let ?vs = "somes (map removal_case rows)"
  have small: "0 \<le> v \<and> v \<le> of_int m" if "v \<in> set ?vs" for v
  proof -
    have "Some v \<in> removal_case ` set rows" using that by (simp add: set_somes)
    then obtain t where t: "t \<in> set rows" "removal_case t = Some v" by (metis imageE)
    have "plain_row t" using t(1) plain by (simp add: list_all_iff)
    then show ?thesis
      using t m0 bound [OF t(1)] plain_removal [of t] plain_units [of t]
      by (auto split: if_splits)
  qed
  show ?thesis
  proof (cases "?vs = []")
    case True
    have "units_of t = 0" if "t \<in> set rows" "removes t" for t
    proof -
      have "removal_case t = None" using True that(1) set_somes [of "map removal_case rows"] by (cases "removal_case t") force+
      then show ?thesis using plain that plain_removal [of t] by (simp add: list_all_iff units_of_def py_int_def)
    qed
    then have "m = 0" using attained by metis
    then show ?thesis using True by (simp add: m sql_max_def max_opt_def whole_units_def)
  next
    case False
    have "of_int m \<in> set ?vs"
    proof (cases "m = 0")
      case True
      then show ?thesis using False small by (metis all_not_in_conv antisym of_int_0 set_empty)
    next
      case nonzero: False
      then obtain t where t: "t \<in> set rows" "removes t" "units_of t = m" using attained by blast
      have p: "plain_row t" using t(1) plain by (simp add: list_all_iff)
      then have "dec0 (r_quantity t) = of_int m" using plain_units t(3) by metis
      then have "removal_case t = Some (of_int m)"
        using plain_removal [OF p] t(2) nonzero by (cases "r_quantity t") auto
      then show ?thesis using t(1) by (force simp: set_somes)
    qed
    then have "Max (set ?vs) = of_int m" using small by (intro Max_eqI) auto
    then show ?thesis using False m0 by (simp add: m sql_max_def max_opt_def whole_units_def py_int_def)
  qed
qed

lemma traded_total:
  assumes "list_all plain_row rows"
  shows "whole_units (sql_sum (map traded_case rows)) = sum_list (map traded_units rows)"
proof -
  have "whole_units (sql_sum xs) = py_int (sum_list (map dec0 xs))" for xs
    using sum_list_somes [of xs] by (cases "somes xs = []") (simp_all add: sql_sum_def whole_units_def py_int_def)
  moreover have "sum_list (map dec0 (map traded_case rows)) = of_int (sum_list (map traded_units rows))"
    using assms by (induction rows) (simp_all add: plain_traded)
  ultimately show ?thesis by (simp add: py_int_def)
qed

lemma net_open_reads:
  assumes "list_all (\<lambda>(_, t). r_trade_group_id t = Some g \<longrightarrow> r_security_id t = Some sid \<longrightarrow> plain_row t)
      (table_all (st_transactions s))"
  shows "dict_get (sql_net_open_by_group (db_of s) wanted) (g, sid) = dict_get (net_open_by_group s wanted) (g, sid)"
proof -
  let ?rows = "map snd (tb_rows (st_transactions s))" and ?L = "leg_rows (g, sid) (map snd (tb_rows (st_transactions s)))"
  have plain: "list_all plain_row ?L"
    using assms by (auto simp: list_all_iff leg_rows_def table_all_def)
  let ?chosen = "filter (\<lambda>t. (case r_trade_group_id t of None \<Rightarrow> False | Some h \<Rightarrow> h \<in> set wanted) \<and> r_security_id t \<noteq> None) ?rows"
  have "map snd (select_where (\<lambda>(_, txn). [is_in (r_trade_group_id txn) wanted, is_not_null (r_security_id txn)])
               (db_transactions (db_of s))) = ?chosen"
    by (simp add: select_where_def db_of_def sql_conditions case_prod_beta' filter_map comp_def)
  moreover have "filter (\<lambda>t. ((case r_trade_group_id t of None \<Rightarrow> 0 | Some h \<Rightarrow> h), str0 (r_security_id t)) = (g, sid)) ?chosen
      = (if g \<in> set wanted then ?L else [])"
    by (auto simp: leg_rows_def str0_def filter_empty_conv intro!: filter_cong split: option.splits)
  ultimately have sql: "dict_get (sql_net_open_by_group (db_of s) wanted) (g, sid) =
      (if g \<in> set wanted \<and> ?L \<noteq> []
       then Some (whole_units (sql_sum (map traded_case ?L)) - whole_units (sql_max (map removal_case ?L))) else None)"
    by (auto simp: sql_net_open_by_group_def map_of_map_snd map_of_group_by Let_def)
  obtain traded removed where acc: "foldl (net_open_row wanted) ([], []) ?rows = (traded, removed)" by fastforce
  have untouched: "dict_get (fst (foldl (net_open_row wanted) ([], []) rows)) (g, sid) = None" if "g \<notin> set wanted" for rows
    using that by (induction rows rule: rev_induct)
      (auto simp: net_open_row_def Let_def case_prod_beta' split: option.split)
  have "dict_get (net_open_by_group s wanted) (g, sid) =
      map_option (\<lambda>net. net - dict_get_or removed (g, sid) 0) (dict_get traded (g, sid))"
    using acc by (simp add: net_open_by_group_def table_all_def map_of_map_values)
  also have "\<dots> = (if g \<in> set wanted \<and> ?L \<noteq> []
      then Some (sum_list (map traded_units ?L)
        - foldl (\<lambda>m t. if removes t then max m (units_of t) else m) 0 ?L) else None)"
    using net_open_walk [of g wanted ?rows sid] untouched [of ?rows] by (cases "g \<in> set wanted") (simp_all add: acc)
  finally show ?thesis unfolding sql by (simp add: traded_total [OF plain] largest_removal [OF plain])
qed


section \<open>Pages of bands\<close>

text \<open>The newest row of each band must also be the last one stored: the database breaks ties
  between bands by their largest id, the in-memory store by the id of the newest row.\<close>

definition newest_stored_last :: "(nat \<times> txn_row) list \<Rightarrow> bool" where
  "newest_stored_last rows \<longleftrightarrow>
     list_all (\<lambda>p. let band = filter (\<lambda>p'. band_column p' = band_column p) rows
                   in fst (hd (sort_key newest_key band)) = band_id band) rows"

definition page_key :: "nat \<times> txn_row \<Rightarrow> (bool \<times> int) \<times> int" where
  "page_key p = (desc_nulls_last (r_executed_at (snd p)), - int (fst p))"

lemma page_key_newest: "page_key p \<le> page_key p' \<longleftrightarrow> newest_key p \<le> newest_key p'"
  by (cases "r_executed_at (snd p)"; cases "r_executed_at (snd p')")
    (auto simp: newest_key_def page_key_def desc_nulls_last_def case_prod_beta')

lemma sort_page_key: "sort_key page_key rows = sort_key newest_key rows"
  by (rule sort_key_iso) (rule page_key_newest)

lemma filter_unless_in: "filter (\<lambda>p. g p = k) xs \<noteq> [] \<longleftrightarrow> k \<in> g ` set xs"
  by (auto simp: filter_empty_conv)

lemma first_seen_sorted:
  assumes "sorted_wrt (\<lambda>p p'. f p < f p') xs"
  shows "sorted_wrt (<) (map (\<lambda>k. f (hd (filter (\<lambda>p. g p = k) xs))) (first_seen (map g xs)))"
  using assms
proof (induction xs rule: rev_induct)
  case (snoc x xs)
  have old: "hd (filter (\<lambda>p. g p = k) (xs @ [x])) = hd (filter (\<lambda>p. g p = k) xs)" if "k \<in> g ` set xs" for k
    using that filter_unless_in [of g k xs] by (simp add: hd_append)
  have IH: "sorted_wrt (<) (map (\<lambda>k. f (hd (filter (\<lambda>p. g p = k) (xs @ [x])))) (first_seen (map g xs)))"
  proof -
    have "map (\<lambda>k. f (hd (filter (\<lambda>p. g p = k) (xs @ [x])))) (first_seen (map g xs))
        = map (\<lambda>k. f (hd (filter (\<lambda>p. g p = k) xs))) (first_seen (map g xs))"
      by (rule map_cong [OF refl], subst old) auto
    then show ?thesis using snoc by (simp only: sorted_wrt_append)
  qed
  show ?case
  proof (cases "g x \<in> g ` set xs")
    case True
    then show ?thesis using IH by (simp add: first_seen_snoc)
  next
    case False
    then have "hd (filter (\<lambda>p. g p = g x) (xs @ [x])) = x" using filter_unless_in [of g "g x" xs] by simp
    moreover have "f (hd (filter (\<lambda>p. g p = k) (xs @ [x]))) < f x" if "k \<in> g ` set xs" for k
    proof -
      have "hd (filter (\<lambda>p. g p = k) xs) \<in> set xs"
        using that filter_unless_in [of g k xs] by (metis filter_is_subset hd_in_set subsetD)
      then show ?thesis using snoc.prems unfolding old [OF that] by (simp add: sorted_wrt_append)
    qed
    ultimately show ?thesis using False IH by (simp add: first_seen_snoc sorted_wrt_append)
  qed
qed simp

text \<open>Grouping unsorted rows and sorting the groups by their newest row gives the groups in the
  order in which the sorted rows first mention them.\<close>

lemma sort_bands:
  assumes xs: "mset xs = mset base" "sorted_wrt (\<lambda>p p'. f p < f p') xs"
    and F: "\<And>k rows. (k, rows) \<in> set (group_by g base) \<Longrightarrow> F (k, rows) = f (hd (filter (\<lambda>p. g p = k) xs))"
  shows "sort_key F (group_by g base) = map (\<lambda>k. (k, filter (\<lambda>p. g p = k) base)) (first_seen (map g xs))"
proof (rule sort_key_inj_key_eq)
  have set_eq: "set xs = set base" using xs(1) by (rule mset_eq_setD)
  have bands: "set (group_by g base) = (\<lambda>k. (k, filter (\<lambda>p. g p = k) base)) ` g ` set base"
  proof -
    have "(k, rows) \<in> set (group_by g base) \<longleftrightarrow> (k, rows) \<in> (\<lambda>k. (k, filter (\<lambda>p. g p = k) base)) ` g ` set base"
      for k rows
    proof -
      have "(k, rows) \<in> set (group_by g base) \<longleftrightarrow> map_of (group_by g base) k = Some rows"
        using distinct_group_by [of g base] by simp
      then show ?thesis using filter_unless_in [of g k base] by (auto simp: map_of_group_by Let_def)
    qed
    then show ?thesis by (metis (no_types, lifting) prod.collapse set_eqI)
  qed
  let ?ys = "map (\<lambda>k. (k, filter (\<lambda>p. g p = k) base)) (first_seen (map g xs))"
  have "distinct (group_by g base)" using distinct_group_by [of g base] by (simp add: distinct_map)
  moreover have "distinct ?ys" by (simp add: distinct_map inj_on_def distinct_first_seen)
  moreover have same: "set ?ys = set (group_by g base)" by (simp add: bands set_eq)
  ultimately show "mset (group_by g base) = mset ?ys" by (metis set_eq_iff_mset_eq_distinct)
  have map_F: "map F ?ys = map (\<lambda>k. f (hd (filter (\<lambda>p. g p = k) xs))) (first_seen (map g xs))"
    using F by (auto simp: bands set_eq)
  from first_seen_sorted [OF xs(2)] have strict: "sorted_wrt (<) (map F ?ys)" unfolding map_F .
  then show "sorted (map F ?ys)" unfolding strict_sorted_iff by (rule conjunct1)
  from strict have "distinct (map F ?ys)" unfolding strict_sorted_iff by (rule conjunct2)
  then have "inj_on F (set ?ys)" unfolding distinct_map [of F ?ys] by (rule conjunct2)
  then show "inj_on F (set (group_by g base))" unfolding same .
qed


text \<open>The columns \<open>band_ts\<close> and \<open>band_id\<close> are the page key of the band's newest row.\<close>

lemma band_order_newest:
  assumes "rows \<noteq> []" and "fst (hd (sort_key newest_key rows)) = band_id rows"
  shows "band_order (k, rows) = page_key (hd (sort_key newest_key rows))"
proof -
  let ?p = "hd (sort_key newest_key rows)"
  have ne: "sort_key newest_key rows \<noteq> []" using assms(1) by (metis length_0_conv length_sort)
  then have p: "?p \<in> set rows" by (metis hd_in_set set_sort)
  have least: "newest_key ?p \<le> newest_key p" if "p \<in> set rows" for p
  proof -
    obtain q qs where sorted: "sort_key newest_key rows = q # qs" using ne by (meson neq_Nil_conv)
    have "sorted (map newest_key (q # qs))" unfolding sorted [symmetric] by (rule sorted_sort_key)
    moreover have "p \<in> set (q # qs)" unfolding sorted [symmetric] using that by simp
    ultimately show ?thesis unfolding sorted by auto
  qed
  have "band_ts rows = r_executed_at (snd ?p)"
  proof (cases "r_executed_at (snd ?p)")
    case None
    then have "r_executed_at (snd p) = None" if "p \<in> set rows" for p
      using least [OF that] by (auto simp: newest_key_def case_prod_beta')
    then have "Some t \<notin> set (map (\<lambda>(_, txn). r_executed_at txn) rows)" for t by (force simp: case_prod_beta')
    then have "somes (map (\<lambda>(_, txn). r_executed_at txn) rows) = []" using set_somes by (metis (no_types, lifting) empty_Collect_eq set_empty)
    then show ?thesis using None by (simp add: band_ts_def max_opt_def)
  next
    case (Some t)
    let ?ts = "somes (map (\<lambda>(_, txn). r_executed_at txn) rows)"
    have "t \<in> set ?ts" using p Some by (force simp: set_somes case_prod_beta')
    moreover have "t' \<le> t" if "t' \<in> set ?ts" for t'
    proof -
      have "Some t' \<in> (\<lambda>p. r_executed_at (snd p)) ` set rows" using that by (simp add: set_somes case_prod_beta')
      then obtain p' where "p' \<in> set rows" "r_executed_at (snd p') = Some t'" by (metis imageE)
      then show ?thesis using least [of p'] Some by (auto simp: newest_key_def case_prod_beta')
    qed
    ultimately have "Max (set ?ts) = t" by (intro Max_eqI) auto
    then show ?thesis using Some \<open>t \<in> set ?ts\<close> by (auto simp: band_ts_def max_opt_def)
  qed
  then show ?thesis using assms(2) by (simp add: band_order_def page_key_def)
qed

text \<open>The rows of the page, joined with their band and sorted, come band by band.\<close>

lemma sorted_joined:
  assumes page: "sorted_wrt (\<lambda>b b'. F b < F b') page" and xs: "sorted (map f xs)"
  shows "sorted (map (\<lambda>(p, b). (F b, f p)) (concat (map (\<lambda>b. map (\<lambda>p. (p, b)) (filter (\<lambda>p. fst b = g p) xs)) page)))"
  using page
proof (induction page)
  case (Cons b page)
  have "sorted (map f (filter (\<lambda>p. fst b = g p) xs))" using xs by (rule sorted_filter)
  then have "sorted (map (\<lambda>(p, b). (F b, f p)) (map (\<lambda>p. (p, b)) (filter (\<lambda>p. fst b = g p) xs)))"
    by (simp add: sorted_map comp_def)
  then show ?case using Cons by (fastforce simp: sorted_append less_imp_le)
qed simp

lemma distinct_swapped: "distinct zs \<Longrightarrow> distinct (map (\<lambda>(b, p). (p, b)) zs)"
  by (auto simp: distinct_map inj_on_def)

lemma join_bands:
  assumes xs: "mset xs = mset base" "sorted_wrt (\<lambda>p p'. f p < f p') xs"
    and page: "sorted_wrt (\<lambda>b b'. F b < F b') page" "distinct (map fst page)"
  shows "sort_key (\<lambda>(p, b). (F b, f p)) (concat (map (\<lambda>p. map (Pair p) (filter (\<lambda>b. fst b = g p) page)) base))
     = concat (map (\<lambda>b. map (\<lambda>p. (p, b)) (filter (\<lambda>p. fst b = g p) xs)) page)"
    (is "sort_key ?k ?joined = ?blocks")
proof (rule sort_key_inj_key_eq)
  have "distinct (map f xs)" using xs(2) by (simp add: sorted_wrt_map [symmetric] strict_sorted_iff)
  then have inj: "inj_on f (set base)" and d: "distinct xs" using mset_eq_setD [OF xs(1)] by (simp_all add: distinct_map)
  have d_base: "distinct base" using d xs(1) by (metis mset_eq_imp_distinct_iff)
  have d_page: "distinct page" using page(2) by (simp add: distinct_map)
  have j: "?joined = filter (\<lambda>(p, b). fst b = g p) (List.product base page)"
    by (simp add: List.product_concat_map filter_concat comp_def filter_map)
  have "?blocks = map (\<lambda>(b, p). (p, b)) (filter (\<lambda>(b, p). fst b = g p) (List.product page xs))"
    by (simp add: List.product_concat_map filter_concat map_concat comp_def filter_map)
  moreover have "distinct (filter (\<lambda>(b, p). fst b = g p) (List.product page xs))"
    using d d_page by (simp add: distinct_product)
  ultimately have "distinct ?blocks" by (simp only: distinct_swapped)
  moreover have "distinct ?joined" unfolding j using d_base d_page by (simp add: distinct_product)
  moreover have "set ?joined = set ?blocks" using mset_eq_setD [OF xs(1)] by auto
  ultimately show "mset ?joined = mset ?blocks" by (simp only: set_eq_iff_mset_eq_distinct)
  show "sorted (map ?k ?blocks)" by (rule sorted_joined [OF page(1)]) (use xs(2) in \<open>auto simp: sorted_wrt_map elim: sorted_wrt_mono_rel [rotated]\<close>)
  show "inj_on ?k (set ?joined)"
  proof (rule inj_onI)
    fix x y assume x: "x \<in> set ?joined" and y: "y \<in> set ?joined" and same: "?k x = ?k y"
    obtain p b p' b' where xy: "x = (p, b)" "y = (p', b')" by (metis prod.collapse)
    have "p \<in> set base" "p' \<in> set base" and b: "b \<in> set page" "b' \<in> set page" "fst b = g p" "fst b' = g p'"
      using x y by (auto simp: xy)
    moreover from same have "f p = f p'" by (simp add: xy)
    ultimately have "p = p'" using inj by (metis inj_onD)
    then have "b = b'" using page(2) b by (metis distinct_map inj_on_eq_iff)
    then show "x = y" using \<open>p = p'\<close> by (simp add: xy)
  qed
qed

lemma band_of_detail: "band_of (transaction_detail_of s p) = band_column p"
  by (simp add: band_of_def transaction_detail_of_def band_column_def ledger_row.defs case_prod_beta' split: option.split)

lemma td_id_detail: "transaction_detail_of s p = transaction_detail_of s p' \<Longrightarrow> fst p = fst p'"
  by (simp add: transaction_detail_of_def case_prod_beta')

lemma band_page_reads:
  assumes ok: "ledger_ok s" and window: "windows_agree q"
    and newest: "newest_stored_last (filter (\<lambda>(_, txn). transaction_matches q txn) (table_all (st_transactions s)))"
  shows "sql_query_transaction_bands (db_of s) q = query_transaction_bands s q"
proof -
  define base where "base = filter (\<lambda>(_, txn). transaction_matches q txn) (table_all (st_transactions s))"
  define xs where "xs = matched_transactions s q"
  have xs: "xs = sort_key page_key base"
    by (simp add: xs_def base_def matched_transactions_def sort_page_key)
  have "distinct (map fst (tb_rows (st_transactions s)))" by (rule table_ok_distinct [OF ledger_ok_tables(2) [OF ok]])
  then have d: "distinct (map fst base)" unfolding base_def table_all_def by (rule distinct_map_filter)
  have m: "mset xs = mset base" by (simp add: xs)
  have "inj_on page_key (set xs)"
    using d m by (auto simp: inj_on_def page_key_def distinct_map dest!: mset_eq_setD)
  moreover have "distinct xs" using d m by (metis distinct_map mset_eq_imp_distinct_iff)
  ultimately have strict: "sorted_wrt (\<lambda>p p'. page_key p < page_key p') xs"
    using sorted_sort_key [of page_key base]
    by (simp flip: sorted_wrt_map add: strict_sorted_iff distinct_map) (simp add: xs)
  have F: "band_order (k, rows) = page_key (hd (filter (\<lambda>p. band_column p = k) xs))"
    if "(k, rows) \<in> set (group_by band_column base)" for k rows
  proof -
    have rows: "rows = filter (\<lambda>p. band_column p = k) base" "rows \<noteq> []"
      using that distinct_group_by [of band_column base] map_of_is_SomeI [OF distinct_group_by that]
      by (auto simp: map_of_group_by Let_def split: if_splits)
    then obtain p where p: "p \<in> set base" "band_column p = k" by (auto simp: filter_empty_conv)
    then have "fst (hd (sort_key newest_key rows)) = band_id rows"
      using newest by (auto simp: newest_stored_last_def list_all_iff Let_def rows base_def [symmetric])
    then show ?thesis
      using band_order_newest [OF rows(2)] by (simp add: xs sort_page_key filter_sort_key rows(1))
  qed
  let ?bands = "sort_key band_order (group_by band_column base)"
  let ?keys = "first_seen (map band_column xs)" and ?page = "page_of q (sort_key band_order (group_by band_column base))"
  have bands: "?bands = map (\<lambda>k. (k, filter (\<lambda>p. band_column p = k) base)) ?keys"
    by (rule sort_bands [OF m strict F])
  have "band_order b = page_key (hd (filter (\<lambda>p. band_column p = fst b) xs))" if "b \<in> set ?bands" for b
    using F [of "fst b" "snd b"] that by simp
  then have "map band_order ?bands = map (\<lambda>k. page_key (hd (filter (\<lambda>p. band_column p = k) xs))) (map fst ?bands)"
    by simp
  also have "map fst ?bands = ?keys" by (simp add: bands comp_def)
  finally have "map band_order ?bands = map (\<lambda>k. page_key (hd (filter (\<lambda>p. band_column p = k) xs))) ?keys" .
  then have "sorted_wrt (\<lambda>b b'. band_order b < band_order b') ?bands"
    using first_seen_sorted [OF strict, of band_column] by (simp flip: sorted_wrt_map)
  then have page: "sorted_wrt (\<lambda>b b'. band_order b < band_order b') ?page"
    by (simp add: page_of_def sorted_wrt_take sorted_wrt_drop)
  have fsts: "map fst ?page = take (tq_limit q) (drop (tq_offset q) ?keys)"
    by (simp add: page_of_def bands take_map [symmetric] drop_map [symmetric] comp_def)
  have d_page: "distinct (map fst ?page)" unfolding fsts by (intro distinct_take distinct_drop distinct_first_seen)
  have blocks: "map fst (concat (map (\<lambda>b. map (\<lambda>p. (p, b)) (filter (\<lambda>p. fst b = band_column p) xs)) ?page))
      = concat (map (\<lambda>k. filter (\<lambda>p. band_column p = k) xs) (map fst ?page))"
    by (simp add: map_concat comp_def eq_commute)
  have key: "(\<lambda>((i, txn), b). (band_order b, desc_nulls_last (r_executed_at txn), - int i)) = (\<lambda>(p, b). (band_order b, page_key p))"
    by (auto simp: fun_eq_iff page_key_def)
  have rows: "map (\<lambda>(p, b). detail_row (db_of s) p)
             (sort_key (\<lambda>((i, txn), b). (band_order b, desc_nulls_last (r_executed_at txn), - int i))
               (concat (map (\<lambda>p. map (Pair p) (filter (\<lambda>b. fst b = band_column p) ?page)) base)))
      = concat (map (\<lambda>k. filter (\<lambda>td. band_of td = k) (all_details s q)) (map fst ?page))"
    unfolding key join_bands [OF m strict page d_page]
    using arg_cong [OF blocks, of "map (transaction_detail_of s)"]
    by (simp add: detail_of_row case_prod_beta' map_concat comp_def all_details_def xs_def [symmetric] filter_map band_of_detail)
  have totals: "length (group_by band_column base) = length ?keys"
    using arg_cong [OF bands, of length] by simp
  have keys: "first_seen (map band_of (all_details s q)) = ?keys"
    by (simp add: all_details_def xs_def [symmetric] comp_def band_of_detail)
  show ?thesis
    unfolding sql_query_transaction_bands_def select_transactions_agree [OF window] base_def [symmetric] Let_def rows
      bands_page keys totals fsts
    by (simp add: all_details_def xs_def [symmetric] xs)
qed


section \<open>What the two stores answer\<close>

lemma distinct_somes:
  assumes "distinct ks" and inj: "\<And>k k' r. f k = Some r \<Longrightarrow> f k' = Some r \<Longrightarrow> k = k'"
  shows "distinct (somes (map f ks))"
  using assms(1)
proof (induction ks)
  case (Cons k ks)
  then show ?case by (cases "f k") (auto simp: set_somes dest: inj)
qed simp

lemma securities_reads:
  assumes "ledger_ok s"
  shows "mset (sql_get_securities (db_of s) sids) = mset (get_securities s sids)"
proof -
  note ok = ledger_ok_tables(6) [OF assms]
  let ?t = "st_securities s" and ?sql = "sql_get_securities (db_of s) sids" and ?mem = "get_securities s sids"
  have sql: "?sql = map snd (filter (\<lambda>p. sec_security_id (snd p) \<in> set sids) (tb_rows ?t))"
    by (auto simp: sql_get_securities_def select_where_def db_of_def sql_conditions case_prod_beta')
  have row: "table_get_by_key ?t sid = Some r \<longleftrightarrow> sec_security_id r = sid \<and> r \<in> snd ` set (tb_rows ?t)" for sid r
    using table_get_by_key_ok [OF ok] in_table_all [OF ok] by (force simp: security_key_def table_all_def image_iff)
  have "inj_on (\<lambda>p. sec_security_id (snd p)) (set (tb_rows ?t))"
  proof (rule inj_onI)
    fix p p' assume p: "p \<in> set (tb_rows ?t)" "p' \<in> set (tb_rows ?t)" and "sec_security_id (snd p) = sec_security_id (snd p')"
    then have "fst p = fst p'"
      using table_ok_unique [OF ok, of "fst p" "snd p" "fst p'" "snd p'"] table_ok_distinct [OF ok]
      by (simp add: security_key_def table_get_def)
    then show "p = p'" using p table_ok_distinct [OF ok] by (metis eq_key_imp_eq_value prod.collapse)
  qed
  then have "distinct (map sec_security_id (map snd (tb_rows ?t)))"
    using table_ok_distinct [OF ok] by (simp add: distinct_map comp_def)
  then have "distinct ?sql" unfolding sql by (metis (no_types, lifting) distinct_map distinct_map_filter)
  moreover have "distinct ?mem"
    unfolding get_securities_def by (rule distinct_somes [OF distinct_first_seen]) (simp add: row)
  moreover have "r \<in> set ?sql \<longleftrightarrow> r \<in> set ?mem" for r
  proof -
    have "r \<in> set ?sql \<longleftrightarrow> r \<in> snd ` set (tb_rows ?t) \<and> sec_security_id r \<in> set sids" by (auto simp: sql)
    moreover have "r \<in> set ?mem \<longleftrightarrow> (\<exists>sid \<in> set sids. table_get_by_key ?t sid = Some r)"
      by (auto simp: get_securities_def set_somes image_iff eq_commute)
    ultimately show ?thesis by (auto simp: row)
  qed
  then have "set ?sql = set ?mem" by blast
  ultimately show ?thesis by (simp only: set_eq_iff_mset_eq_distinct)
qed




text \<open>
  C38 (functional). Where the window does mix the two, the database applies the calendar bound and
  the in-memory store drops it: the totals differ by exactly the matching rows on the wrong side of
  that bound.\<close>

theorem mixed_window_totals:
  "snd (sql_query_transactions (sql_of s) q)
     + length (filter (\<lambda>(_, txn). transaction_matches q txn \<and> beyond_calendar q (r_executed_at txn))
                 (table_all (st_transactions (rounded s))))
   = snd (query_transactions (rounded s) q)"
proof -
  have split: "length (filter (\<lambda>p. P p \<and> \<not> R p) xs) + length (filter (\<lambda>p. P p \<and> R p) xs) = length (filter P xs)"
    for P R and xs :: "(nat \<times> txn_row) list"
    by (induction xs) auto
  show ?thesis
    unfolding sql_of_rounded sql_query_transactions_def query_transactions_def matched_transactions_def
      select_transactions Let_def snd_conv length_sort case_prod_beta'
    by (rule split)
qed

text \<open>
  The net open quantity of a leg, summed by the database and folded row by row in
  memory, is the same for rows with whole quantities and with actions and sub types in the broker's
  own spelling: the two rows of one settlement count once in both.\<close>

theorem net_open_quantities_agree:
  assumes "list_all (\<lambda>(_, t). r_trade_group_id t = Some g \<longrightarrow> r_security_id t = Some sid \<longrightarrow> plain_row t)
      (table_all (st_transactions (rounded s)))"
  shows "dict_get (sql_net_open_by_group (sql_of s) wanted) (g, sid)
     = dict_get (net_open_by_group (rounded s) wanted) (g, sid)"
  unfolding sql_of_rounded by (rule net_open_reads [OF assms])

section \<open>Witnesses\<close>

lemma ledger_ok_example_banded: "ledger_ok example_banded"
  unfolding example_banded_def by (intro ledger_ok_intros ledger_ok_empty)



end
