(* ===== verification/Wire.thy ===== *)
theory Wire
  imports Symbology Money Row_Functions
begin

text \<open>
  What the broker adapters use of Python to read a decoded JSON message: \<open>dict.get\<close> and
  subscripts with their exceptions, truth values, \<open>Decimal(str(x))\<close>, \<open>int(float(x))\<close> and the ISO
  8601 readers of \<open>date\<close> and \<open>datetime\<close>, and on top of them the scalar readers of
  \<^verbatim>\<open>tt_ledger/ingest/tastytrade_client.py\<close> and \<^verbatim>\<open>tt_ledger/ingest/redis_source.py\<close>. The input is
  the value \<open>json.loads\<close> returns. Special floats and special decimals (NaN, infinities) and ISO week
  dates are left out: the readers reject them; an instant without a zone is read as UTC.
\<close>

section \<open>Objects\<close>

fun py_type :: "json \<Rightarrow> string" where
  "py_type JNull = ''NoneType''"
| "py_type (JBool _) = ''bool''"
| "py_type (JInt _) = ''int''"
| "py_type (JFloat _) = ''float''"
| "py_type (JStr _) = ''str''"
| "py_type (JList _) = ''list''"
| "py_type (JObj _) = ''dict''"

fun py_truthy :: "json \<Rightarrow> bool" where
  "py_truthy JNull = False"
| "py_truthy (JBool b) = b"
| "py_truthy (JInt n) = (n \<noteq> 0)"
| "py_truthy (JFloat q) = (q \<noteq> 0)"
| "py_truthy (JStr s) = (s \<noteq> [])"
| "py_truthy (JList xs) = (xs \<noteq> [])"
| "py_truthy (JObj kvs) = (kvs \<noteq> [])"

text \<open>\<open>v.get(k, dflt)\<close> and \<open>v[k]\<close>.\<close>

definition attribute_error :: "json \<Rightarrow> string" where
  "attribute_error v = py_repr (py_type v) @ '' object has no attribute '' @ py_repr ''get''"

definition get_or :: "json \<Rightarrow> string \<Rightarrow> json \<Rightarrow> string + json" where
  "get_or v k dflt =
     (case v of JObj kvs \<Rightarrow> Inr (case dict_get kvs k of None \<Rightarrow> dflt | Some x \<Rightarrow> x)
      | _ \<Rightarrow> Inl (attribute_error v))"

definition index_of :: "json \<Rightarrow> string \<Rightarrow> string + json" where
  "index_of v k =
     (case v of JObj kvs \<Rightarrow> (case dict_get kvs k of None \<Rightarrow> Inl (py_repr k) | Some x \<Rightarrow> Inr x)
      | _ \<Rightarrow> Inl ''TypeError'')"

text \<open>An exception ends the computation.\<close>

definition bind_result :: "'e + 'a \<Rightarrow> ('a \<Rightarrow> 'e + 'b) \<Rightarrow> 'e + 'b" where
  "bind_result r f = (case r of Inl e \<Rightarrow> Inl e | Inr x \<Rightarrow> f x)"

lemma bind_result_simps [simp]: "bind_result (Inl e) f = Inl e" "bind_result (Inr x) f = f x"
  by (simp_all add: bind_result_def)

lemma bind_result_Inr: "bind_result r f = Inr y \<longleftrightarrow> (\<exists>x. r = Inr x \<and> f x = Inr y)"
  by (cases r) simp_all

fun map_result :: "('a \<Rightarrow> 'e + 'b) \<Rightarrow> 'a list \<Rightarrow> 'e + 'b list" where
  "map_result f [] = Inr []"
| "map_result f (x # xs) = bind_result (f x) (\<lambda>y. bind_result (map_result f xs) (\<lambda>ys. Inr (y # ys)))"

text \<open>A field the broker documents as a string: another type is outside the model.\<close>

definition text_of :: "json \<Rightarrow> string + string option" where
  "text_of v = (case v of JNull \<Rightarrow> Inr None | JStr s \<Rightarrow> Inr (Some s) | _ \<Rightarrow> Inl ''not a string'')"

definition string_of :: "json \<Rightarrow> string + string" where
  "string_of v = (case v of JStr s \<Rightarrow> Inr s | _ \<Rightarrow> Inl ''not a string'')"

text \<open>\<open>str(v)\<close>.\<close>

definition show_int :: "int \<Rightarrow> string" where
  "show_int n = (if n < 0 then CHR ''-'' # show_nat (nat (- n)) else show_nat (nat n))"

definition py_str :: "json \<Rightarrow> string + string" where
  "py_str v =
     (case v of
        JStr s \<Rightarrow> Inr s | JInt n \<Rightarrow> Inr (show_int n) | JNull \<Rightarrow> Inr ''None''
      | JBool b \<Rightarrow> Inr (if b then ''True'' else ''False'') | _ \<Rightarrow> Inl ''not a scalar'')"

definition items_of :: "json \<Rightarrow> string + json list" where
  "items_of v = (case v of JList xs \<Rightarrow> Inr xs | _ \<Rightarrow> Inl ''not iterable'')"

section \<open>Numbers\<close>

text \<open>The grammar of \<open>Decimal(s)\<close>: blanks around, underscores anywhere, a sign, digits with at most
  one point, an exponent.\<close>

definition split_at :: "char \<Rightarrow> string \<Rightarrow> (string \<times> string) option" where
  "split_at c s =
     (if c \<in> set s then Some (takeWhile (\<lambda>x. x \<noteq> c) s, tl (dropWhile (\<lambda>x. x \<noteq> c) s)) else None)"

definition unsigned_int :: "string \<Rightarrow> nat option" where
  "unsigned_int s = (if s \<noteq> [] \<and> list_all is_digit s then Some (digits_value s) else None)"

definition sign_split :: "string \<Rightarrow> int \<times> string" where
  "sign_split s =
     (case s of
        c # cs \<Rightarrow> if c = CHR ''-'' then (-1, cs) else if c = CHR ''+'' then (1, cs) else (1, s)
      | [] \<Rightarrow> (1, s))"

definition signed_int :: "string \<Rightarrow> int option" where
  "signed_int s = (case sign_split s of (sign, ds) \<Rightarrow> map_option (\<lambda>n. sign * int n) (unsigned_int ds))"

definition mantissa :: "string \<Rightarrow> decimal option" where
  "mantissa s =
     (case split_at (CHR ''.'') s of
        None \<Rightarrow> map_option of_nat (unsigned_int s)
      | Some (whole, fraction) \<Rightarrow>
          if whole @ fraction \<noteq> [] \<and> list_all is_digit (whole @ fraction)
          then Some (of_nat (digits_value (whole @ fraction)) / 10 ^ length fraction)
          else None)"

definition power_of_ten :: "int \<Rightarrow> decimal" where
  "power_of_ten e = (if 0 \<le> e then 10 ^ nat e else 1 / 10 ^ nat (- e))"

definition decimal_of_string :: "string \<Rightarrow> decimal option" where
  "decimal_of_string text =
     (case sign_split (filter (\<lambda>c. c \<noteq> CHR ''_'') (py_strip text)) of
        (sign, s) \<Rightarrow>
          (case split_at (CHR ''e'') (py_lower s) of
             None \<Rightarrow> map_option (\<lambda>m. of_int sign * m) (mantissa s)
           | Some (m, e) \<Rightarrow>
               (case (mantissa m, signed_int e) of
                  (Some m', Some e') \<Rightarrow> Some (of_int sign * m' * power_of_ten e')
                | _ \<Rightarrow> None)))"

text \<open>\<open>Decimal(str(v))\<close>.\<close>

definition to_decimal :: "json \<Rightarrow> string + decimal" where
  "to_decimal v =
     (case v of
        JInt n \<Rightarrow> Inr (of_int n)
      | JFloat q \<Rightarrow> Inr q
      | JStr s \<Rightarrow> (case decimal_of_string s of None \<Rightarrow> Inl ''InvalidOperation'' | Some q \<Rightarrow> Inr q)
      | _ \<Rightarrow> Inl ''InvalidOperation'')"

text \<open>\<open>int(float(v))\<close>: the binary rounding of a float is below the precision of a multiplier.\<close>

definition int_of_float :: "json \<Rightarrow> string + int" where
  "int_of_float v =
     (case v of
        JBool b \<Rightarrow> Inr (if b then 1 else 0)
      | JInt n \<Rightarrow> Inr n
      | JFloat q \<Rightarrow> Inr (py_int q)
      | JStr s \<Rightarrow> (case decimal_of_string s of
            None \<Rightarrow> Inl (''could not convert string to float: '' @ py_repr s) | Some q \<Rightarrow> Inr (py_int q))
      | _ \<Rightarrow> Inl ''TypeError'')"

section \<open>Dates and instants\<close>

definition iso_date :: "string \<Rightarrow> date option" where
  "iso_date s =
     (if length s = 10 \<and> s ! 4 = CHR ''-'' \<and> s ! 7 = CHR ''-'' then
        (case (unsigned_int (take 4 s), unsigned_int (take 2 (drop 5 s)), unsigned_int (drop 8 s)) of
           (Some y, Some m, Some d) \<Rightarrow> make_date (int y) m (int d) | _ \<Rightarrow> None)
      else if length s = 8 then
        (case (unsigned_int (take 4 s), unsigned_int (take 2 (drop 4 s)), unsigned_int (drop 6 s)) of
           (Some y, Some m, Some d) \<Rightarrow> make_date (int y) m (int d) | _ \<Rightarrow> None)
      else None)"

text \<open>\<open>HH[:?MM[:?SS[{.,}f+]]]\<close>: the first separator decides whether there are colons; digits past
  the sixth of a fraction are dropped.\<close>

definition two_digits :: "string \<Rightarrow> (nat \<times> string) option" where
  "two_digits s =
     (case s of
        a # b # rest \<Rightarrow> if is_digit a \<and> is_digit b then Some (digits_value [a, b], rest) else None
      | _ \<Rightarrow> None)"

type_synonym clock = "nat \<times> nat \<times> nat \<times> nat"

definition fraction_us :: "string \<Rightarrow> nat option" where
  "fraction_us s =
     (case s of
        [] \<Rightarrow> Some 0
      | c # f \<Rightarrow>
          if (c = CHR ''.'' \<or> c = CHR '','') \<and> f \<noteq> [] \<and> list_all is_digit f
          then Some (digits_value (take 6 (f @ ''000000''))) else None)"

definition clock_fields :: "string \<Rightarrow> clock option" where
  "clock_fields s =
     (case two_digits s of
        None \<Rightarrow> None
      | Some (h, r1) \<Rightarrow>
          if r1 = [] then Some (h, 0, 0, 0)
          else
            (let colons = (hd r1 = CHR '':'') in
             case two_digits (if colons then tl r1 else r1) of
               None \<Rightarrow> None
             | Some (m, r2) \<Rightarrow>
                 if r2 = [] then Some (h, m, 0, 0)
                 else if colons \<and> hd r2 \<noteq> CHR '':'' then None
                 else
                   (case two_digits (if colons then tl r2 else r2) of
                      None \<Rightarrow> None
                    | Some (sec, r3) \<Rightarrow> map_option (\<lambda>us. (h, m, sec, us)) (fraction_us r3))))"

definition clock_us :: "clock \<Rightarrow> int" where
  "clock_us c = (case c of (h, m, sec, us) \<Rightarrow> ((int h * 60 + int m) * 60 + int sec) * 1000000 + int us)"

definition clock_ok :: "clock \<Rightarrow> bool" where
  "clock_ok c \<longleftrightarrow> (case c of (h, m, sec, us) \<Rightarrow> h < 24 \<and> m < 60 \<and> sec < 60)"

text \<open>The zone starts at the first minus, else at the first plus, else at the first Z.\<close>

definition zone_split :: "string \<Rightarrow> string \<times> (int \<times> string) option" where
  "zone_split t =
     (case split_at (CHR ''-'') t of
        Some (c, z) \<Rightarrow> (c, Some (-1, z))
      | None \<Rightarrow>
          (case split_at (CHR ''+'') t of
             Some (c, z) \<Rightarrow> (c, Some (1, z))
           | None \<Rightarrow>
               (case split_at (CHR ''Z'') t of
                  Some (c, z) \<Rightarrow> (c, if z = [] then Some (1, ''00'') else Some (1, z))
                | None \<Rightarrow> (t, None))))"

definition zone_us :: "(int \<times> string) option \<Rightarrow> int option" where
  "zone_us zone =
     (case zone of
        None \<Rightarrow> Some 0
      | Some (sign, z) \<Rightarrow>
          if length z \<in> {0, 1, 3} then None
          else (case clock_fields z of
                  None \<Rightarrow> None
                | Some c \<Rightarrow> if clock_us c < us_per_day then Some (sign * clock_us c) else None))"

definition iso_time :: "string \<Rightarrow> int option" where
  "iso_time t =
     (if length t < 2 then None
      else
        (case zone_split t of
           (c, zone) \<Rightarrow>
             (case (clock_fields c, zone_us zone) of
                (Some clk, Some z) \<Rightarrow> if clock_ok clk then Some (clock_us clk - z) else None
              | _ \<Rightarrow> None)))"

definition iso_datetime :: "string \<Rightarrow> datetime option" where
  "iso_datetime s =
     (if length s < 7 then None
      else
        (let sep = (if s ! 4 = CHR ''-'' then 10 else 8); t = drop (sep + 1) s in
         case (iso_date (take sep s), if t = [] then Some 0 else iso_time t) of
           (Some d, Some us) \<Rightarrow> Some (day_start d + us)
         | _ \<Rightarrow> None))"

text \<open>\<open>isoformat()\<close> of a date, and of an instant in UTC.\<close>

definition isoformat_date :: "date \<Rightarrow> string" where
  "isoformat_date d =
     (case civil_of d of (y, m, day) \<Rightarrow>
        pad_nat 4 (nat y) @ CHR ''-'' # pad_nat 2 m @ CHR ''-'' # pad_nat 2 (nat day))"

definition isoformat :: "datetime \<Rightarrow> string" where
  "isoformat t =
     (let us = nat (t mod us_per_day); sec = us div 1000000; frac = us mod 1000000 in
      isoformat_date (date_of t) @ CHR ''T'' # pad_nat 2 (sec div 3600) @ CHR '':'' # pad_nat 2 (sec div 60 mod 60)
      @ CHR '':'' # pad_nat 2 (sec mod 60) @ (if frac = 0 then [] else CHR ''.'' # pad_nat 6 frac) @ ''+00:00'')"

section \<open>The readers of the adapters\<close>

text \<open>\<^verbatim>\<open>tastytrade_client.py\<close>: a missing value is None, a malformed one raises. An epoch in
  milliseconds is as good as an ISO string.\<close>

definition parse_decimal :: "json \<Rightarrow> string + decimal option" where
  "parse_decimal v = (if v = JNull then Inr None else map_sum id Some (to_decimal v))"

definition from_millis :: "decimal \<Rightarrow> string + datetime option" where
  "from_millis ms =
     (let t = round_half_even (ms * 1000)
      in if - 719162 \<le> date_of t \<and> date_of t \<le> 2932896 then Inr (Some t) else Inl ''year is out of range'')"

definition parse_datetime :: "json \<Rightarrow> string + datetime option" where
  "parse_datetime v =
     (case v of
        JNull \<Rightarrow> Inr None
      | JBool b \<Rightarrow> from_millis (if b then 1 else 0)
      | JInt n \<Rightarrow> from_millis (of_int n)
      | JFloat q \<Rightarrow> from_millis q
      | JStr s \<Rightarrow> (case iso_datetime s of
            None \<Rightarrow> Inl (''Invalid isoformat string: '' @ py_repr s) | Some t \<Rightarrow> Inr (Some t))
      | _ \<Rightarrow> Inl ''fromisoformat: argument must be str'')"

definition parse_date :: "json \<Rightarrow> string + date option" where
  "parse_date v =
     (case v of
        JNull \<Rightarrow> Inr None
      | JStr s \<Rightarrow> (case iso_date s of
            None \<Rightarrow> Inl (''Invalid isoformat string: '' @ py_repr s) | Some d \<Rightarrow> Inr (Some d))
      | _ \<Rightarrow> Inl ''fromisoformat: argument must be str'')"

text \<open>\<^verbatim>\<open>redis_source.py\<close>: a malformed value is None too.\<close>

definition dec_or_none :: "json \<Rightarrow> decimal option" where
  "dec_or_none v =
     (if v = JNull \<or> v = JStr [] then None
      else (case to_decimal v of Inl _ \<Rightarrow> None | Inr q \<Rightarrow> Some q))"

definition dt_or_none :: "json \<Rightarrow> datetime option" where
  "dt_or_none v =
     (if \<not> py_truthy v then None
      else (case py_str v of Inl _ \<Rightarrow> None | Inr s \<Rightarrow> iso_datetime s))"

section \<open>Writing a time and reading it back\<close>

lemma split_at_avoids: "c \<notin> set s \<Longrightarrow> split_at c s = None"
  by (simp add: split_at_def)

lemma split_at_first: "c \<notin> set s \<Longrightarrow> split_at c (s @ c # t) = Some (s, t)"
proof -
  assume c: "c \<notin> set s"
  then have "\<And>x. x \<in> set s \<Longrightarrow> x \<noteq> c" by blast
  then show ?thesis by (simp add: split_at_def takeWhile_append2 dropWhile_append2)
qed

lemma pad_nat_avoids [simp]: "\<not> is_digit c \<Longrightarrow> c \<notin> set (pad_nat w n)"
  using pad_nat_digits [of w n] by (auto simp: list_all_iff)

lemma pad_nat_Nil_iff [simp]: "pad_nat w n = [] \<longleftrightarrow> w = 0"
  using length_pad_nat [of w n] by (metis length_0_conv)

lemma marks_not_digit [simp]:
  "\<not> is_digit (CHR ''-'')" "\<not> is_digit (CHR '':'')" "\<not> is_digit (CHR ''.'')" "\<not> is_digit (CHR ''+'')"
  "\<not> is_digit (CHR ''T'')" "\<not> is_digit (CHR ''Z'')" "\<not> is_digit (CHR '','')"
  by (simp_all add: is_digit_def)

lemma unsigned_int_pad [simp]: "n < 10 ^ w \<Longrightarrow> 0 < w \<Longrightarrow> unsigned_int (pad_nat w n) = Some n"
  by (simp add: unsigned_int_def)

lemma two_digits_pad [simp]: "n < 100 \<Longrightarrow> two_digits (pad_nat 2 n @ s) = Some (n, s)"
proof -
  assume n: "n < 100"
  obtain a b where ab: "pad_nat 2 n = [a, b]"
    using length_pad_nat [of 2 n] by (auto simp: numeral_2_eq_2 length_Suc_conv)
  have "is_digit a" "is_digit b" using pad_nat_digits [of 2 n] by (simp_all add: ab)
  moreover have "digits_value [a, b] = n" using digits_value_pad [of 2 n] n by (simp add: ab)
  ultimately show ?thesis by (simp add: ab two_digits_def)
qed

lemma two_digits_pad_end [simp]: "n < 100 \<Longrightarrow> two_digits (pad_nat 2 n) = Some (n, [])"
  using two_digits_pad [of n "[]"] by simp

lemma fraction_us_pad [simp]: "n < 1000000 \<Longrightarrow> fraction_us (CHR ''.'' # pad_nat 6 n) = Some n"
  by (simp add: fraction_us_def)

lemma length_isoformat_date:
  "length (isoformat_date d) = 10"
  by (simp add: isoformat_date_def split: prod.split)

lemma iso_date_isoformat_date:
  assumes "make_date y m d = Some t"
  shows "iso_date (isoformat_date t) = Some t"
proof -
  have bounds: "1 \<le> y" "y \<le> 9999" "1 \<le> m" "m \<le> 12" "1 \<le> d" "d \<le> 31"
    using assms by (auto simp: make_date_def valid_date_def days_in_month_def split: if_splits)
  let ?y = "pad_nat 4 (nat y)" and ?m = "pad_nat 2 m" and ?d = "pad_nat 2 (nat d)"
  have s: "isoformat_date t = ?y @ CHR ''-'' # ?m @ CHR ''-'' # ?d"
    by (simp add: isoformat_date_def civil_of_make_date [OF assms])
  have at: "isoformat_date t ! 4 = CHR ''-''" "isoformat_date t ! 7 = CHR ''-''"
    unfolding s by (simp_all add: nth_append)
  have parts: "take 4 (isoformat_date t) = ?y" "take 2 (drop 5 (isoformat_date t)) = ?m" "drop 8 (isoformat_date t) = ?d"
    unfolding s by simp_all
  show ?thesis
    unfolding iso_date_def at parts length_isoformat_date using bounds assms by simp
qed

definition utc_clock :: "datetime \<Rightarrow> clock" where
  "utc_clock t =
     (let us = nat (t mod us_per_day); sec = us div 1000000
      in (sec div 3600, sec div 60 mod 60, sec mod 60, us mod 1000000))"

definition clock_text :: "clock \<Rightarrow> string" where
  "clock_text c =
     (case c of (h, m, sec, us) \<Rightarrow>
        pad_nat 2 h @ CHR '':'' # pad_nat 2 m @ CHR '':'' # pad_nat 2 sec
        @ (if us = 0 then [] else CHR ''.'' # pad_nat 6 us))"

lemma isoformat_clock: "isoformat t = isoformat_date (date_of t) @ CHR ''T'' # clock_text (utc_clock t) @ ''+00:00''"
  by (simp add: isoformat_def clock_text_def utc_clock_def Let_def)

lemma clock_fields_text:
  "h < 24 \<Longrightarrow> m < 60 \<Longrightarrow> sec < 60 \<Longrightarrow> us < 1000000 \<Longrightarrow>
    clock_fields (clock_text (h, m, sec, us)) = Some (h, m, sec, us)"
  by (simp add: clock_fields_def clock_text_def fraction_us_def)

lemma utc_clock_spec:
  obtains h m sec us where "utc_clock t = (h, m, sec, us)" "h < 24" "m < 60" "sec < 60" "us < 1000000"
    "clock_us (h, m, sec, us) = t mod us_per_day"
proof -
  define n where "n = nat (t mod us_per_day)"
  have n: "n < 86400000000" "int n = t mod us_per_day" by (simp_all add: n_def nat_less_iff)
  define s where "s = n div 1000000"
  have "s < 86400" using n(1) by (simp add: s_def less_mult_imp_div_less)
  moreover have "(s div 3600 * 60 + s div 60 mod 60) * 60 + s mod 60 = s"
  proof -
    have "s div 3600 = s div 60 div 60" by (simp add: div_mult2_eq [symmetric])
    then have "s div 3600 * 60 + s div 60 mod 60 = s div 60" by simp
    then show ?thesis by simp
  qed
  moreover have "s * 1000000 + n mod 1000000 = n" by (simp add: s_def)
  ultimately have "((s div 3600 * 60 + s div 60 mod 60) * 60 + s mod 60) * 1000000 + n mod 1000000 = n" by simp
  then have "int (((s div 3600 * 60 + s div 60 mod 60) * 60 + s mod 60) * 1000000 + n mod 1000000) = t mod us_per_day"
    using n(2) by simp
  then show ?thesis
    using that [of "s div 3600" "s div 60 mod 60" "s mod 60" "n mod 1000000"] \<open>s < 86400\<close>
    by (simp add: utc_clock_def Let_def n_def [symmetric] s_def [symmetric] clock_us_def less_mult_imp_div_less)
qed

lemma clock_text_avoids: "c \<in> {CHR ''-'', CHR ''+'', CHR ''Z''} \<Longrightarrow> c \<notin> set (clock_text k)"
  by (cases k) (auto simp: clock_text_def)

lemma iso_time_clock:
  assumes "h < 24" "m < 60" "sec < 60" "us < 1000000"
  shows "iso_time (clock_text (h, m, sec, us) @ ''+00:00'') = Some (clock_us (h, m, sec, us))"
proof -
  let ?c = "clock_text (h, m, sec, us)"
  have "zone_split (?c @ ''+00:00'') = (?c, Some (1, ''00:00''))"
    using split_at_first [of "CHR ''+''" ?c "''00:00''"] clock_text_avoids [of _ "(h, m, sec, us)"]
    by (simp add: zone_split_def split_at_avoids)
  moreover have "zone_us (Some (1, ''00:00'')) = Some 0" by code_simp
  ultimately show ?thesis
    using assms by (simp add: iso_time_def clock_fields_text clock_ok_def)
qed

lemma iso_datetime_isoformat:
  assumes "make_date y m d = Some (date_of t)"
  shows "iso_datetime (isoformat t) = Some t"
proof -
  obtain h mi sec us where c: "utc_clock t = (h, mi, sec, us)" "h < 24" "mi < 60" "sec < 60" "us < 1000000"
    "clock_us (h, mi, sec, us) = t mod us_per_day" by (rule utc_clock_spec)
  let ?d = "isoformat_date (date_of t)" and ?z = "clock_text (utc_clock t) @ ''+00:00''"
  have dash: "(?d @ CHR ''T'' # ?z) ! 4 = CHR ''-''"
    by (simp add: isoformat_date_def nth_append split: prod.split)
  have parts: "take 10 (?d @ CHR ''T'' # ?z) = ?d" "drop (10 + 1) (?d @ CHR ''T'' # ?z) = ?z"
    by (simp_all add: length_isoformat_date)
  have "iso_time ?z = Some (t mod us_per_day)" using iso_time_clock [OF c(2-5)] c(1,6) by simp
  moreover have "day_start (date_of t) + t mod us_per_day = t" by (simp add: day_start_def date_of_def)
  ultimately show ?thesis
    unfolding iso_datetime_def isoformat_clock dash if_P [OF refl] Let_def parts
    by (simp add: iso_date_isoformat_date [OF assms] length_isoformat_date)
qed

lemma make_date_range:
  assumes "make_date y m d = Some t"
  shows "- 719162 \<le> t" "t \<le> 2932896"
proof -
  have v: "valid_date y m d" and t: "t + 719163 = days_before_year y + days_before_month y m + d"
    using assms by (auto simp: make_date_def split: if_splits)
  have nonneg: "0 \<le> days_before_month y m"
    unfolding days_before_month_def by (rule sum_list_nonneg) (auto simp: days_in_month_pos less_imp_le)
  have "days_before_year 1 \<le> days_before_year y"
    using v by (intro days_before_year_mono) (simp add: valid_date_def)
  then show "- 719162 \<le> t" using v t nonneg by (simp add: valid_date_def days_before_year_def)
  have "days_before_month y m + d \<le> days_before_month y 13"
    using v days_before_month_le [of m y] by (simp add: valid_date_def)
  also have "days_before_year y + days_before_month y 13 = days_before_year (y + 1)"
    by (simp add: days_before_next_year months_before_13)
  finally show "t \<le> 2932896"
    using v t days_before_year_mono [of "y + 1" 10000] by (simp add: valid_date_def days_before_year_def)
qed

lemma from_millis_whole:
  assumes "1000 dvd t" "make_date y m d = Some (date_of t)"
  shows "from_millis (of_int (t div 1000)) = Inr (Some t)"
proof -
  have "of_int (t div 1000) * 1000 = (of_int t :: decimal)"
    using assms(1) by (metis dvd_div_mult_self of_int_mult of_int_numeral)
  then have "round_half_even (of_int (t div 1000) * 1000) = t" by simp
  then show ?thesis using make_date_range [OF assms(2)] by (simp add: from_millis_def)
qed



end
