(* ===== verification/Redis_Source.thy ===== *)
theory Redis_Source
  imports Wire Push
begin

text \<open>
  \<^verbatim>\<open>tt_ledger/ingest/redis_source.py\<close>: the host platform's messages as stream messages, and the
  reconnect loop of the pub/sub source. A payload is the value \<open>json.loads\<close> gives, or None where
  it raises. The Redis connection is what it delivers: the source is run over the list of notices,
  endings and failures it meets, and returns the list of what it does.
\<close>

section \<open>The host envelope\<close>

definition fill_event_from_pubsub :: "json \<Rightarrow> string + fill_event option" where
  "fill_event_from_pubsub msg =
     bind_result (get_or msg ''data'' (JObj [])) (\<lambda>data.
     bind_result (get_or data ''order_id'' JNull) (\<lambda>order_id.
     bind_result (if py_truthy order_id then py_str order_id else Inr []) (\<lambda>tt_order_id.
     if tt_order_id = [] then Inr None
     else
       bind_result (bind_result (get_or data ''status'' JNull) text_of) (\<lambda>status.
       bind_result (get_or data ''fill_price'' JNull) (\<lambda>fill_price.
       bind_result (get_or data ''filled_quantity'' JNull) (\<lambda>filled_quantity.
       bind_result (get_or data ''remaining_quantity'' JNull) (\<lambda>remaining_quantity.
       bind_result (get_or msg ''timestamp'' JNull) (\<lambda>timestamp.
         Inr (Some
           \<lparr> fe_tt_order_id = tt_order_id, fe_status = status,
             fe_average_fill_price = dec_or_none fill_price,
             fe_filled_quantity = dec_or_none filled_quantity,
             fe_remaining_quantity = dec_or_none remaining_quantity,
             fe_filled_at = (if map_order_status status = Some OS_FILLED then dt_or_none timestamp else None) \<rparr>)))))))))"

text \<open>\<open>x or fallback\<close> on a string field.\<close>

definition text_or :: "json \<Rightarrow> string \<Rightarrow> string + string" where
  "text_or v fallback = (if py_truthy v then string_of v else Inr fallback)"

definition position_from_pubsub :: "json \<Rightarrow> string \<Rightarrow> string + broker_position option" where
  "position_from_pubsub msg account_number =
     bind_result (get_or msg ''data'' (JObj [])) (\<lambda>data.
     bind_result (bind_result (get_or data ''symbol'' JNull) (\<lambda>v. text_or v [])) (\<lambda>symbol.
     bind_result (get_or data ''quantity'' JNull) (\<lambda>raw_quantity.
     case dec_or_none raw_quantity of
       None \<Rightarrow> Inr None
     | Some quantity \<Rightarrow>
         if symbol = [] then Inr None
         else
           bind_result (bind_result (get_or data ''quantity_direction'' JNull) (\<lambda>v. text_or v ''Long'')) (\<lambda>direction.
           bind_result (bind_result (get_or data ''underlying_symbol'' JNull) text_of) (\<lambda>underlying.
           bind_result (bind_result (get_or data ''instrument_type'' JNull) text_of) (\<lambda>instrument_type.
           bind_result (get_or data ''average_open_price'' JNull) (\<lambda>average_open_price.
           bind_result (get_or data ''mark_price'' JNull) (\<lambda>mark_price.
           bind_result (get_or data ''close_price'' JNull) (\<lambda>close_price.
           bind_result (get_or data ''realized_day_gain'' JNull) (\<lambda>realized_day_gain.
           bind_result (bind_result (get_or data ''multiplier'' JNull)
                          (\<lambda>v. int_of_float (if py_truthy v then v else JInt 1))) (\<lambda>multiplier.
           bind_result (get_or data ''expires_at'' JNull) (\<lambda>expires_at.
             Inr (Some
               \<lparr> bp_account_number = account_number, bp_symbol = symbol, bp_quantity = quantity,
                 bp_quantity_direction = direction, bp_underlying_symbol = underlying,
                 bp_instrument_type = instrument_type,
                 bp_average_open_price = dec_or_none average_open_price,
                 bp_mark_price = dec_or_none mark_price, bp_close_price = dec_or_none close_price,
                 bp_realized_day_gain = dec_or_none realized_day_gain,
                 bp_realized_day_gain_effect = None, bp_multiplier = multiplier,
                 bp_expires_at = dt_or_none expires_at \<rparr>)))))))))))))"

definition balance_from_pubsub :: "json \<Rightarrow> string \<Rightarrow> string + balance_message" where
  "balance_from_pubsub msg account_number =
     bind_result (get_or msg ''data'' (JObj [])) (\<lambda>data.
     bind_result (map_result (\<lambda>k. get_or data k JNull)
         [''net_liquidating_value'', ''cash_balance'', ''equity_buying_power'', ''derivative_buying_power'',
          ''maintenance_requirement'', ''pending_cash'', ''day_trading_buying_power'']) (\<lambda>fields.
     bind_result (get_or msg ''timestamp'' JNull) (\<lambda>timestamp.
       Inr \<lparr> bm_account_number = account_number, bm_raw = data,
             bm_net_liquidating_value = dec_or_none (fields ! 0), bm_cash_balance = dec_or_none (fields ! 1),
             bm_equity_buying_power = dec_or_none (fields ! 2),
             bm_derivative_buying_power = dec_or_none (fields ! 3),
             bm_maintenance_requirement = dec_or_none (fields ! 4), bm_pending_cash = dec_or_none (fields ! 5),
             bm_day_trading_buying_power = dec_or_none (fields ! 6), bm_captured_at = dt_or_none timestamp \<rparr>)))"

text \<open>The part both sources share: the account filter and the dispatch on the message type. A list
  or an object as account number cannot be hashed.\<close>

definition nickname_lookup :: "account_mapper \<Rightarrow> string list option \<Rightarrow> json \<Rightarrow> string + string option" where
  "nickname_lookup accounts nicknames v =
     (if \<not> py_truthy v then Inr None
      else
        (case v of
           JStr nickname \<Rightarrow>
             if (case nicknames of None \<Rightarrow> False | Some ns \<Rightarrow> nickname \<notin> set ns) then Inr None
             else (case to_account_number accounts nickname of Inl _ \<Rightarrow> Inr None | Inr n \<Rightarrow> Inr (Some n))
         | JList _ \<Rightarrow> Inl (''unhashable type: '' @ py_repr ''list'')
         | JObj _ \<Rightarrow> Inl (''unhashable type: '' @ py_repr ''dict'')
         | _ \<Rightarrow> Inr None))"

definition message_of :: "account_mapper \<Rightarrow> string list option \<Rightarrow> json \<Rightarrow> string + stream_message option" where
  "message_of accounts nicknames msg =
     bind_result (get_or msg ''account_number'' JNull) (\<lambda>v.
     bind_result (nickname_lookup accounts nicknames v) (\<lambda>number.
     case number of
       None \<Rightarrow> Inr None
     | Some account_number \<Rightarrow>
         bind_result (get_or msg ''type'' JNull) (\<lambda>kind.
           if kind = JStr ''order'' then map_sum id (map_option Fill) (fill_event_from_pubsub msg)
           else if kind = JStr ''position'' then
             map_sum id (map_option Position) (position_from_pubsub msg account_number)
           else if kind = JStr ''balance'' then
             map_sum id (Some \<circ> Balance) (balance_from_pubsub msg account_number)
           else Inr None)))"

definition is_object :: "json \<Rightarrow> bool" where
  "is_object v = (case v of JObj _ \<Rightarrow> True | _ \<Rightarrow> False)"

definition parse_payload ::
  "account_mapper \<Rightarrow> string list option \<Rightarrow> json option \<Rightarrow> string + stream_message option" where
  "parse_payload accounts nicknames payload =
     (case payload of
        None \<Rightarrow> Inr None
      | Some msg \<Rightarrow> if is_object msg then message_of accounts nicknames msg else Inr None)"

section \<open>Reconnecting\<close>

definition RECONNECT_INITIAL_SECONDS :: decimal where
  "RECONNECT_INITIAL_SECONDS = 1"

definition RECONNECT_MAX_SECONDS :: decimal where
  "RECONNECT_MAX_SECONDS = 30"

record pubsub_config =
  pc_accounts :: account_mapper
  pc_nicknames :: "string list option"
  pc_max_attempts :: "nat option"

text \<open>What the connection delivers: a notice of \<open>listen()\<close> with its type, the end of \<open>listen()\<close>, or
  an exception; and what the source does.\<close>

datatype pubsub_event = Notice string "json option" | Listen_Ended | Connection_Lost string

datatype source_action = Yields stream_message | Sleeps decimal | Raises string | Ends

definition give_up :: "nat option \<Rightarrow> nat \<Rightarrow> bool" where
  "give_up max_attempts attempts = (case max_attempts of None \<Rightarrow> False | Some k \<Rightarrow> k \<le> attempts)"

definition next_backoff :: "decimal \<Rightarrow> decimal" where
  "next_backoff backoff = min (backoff * 2) RECONNECT_MAX_SECONDS"

fun pubsub_run :: "pubsub_config \<Rightarrow> nat \<Rightarrow> decimal \<Rightarrow> pubsub_event list \<Rightarrow> source_action list" where
  "pubsub_run cfg attempts backoff [] = []"
| "pubsub_run cfg attempts backoff (Listen_Ended # es) = [Ends]"
| "pubsub_run cfg attempts backoff (Connection_Lost e # es) =
     (if give_up (pc_max_attempts cfg) (attempts + 1) then [Raises e]
      else Sleeps backoff # pubsub_run cfg (attempts + 1) (next_backoff backoff) es)"
| "pubsub_run cfg attempts backoff (Notice kind payload # es) =
     (if kind \<noteq> ''message'' then pubsub_run cfg attempts backoff es
      else
        (case parse_payload (pc_accounts cfg) (pc_nicknames cfg) payload of
           Inl e \<Rightarrow>
             (if give_up (pc_max_attempts cfg) (attempts + 1) then [Raises e]
              else Sleeps backoff # pubsub_run cfg (attempts + 1) (next_backoff backoff) es)
         | Inr None \<Rightarrow> pubsub_run cfg attempts backoff es
         | Inr (Some m) \<Rightarrow> Yields m # pubsub_run cfg 0 RECONNECT_INITIAL_SECONDS es))"

definition pubsub_messages :: "pubsub_config \<Rightarrow> pubsub_event list \<Rightarrow> source_action list" where
  "pubsub_messages cfg es = pubsub_run cfg 0 RECONNECT_INITIAL_SECONDS es"

end
