(* ===== verification/Stream_Source.thy ===== *)
theory Stream_Source
  imports Redis_Source
begin

text \<open>
  \<^verbatim>\<open>tt_ledger/ingest/redis_stream_source.py\<close>: the durable source over a Redis stream. The
  generator is a reactive machine: a phase is the await (or the yield) it stands at, with the command
  issued there, and a step consumes the reply, with the reading of the monotonic clock when it arrives. What
  Redis answers, when the consumer resumes the generator and where the run is cut off are arbitrary.
  An entry carries its event type and its payload; the payload is what \<open>json.loads\<close> makes of it.
\<close>

section \<open>Entries\<close>

datatype payload = No_Payload | Not_Json | Payload json

record entry_fields =
  ef_event_type :: "string option"
  ef_payload :: payload

text \<open>The fields of an entry that was trimmed while pending are gone.\<close>

record stream_entry =
  en_id :: string
  en_fields :: "entry_fields option"

record stream_config =
  sc_accounts :: account_mapper
  sc_nicknames :: "string list option"
  sc_reclaim_interval :: decimal
  sc_max_attempts :: "nat option"

definition parse_entry :: "stream_config \<Rightarrow> stream_entry \<Rightarrow> string + stream_message option" where
  "parse_entry cfg e =
     (case en_fields e of
        None \<Rightarrow> Inr None
      | Some f \<Rightarrow>
          if \<not> py_startswith (str0 (ef_event_type f)) ''account.'' then Inr None
          else
            (case ef_payload f of
               Payload msg \<Rightarrow>
                 if is_object msg then message_of (sc_accounts cfg) (sc_nicknames cfg) msg else Inr None
             | _ \<Rightarrow> Inr None))"

section \<open>The machine\<close>

text \<open>Where a batch comes from: a read, or a claim (its cursor, the next cursor, whether it was empty).\<close>

datatype batch_source = From_Read | From_Claim string string bool

datatype phase =
    Creating
  | Claiming string
  | Reading
  | Yielding batch_source string stream_message "stream_entry list"
  | Acking batch_source string "stream_entry list"
  | Pausing
  | Backing_Off
  | Over string

datatype command =
    Create_Group
  | Autoclaim string
  | Read_Group
  | Yield string stream_message
  | Ack string
  | Sleep decimal
  | Raise string

text \<open>\<open>Resumed\<close>: the consumer has handled the message it was given, at that wall clock time, and asks
  for the next one.\<close>

datatype reply =
    Ok
  | Resumed datetime
  | Claimed string "stream_entry list"
  | Received "stream_entry list"
  | Timed_Out
  | Response_Error string
  | Broken string

record source_state =
  ss_attempts :: nat
  ss_backoff :: decimal
  ss_idle_timeouts :: nat
  ss_next_reclaim :: decimal
  ss_phase :: phase

definition MAX_CONSECUTIVE_READ_TIMEOUTS :: nat where
  "MAX_CONSECUTIVE_READ_TIMEOUTS = 3"

definition source_start :: source_state where
  "source_start =
     \<lparr> ss_attempts = 0, ss_backoff = RECONNECT_INITIAL_SECONDS, ss_idle_timeouts = 0,
       ss_next_reclaim = 0, ss_phase = Creating \<rparr>"

definition command_of :: "source_state \<Rightarrow> command" where
  "command_of st =
     (case ss_phase st of
        Creating \<Rightarrow> Create_Group | Claiming cursor \<Rightarrow> Autoclaim cursor | Reading \<Rightarrow> Read_Group
      | Yielding _ i m _ \<Rightarrow> Yield i m | Acking _ i _ \<Rightarrow> Ack i | Pausing \<Rightarrow> Sleep 0
      | Backing_Off \<Rightarrow> Sleep (ss_backoff st) | Over e \<Rightarrow> Raise e)"

text \<open>The exception handler of the connection loop.\<close>

definition fail_with :: "stream_config \<Rightarrow> string \<Rightarrow> source_state \<Rightarrow> source_state" where
  "fail_with cfg e st =
     st\<lparr> ss_attempts := ss_attempts st + 1,
         ss_phase := (if give_up (sc_max_attempts cfg) (ss_attempts st + 1) then Over e else Backing_Off) \<rparr>"

text \<open>The top of the poll loop.\<close>

definition poll_top :: "decimal \<Rightarrow> source_state \<Rightarrow> source_state" where
  "poll_top now st = st\<lparr>ss_phase := (if ss_next_reclaim st \<le> now then Claiming ''0-0'' else Reading)\<rparr>"

definition batch_done :: "stream_config \<Rightarrow> decimal \<Rightarrow> batch_source \<Rightarrow> source_state \<Rightarrow> source_state" where
  "batch_done cfg now src st =
     (case src of
        From_Read \<Rightarrow> poll_top now st
      | From_Claim cursor next_cursor no_entries \<Rightarrow>
          if next_cursor = ''0-0'' \<or> next_cursor = cursor \<or> no_entries
          then st\<lparr>ss_next_reclaim := now + sc_reclaim_interval cfg, ss_phase := Reading\<rparr>
          else st\<lparr>ss_phase := Claiming next_cursor\<rparr>)"

definition deliver ::
  "stream_config \<Rightarrow> decimal \<Rightarrow> batch_source \<Rightarrow> stream_entry list \<Rightarrow> source_state \<Rightarrow> source_state" where
  "deliver cfg now src es st =
     (case es of
        [] \<Rightarrow> batch_done cfg now src st
      | e # rest \<Rightarrow>
          (case parse_entry cfg e of
             Inl err \<Rightarrow> fail_with cfg err st
           | Inr None \<Rightarrow> st\<lparr>ss_phase := Acking src (en_id e) rest\<rparr>
           | Inr (Some m) \<Rightarrow> st\<lparr>ss_phase := Yielding src (en_id e) m rest\<rparr>))"

definition on_connect :: "decimal \<Rightarrow> source_state \<Rightarrow> source_state" where
  "on_connect now st = poll_top now (st\<lparr>ss_next_reclaim := 0, ss_idle_timeouts := 0\<rparr>)"

definition healthy :: "source_state \<Rightarrow> source_state" where
  "healthy st = st\<lparr>ss_idle_timeouts := 0, ss_attempts := 0, ss_backoff := RECONNECT_INITIAL_SECONDS\<rparr>"

definition read_timeout :: "stream_config \<Rightarrow> decimal \<Rightarrow> source_state \<Rightarrow> source_state" where
  "read_timeout cfg now st =
     (let st1 = st\<lparr>ss_idle_timeouts := ss_idle_timeouts st + 1\<rparr>
      in if MAX_CONSECUTIVE_READ_TIMEOUTS \<le> ss_idle_timeouts st1 then fail_with cfg ''TimeoutError'' st1
         else poll_top now st1)"

text \<open>The answers; one that does not belong to its await does not occur, and counts as an error.\<close>

definition answered :: "stream_config \<Rightarrow> decimal \<Rightarrow> reply \<Rightarrow> source_state \<Rightarrow> source_state" where
  "answered cfg now r st =
     (case (ss_phase st, r) of
        (Creating, Ok) \<Rightarrow> on_connect now st
      | (Claiming cursor, Claimed next_cursor es) \<Rightarrow> deliver cfg now (From_Claim cursor next_cursor (es = [])) es st
      | (Reading, Received es) \<Rightarrow>
          if es = [] then (healthy st)\<lparr>ss_phase := Pausing\<rparr> else deliver cfg now From_Read es (healthy st)
      | (Yielding src i m rest, Resumed clock) \<Rightarrow> st\<lparr>ss_phase := Acking src i rest\<rparr>
      | (Acking src i rest, Ok) \<Rightarrow> deliver cfg now src rest st
      | (Pausing, Ok) \<Rightarrow> poll_top now st
      | _ \<Rightarrow> fail_with cfg ''InvalidResponse'' st)"

text \<open>An exception at any await but the sleep before a reconnect goes to the handler.\<close>

fun error_of :: "reply \<Rightarrow> string option" where
  "error_of Timed_Out = Some ''TimeoutError''"
| "error_of (Response_Error e) = Some e"
| "error_of (Broken e) = Some e"
| "error_of _ = None"

text \<open>Creating the group is idempotent.\<close>

definition group_exists :: "string \<Rightarrow> bool" where
  "group_exists e \<longleftrightarrow> py_contains ''BUSYGROUP'' e"

definition step :: "stream_config \<Rightarrow> decimal \<times> reply \<Rightarrow> source_state \<Rightarrow> source_state" where
  "step cfg tr st =
     (case tr of (now, r) \<Rightarrow>
      case ss_phase st of
        Over _ \<Rightarrow> st
      | Backing_Off \<Rightarrow> st\<lparr>ss_backoff := next_backoff (ss_backoff st), ss_phase := Creating\<rparr>
      | ph \<Rightarrow>
          (case error_of r of
             Some e \<Rightarrow>
               if ph = Reading \<and> r = Timed_Out then read_timeout cfg now st
               else if ph = Creating \<and> r = Response_Error e \<and> group_exists e then on_connect now st
               else fail_with cfg e st
           | None \<Rightarrow> answered cfg now r st))"

text \<open>A run records each command with the reply it got.\<close>

fun run_source :: "stream_config \<Rightarrow> (decimal \<times> reply) list \<Rightarrow> source_state \<Rightarrow> (command \<times> reply) list \<times> source_state" where
  "run_source cfg [] st = ([], st)"
| "run_source cfg (tr # trs) st =
     (case run_source cfg trs (step cfg tr st) of (rest, st') \<Rightarrow> ((command_of st, snd tr) # rest, st'))"

inductive reachable :: "stream_config \<Rightarrow> (command \<times> reply) list \<Rightarrow> source_state \<Rightarrow> bool" for cfg where
  start: "reachable cfg [] source_start"
| step: "reachable cfg lg st \<Longrightarrow> reachable cfg (lg @ [(command_of st, r)]) (step cfg (now, r) st)"

lemma reachable_run:
  "reachable cfg lg st \<Longrightarrow> run_source cfg trs st = (lg', st') \<Longrightarrow> reachable cfg (lg @ lg') st'"
proof (induction trs arbitrary: lg st lg')
  case (Cons tr trs)
  obtain rest where rest: "run_source cfg trs (step cfg tr st) = (rest, st')" "lg' = (command_of st, snd tr) # rest"
    using Cons.prems(2) by (auto split: prod.splits)
  have "reachable cfg (lg @ [(command_of st, snd tr)]) (step cfg tr st)"
    using reachable.step [OF Cons.prems(1), of "snd tr" "fst tr"] by simp
  from Cons.IH [OF this rest(1)] rest(2) show ?case by simp
qed simp

section \<open>An acknowledgement follows the handling\<close>

fun entries_of :: "reply \<Rightarrow> stream_entry list" where
  "entries_of (Claimed _ es) = es"
| "entries_of (Received es) = es"
| "entries_of _ = []"

definition seen :: "(command \<times> reply) list \<Rightarrow> stream_entry set" where
  "seen lg = (\<Union>(_, r) \<in> set lg. set (entries_of r))"

lemma seen_simps [simp]: "seen [] = {}" "seen (lg @ [(c, r)]) = seen lg \<union> set (entries_of r)"
  by (auto simp: seen_def)

text \<open>An entry may be acknowledged when it is not for this consumer or the consumer has just come
  back for the next one.\<close>

definition ack_due :: "stream_config \<Rightarrow> (command \<times> reply) list \<Rightarrow> string \<Rightarrow> bool" where
  "ack_due cfg lg i \<longleftrightarrow>
     (\<exists>e \<in> seen lg. en_id e = i \<and>
        (parse_entry cfg e = Inr None \<or>
         (\<exists>m clock lg'. parse_entry cfg e = Inr (Some m) \<and> lg = lg' @ [(Yield i m, Resumed clock)])))"

fun phase_ok :: "stream_config \<Rightarrow> (command \<times> reply) list \<Rightarrow> phase \<Rightarrow> bool" where
  "phase_ok cfg lg (Yielding src i m rest) \<longleftrightarrow>
     (\<exists>e \<in> seen lg. en_id e = i \<and> parse_entry cfg e = Inr (Some m)) \<and> set rest \<subseteq> seen lg"
| "phase_ok cfg lg (Acking src i rest) \<longleftrightarrow> ack_due cfg lg i \<and> set rest \<subseteq> seen lg"
| "phase_ok cfg lg _ \<longleftrightarrow> True"

lemma phase_ok_fail [simp]: "phase_ok cfg lg (ss_phase (fail_with cfg e st))"
  by (simp add: fail_with_def)

lemma phase_ok_poll [simp]: "phase_ok cfg lg (ss_phase (poll_top now st))"
  by (simp add: poll_top_def)

lemma phase_ok_on_connect [simp]: "phase_ok cfg lg (ss_phase (on_connect now st))"
  by (simp add: on_connect_def)

lemma phase_ok_deliver: "set es \<subseteq> seen lg \<Longrightarrow> phase_ok cfg lg (ss_phase (deliver cfg now src es st))"
  by (cases es) (auto simp: deliver_def batch_done_def ack_due_def split: sum.split option.split batch_source.split)

lemma phase_ok_answered:
  assumes "phase_ok cfg lg (ss_phase st)"
  shows "phase_ok cfg (lg @ [(command_of st, r)]) (ss_phase (answered cfg now r st))"
proof (cases "ss_phase st")
  case (Claiming cursor)
  then show ?thesis by (cases r) (simp_all add: answered_def phase_ok_deliver)
next
  case Reading
  then show ?thesis by (cases r) (simp_all add: answered_def phase_ok_deliver)
next
  case (Yielding src i m rest)
  then show ?thesis
    using assms by (cases r) (auto simp: answered_def command_of_def ack_due_def)
next
  case (Acking src i rest)
  then show ?thesis
    using assms by (cases r) (auto simp: answered_def intro!: phase_ok_deliver)
qed (cases r; simp add: answered_def)+

lemma step_cases:
  obtains (over) e where "ss_phase st = Over e" "step cfg (now, r) st = st"
  | (backing_off) "ss_phase st = Backing_Off"
      "step cfg (now, r) st = st\<lparr>ss_backoff := next_backoff (ss_backoff st), ss_phase := Creating\<rparr>"
  | (read_timeout) "ss_phase st = Reading" "r = Timed_Out" "step cfg (now, r) st = read_timeout cfg now st"
  | (busy_group) "ss_phase st = Creating" "step cfg (now, r) st = on_connect now st"
  | (failed) e where "ss_phase st \<noteq> Backing_Off" "\<nexists>e. ss_phase st = Over e" "error_of r = Some e"
      "step cfg (now, r) st = fail_with cfg e st"
  | (answered) "ss_phase st \<noteq> Backing_Off" "\<nexists>e. ss_phase st = Over e" "step cfg (now, r) st = answered cfg now r st"
proof -
  have "(\<exists>e. ss_phase st = Over e \<and> step cfg (now, r) st = st)
    \<or> ss_phase st = Backing_Off
       \<and> step cfg (now, r) st = st\<lparr>ss_backoff := next_backoff (ss_backoff st), ss_phase := Creating\<rparr>
    \<or> ss_phase st = Reading \<and> r = Timed_Out \<and> step cfg (now, r) st = read_timeout cfg now st
    \<or> ss_phase st = Creating \<and> step cfg (now, r) st = on_connect now st
    \<or> ss_phase st \<noteq> Backing_Off \<and> (\<nexists>e. ss_phase st = Over e)
       \<and> (step cfg (now, r) st = answered cfg now r st
         \<or> (\<exists>e. error_of r = Some e \<and> step cfg (now, r) st = fail_with cfg e st))"
    by (cases "error_of r"; cases "ss_phase st") (auto simp: step_def)
  then show ?thesis using that by blast
qed

lemma phase_ok_step:
  assumes "phase_ok cfg lg (ss_phase st)"
  shows "phase_ok cfg (lg @ [(command_of st, r)]) (ss_phase (step cfg (now, r) st))"
  using phase_ok_answered [OF assms]
  by (rule_tac step_cases [of st cfg now r]) (auto simp: read_timeout_def Let_def)

lemma reachable_phase_ok: "reachable cfg lg st \<Longrightarrow> phase_ok cfg lg (ss_phase st)"
  by (induction rule: reachable.induct) (simp add: source_start_def, rule phase_ok_step)

lemma command_Ack: "command_of st = Ack i \<longleftrightarrow> (\<exists>src rest. ss_phase st = Acking src i rest)"
  by (auto simp: command_of_def split: phase.splits)

lemma reachable_ack_due:
  "reachable cfg lg st \<Longrightarrow> lg = pre @ (Ack i, r) # post \<Longrightarrow> ack_due cfg pre i"
proof (induction arbitrary: post rule: reachable.induct)
  case (step lg st r' now)
  show ?case
  proof (cases post rule: rev_cases)
    case Nil
    then have "lg = pre" "command_of st = Ack i" using step.prems by simp_all
    then show ?thesis using reachable_phase_ok [OF step.hyps] by (auto simp: command_Ack)
  next
    case (snoc post' x)
    then show ?thesis using step.prems step.IH [of post'] by simp
  qed
qed simp

text \<open>
  C7 (safety). The stream source acknowledges an entry only when it was delivered to it, and then
  either it is not for this consumer (another account, another kind of event, a trimmed or undecodable entry)
  or the very thing that happened before is that the consumer was given the entry's message and came
  back from handling it. So wherever a run is cut off, an entry whose message was not handled is still
  pending.
\<close>

theorem acknowledged_after_handling:
  assumes "run_source cfg trs source_start = (before @ (Ack i, r) # after, st)"
  shows "\<exists>e \<in> seen before. en_id e = i \<and>
    (parse_entry cfg e = Inr None \<or>
     (\<exists>m clock before'. parse_entry cfg e = Inr (Some m) \<and> before = before' @ [(Yield i m, Resumed clock)]))"
proof -
  have "reachable cfg (before @ (Ack i, r) # after) st"
    using reachable_run [OF reachable.start assms] by simp
  from reachable_ack_due [OF this refl] show ?thesis by (simp add: ack_due_def)
qed

section \<open>Reconnecting\<close>

text \<open>The reconnects since the last read that came back.\<close>

fun is_reconnect :: "command \<times> reply \<Rightarrow> bool" where
  "is_reconnect (Sleep q, _) = (q \<noteq> 0)"
| "is_reconnect _ = False"

fun is_healthy :: "command \<times> reply \<Rightarrow> bool" where
  "is_healthy (Read_Group, Received _) = True"
| "is_healthy _ = False"

definition reconnects :: "(command \<times> reply) list \<Rightarrow> nat" where
  "reconnects lg = length (filter is_reconnect (takeWhile (\<lambda>x. \<not> is_healthy x) (rev lg)))"

lemma reconnects_Nil [simp]: "reconnects [] = 0"
  unfolding reconnects_def by simp

lemma reconnects_snoc [simp]:
  "reconnects (lg @ [x]) = (if is_healthy x then 0 else reconnects lg + (if is_reconnect x then 1 else 0))"
proof -
  have "rev (lg @ [x]) = x # rev lg" by simp
  then show ?thesis unfolding reconnects_def by (cases "is_healthy x"; cases "is_reconnect x") simp_all
qed

definition capped_backoff :: "nat \<Rightarrow> decimal" where
  "capped_backoff k = min (2 ^ k) RECONNECT_MAX_SECONDS"

lemma capped_backoff_0 [simp]: "capped_backoff 0 = RECONNECT_INITIAL_SECONDS"
  by (simp add: capped_backoff_def RECONNECT_INITIAL_SECONDS_def RECONNECT_MAX_SECONDS_def)

lemma next_backoff_capped [simp]: "next_backoff (capped_backoff k) = capped_backoff (Suc k)"
  by (auto simp: capped_backoff_def next_backoff_def RECONNECT_MAX_SECONDS_def min_def)

lemma capped_backoff_bounds: "1 \<le> capped_backoff k" "capped_backoff k \<le> 30"
  by (simp_all add: capped_backoff_def RECONNECT_MAX_SECONDS_def)

definition backoff_ok :: "stream_config \<Rightarrow> (command \<times> reply) list \<Rightarrow> source_state \<Rightarrow> bool" where
  "backoff_ok cfg lg st \<longleftrightarrow>
     ss_backoff st = capped_backoff (reconnects lg) \<and>
     (case ss_phase st of
        Backing_Off \<Rightarrow> ss_attempts st = Suc (reconnects lg)
      | Over e \<Rightarrow> ss_attempts st = Suc (reconnects lg) \<and> give_up (sc_max_attempts cfg) (Suc (reconnects lg))
      | _ \<Rightarrow> ss_attempts st = reconnects lg)"

lemma deliver_phase:
  "ss_phase st \<noteq> Backing_Off \<Longrightarrow> \<nexists>e. ss_phase st = Over e \<Longrightarrow> backoff_ok cfg lg st \<Longrightarrow>
    backoff_ok cfg lg (deliver cfg now src es st)"
  by (auto simp: deliver_def batch_done_def poll_top_def fail_with_def backoff_ok_def
      split: list.splits sum.splits option.splits batch_source.splits phase.splits)

lemma backoff_ok_keep:
  assumes "ss_phase st \<noteq> Backing_Off" "\<nexists>e. ss_phase st = Over e" "backoff_ok cfg lg st"
  shows "backoff_ok cfg lg (fail_with cfg e st)" "backoff_ok cfg lg (poll_top now st)"
    "backoff_ok cfg lg (on_connect now st)"
  using assms
  by (auto simp: backoff_ok_def fail_with_def poll_top_def on_connect_def split: phase.splits)

lemma backoff_ok_log:
  assumes "backoff_ok cfg lg st" "\<not> is_healthy (command_of st, r)" "ss_phase st \<noteq> Backing_Off"
  shows "backoff_ok cfg (lg @ [(command_of st, r)]) st"
  using assms by (auto simp: backoff_ok_def command_of_def split: phase.splits)

lemma backoff_ok_answered:
  assumes "ss_phase st \<noteq> Backing_Off" "\<nexists>e. ss_phase st = Over e" "backoff_ok cfg lg st"
  shows "backoff_ok cfg (lg @ [(command_of st, r)]) (answered cfg now r st)"
proof (cases "is_healthy (command_of st, r)")
  case True
  then obtain es where es: "ss_phase st = Reading" "r = Received es"
    by (cases r) (auto simp: command_of_def split: phase.splits)
  have "backoff_ok cfg (lg @ [(command_of st, r)]) ((healthy st)\<lparr>ss_phase := Reading\<rparr>)"
    using True by (simp add: backoff_ok_def healthy_def)
  moreover have "(healthy st)\<lparr>ss_phase := Reading\<rparr> = healthy st" using es by (simp add: healthy_def)
  ultimately have ok: "backoff_ok cfg (lg @ [(command_of st, r)]) (healthy st)" by simp
  have "ss_phase (healthy st) = Reading" using es by (simp add: healthy_def)
  then show ?thesis
    using es ok deliver_phase [OF _ _ ok, of now From_Read es]
    by (auto simp: answered_def backoff_ok_def split: phase.splits)
next
  case False
  note ok = backoff_ok_log [OF assms(3) False assms(1)]
  note keep = backoff_ok_keep [OF assms(1,2) ok] deliver_phase [OF assms(1,2) ok]
  show ?thesis
    using False assms keep ok
    by (cases "ss_phase st"; cases r) (auto simp: answered_def command_of_def backoff_ok_def)
qed

lemma backoff_ok_step:
  assumes "backoff_ok cfg lg st"
  shows "backoff_ok cfg (lg @ [(command_of st, r)]) (step cfg (now, r) st)"
proof (rule step_cases [of st cfg now r])
  fix e assume "ss_phase st = Over e" "step cfg (now, r) st = st"
  then show ?thesis using assms by (simp add: backoff_ok_def command_of_def)
next
  assume b: "ss_phase st = Backing_Off"
    "step cfg (now, r) st = st\<lparr>ss_backoff := next_backoff (ss_backoff st), ss_phase := Creating\<rparr>"
  then have "ss_backoff st = capped_backoff (reconnects lg)" using assms by (simp add: backoff_ok_def)
  then show ?thesis
    using b assms capped_backoff_bounds(1) [of "reconnects lg"] by (simp add: backoff_ok_def command_of_def)
next
  assume t: "ss_phase st = Reading" "r = Timed_Out" "step cfg (now, r) st = read_timeout cfg now st"
  let ?st1 = "st\<lparr>ss_idle_timeouts := ss_idle_timeouts st + 1\<rparr>" and ?lg = "lg @ [(command_of st, r)]"
  have ok: "backoff_ok cfg ?lg st" using t by (intro backoff_ok_log [OF assms]) simp_all
  show ?thesis
  proof (cases "MAX_CONSECUTIVE_READ_TIMEOUTS \<le> ss_idle_timeouts st + 1")
    case True
    then show ?thesis using t ok by (auto simp: read_timeout_def backoff_ok_def fail_with_def)
  next
    case False
    then have "backoff_ok cfg ?lg ?st1" using t ok by (simp add: backoff_ok_def)
    then show ?thesis using t False backoff_ok_keep(2) [of ?st1] by (simp add: read_timeout_def)
  qed
next
  assume t: "ss_phase st = Creating" "step cfg (now, r) st = on_connect now st"
  then have "\<not> is_healthy (command_of st, r)" by (simp add: command_of_def)
  then show ?thesis using t assms backoff_ok_keep(3) [OF _ _ backoff_ok_log [OF assms]] by simp
next
  fix e assume t: "ss_phase st \<noteq> Backing_Off" "\<nexists>e. ss_phase st = Over e" "error_of r = Some e"
    "step cfg (now, r) st = fail_with cfg e st"
  then have "\<not> is_healthy (command_of st, r)" by (cases r) simp_all
  then show ?thesis using t backoff_ok_keep(1) [OF t(1,2) backoff_ok_log [OF assms _ t(1)]] by simp
next
  assume "ss_phase st \<noteq> Backing_Off" "\<nexists>e. ss_phase st = Over e" "step cfg (now, r) st = answered cfg now r st"
  then show ?thesis using backoff_ok_answered assms by simp
qed

lemma reachable_backoff_ok: "reachable cfg lg st \<Longrightarrow> backoff_ok cfg lg st"
  by (induction rule: reachable.induct) (simp add: source_start_def backoff_ok_def, rule backoff_ok_step)

text \<open>
  C10 (bounds). After the k-th reconnect in a row without a read that came back the source sleeps
  min(2 to the k, 30) seconds, so between one and thirty, it starts over at one second after any successful read, and it
  raises only when the configured number of attempts in a row has failed: without a bound it never gives
  up.
\<close>

theorem reconnects_back_off:
  assumes "run_source cfg trs source_start = (lg, st)"
  shows "(\<forall>q. command_of st = Sleep q \<longrightarrow> q = 0 \<or> q = min (2 ^ reconnects lg) 30 \<and> 1 \<le> q \<and> q \<le> 30)
    \<and> (\<forall>e. command_of st = Raise e \<longrightarrow> (\<exists>k. sc_max_attempts cfg = Some k \<and> k \<le> reconnects lg + 1))"
proof -
  have "backoff_ok cfg lg st"
    using reachable_backoff_ok reachable_run [OF reachable.start assms] by fastforce
  then show ?thesis
    using capped_backoff_bounds [of "reconnects lg"]
    by (auto simp: backoff_ok_def command_of_def give_up_def capped_backoff_def RECONNECT_MAX_SECONDS_def
        split: phase.splits option.splits)
qed

section \<open>A batch\<close>

definition messages_in :: "stream_config \<Rightarrow> stream_entry list \<Rightarrow> (stream_entry \<times> stream_message) list" where
  "messages_in cfg es =
     concat (map (\<lambda>e. case parse_entry cfg e of Inr (Some m) \<Rightarrow> [(e, m)] | _ \<Rightarrow> []) es)"

text \<open>The replies when nothing fails: the consumer handles each message, and Redis takes each
  acknowledgement.\<close>

definition smooth_replies :: "stream_config \<Rightarrow> decimal \<Rightarrow> (stream_entry \<Rightarrow> datetime) \<Rightarrow> stream_entry list \<Rightarrow> (decimal \<times> reply) list" where
  "smooth_replies cfg now clock es =
     concat (map (\<lambda>e. case parse_entry cfg e of Inr (Some m) \<Rightarrow> [(now, Resumed (clock e)), (now, Ok)] | _ \<Rightarrow> [(now, Ok)]) es)"

text \<open>What the consumer does along a run, and which entries the run acknowledges.\<close>

fun consume :: "consumer_config \<Rightarrow> (command \<times> reply) list \<Rightarrow> consumer \<Rightarrow> consumer" where
  "consume ccfg [] c = c"
| "consume ccfg ((Yield i m, Resumed clock) # lg) c = consume ccfg lg (handle_message ccfg clock m c)"
| "consume ccfg (_ # lg) c = consume ccfg lg c"

fun acked :: "(command \<times> reply) list \<Rightarrow> string list" where
  "acked [] = []"
| "acked ((Ack i, Ok) # lg) = i # acked lg"
| "acked (_ # lg) = acked lg"

definition readable :: "stream_config \<Rightarrow> stream_entry list \<Rightarrow> bool" where
  "readable cfg es \<longleftrightarrow> (\<forall>e \<in> set es. \<exists>m. parse_entry cfg e = Inr m)"

definition smooth_log :: "stream_config \<Rightarrow> (stream_entry \<Rightarrow> datetime) \<Rightarrow> stream_entry list \<Rightarrow> (command \<times> reply) list" where
  "smooth_log cfg clock es =
     concat (map (\<lambda>e. case parse_entry cfg e of
          Inr (Some m) \<Rightarrow> [(Yield (en_id e) m, Resumed (clock e)), (Ack (en_id e), Ok)]
        | _ \<Rightarrow> [(Ack (en_id e), Ok)]) es)"

lemma deliver_phase_irrelevant [simp]: "deliver cfg now src es (st\<lparr>ss_phase := ph\<rparr>) = deliver cfg now src es st"
  by (simp add: deliver_def batch_done_def poll_top_def fail_with_def split: list.split batch_source.split sum.split option.split)

lemma smooth_delivery:
  "readable cfg es \<Longrightarrow>
    run_source cfg (smooth_replies cfg now clock es @ trs) (deliver cfg now src (es @ rest) st) =
    (case run_source cfg trs (deliver cfg now src rest st) of (lg, st') \<Rightarrow> (smooth_log cfg clock es @ lg, st'))"
proof (induction es)
  case (Cons e es)
  then have IH: "run_source cfg (smooth_replies cfg now clock es @ trs) (deliver cfg now src (es @ rest) st) =
    (case run_source cfg trs (deliver cfg now src rest st) of (lg, st') \<Rightarrow> (smooth_log cfg clock es @ lg, st'))"
    by (simp add: readable_def)
  obtain r where r: "parse_entry cfg e = Inr r" using Cons.prems by (auto simp: readable_def)
  have d: "deliver cfg now src (e # es @ rest) st =
      st\<lparr>ss_phase := (case r of None \<Rightarrow> Acking src (en_id e) (es @ rest) | Some m \<Rightarrow> Yielding src (en_id e) m (es @ rest))\<rparr>"
    using r by (simp add: deliver_def split: option.split)
  have ack: "step cfg (now, Ok) (st\<lparr>ss_phase := Acking src (en_id e) (es @ rest)\<rparr>) = deliver cfg now src (es @ rest) st"
    by (simp add: step_def answered_def)
  show ?case
    using IH r
    by (cases r)
      (simp_all add: d ack smooth_replies_def smooth_log_def step_def answered_def command_of_def split: prod.splits)
qed (simp add: smooth_replies_def smooth_log_def split: prod.split)

lemma consume_append: "consume ccfg (lg @ lg') c = consume ccfg lg' (consume ccfg lg c)"
  by (induction ccfg lg c rule: consume.induct) simp_all

lemma consume_smooth:
  "readable cfg es \<Longrightarrow>
    consume ccfg (smooth_log cfg clock es) c =
    run_consumer ccfg False (map (\<lambda>(e, m). Arrives (clock e) m) (messages_in cfg es)) c"
  by (induction es arbitrary: c)
    (auto simp: smooth_log_def messages_in_def readable_def split: sum.splits option.splits)

lemma acked_smooth: "readable cfg es \<Longrightarrow> acked (smooth_log cfg clock es) = map en_id es"
  by (induction es) (auto simp: smooth_log_def readable_def split: sum.splits option.splits)

text \<open>
  C8 (liveness). A batch that is read and can be decoded is worked off in full when nothing fails:
  the consumer's state becomes that of \<open>StreamConsumer.run()\<close> over the batch's messages in order, every
  entry is acknowledged, also those that are not for this consumer, and the source polls again, as healthy
  as after a fresh start.
\<close>

theorem batch_reaches_the_ledger:
  assumes "ss_phase st = Reading" "es \<noteq> []" "readable cfg es"
    and "run_source cfg ((now, Received es) # smooth_replies cfg now clock es) st = (lg, st')"
  shows "consume ccfg lg c = run_consumer ccfg False (map (\<lambda>(e, m). Arrives (clock e) m) (messages_in cfg es)) c
    \<and> acked lg = map en_id es \<and> st' = poll_top now (healthy st)"
proof -
  have "step cfg (now, Received es) st = deliver cfg now From_Read es (healthy st)"
    using assms(1,2) by (simp add: step_def answered_def)
  moreover have "command_of st = Read_Group" using assms(1) by (simp add: command_of_def)
  moreover have "deliver cfg now From_Read [] (healthy st) = poll_top now (healthy st)"
    by (simp add: deliver_def batch_done_def)
  ultimately have "lg = (Read_Group, Received es) # smooth_log cfg clock es" "st' = poll_top now (healthy st)"
    using assms(4) smooth_delivery [OF assms(3), of now clock "[]" From_Read "[]" "healthy st"] by auto
  then show ?thesis using assms(3) by (simp add: consume_smooth acked_smooth)
qed

text \<open>
  C9 (error). An entry whose mapping raises poisons its batch, although the source promises to
  acknowledge and skip malformed entries: when such an entry comes up the source drops the connection, it
  gives the consumer nothing of what lies behind it in the batch, and it never acknowledges the
  entry in any run, so the next reclaim meets it again.
\<close>

theorem raising_entry_blocks_its_batch:
  assumes raises: "parse_entry cfg e = Inl err" and "readable cfg es"
  shows "run_source cfg (smooth_replies cfg now clock es) (deliver cfg now src (es @ e # behind) st)
      = (smooth_log cfg clock es, fail_with cfg err st)
    \<and> (\<forall>trs lg st' r. run_source cfg trs source_start = (lg, st') \<longrightarrow>
        (\<forall>e' \<in> seen lg. en_id e' = en_id e \<longrightarrow> e' = e) \<longrightarrow> (Ack (en_id e), r) \<notin> set lg)"
proof (intro conjI allI impI notI)
  have "deliver cfg now src (e # behind) st = fail_with cfg err st"
    using raises by (simp add: deliver_def)
  then show "run_source cfg (smooth_replies cfg now clock es) (deliver cfg now src (es @ e # behind) st)
      = (smooth_log cfg clock es, fail_with cfg err st)"
    using smooth_delivery [OF assms(2), of now clock "[]" src "e # behind" st] by simp
next
  fix trs lg st' r
  assume run: "run_source cfg trs source_start = (lg, st')" and unique: "\<forall>e' \<in> seen lg. en_id e' = en_id e \<longrightarrow> e' = e"
    and ack: "(Ack (en_id e), r) \<in> set lg"
  obtain before after where lg: "lg = before @ (Ack (en_id e), r) # after" using ack by (meson split_list)
  have "reachable cfg lg st'" using reachable_run [OF reachable.start run] by simp
  from reachable_ack_due [OF this lg] obtain e' m
    where "e' \<in> seen before" "en_id e' = en_id e" "parse_entry cfg e' = Inr m" by (auto simp: ack_due_def)
  moreover have "seen before \<subseteq> seen lg" by (auto simp: lg seen_def)
  ultimately have "e' = e" using unique by blast
  with \<open>parse_entry cfg e' = Inr m\<close> raises show False by simp
qed

section \<open>Examples\<close>

definition example_source :: stream_config where
  "example_source =
     \<lparr> sc_accounts = mk_mapper [(''main'', ''5WT1'')] None None None None, sc_nicknames = None,
       sc_reclaim_interval = 60, sc_max_attempts = None \<rparr>"

definition account_entry :: "string \<Rightarrow> json \<Rightarrow> stream_entry" where
  "account_entry i msg =
     \<lparr> en_id = i, en_fields = Some \<lparr> ef_event_type = Some ''account.order'', ef_payload = Payload msg \<rparr> \<rparr>"

definition fill_envelope :: "string \<Rightarrow> json" where
  "fill_envelope order_id =
     JObj [(''type'', JStr ''order''), (''account_number'', JStr ''main''),
       (''data'', JObj [(''order_id'', JStr order_id), (''status'', JStr ''Live'')])]"

definition fill_entry :: "string \<Rightarrow> string \<Rightarrow> stream_entry" where
  "fill_entry i order_id = account_entry i (fill_envelope order_id)"

definition null_entry :: "string \<Rightarrow> stream_entry" where
  "null_entry i = account_entry i (JObj [(''type'', JStr ''order''), (''account_number'', JStr ''main''), (''data'', JNull)])"

definition live_fill :: "string \<Rightarrow> stream_message" where
  "live_fill order_id = Fill \<lparr> fe_tt_order_id = order_id, fe_status = Some ''Live'', fe_average_fill_price = None,
     fe_filled_quantity = None, fe_remaining_quantity = None, fe_filled_at = None \<rparr>"

lemma fill_entry_parses: "parse_entry example_source (fill_entry i ''A7'') = Inr (Some (live_fill ''A7''))"
  by code_simp

lemma null_entry_raises: "parse_entry example_source (null_entry i) = Inl (attribute_error JNull)"
  by code_simp

definition opening_replies :: "(decimal \<times> reply) list" where
  "opening_replies = [(0, Ok), (0, Claimed ''0-0'' [])]"

definition reading :: source_state where
  "reading = source_start\<lparr>ss_next_reclaim := 60, ss_phase := Reading\<rparr>"

lemma opening_run:
  "run_source example_source opening_replies source_start =
    ([(Create_Group, Ok), (Autoclaim ''0-0'', Claimed ''0-0'' [])], reading)"
  by code_simp

lemma acknowledged_after_handling_witness:
  "\<exists>e \<in> seen [(Create_Group, Ok), (Autoclaim ''0-0'', Claimed ''0-0'' []), (Read_Group, Received [fill_entry ''1-0'' ''A7'']),
       (Yield ''1-0'' (live_fill ''A7''), Resumed 5)].
     en_id e = ''1-0'' \<and> parse_entry example_source e = Inr (Some (live_fill ''A7''))"
proof -
  let ?run = "(opening_replies @ [(0, Received [fill_entry ''1-0'' ''A7'']), (0, Resumed 5), (0, Ok)])"
  have run: "fst (run_source example_source ?run source_start) =
      [(Create_Group, Ok), (Autoclaim ''0-0'', Claimed ''0-0'' []), (Read_Group, Received [fill_entry ''1-0'' ''A7'']),
        (Yield ''1-0'' (live_fill ''A7''), Resumed 5)] @ (Ack ''1-0'', Ok) # []"
    by code_simp
  then obtain st where "run_source example_source ?run source_start =
      ([(Create_Group, Ok), (Autoclaim ''0-0'', Claimed ''0-0'' []), (Read_Group, Received [fill_entry ''1-0'' ''A7'']),
        (Yield ''1-0'' (live_fill ''A7''), Resumed 5)] @ (Ack ''1-0'', Ok) # [], st)" by (metis prod.collapse)
  from acknowledged_after_handling [OF this] show ?thesis
    by (simp add: seen_def fill_entry_parses) (simp add: fill_entry_def account_entry_def)?
qed

lemma raising_entry_blocks_its_batch_witness:
  "run_source example_source
      (smooth_replies example_source 0 (\<lambda>_. 5) [fill_entry ''1-0'' ''A7''])
      (deliver example_source 0 From_Read [fill_entry ''1-0'' ''A7'', null_entry ''2-0'', fill_entry ''3-0'' ''B8''] reading)
    = ([(Yield ''1-0'' (live_fill ''A7''), Resumed 5), (Ack ''1-0'', Ok)],
       fail_with example_source (attribute_error JNull) reading)"
  using raising_entry_blocks_its_batch [OF null_entry_raises, of "[fill_entry ''1-0'' ''A7'']" 0 "\<lambda>_. 5"
      From_Read "''2-0''" "[fill_entry ''3-0'' ''B8'']" reading]
  by (simp add: readable_def fill_entry_parses smooth_log_def) (simp add: fill_entry_def account_entry_def)

definition example_batch :: "stream_entry list" where
  "example_batch = [fill_entry ''1-0'' ''A7'', \<lparr> en_id = ''2-0'', en_fields = None \<rparr>]"

lemma batch_reaches_the_ledger_witness:
  "\<exists>lg. run_source example_source ((0, Received example_batch) # smooth_replies example_source 0 (\<lambda>_. 5) example_batch) reading
      = (lg, poll_top 0 (healthy reading))
    \<and> acked lg = [''1-0'', ''2-0'']"
proof -
  obtain lg st' where run: "run_source example_source
      ((0, Received example_batch) # smooth_replies example_source 0 (\<lambda>_. 5) example_batch) reading = (lg, st')"
    by fastforce
  have "readable example_source example_batch"
    by (simp add: readable_def example_batch_def fill_entry_parses) (simp add: parse_entry_def)
  from batch_reaches_the_ledger [OF _ _ this run] show ?thesis
    using run by (simp add: reading_def example_batch_def) (simp add: fill_entry_def account_entry_def)
qed

lemma reconnects_back_off_witness:
  "\<exists>lg st. run_source example_source [(0, Broken ''refused''), (0, Ok), (0, Broken ''refused'')] source_start = (lg, st)
    \<and> command_of st = Sleep 2 \<and> reconnects lg = 1"
proof -
  let ?run = "run_source example_source [(0, Broken ''refused''), (0, Ok), (0, Broken ''refused'')] source_start"
  have run: "?run = (fst ?run, snd ?run)" by simp
  have sleeps: "command_of (snd ?run) = Sleep 2" by code_simp
  have "reconnects (fst ?run) = 1" by code_simp
  moreover have "(2::decimal) = 0 \<or> 2 = min (2 ^ reconnects (fst ?run)) (30::decimal) \<and> 1 \<le> (2::decimal) \<and> (2::decimal) \<le> 30"
    using reconnects_back_off [OF run] sleeps by blast
  ultimately show ?thesis using run sleeps by blast
qed

section \<open>The two transports agree\<close>

text \<open>The messages a run of the pub/sub source yields.\<close>

fun yielded :: "source_action list \<Rightarrow> stream_message list" where
  "yielded [] = []"
| "yielded (Yields m # as) = m # yielded as"
| "yielded (_ # as) = yielded as"

text \<open>
  The envelope is read the same way from either transport: for the same published payloads,
  none of which makes the mapping raise, the messages the pub/sub source yields are those the
  durable source delivers from the batch of the corresponding account entries, whatever the
  reconnects were before.
\<close>

theorem transports_agree:
  assumes "pc_accounts p = sc_accounts cfg" "pc_nicknames p = sc_nicknames cfg"
    and "list_all2 (\<lambda>msg e. en_fields e = Some \<lparr> ef_event_type = Some (''account.'' @ kind), ef_payload = Payload msg \<rparr>) msgs es"
    and "readable cfg es"
  shows "yielded (pubsub_run p attempts backoff (map (\<lambda>msg. Notice ''message'' (Some msg)) msgs))
    = map snd (messages_in cfg es)"
  using assms(3,4)
proof (induction arbitrary: attempts backoff rule: list_all2_induct)
  case (Cons msg msgs e es)
  have "parse_entry cfg e = parse_payload (pc_accounts p) (pc_nicknames p) (Some msg)"
    using Cons.hyps(1) assms(1,2) by (simp add: parse_entry_def parse_payload_def py_startswith_def str0_def)
  moreover obtain m where m: "parse_entry cfg e = Inr m" using Cons.prems by (auto simp: readable_def)
  ultimately have "parse_payload (pc_accounts p) (pc_nicknames p) (Some msg) = Inr m" by simp
  moreover have "readable cfg es" using Cons.prems by (simp add: readable_def)
  ultimately show ?case using Cons.IH m by (cases m) (simp_all add: messages_in_def)
qed (simp add: messages_in_def)

lemma transports_agree_witness:
  "yielded (pubsub_messages \<lparr> pc_accounts = sc_accounts example_source, pc_nicknames = None, pc_max_attempts = None \<rparr>
      [Notice ''message'' (Some (fill_envelope ''A7''))])
    = [live_fill ''A7'']"
proof -
  let ?p = "\<lparr> pc_accounts = sc_accounts example_source, pc_nicknames = None, pc_max_attempts = None \<rparr>"
  have "readable example_source [fill_entry ''1-0'' ''A7'']" by (simp add: readable_def fill_entry_parses)
  from transports_agree [of ?p example_source "''order''" "[fill_envelope ''A7'']" "[fill_entry ''1-0'' ''A7'']", OF _ _ _ this]
  show ?thesis
    by (simp add: pubsub_messages_def messages_in_def fill_entry_parses)
      (simp add: fill_entry_def account_entry_def example_source_def)
qed

end
