(* ===== verification/Broker_Json.thy ===== *)
theory Broker_Json
  imports Redis_Source
begin

text \<open>
  The broker's own JSON: the mappers of \<^verbatim>\<open>tt_ledger/ingest/tastytrade_client.py\<close> that both the REST
  client and the account streamer use, and the streamer of \<^verbatim>\<open>tt_ledger/ingest/tastytrade_stream.py\<close>. A
  mapper answers Inl where it raises; a field the broker documents as a string, a flag or an
  instant and sends as something else is an Inl here, while the code stores the value as it is.
  \<open>datetime.now\<close> is the argument \<open>now\<close>.
\<close>

section \<open>Fields\<close>

definition text_field :: "json \<Rightarrow> string \<Rightarrow> string + string option" where
  "text_field item k = bind_result (get_or item k JNull) text_of"

definition decimal_field :: "json \<Rightarrow> string \<Rightarrow> string + decimal option" where
  "decimal_field item k = bind_result (get_or item k JNull) parse_decimal"

definition instant_field :: "json \<Rightarrow> string \<Rightarrow> string + datetime option" where
  "instant_field item k = bind_result (get_or item k JNull) parse_datetime"

definition instant_of :: "datetime option \<Rightarrow> string + datetime" where
  "instant_of t = (case t of None \<Rightarrow> Inl ''not an instant'' | Some x \<Rightarrow> Inr x)"

definition flag_of :: "json \<Rightarrow> string + bool option" where
  "flag_of v = (case v of JNull \<Rightarrow> Inr None | JBool b \<Rightarrow> Inr (Some b) | _ \<Rightarrow> Inl ''not a flag'')"

section \<open>The mappers\<close>

definition fill_from_json :: "json \<Rightarrow> string + placed_fill" where
  "fill_from_json fill =
     bind_result (bind_result (index_of fill ''fill-id'') string_of) (\<lambda>fill_id.
     bind_result (decimal_field fill ''quantity'') (\<lambda>quantity.
     bind_result (decimal_field fill ''fill-price'') (\<lambda>fill_price.
     bind_result (bind_result (bind_result (index_of fill ''filled-at'') parse_datetime) instant_of) (\<lambda>filled_at.
     bind_result (text_field fill ''destination-venue'') (\<lambda>destination_venue.
     bind_result (text_field fill ''ext-exec-id'') (\<lambda>ext_exec_id.
     bind_result (text_field fill ''ext-group-fill-id'') (\<lambda>ext_group_fill_id.
     Inr \<lparr> pf_fill_id = fill_id, pf_quantity = dec0 quantity, pf_fill_price = dec0 fill_price,
           pf_filled_at = filled_at, pf_destination_venue = destination_venue, pf_ext_exec_id = ext_exec_id,
           pf_ext_group_fill_id = ext_group_fill_id \<rparr>)))))))"

definition leg_from_json :: "json \<Rightarrow> string + placed_leg" where
  "leg_from_json leg =
     bind_result (bind_result (index_of leg ''instrument-type'') string_of) (\<lambda>instrument_type.
     bind_result (bind_result (index_of leg ''symbol'') string_of) (\<lambda>symbol.
     bind_result (bind_result (index_of leg ''action'') string_of) (\<lambda>action.
     bind_result (decimal_field leg ''quantity'') (\<lambda>quantity.
     bind_result (decimal_field leg ''remaining-quantity'') (\<lambda>remaining_quantity.
     bind_result (bind_result (bind_result (get_or leg ''fills'' (JList [])) items_of) (map_result fill_from_json)) (\<lambda>fills.
     Inr \<lparr> pl_instrument_type = instrument_type, pl_symbol = symbol, pl_action = action,
           pl_quantity = dec0 quantity, pl_remaining_quantity = dec0 remaining_quantity, pl_fills = fills \<rparr>))))))"

definition order_from_json :: "datetime \<Rightarrow> json \<Rightarrow> string + placed_order" where
  "order_from_json now item =
     bind_result (bind_result (bind_result (get_or item ''legs'' (JList [])) items_of) (map_result leg_from_json)) (\<lambda>legs.
     bind_result (bind_result (index_of item ''id'') py_str) (\<lambda>order_id.
     bind_result (bind_result (index_of item ''account-number'') py_str) (\<lambda>account_number.
     bind_result (instant_field item ''received-at'') (\<lambda>received_at.
     bind_result (text_field item ''underlying-symbol'') (\<lambda>underlying_symbol.
     bind_result (text_field item ''underlying-instrument-type'') (\<lambda>underlying_instrument_type.
     bind_result (text_field item ''order-type'') (\<lambda>order_type.
     bind_result (text_field item ''time-in-force'') (\<lambda>time_in_force.
     bind_result (text_field item ''gtc-date'') (\<lambda>gtc_date.
     bind_result (decimal_field item ''price'') (\<lambda>price.
     bind_result (decimal_field item ''stop-trigger'') (\<lambda>stop_trigger.
     bind_result (text_field item ''price-effect'') (\<lambda>price_effect.
     bind_result (text_field item ''status'') (\<lambda>status.
     bind_result (text_field item ''reject-reason'') (\<lambda>reject_reason.
     bind_result (text_field item ''complex-order-id'') (\<lambda>complex_order_id.
     bind_result (text_field item ''complex-order-tag'') (\<lambda>complex_order_tag.
     bind_result (instant_field item ''updated-at'') (\<lambda>updated_at.
     bind_result (instant_field item ''terminal-at'') (\<lambda>terminal_at.
     Inr \<lparr> po_id = order_id, po_account_number = account_number,
           po_received_at = (case received_at of None \<Rightarrow> now | Some t \<Rightarrow> t),
           po_legs = legs, po_underlying_symbol = underlying_symbol,
           po_underlying_instrument_type = underlying_instrument_type, po_order_type = order_type,
           po_time_in_force = time_in_force, po_gtc_date = gtc_date, po_price = price,
           po_stop_trigger = stop_trigger, po_price_effect = price_effect, po_status = status,
           po_reject_reason = reject_reason, po_complex_order_id = complex_order_id,
           po_complex_order_tag = complex_order_tag, po_updated_at = updated_at, po_terminal_at = terminal_at \<rparr>))))))))))))))))))"

definition transaction_from_json :: "json \<Rightarrow> string + broker_transaction" where
  "transaction_from_json item =
     bind_result (bind_result (get_or item ''order-id'' JNull) (\<lambda>v. if v = JNull then Inr None else map_sum id Some (py_str v))) (\<lambda>order_id.
     bind_result (bind_result (index_of item ''id'') py_str) (\<lambda>txn_id.
     bind_result (bind_result (index_of item ''account-number'') py_str) (\<lambda>account_number.
     bind_result (text_field item ''underlying-symbol'') (\<lambda>underlying_symbol.
     bind_result (text_field item ''symbol'') (\<lambda>symbol.
     bind_result (text_field item ''instrument-type'') (\<lambda>instrument_type.
     bind_result (text_field item ''transaction-type'') (\<lambda>transaction_type.
     bind_result (text_field item ''transaction-sub-type'') (\<lambda>transaction_sub_type.
     bind_result (text_field item ''action'') (\<lambda>action.
     bind_result (decimal_field item ''quantity'') (\<lambda>quantity.
     bind_result (decimal_field item ''price'') (\<lambda>price.
     bind_result (decimal_field item ''value'') (\<lambda>price_value.
     bind_result (text_field item ''value-effect'') (\<lambda>value_effect.
     bind_result (decimal_field item ''net-value'') (\<lambda>net_value.
     bind_result (text_field item ''net-value-effect'') (\<lambda>net_value_effect.
     bind_result (decimal_field item ''commission'') (\<lambda>commission.
     bind_result (decimal_field item ''clearing-fees'') (\<lambda>clearing_fees.
     bind_result (decimal_field item ''regulatory-fees'') (\<lambda>regulatory_fees.
     bind_result (decimal_field item ''proprietary-index-option-fees'') (\<lambda>proprietary_index_option_fees.
     bind_result (bind_result (get_or item ''is-estimated-fee'' JNull) flag_of) (\<lambda>is_estimated_fee.
     bind_result (text_field item ''description'') (\<lambda>description.
     bind_result (instant_field item ''executed-at'') (\<lambda>executed_at.
     bind_result (bind_result (get_or item ''transaction-date'' JNull) parse_date) (\<lambda>transaction_date.
     Inr \<lparr> bt_id = txn_id, bt_account_number = account_number, bt_order_id = order_id,
           bt_underlying_symbol = underlying_symbol, bt_symbol = symbol, bt_instrument_type = instrument_type,
           bt_transaction_type = transaction_type, bt_transaction_sub_type = transaction_sub_type,
           bt_action = action, bt_quantity = quantity, bt_price = price, bt_value = price_value,
           bt_value_effect = value_effect, bt_net_value = net_value, bt_net_value_effect = net_value_effect,
           bt_commission = commission, bt_clearing_fees = clearing_fees, bt_regulatory_fees = regulatory_fees,
           bt_proprietary_index_option_fees = proprietary_index_option_fees,
           bt_is_estimated_fee = is_estimated_fee, bt_description = description, bt_executed_at = executed_at,
           bt_transaction_date = transaction_date \<rparr>)))))))))))))))))))))))"

definition position_from_json :: "json \<Rightarrow> string + broker_position" where
  "position_from_json item =
     bind_result (get_or item ''multiplier'' JNull) (\<lambda>multiplier.
     bind_result (bind_result (index_of item ''account-number'') py_str) (\<lambda>account_number.
     bind_result (bind_result (index_of item ''symbol'') string_of) (\<lambda>symbol.
     bind_result (decimal_field item ''quantity'') (\<lambda>quantity.
     bind_result (bind_result (get_or item ''quantity-direction'' (JStr [])) string_of) (\<lambda>quantity_direction.
     bind_result (text_field item ''underlying-symbol'') (\<lambda>underlying_symbol.
     bind_result (text_field item ''instrument-type'') (\<lambda>instrument_type.
     bind_result (decimal_field item ''average-open-price'') (\<lambda>average_open_price.
     bind_result (decimal_field item ''mark-price'') (\<lambda>mark_price.
     bind_result (decimal_field item ''close-price'') (\<lambda>close_price.
     bind_result (decimal_field item ''realized-day-gain'') (\<lambda>realized_day_gain.
     bind_result (text_field item ''realized-day-gain-effect'') (\<lambda>realized_day_gain_effect.
     bind_result (if multiplier = JNull then Inr 1 else int_of_float multiplier) (\<lambda>units.
     bind_result (instant_field item ''expires-at'') (\<lambda>expires_at.
     Inr \<lparr> bp_account_number = account_number, bp_symbol = symbol, bp_quantity = dec0 quantity,
           bp_quantity_direction = quantity_direction, bp_underlying_symbol = underlying_symbol,
           bp_instrument_type = instrument_type, bp_average_open_price = average_open_price,
           bp_mark_price = mark_price, bp_close_price = close_price, bp_realized_day_gain = realized_day_gain,
           bp_realized_day_gain_effect = realized_day_gain_effect, bp_multiplier = units,
           bp_expires_at = expires_at \<rparr>))))))))))))))"

definition balance_from_json :: "json \<Rightarrow> string + balance_message" where
  "balance_from_json item =
     bind_result (bind_result (get_or item ''account-number'' (JStr [])) py_str) (\<lambda>account_number.
     bind_result (decimal_field item ''net-liquidating-value'') (\<lambda>net_liquidating_value.
     bind_result (decimal_field item ''cash-balance'') (\<lambda>cash_balance.
     bind_result (decimal_field item ''equity-buying-power'') (\<lambda>equity_buying_power.
     bind_result (decimal_field item ''derivative-buying-power'') (\<lambda>derivative_buying_power.
     bind_result (decimal_field item ''maintenance-requirement'') (\<lambda>maintenance_requirement.
     bind_result (decimal_field item ''pending-cash'') (\<lambda>pending_cash.
     bind_result (decimal_field item ''day-trading-buying-power'') (\<lambda>day_trading_buying_power.
     bind_result (instant_field item ''updated-at'') (\<lambda>captured_at.
     Inr \<lparr> bm_account_number = account_number, bm_raw = item, bm_net_liquidating_value = net_liquidating_value,
           bm_cash_balance = cash_balance, bm_equity_buying_power = equity_buying_power,
           bm_derivative_buying_power = derivative_buying_power,
           bm_maintenance_requirement = maintenance_requirement, bm_pending_cash = pending_cash,
           bm_day_trading_buying_power = day_trading_buying_power, bm_captured_at = captured_at \<rparr>)))))))))"

section \<open>The account streamer\<close>

definition order_notification_to_fill_event :: "datetime \<Rightarrow> json \<Rightarrow> string + fill_event" where
  "order_notification_to_fill_event now data =
     bind_result (order_from_json now data) (\<lambda>po.
     case order_level_fill_fields (po_legs po) (po_price_effect po) of
       (average_fill_price, filled_quantity, remaining_quantity) \<Rightarrow>
         Inr \<lparr> fe_tt_order_id = po_id po, fe_status = po_status po,
               fe_average_fill_price = average_fill_price, fe_filled_quantity = filled_quantity,
               fe_remaining_quantity = remaining_quantity,
               fe_filled_at = (if map_order_status (po_status po) = Some OS_FILLED then po_terminal_at po else None) \<rparr>)"

definition parse_notification :: "datetime \<Rightarrow> json \<Rightarrow> string + stream_message option" where
  "parse_notification now msg =
     bind_result (get_or msg ''type'' JNull) (\<lambda>kind.
     if kind = JNull then Inr None
     else
       bind_result (get_or msg ''data'' (JObj [])) (\<lambda>data.
       if kind = JStr ''Order'' then map_sum id (Some \<circ> Fill) (order_notification_to_fill_event now data)
       else if kind = JStr ''CurrentPosition'' then map_sum id (Some \<circ> Position) (position_from_json data)
       else if kind = JStr ''AccountBalance'' then map_sum id (Some \<circ> Balance) (balance_from_json data)
       else Inr None))"

text \<open>The socket is what it delivers: the acknowledgement of the connect request, then frames, heartbeats
  that fall due (with the token the provider returns or its failure) and the end. A frame is the value \<open>json.loads\<close> gives, or None where
  it raises. A failed heartbeat kills the heartbeat task only.\<close>

datatype socket_event = Frame datetime "json option" | Heartbeat_Due "string + string" | Socket_Closed

datatype socket_action =
    Sends_Connect "string list" string nat
  | Sends_Heartbeat string nat
  | Gives stream_message
  | Fails string

fun streamer_loop :: "bool \<Rightarrow> nat \<Rightarrow> socket_event list \<Rightarrow> socket_action list" where
  "streamer_loop beating next_id [] = []"
| "streamer_loop beating next_id (Socket_Closed # es) = []"
| "streamer_loop beating next_id (Heartbeat_Due r # es) =
     (if \<not> beating then streamer_loop False next_id es
      else
        (case r of
           Inl e \<Rightarrow> streamer_loop False next_id es
         | Inr token \<Rightarrow> Sends_Heartbeat token (next_id + 1) # streamer_loop True (next_id + 1) es))"
| "streamer_loop beating next_id (Frame now payload # es) =
     (case payload of
        None \<Rightarrow> [Fails ''JSONDecodeError'']
      | Some msg \<Rightarrow>
          (case parse_notification now msg of
             Inl e \<Rightarrow> [Fails e]
           | Inr None \<Rightarrow> streamer_loop beating next_id es
           | Inr (Some m) \<Rightarrow> Gives m # streamer_loop beating next_id es))"

definition streamer_messages ::
  "string list \<Rightarrow> nat \<Rightarrow> string + string \<Rightarrow> json option \<Rightarrow> socket_event list \<Rightarrow> socket_action list" where
  "streamer_messages watched next_id token ack es =
     (case token of
        Inl e \<Rightarrow> [Fails e]
      | Inr tok \<Rightarrow>
          Sends_Connect watched tok (next_id + 1) #
          (case ack of
             None \<Rightarrow> [Fails ''JSONDecodeError'']
           | Some a \<Rightarrow>
               (case get_or a ''status'' JNull of
                  Inl e \<Rightarrow> [Fails e]
                | Inr status \<Rightarrow>
                    if status \<noteq> JStr ''ok'' then [Fails ''account-streamer connect failed'']
                    else streamer_loop True (next_id + 1) es)))"

section \<open>Live fills and history\<close>


section \<open>Request numbers\<close>

fun request_ids :: "socket_action list \<Rightarrow> nat list" where
  "request_ids [] = []"
| "request_ids (Sends_Connect _ _ i # as) = i # request_ids as"
| "request_ids (Sends_Heartbeat _ i # as) = i # request_ids as"
| "request_ids (_ # as) = request_ids as"

fun numbered :: "nat \<Rightarrow> nat list \<Rightarrow> bool" where
  "numbered n [] \<longleftrightarrow> True"
| "numbered n (i # is) \<longleftrightarrow> i = n + 1 \<and> numbered (n + 1) is"

lemma loop_numbered: "numbered n (request_ids (streamer_loop beating n es))"
  by (induction beating n es rule: streamer_loop.induct) (auto split: option.split sum.split)

lemma streamer_numbered: "numbered n (request_ids (streamer_messages watched n token ack es))"
  by (simp add: streamer_messages_def loop_numbered split: sum.split option.split)

section \<open>An example\<close>

definition example_order_json :: json where
  "example_order_json =
     JObj [(''id'', JInt 7), (''account-number'', JStr ''5WT1''), (''received-at'', JInt 1750000000000),
       (''status'', JStr ''Filled''), (''terminal-at'', JInt 1750000020000), (''price-effect'', JStr ''Debit''),
       (''legs'', JList [JObj [(''instrument-type'', JStr ''Equity''), (''symbol'', JStr ''SPY''), (''action'', JStr ''Buy to Open''),
          (''quantity'', JInt 10), (''remaining-quantity'', JInt 0),
          (''fills'', JList [JObj [(''fill-id'', JStr ''f1''), (''quantity'', JInt 10), (''fill-price'', JFloat (2405 / 4)),
             (''filled-at'', JInt 1750000060000)]])]])]"

definition example_known_order :: order_row where
  "example_known_order =
     (broker_order (case order_from_json 0 example_order_json of Inr po \<Rightarrow> po) ''main'' None (None, None, None) None)
       \<lparr> o_origin := ZTS, o_status_message := Some ''accepted'' \<rparr>"

definition example_orders :: ledger where
  "example_orders = snd (upsert_orders [example_known_order] (ledger_empty 0 (\<lambda>_. [])))"



end
