(* ===== verification/Rest_Client.thy ===== *)
theory Rest_Client
  imports Broker_Json
begin

text \<open>
  The REST client of \<^verbatim>\<open>tt_ledger/ingest/tastytrade_client.py\<close>: the access token, a request with its
  one retry, the reading of pages and the four calls of the broker protocol. The server and the wall
  clock are parameters, functions of the requests sent so far: a response with its status, its text
  and the value of \<open>resp.json()\<close> (None where it raises), or an exception of the transport.
\<close>

section \<open>Requests and responses\<close>

type_synonym query_params = "(string, string) dict"

datatype request = Post_Token | Get string query_params string

record response =
  rp_status :: nat
  rp_text :: string
  rp_json :: "json option"

record server =
  sv_respond :: "request list \<Rightarrow> string + response"
  sv_now :: "request list \<Rightarrow> datetime"

text \<open>The client keeps its token and its expiry; the requests it has sent are the newest first.\<close>

record rest_client =
  rc_access_token :: "string option"
  rc_token_expires_at :: "datetime option"
  rc_sent :: "request list"

definition rest_start :: rest_client where
  "rest_start = \<lparr> rc_access_token = None, rc_token_expires_at = None, rc_sent = [] \<rparr>"

definition send :: "server \<Rightarrow> request \<Rightarrow> rest_client \<Rightarrow> (string + response) \<times> rest_client" where
  "send sv req st =
     (let st1 = st\<lparr>rc_sent := req # rc_sent st\<rparr> in (sv_respond sv (rc_sent st1), st1))"

section \<open>The token\<close>

definition TOKEN_LIFETIME_FALLBACK_SECONDS :: int where
  "TOKEN_LIFETIME_FALLBACK_SECONDS = 900"

definition now_with_margin :: "datetime \<Rightarrow> int \<Rightarrow> datetime" where
  "now_with_margin now expires_in_seconds = now + max (expires_in_seconds - 60) 60 * 1000000"

text \<open>\<open>int(v)\<close>.\<close>

definition int_of_json :: "json \<Rightarrow> string + int" where
  "int_of_json v =
     (case v of
        JInt n \<Rightarrow> Inr n
      | JBool b \<Rightarrow> Inr (if b then 1 else 0)
      | JFloat q \<Rightarrow> Inr (py_int q)
      | JStr s \<Rightarrow> (case signed_int (py_strip s) of
            None \<Rightarrow> Inl (''invalid literal for int() with base 10: '' @ py_repr s) | Some n \<Rightarrow> Inr n)
      | _ \<Rightarrow> Inl ''TypeError'')"

definition token_error :: string where
  "token_error = ''Unexpected OAuth token response shape''"

definition authenticate :: "server \<Rightarrow> rest_client \<Rightarrow> (string + unit) \<times> rest_client" where
  "authenticate sv st =
     (case send sv Post_Token st of
        (Inl e, st1) \<Rightarrow> (Inl e, st1)
      | (Inr resp, st1) \<Rightarrow>
          if 400 \<le> rp_status resp
          then (Inl (''OAuth token exchange failed: '' @ show_nat (rp_status resp) @ '' '' @ rp_text resp), st1)
          else
            (case rp_json resp of
               None \<Rightarrow> (Inl ''JSONDecodeError'', st1)
             | Some body \<Rightarrow>
                 (case index_of body ''access_token'' of
                    Inl e \<Rightarrow> (Inl token_error, st1)
                  | Inr v \<Rightarrow>
                      (case string_of v of
                         Inl e \<Rightarrow> (Inl e, st1)
                       | Inr token \<Rightarrow>
                           let st2 = st1\<lparr>rc_access_token := Some token\<rparr> in
                           (case bind_result (get_or body ''expires_in'' (JInt TOKEN_LIFETIME_FALLBACK_SECONDS)) int_of_json of
                              Inl e \<Rightarrow> (Inl e, st2)
                            | Inr expires_in \<Rightarrow>
                                (Inr (), st2\<lparr>rc_token_expires_at :=
                                   Some (now_with_margin (sv_now sv (rc_sent st2)) expires_in)\<rparr>))))))"

definition token_valid :: "server \<Rightarrow> rest_client \<Rightarrow> bool" where
  "token_valid sv st \<longleftrightarrow>
     rc_access_token st \<noteq> None \<and>
     (case rc_token_expires_at st of None \<Rightarrow> False | Some t \<Rightarrow> sv_now sv (rc_sent st) < t)"

definition ensure_token :: "server \<Rightarrow> rest_client \<Rightarrow> (string + string) \<times> rest_client" where
  "ensure_token sv st =
     (if token_valid sv st then (Inr (the (rc_access_token st)), st)
      else
        (case authenticate sv st of
           (Inl e, st1) \<Rightarrow> (Inl e, st1)
         | (Inr _, st1) \<Rightarrow> (Inr (the (rc_access_token st1)), st1)))"

section \<open>A request\<close>

text \<open>The broker documents the code and the message of an error as strings.\<close>

definition error_text :: "json \<Rightarrow> string" where
  "error_text v = (case py_str v of Inl _ \<Rightarrow> [] | Inr s \<Rightarrow> s)"

definition raise_for_error :: "response \<Rightarrow> string + unit" where
  "raise_for_error resp =
     (if rp_status resp < 400 then Inr ()
      else
        (let message = (\<lambda>code text. ''TastyTrade API error '' @ show_nat (rp_status resp) @ '' ['' @ code @ '']: '' @ text) in
         case rp_json resp of
           None \<Rightarrow> Inl (message ''unknown'' (rp_text resp))
         | Some body \<Rightarrow>
             bind_result (get_or body ''error'' (JObj [])) (\<lambda>err.
             bind_result (get_or err ''code'' (JStr ''unknown'')) (\<lambda>code.
             bind_result (get_or err ''message'' (JStr (rp_text resp))) (\<lambda>text.
               Inl (message (error_text code) (error_text text)))))))"

definition finish :: "response \<Rightarrow> string + json" where
  "finish resp =
     bind_result (raise_for_error resp) (\<lambda>_.
       case rp_json resp of None \<Rightarrow> Inl ''JSONDecodeError'' | Some body \<Rightarrow> Inr body)"

definition rest_get :: "server \<Rightarrow> string \<Rightarrow> (string, string option) dict \<Rightarrow> rest_client \<Rightarrow> (string + json) \<times> rest_client" where
  "rest_get sv path params st =
     (case ensure_token sv st of
        (Inl e, st1) \<Rightarrow> (Inl e, st1)
      | (Inr token, st1) \<Rightarrow>
          let clean = concat (map (\<lambda>(k, v). case v of None \<Rightarrow> [] | Some x \<Rightarrow> [(k, x)]) params) in
          (case send sv (Get path clean token) st1 of
             (Inl e, st2) \<Rightarrow> (Inl e, st2)
           | (Inr resp, st2) \<Rightarrow>
               if rp_status resp \<noteq> 401 then (finish resp, st2)
               else
                 (case authenticate sv st2 of
                    (Inl e, st3) \<Rightarrow> (Inl e, st3)
                  | (Inr _, st3) \<Rightarrow>
                      (case send sv (Get path clean (the (rc_access_token st3))) st3 of
                         (Inl e, st4) \<Rightarrow> (Inl e, st4)
                       | (Inr resp', st4) \<Rightarrow> (finish resp', st4)))))"

section \<open>Pages\<close>

definition DEFAULT_PER_PAGE :: nat where
  "DEFAULT_PER_PAGE = 250"

definition ORDERS_PER_PAGE :: nat where
  "ORDERS_PER_PAGE = 200"

definition page_params :: "(string, string option) dict \<Rightarrow> nat \<Rightarrow> nat \<Rightarrow> (string, string option) dict" where
  "page_params params offset per_page =
     dict_set ''per-page'' (Some (show_nat per_page)) (dict_set ''page-offset'' (Some (show_nat offset)) params)"

definition page_items :: "json \<Rightarrow> string + json list" where
  "page_items body =
     bind_result (get_or body ''data'' (JObj [])) (\<lambda>data.
     bind_result (get_or data ''items'' (JList [])) items_of)"

text \<open>\<open>page_offset >= total_pages\<close>.\<close>

definition reached :: "nat \<Rightarrow> json \<Rightarrow> string + bool" where
  "reached offset total_pages =
     (case total_pages of
        JInt n \<Rightarrow> Inr (n \<le> int offset)
      | JFloat q \<Rightarrow> Inr (q \<le> of_nat offset)
      | JBool b \<Rightarrow> Inr (of_bool b \<le> offset)
      | _ \<Rightarrow> Inl ''TypeError'')"

definition page_step :: "nat \<Rightarrow> json list \<Rightarrow> json \<Rightarrow> string + json list \<times> bool" where
  "page_step offset items body =
     bind_result (page_items body) (\<lambda>new_items.
     bind_result (get_or body ''pagination'' (JObj [])) (\<lambda>pagination.
     bind_result (get_or pagination ''total-pages'' (JInt 1)) (\<lambda>total_pages.
       if new_items = [] then Inr (items, True)
       else bind_result (reached (offset + 1) total_pages) (\<lambda>ends. Inr (items @ new_items, ends)))))"

text \<open>The loop asks until a page is empty or the last; a server that always promises one more page
  keeps it going, and then the result is None.\<close>

partial_function (option) get_pages ::
  "server \<Rightarrow> string \<Rightarrow> (string, string option) dict \<Rightarrow> nat \<Rightarrow> nat \<Rightarrow> json list \<Rightarrow> rest_client
     \<Rightarrow> ((string + json list) \<times> rest_client) option" where
  "get_pages sv path params per_page offset items st =
     (case rest_get sv path (page_params params offset per_page) st of
        (Inl e, st1) \<Rightarrow> Some (Inl e, st1)
      | (Inr body, st1) \<Rightarrow>
          (case page_step offset items body of
             Inl e \<Rightarrow> Some (Inl e, st1)
           | Inr p \<Rightarrow>
               if snd p then Some (Inr (fst p), st1)
               else get_pages sv path params per_page (offset + 1) (fst p) st1))"

definition get_all_pages ::
  "server \<Rightarrow> string \<Rightarrow> (string, string option) dict \<Rightarrow> nat \<Rightarrow> rest_client \<Rightarrow> ((string + json list) \<times> rest_client) option" where
  "get_all_pages sv path params per_page st = get_pages sv path params per_page 0 [] st"

section \<open>The broker protocol\<close>

definition account_path :: "string \<Rightarrow> string \<Rightarrow> string" where
  "account_path account_number what = ''/accounts/'' @ account_number @ ''/'' @ what"

definition date_window :: "date \<Rightarrow> date \<Rightarrow> (string, string option) dict" where
  "date_window start stop =
     [(''start-date'', Some (isoformat_date start)), (''end-date'', Some (isoformat_date stop))]"

definition parse_items ::
  "(json \<Rightarrow> string + 'a) \<Rightarrow> ((string + json list) \<times> rest_client) option \<Rightarrow> ((string + 'a list) \<times> rest_client) option" where
  "parse_items f answer = map_option (\<lambda>(r, st). (bind_result r (map_result f), st)) answer"

definition rest_order_history ::
  "server \<Rightarrow> datetime \<Rightarrow> string \<Rightarrow> date \<Rightarrow> date \<Rightarrow> rest_client \<Rightarrow> ((string + placed_order list) \<times> rest_client) option" where
  "rest_order_history sv now account_number start stop st =
     parse_items (order_from_json now)
       (get_all_pages sv (account_path account_number ''orders'') (date_window start stop) ORDERS_PER_PAGE st)"

definition rest_transaction_history ::
  "server \<Rightarrow> string \<Rightarrow> date \<Rightarrow> date \<Rightarrow> rest_client \<Rightarrow> ((string + broker_transaction list) \<times> rest_client) option" where
  "rest_transaction_history sv account_number start stop st =
     parse_items transaction_from_json
       (get_all_pages sv (account_path account_number ''transactions'') (date_window start stop) DEFAULT_PER_PAGE st)"

definition rest_positions :: "server \<Rightarrow> string \<Rightarrow> rest_client \<Rightarrow> (string + broker_position list) \<times> rest_client" where
  "rest_positions sv account_number st =
     (case rest_get sv (account_path account_number ''positions'') [] st of
        (r, st1) \<Rightarrow> (bind_result (bind_result r page_items) (map_result position_from_json), st1))"

definition rest_balances :: "server \<Rightarrow> string \<Rightarrow> rest_client \<Rightarrow> (string + balance_message) \<times> rest_client" where
  "rest_balances sv account_number st =
     (case rest_get sv (account_path account_number ''balances'') [] st of
        (r, st1) \<Rightarrow> (bind_result r (\<lambda>body. bind_result (get_or body ''data'' (JObj [])) balance_from_json), st1))"

section \<open>What a call sends\<close>

lemma send_result:
  assumes "send sv req st = (r, st')"
  shows "rc_sent st' = req # rc_sent st" "r = sv_respond sv (req # rc_sent st)" "rc_access_token st' = rc_access_token st"
  using assms by (auto simp: send_def Let_def)

lemma authenticate_sends:
  assumes "authenticate sv st = (r, st')"
  shows "rc_sent st' = Post_Token # rc_sent st" "r = Inr () \<Longrightarrow> \<exists>token. rc_access_token st' = Some token"
proof -
  obtain r1 st1 where s: "send sv Post_Token st = (r1, st1)" by (metis surj_pair)
  note sent = send_result [OF s]
  show "rc_sent st' = Post_Token # rc_sent st"
    using assms s sent
    by (auto simp: authenticate_def Let_def split: sum.splits option.splits if_splits)
  show "\<exists>token. rc_access_token st' = Some token" if "r = Inr ()"
    using assms s that
    by (auto simp: authenticate_def Let_def split: sum.splits option.splits if_splits)
qed

lemma ensure_token_sends:
  assumes "ensure_token sv st = (r, st')"
  shows "\<exists>new. rc_sent st' = new @ rc_sent st \<and> new \<in> {[], [Post_Token]} \<and>
    (\<forall>token. r = Inr token \<longrightarrow> rc_access_token st' = Some token)"
proof (cases "token_valid sv st")
  case True
  then show ?thesis using assms by (auto simp: ensure_token_def token_valid_def)
next
  case False
  obtain r1 st1 where a: "authenticate sv st = (r1, st1)" by (metis surj_pair)
  show ?thesis
    using assms False a authenticate_sends [OF a] by (auto simp: ensure_token_def split: sum.splits)
qed

lemma ensure_token_failed: "ensure_token sv st = (Inl e, st') \<Longrightarrow> rc_sent st' = Post_Token # rc_sent st"
  using authenticate_sends(1) [of sv st] by (auto simp: ensure_token_def split: if_splits prod.splits sum.splits)

definition given_params :: "(string, string option) dict \<Rightarrow> query_params" where
  "given_params params = concat (map (\<lambda>(k, v). case v of None \<Rightarrow> [] | Some x \<Rightarrow> [(k, x)]) params)"

text \<open>The requests of one call, newest first: the token is renewed at most once before the first try
  and once between the first and the second.\<close>

definition call_requests :: "string \<Rightarrow> query_params \<Rightarrow> request list set" where
  "call_requests path ps =
     {[Post_Token]} \<union>
     {tries @ auth |tries auth t t'. auth \<in> {[], [Post_Token]} \<and>
        tries \<in> {[Get path ps t], [Post_Token, Get path ps t], [Get path ps t', Post_Token, Get path ps t]}}"

lemma call_requestsI:
  "auth \<in> {[], [Post_Token]} \<Longrightarrow>
    tries \<in> {[Get path ps t], [Post_Token, Get path ps t], [Get path ps t', Post_Token, Get path ps t]} \<Longrightarrow>
    tries @ auth \<in> call_requests path ps"
  unfolding call_requests_def by blast

lemma finish_Inr: "finish resp = Inr body \<longleftrightarrow> rp_status resp < 400 \<and> rp_json resp = Some body"
  by (auto simp: finish_def raise_for_error_def Let_def bind_result_def not_less split: option.splits sum.splits)

text \<open>
  C22 (safety). A request is tried at most twice and the token renewed at most twice, once because the
  client saw it expire and once because the server refused it; what comes back as a result is
  the body of the last response, which the server gave with a success status to the path
  and the parameters asked for (without the absent ones) under the token the client now holds.
\<close>

theorem request_retried_once:
  assumes "rest_get sv path params st = (r, st')"
  shows "\<exists>new \<in> call_requests path (given_params params). rc_sent st' = new @ rc_sent st
    \<and> (\<forall>body. r = Inr body \<longrightarrow>
        (\<exists>token resp. rc_access_token st' = Some token \<and> hd new = Get path (given_params params) token
          \<and> sv_respond sv (rc_sent st') = Inr resp \<and> rp_status resp < 400 \<and> rp_json resp = Some body))"
proof -
  let ?get = "Get path (given_params params)"
  obtain r1 st1 where ensured: "ensure_token sv st = (r1, st1)" by (metis surj_pair)
  obtain auth where auth: "rc_sent st1 = auth @ rc_sent st" "auth \<in> {[], [Post_Token]}"
      "\<And>token. r1 = Inr token \<Longrightarrow> rc_access_token st1 = Some token"
    using ensure_token_sends [OF ensured] by blast
  show ?thesis
  proof (cases r1)
    case (Inl e)
    then have "auth = [Post_Token]" "r = Inl e" "st' = st1"
      using assms ensured ensure_token_failed [OF ensured [unfolded Inl]] auth by (auto simp: rest_get_def)
    then show ?thesis using auth(1) by (auto simp: call_requests_def)
  next
    case (Inr token)
    obtain r2 st2 where first: "send sv (?get token) st1 = (r2, st2)" by (metis surj_pair)
    have sent2: "rc_sent st2 = [?get token] @ auth @ rc_sent st" using send_result [OF first] auth by simp
    show ?thesis
    proof (cases "\<exists>resp. r2 = Inr resp \<and> rp_status resp = 401")
      case False
      have in_calls: "[?get token] @ auth \<in> call_requests path (given_params params)"
        by (rule call_requestsI [OF auth(2), of _ _ _ token]) simp
      have "st' = st2" "\<And>body. r = Inr body \<Longrightarrow> \<exists>resp. r2 = Inr resp \<and> finish resp = Inr body"
        using assms ensured Inr first False
        by (auto simp: rest_get_def given_params_def [symmetric] Let_def split: sum.splits if_splits)
      then show ?thesis
        using sent2 in_calls auth(3) [OF Inr] send_result [OF first]
        by (intro bexI [OF _ in_calls]) (auto simp: finish_Inr)
    next
      case True
      obtain r3 st3 where renewed: "authenticate sv st2 = (r3, st3)" by (metis surj_pair)
      have sent3: "rc_sent st3 = [Post_Token, ?get token] @ auth @ rc_sent st"
        using authenticate_sends [OF renewed] sent2 by simp
      show ?thesis
      proof (cases r3)
        case (Inl e)
        have in_calls: "[Post_Token, ?get token] @ auth \<in> call_requests path (given_params params)"
          by (rule call_requestsI [OF auth(2), of _ _ _ token]) simp
        have "st' = st3" "r = Inl e"
          using assms ensured Inr first True renewed Inl
          by (auto simp: rest_get_def given_params_def [symmetric] Let_def)
        then show ?thesis using sent3 by (intro bexI [OF _ in_calls]) simp
      next
        case (Inr u)
        obtain token' where token': "rc_access_token st3 = Some token'"
          using authenticate_sends(2) [OF renewed] Inr by auto
        obtain r4 st4 where second: "send sv (?get token') st3 = (r4, st4)" by (metis surj_pair)
        have in_calls: "[?get token', Post_Token, ?get token] @ auth \<in> call_requests path (given_params params)"
          by (rule call_requestsI [OF auth(2), of _ _ _ token token']) simp
        have "st' = st4" "\<And>body. r = Inr body \<Longrightarrow> \<exists>resp. r4 = Inr resp \<and> finish resp = Inr body"
          using assms ensured \<open>r1 = Inr token\<close> first True renewed Inr token' second
          by (auto simp: rest_get_def given_params_def [symmetric] Let_def split: sum.splits)
        then show ?thesis
          using sent3 token' send_result [OF second] by (intro bexI [OF _ in_calls]) (auto simp: finish_Inr)
      qed
    qed
  qed
qed

section \<open>Reading all pages\<close>

definition paged_body :: "nat \<Rightarrow> json list \<Rightarrow> nat \<Rightarrow> json" where
  "paged_body per_page xs k =
     JObj [(''data'', JObj [(''items'', JList (take per_page (drop (k * per_page) xs)))]),
           (''pagination'', JObj [(''total-pages'', JInt (int ((length xs + per_page - 1) div per_page)))])]"

lemma page_step_paged:
  assumes "0 < per_page"
  shows "page_step k (take (k * per_page) xs) (paged_body per_page xs k) =
    Inr (take ((k + 1) * per_page) xs, length xs \<le> (k + 1) * per_page)"
proof -
  have "take (k * per_page) xs @ take per_page (drop (k * per_page) xs) = take ((k + 1) * per_page) xs"
    by (simp add: take_add [symmetric] add.commute)
  moreover have "(length xs + per_page - 1) div per_page \<le> k + 1 \<longleftrightarrow> length xs \<le> (k + 1) * per_page"
    using assms div_less_iff_less_mult [of per_page "length xs + per_page - 1" "k + 2"] by auto
  moreover have "reached (k + 1) (JInt (int n)) = Inr (n \<le> k + 1)" for n
    by (simp add: reached_def) linarith
  ultimately show ?thesis
    unfolding page_step_def paged_body_def page_items_def
    by (auto simp: get_or_def items_of_def simp del: of_nat_div)
qed

lemma get_pages_paged:
  assumes "0 < per_page"
    and "\<And>k st. fst (rest_get sv path (page_params params k per_page) st) = Inr (paged_body per_page xs k)"
  shows "\<exists>st'. get_pages sv path params per_page k (take (k * per_page) xs) st = Some (Inr xs, st')"
proof (induction "length xs - k * per_page" arbitrary: k st rule: less_induct)
  case less
  obtain st1 where get: "rest_get sv path (page_params params k per_page) st = (Inr (paged_body per_page xs k), st1)"
    using assms(2) [of k st] by (metis prod.collapse)
  show ?case
  proof (cases "length xs \<le> (k + 1) * per_page")
    case True
    then show ?thesis
      by (subst get_pages.simps) (simp add: get page_step_paged [OF assms(1)])
  next
    case False
    then have "length xs - (k + 1) * per_page < length xs - k * per_page" using assms(1) by simp
    from less.hyps [OF this, of st1] False show ?thesis
      by (subst get_pages.simps) (simp add: get page_step_paged [OF assms(1)])
  qed
qed

text \<open>
  C23 (termination). Reading all pages ends, with the whole list in order and nothing twice, whatever
  its length and the page size: for every server that answers a request for a page with that page of a
  list and the number of pages there are.
\<close>

theorem all_pages_read:
  assumes "0 < per_page"
    and "\<And>k st. fst (rest_get sv path (page_params params k per_page) st) = Inr (paged_body per_page xs k)"
  shows "\<exists>st'. get_all_pages sv path params per_page st = Some (Inr xs, st')"
  using get_pages_paged [OF assms, of 0 st] by (simp add: get_all_pages_def)


section \<open>Examples\<close>

text \<open>A server with one valid token that serves a list in pages of two.\<close>

definition answer_with :: "nat \<Rightarrow> json \<Rightarrow> string + response" where
  "answer_with status body = Inr \<lparr> rp_status = status, rp_text = [], rp_json = Some body \<rparr>"

fun example_respond :: "json list \<Rightarrow> request list \<Rightarrow> string + response" where
  "example_respond xs [] = Inl ''no request''"
| "example_respond xs (Post_Token # _) = answer_with 200 (JObj [(''access_token'', JStr ''T'')])"
| "example_respond xs (Get path ps token # _) =
     (if token \<noteq> ''T'' then answer_with 401 (JObj [])
      else answer_with 200 (paged_body 2 xs (digits_value (dict_get_or ps ''page-offset'' ''0''))))"

definition example_server :: "json list \<Rightarrow> server" where
  "example_server xs = \<lparr> sv_respond = example_respond xs, sv_now = \<lambda>_. 0 \<rparr>"

lemma example_send:
  "send (example_server xs) req st = (example_respond xs (req # rc_sent st), st\<lparr>rc_sent := req # rc_sent st\<rparr>)"
  by (simp add: send_def example_server_def)

lemma example_authenticate:
  "authenticate (example_server xs) st =
    (Inr (), st\<lparr>rc_sent := Post_Token # rc_sent st, rc_access_token := Some ''T'',
                rc_token_expires_at := Some 840000000\<rparr>)"
  by (simp add: authenticate_def example_send answer_with_def Let_def index_of_def get_or_def
      string_of_def int_of_json_def now_with_margin_def TOKEN_LIFETIME_FALLBACK_SECONDS_def)
    (simp add: example_server_def)

lemmas example_calls = rest_get_def ensure_token_def example_send Let_def example_authenticate answer_with_def finish_Inr

lemma example_pages:
  "fst (rest_get (example_server xs) path (page_params [] k 2) st) = Inr (paged_body 2 xs k)"
  by (cases "token_valid (example_server xs) st"; cases "the (rc_access_token st) = ''T''")
    (simp_all add: example_calls page_params_def dict_get_or_def)

lemma all_pages_read_witness:
  "\<exists>st. get_all_pages (example_server [JInt 1, JInt 2, JInt 3]) ''/accounts/5WT1/orders'' [] 2 rest_start
    = Some (Inr [JInt 1, JInt 2, JInt 3], st)"
  by (rule all_pages_read) (simp_all add: example_pages)

definition stale_client :: rest_client where
  "stale_client = \<lparr> rc_access_token = Some ''old'', rc_token_expires_at = Some 1, rc_sent = [] \<rparr>"

lemma request_retried_once_witness:
  "\<exists>st. rest_get (example_server []) ''/p'' [] stale_client = (Inr (paged_body 2 [] 0), st)
    \<and> rc_sent st \<in> call_requests ''/p'' [] \<and> hd (rc_sent st) = Get ''/p'' [] ''T''"
proof -
  have "token_valid (example_server []) stale_client"
    by (simp add: token_valid_def stale_client_def example_server_def)
  then have "\<exists>st. rest_get (example_server []) ''/p'' [] stale_client = (Inr (paged_body 2 [] 0), st) \<and> rc_access_token st = Some ''T''"
    by (simp add: example_calls stale_client_def dict_get_or_def digits_value_def)
  then obtain st where get: "rest_get (example_server []) ''/p'' [] stale_client = (Inr (paged_body 2 [] 0), st)"
    "rc_access_token st = Some ''T''" by blast
  have "rc_sent stale_client = []" "given_params [] = []" by (simp_all add: stale_client_def given_params_def)
  then show ?thesis using request_retried_once [OF get(1)] get by fastforce
qed

end
