(* ===== verification/Remap.thy ===== *)
theory Remap
  imports Attribution
begin

text \<open>
  Operator-driven attribution (\<^verbatim>\<open>tt_ledger/ingest/remap.py\<close>). Each operation returns the error
  it raises or the trade rows it reports, with the ledger it leaves; an error leaves what was
  written before it. Messages quote names with \<open>repr\<close>, modelled for names without quotes and
  backslashes; a dash outside ASCII is written as a hyphen. \<open>regroup_transactions\<close> walks a set of ids in an order Python leaves open: the
  model takes the source groups by first occurrence and the target last.
\<close>

section \<open>Operations\<close>

definition adjustment :: "nat \<Rightarrow> datetime \<Rightarrow> string \<Rightarrow> event_row" where
  "adjustment pk now note =
     (event_default pk EV_ADJUSTMENT)\<lparr> ev_event_at := Some now, ev_notes := Some note \<rparr>"

definition group_not_found :: "string \<Rightarrow> string" where
  "group_not_found group_id = ''trade group '' @ py_repr group_id @ '' not found''"

definition target_not_found :: "string \<Rightarrow> string" where
  "target_not_found group_id = ''target trade group '' @ py_repr group_id @ '' not found''"

text \<open>The cascade of a strategy to the orders of the group and to its single position.\<close>

definition cascade_orders :: "nat \<Rightarrow> nat \<Rightarrow> ledger \<Rightarrow> ledger" where
  "cascade_orders pk strategy s =
     (let orders = query_orders s (order_filter0\<lparr>of_trade_group_id := Some pk\<rparr>)
      in if orders = [] then s
         else snd (upsert_orders (map (\<lambda>o'. o'\<lparr>o_strategy_id := Some strategy\<rparr>) orders) s))"

definition cascade_position :: "trade_group_row \<Rightarrow> nat \<Rightarrow> nat \<Rightarrow> ledger \<Rightarrow> ledger" where
  "cascade_position tg pk strategy s =
     (case tg_security_id tg of
        None \<Rightarrow> s
      | Some sid \<Rightarrow>
          (case get_position s (tg_account tg) sid of
             None \<Rightarrow> s
           | Some position \<Rightarrow>
               upsert_positions [position\<lparr> ps_strategy_id := Some strategy, ps_trade_group_id := Some pk \<rparr>] s))"

definition remap_trade_group ::
  "string \<Rightarrow> nat option \<Rightarrow> string option \<Rightarrow> string option \<Rightarrow> string option \<Rightarrow> string \<Rightarrow> ledger
     \<Rightarrow> (string + trade_row) \<times> ledger" where
  "remap_trade_group group_id strategy bot_name signal strategy_type reviewed_by s =
     (case get_trade_group s group_id of
        None \<Rightarrow> (Inl (group_not_found group_id), s)
      | Some tg \<Rightarrow>
          let now = env_now s;
              updated = tg\<lparr> tg_strategy_id := or_else strategy (tg_strategy_id tg),
                            tg_bot_name := or_else bot_name (tg_bot_name tg),
                            tg_signal_id := or_else signal (tg_signal_id tg),
                            tg_strategy_type := or_else strategy_type (tg_strategy_type tg),
                            tg_manually_attributed := True, tg_review_status := CONFIRMED,
                            tg_reviewed_by := Some reviewed_by, tg_reviewed_at := Some now \<rparr>;
              (pk, s1) = upsert_trade_group updated s;
              s2 = (case strategy of None \<Rightarrow> s1
                    | Some st \<Rightarrow> cascade_position updated pk st (cascade_orders pk st s1))
          in (Inr (trade_group_to_row updated),
              add_trade_group_event (adjustment pk now (''remapped by '' @ reviewed_by)) s2))"

text \<open>\<open>replace(tg, **fields)\<close>.\<close>

definition with_fields :: "trade_group_row \<Rightarrow> group_fields \<Rightarrow> trade_group_row" where
  "with_fields tg flds =
     tg\<lparr> tg_underlying := gf_underlying flds, tg_security_id := gf_security_id flds,
         tg_strategy_type := Some (gf_strategy_type flds), tg_leg_count := gf_leg_count flds,
         tg_total_premium := Some (gf_total_premium flds), tg_total_fees := Some (gf_total_fees flds),
         tg_quantity := gf_quantity flds, tg_executed_at := gf_executed_at flds \<rparr>"

definition member_activity :: "ledger \<Rightarrow> string \<Rightarrow> nat \<Rightarrow> ledger_row list" where
  "member_activity s account pk =
     filter (\<lambda>r. r_trade_group_id r = Some pk)
       (activity_rows s (activity_filter0\<lparr>af_account := Some account\<rparr>))"

definition recomputed_group :: "ledger \<Rightarrow> nat \<Rightarrow> trade_group_row \<Rightarrow> trade_group_row" where
  "recomputed_group s pk tg =
     (let cluster = member_activity s (tg_account tg) pk;
          updated = with_fields tg (compute_group_fields s cluster)
      in if cluster = [] then updated\<lparr> tg_review_status := IGNORED, tg_realized_pnl := None \<rparr>
         else if fully_closed cluster then
           updated\<lparr> tg_status := group_status_value (status_of_causes (close_causes cluster)),
                    tg_closed_at := max_opt (event_times cluster),
                    tg_realized_pnl := Some (group_realized (get_security s) cluster),
                    tg_total_fees := Some (sum_list (map row_fees cluster)) \<rparr>
         else updated)"

definition recompute_group :: "nat \<Rightarrow> trade_group_row \<Rightarrow> ledger \<Rightarrow> trade_group_row \<times> ledger" where
  "recompute_group pk tg s =
     (let updated = recomputed_group s pk tg in (updated, snd (upsert_trade_group updated s)))"

definition regroup_step ::
  "datetime \<Rightarrow> string \<Rightarrow> trade_row list \<times> ledger \<Rightarrow> nat \<Rightarrow> trade_row list \<times> ledger" where
  "regroup_step now reviewed_by acc pk =
     (case acc of (rows, s) \<Rightarrow>
      (case get_trade_group_by_id s pk of
         None \<Rightarrow> (rows, s)
       | Some tg \<Rightarrow>
           let (updated, s1) = recompute_group pk tg s
           in (rows @ [trade_group_to_row updated],
               add_trade_group_event (adjustment pk now (''regrouped by '' @ reviewed_by)) s1)))"

text \<open>A new group the operator owns.\<close>

definition manual_group :: "string \<Rightarrow> string \<Rightarrow> string \<Rightarrow> datetime \<Rightarrow> trade_group_row" where
  "manual_group group_id account reviewed_by now =
     (trade_group_default group_id account BROKER)
       \<lparr> tg_manually_attributed := True, tg_reviewed_by := Some reviewed_by, tg_reviewed_at := Some now \<rparr>"

definition target_group ::
  "string option \<Rightarrow> string \<Rightarrow> string \<Rightarrow> ledger \<Rightarrow> (string + nat) \<times> ledger" where
  "target_group target account reviewed_by s =
     (let now = env_now s in
      case target of
        None \<Rightarrow>
          (let (gid, s1) = fresh_uuid s;
               (pk, s2) = upsert_trade_group (manual_group gid account reviewed_by now) s1
           in (Inr pk, s2))
      | Some group_id \<Rightarrow>
          (case get_trade_group s group_id of
             None \<Rightarrow> (Inl (target_not_found group_id), s)
           | Some tg \<Rightarrow>
               let (pk, s1) = upsert_trade_group
                     (tg\<lparr> tg_manually_attributed := True, tg_reviewed_by := Some reviewed_by,
                          tg_reviewed_at := Some now \<rparr>) s
               in (Inr pk, s1)))"

definition source_groups :: "txn_row list \<Rightarrow> nat list" where
  "source_groups txns = first_seen (somes (map r_trade_group_id txns))"

definition regroup_transactions ::
  "nat list \<Rightarrow> string option \<Rightarrow> string \<Rightarrow> ledger \<Rightarrow> (string + trade_row list) \<times> ledger" where
  "regroup_transactions txn_ids target reviewed_by s =
     (let txns = get_transactions_by_id s txn_ids in
      if txn_ids = [] \<or> txns = [] then (Inr [], s)
      else
        (case target_group target (r_account (hd txns)) reviewed_by s of
           (Inl msg, s1) \<Rightarrow> (Inl msg, s1)
         | (Inr target_pk, s1) \<Rightarrow>
             let s2 = move_transactions_to_group txn_ids (Some target_pk) s1;
                 groups = filter (\<lambda>pk. pk \<noteq> target_pk) (source_groups txns) @ [target_pk];
                 (rows, s3) = foldl (regroup_step (env_now s) reviewed_by) ([], s2) groups
             in (Inr rows, s3)))"

definition already_linked :: "string \<Rightarrow> nat \<Rightarrow> string" where
  "already_linked tt pk =
     ''order '' @ py_repr tt @ '' is already linked to trade group pk='' @ show_nat pk
       @ '' - move its transactions with regroup instead''"

definition wrong_account :: "string \<Rightarrow> trade_group_row \<Rightarrow> string \<Rightarrow> order_row \<Rightarrow> string" where
  "wrong_account group_id tg tt order =
     ''target trade group '' @ py_repr group_id @ '' belongs to account '' @ py_repr (tg_account tg)
       @ '', order '' @ py_repr tt @ '' to '' @ py_repr (o_account order)"

definition link_target ::
  "string option \<Rightarrow> string \<Rightarrow> order_row \<Rightarrow> string \<Rightarrow> ledger \<Rightarrow> (string + nat) \<times> ledger" where
  "link_target target tt order reviewed_by s =
     (let now = env_now s in
      case target of
        None \<Rightarrow>
          (let (gid, s1) = fresh_uuid s;
               (pk, s2) = upsert_trade_group
                 ((manual_group gid (o_account order) reviewed_by now)
                    \<lparr> tg_underlying := o_underlying order, tg_security_id := o_security_id order \<rparr>) s1
           in (Inr pk, s2))
      | Some group_id \<Rightarrow>
          (case get_trade_group s group_id of
             None \<Rightarrow> (Inl (target_not_found group_id), s)
           | Some tg \<Rightarrow>
               if tg_account tg \<noteq> o_account order then (Inl (wrong_account group_id tg tt order), s)
               else
                 (let (pk, s1) = upsert_trade_group
                     (tg\<lparr> tg_manually_attributed := True, tg_reviewed_by := Some reviewed_by,
                          tg_reviewed_at := Some now \<rparr>) s
                  in (Inr pk, s1))))"

definition link_order_to_group ::
  "string \<Rightarrow> string option \<Rightarrow> string \<Rightarrow> ledger \<Rightarrow> (string + trade_row) \<times> ledger" where
  "link_order_to_group tt target reviewed_by s =
     (case get_order s tt of
        None \<Rightarrow> (Inl (''order '' @ py_repr tt @ '' not found''), s)
      | Some order \<Rightarrow>
          (case o_trade_group_id order of
             Some pk \<Rightarrow> (Inl (already_linked tt pk), s)
           | None \<Rightarrow>
               (case link_target target tt order reviewed_by s of
                  (Inl msg, s1) \<Rightarrow> (Inl msg, s1)
                | (Inr pk, s1) \<Rightarrow>
                    let s2 = snd (upsert_orders [order\<lparr>o_trade_group_id := Some pk\<rparr>] s1);
                        s3 = add_trade_group_event
                               (adjustment pk (env_now s) (''order '' @ tt @ '' linked by '' @ reviewed_by)) s2;
                        s4 = snd (reconcile (Some (o_account order)) None None DEFAULT_SETTLE_AFTER False s3)
                    in (case get_trade_group_by_id s4 pk of
                          None \<Rightarrow> (Inl (''trade group pk='' @ show_nat pk @ '' vanished during link''), s4)
                        | Some tg \<Rightarrow> (Inr (trade_group_to_row tg), s4)))))"

definition has_traded :: "string \<Rightarrow> nat \<Rightarrow> string" where
  "has_traded group_id n =
     ''trade group '' @ py_repr group_id @ '' has '' @ show_nat n
       @ '' transaction(s) -- it traded, so it is not unfilled; let the exit machinery set its terminal status''"

definition mark_trade_group_unfilled ::
  "string \<Rightarrow> string \<Rightarrow> string \<Rightarrow> ledger \<Rightarrow> (string + trade_row) \<times> ledger" where
  "mark_trade_group_unfilled group_id reviewed_by reason s =
     (case get_trade_group s group_id of
        None \<Rightarrow> (Inl (group_not_found group_id), s)
      | Some tg \<Rightarrow>
          let rows = (case get_trade_group_id s group_id of None \<Rightarrow> [] | Some pk \<Rightarrow> get_group_transactions s pk)
          in if rows \<noteq> [] then (Inl (has_traded group_id (length rows)), s)
             else
               let now = env_now s;
                   updated = tg\<lparr> tg_status := group_status_value GS_UNFILLED,
                                 tg_reviewed_by := Some reviewed_by, tg_reviewed_at := Some now \<rparr>;
                   (pk, s1) = upsert_trade_group updated s;
                   note = ''marked unfilled by '' @ reviewed_by
               in (Inr (trade_group_to_row updated),
                   add_trade_group_event
                     (adjustment pk now (if reason = [] then note else note @ '': '' @ reason)) s1))"

definition dismiss_trade_group :: "string \<Rightarrow> string \<Rightarrow> ledger \<Rightarrow> (string + trade_row) \<times> ledger" where
  "dismiss_trade_group group_id reviewed_by s =
     (case get_trade_group s group_id of
        None \<Rightarrow> (Inl (group_not_found group_id), s)
      | Some tg \<Rightarrow>
          let now = env_now s;
              updated = tg\<lparr> tg_review_status := IGNORED, tg_reviewed_by := Some reviewed_by,
                            tg_reviewed_at := Some now \<rparr>;
              (pk, s1) = upsert_trade_group updated s
          in (Inr (trade_group_to_row updated),
              add_trade_group_event (adjustment pk now (''dismissed by '' @ reviewed_by)) s1))"

section \<open>Membership under an operator's edits\<close>

text \<open>
  Attribution edits never move a transaction: remapping, dismissing or marking a
  group unfilled leaves every row in the group it was in; remapping and dismissing fail exactly
  when the group does not exist, and then leave the whole ledger as it was.\<close>

theorem attribution_edits_keep_membership:
  "st_transactions (snd (remap_trade_group group_id strategy bot_name signal strategy_type reviewed_by s))
     = st_transactions s
   \<and> st_transactions (snd (dismiss_trade_group group_id reviewed_by s)) = st_transactions s
   \<and> st_transactions (snd (mark_trade_group_unfilled group_id reviewed_by reason s)) = st_transactions s
   \<and> (get_trade_group s group_id = None \<longleftrightarrow>
        (\<exists>msg. remap_trade_group group_id strategy bot_name signal strategy_type reviewed_by s = (Inl msg, s)))
   \<and> (get_trade_group s group_id = None \<longleftrightarrow>
        (\<exists>msg. dismiss_trade_group group_id reviewed_by s = (Inl msg, s)))"
proof (intro conjI)
  show "st_transactions (snd (remap_trade_group group_id strategy bot_name signal strategy_type reviewed_by s))
      = st_transactions s"
    by (simp add: remap_trade_group_def cascade_orders_def cascade_position_def Let_def case_prod_beta
        split: option.split)
qed (auto simp: remap_trade_group_def dismiss_trade_group_def mark_trade_group_unfilled_def Let_def
    case_prod_beta split: option.split)

text \<open>
  Only an empty shell is marked unfilled: for a group that exists the operation
  succeeds, with status unfilled, exactly when no transaction belongs to the group; otherwise it
  reports an error and changes nothing at all.\<close>

theorem unfilled_only_without_transactions:
  assumes "get_trade_group s group_id = Some tg" and "get_trade_group_id s group_id = Some pk"
  shows "if get_group_transactions s pk = []
         then \<exists>row. fst (mark_trade_group_unfilled group_id reviewed_by reason s) = Inr row
            \<and> tr_status row = ''unfilled''
         else \<exists>msg. mark_trade_group_unfilled group_id reviewed_by reason s = (Inl msg, s)"
  using assms
  by (simp add: mark_trade_group_unfilled_def Let_def case_prod_beta trade_group_to_row_def)

text \<open>
  Recomputing a group after a move never reopens it and never invents a close:
  the status changes only when what the group now holds is fully closed, and then to a closed
  status; and a group left with no member keeps its status, is set aside as ignored and carries
  no realized P&L any more.\<close>

theorem recompute_never_reopens:
  "(tg_status (recomputed_group s pk tg) = tg_status tg
      \<or> fully_closed (member_activity s (tg_account tg) pk) \<and> tg_status (recomputed_group s pk tg) \<noteq> ''open'')
   \<and> (member_activity s (tg_account tg) pk = [] \<longrightarrow>
        tg_status (recomputed_group s pk tg) = tg_status tg
      \<and> tg_review_status (recomputed_group s pk tg) = IGNORED
      \<and> tg_realized_pnl (recomputed_group s pk tg) = None)"
  by (auto simp: recomputed_group_def with_fields_def Let_def status_of_causes_not_open)

text \<open>A group emptied by a move, and one the move completed.\<close>

theorem recompute_never_reopens_witness:
  "tg_review_status (recomputed_group (ledger_empty 0 show_nat) 1 (trade_group_default ''g1'' ''acct'' BROKER)) = IGNORED"
proof -
  have "member_activity (ledger_empty 0 show_nat) (tg_account (trade_group_default ''g1'' ''acct'' BROKER)) 1 = []"
    by code_simp
  with recompute_never_reopens [of "ledger_empty 0 show_nat" 1 "trade_group_default ''g1'' ''acct'' BROKER"]
  show ?thesis by blast
qed

definition example_shell :: ledger where
  "example_shell = snd (upsert_trade_group (trade_group_default ''g1'' ''acct'' BROKER) (ledger_empty 0 show_nat))"

theorem unfilled_only_without_transactions_witness:
  "\<exists>row. fst (mark_trade_group_unfilled ''g1'' ''op'' [] example_shell) = Inr row \<and> tr_status row = ''unfilled''"
proof -
  have "get_trade_group example_shell ''g1'' = Some (trade_group_default ''g1'' ''acct'' BROKER)"
    and "get_trade_group_id example_shell ''g1'' = Some 1"
    by (simp_all add: example_shell_def get_trade_group_def get_trade_group_id_def upsert_trade_group_def
        ledger_empty_def table_empty_def table_upsert_def table_get_by_key_def table_id_of_def
        trade_group_key_def trade_group_default_def)
  note iff = unfilled_only_without_transactions [OF this, of "''op''" "[]"]
  have "get_group_transactions example_shell 1 = []" by code_simp
  with iff show ?thesis by simp
qed

section \<open>Regrouping\<close>

lemma regroup_step_transactions [simp]:
  "st_transactions (snd (regroup_step now reviewed_by acc pk)) = st_transactions (snd acc)"
  by (simp add: regroup_step_def recompute_group_def Let_def case_prod_beta split: option.split)

lemma regroup_steps_transactions [simp]:
  "st_transactions (snd (foldl (regroup_step now reviewed_by) acc group_pks)) = st_transactions (snd acc)"
  by (induction group_pks arbitrary: acc)
    simp_all

lemma target_group_transactions:
  "target_group target account reviewed_by s = (r, s') \<Longrightarrow> st_transactions s' = st_transactions s"
  by (auto simp: target_group_def Let_def case_prod_beta split: option.splits)

lemma target_group_known:
  assumes ok: "ledger_ok s" and "target_group (Some g) account reviewed_by s = (Inr pk, s')"
  shows "get_trade_group_id s g = Some pk"
proof -
  note tab = ledger_ok_tables(5) [OF ok]
  obtain tg where tg: "get_trade_group s g = Some tg"
    using assms(2) by (auto simp: target_group_def Let_def split: option.splits)
  then have gid: "tg_group_id tg = g"
    using table_get_by_key_ok [OF tab] by (auto simp: get_trade_group_def trade_group_key_def)
  obtain i where i: "table_id_of (st_trade_groups s) g = Some i"
    using tg by (auto simp: get_trade_group_def table_get_by_key_def table_id_of_def split: option.splits)
  let ?row = "tg\<lparr> tg_manually_attributed := True, tg_reviewed_by := Some reviewed_by, tg_reviewed_at := Some (env_now s) \<rparr>"
  have "pk = fst (upsert_trade_group ?row s)"
    using assms(2) tg by (auto simp: target_group_def Let_def case_prod_beta)
  also have "\<dots> = i"
    using table_upsert_key(4) [OF tab, of ?row g i] i gid
    by (simp add: upsert_trade_group_def trade_group_key_def case_prod_beta)
  finally show ?thesis using i by (simp add: get_trade_group_id_def)
qed

text \<open>
  C18 (functional). A regroup moves exactly the transactions it is given: when it succeeds, all of
  them are in one group, the target when one was named, every other transaction is in the group
  it was in, and nothing but the group of a transaction has changed.\<close>

theorem regroup_moves_exactly:
  assumes "ledger_ok s" and "get_transactions_by_id s txn_ids \<noteq> []"
    and "regroup_transactions txn_ids target reviewed_by s = (Inr rows, s')"
  shows "\<exists>pk. st_transactions s' = table_modify
        (\<lambda>i t. if i \<in> set txn_ids then t\<lparr>r_trade_group_id := Some pk\<rparr> else t) (st_transactions s)
      \<and> (case target of None \<Rightarrow> True | Some g \<Rightarrow> get_trade_group_id s g = Some pk)"
proof -
  have ids: "txn_ids \<noteq> []" using assms(2) by (auto simp: get_transactions_by_id_def)
  let ?account = "r_account (hd (get_transactions_by_id s txn_ids))"
  obtain res s1 where t: "target_group target ?account reviewed_by s = (res, s1)" by fastforce
  obtain pk where pk: "res = Inr pk"
    using assms(2,3) ids t by (cases res) (simp_all add: regroup_transactions_def Let_def)
  have "st_transactions s' = st_transactions (move_transactions_to_group txn_ids (Some pk) s1)"
    using assms(2,3) ids
    by (auto simp: regroup_transactions_def t pk Let_def case_prod_beta)
  then have "st_transactions s' = table_modify
      (\<lambda>i t. if i \<in> set txn_ids then t\<lparr>r_trade_group_id := Some pk\<rparr> else t) (st_transactions s)"
    by (simp add: move_transactions_to_group_def target_group_transactions [OF t])
  moreover have "case target of None \<Rightarrow> True | Some g \<Rightarrow> get_trade_group_id s g = Some pk"
    using target_group_known [OF assms(1)] t pk by (cases target) auto
  ultimately show ?thesis by blast
qed

theorem regroup_moves_exactly_witness:
  "\<exists>pk s'. snd (regroup_transactions [1] None ''op'' example_pending) = s' \<and> st_transactions s' = table_modify
     (\<lambda>i t. if i \<in> {1} then t\<lparr>r_trade_group_id := Some pk\<rparr> else t) (st_transactions example_pending)"
proof -
  have ok: "ledger_ok example_pending"
    unfolding example_pending_def by (simp add: ledger_ok_upsert_transaction ledger_ok_empty)
  have some: "get_transactions_by_id example_pending [1] \<noteq> []" by code_simp
  obtain rows where "regroup_transactions [1] None ''op'' example_pending
      = (Inr rows, snd (regroup_transactions [1] None ''op'' example_pending))"
    using some by (simp add: regroup_transactions_def target_group_def Let_def case_prod_beta)
  from regroup_moves_exactly [OF ok some this] show ?thesis by auto
qed

end
