(* ===== verification/Http_Api.thy ===== *)
theory Http_Api
  imports Remap Intent Sdk
begin

text \<open>
  The HTTP server (\<^verbatim>\<open>tt_ledger/api\<close>): the routes as one function of the request and the ledger. A
  request is what FastAPI hands a route once the path, the query and the body have been validated, a
  response a status with its body before serialization. An exception a route does not catch is
  the server's status 500. Orders and positions have the fields of their rows; trades,
  activities and closed positions leave some out.
\<close>

section \<open>The shapes on the wire\<close>

record trade_dto =
  dt_group_id :: string
  dt_account :: string
  dt_origin :: origin
  dt_source_system :: string
  dt_review_status :: review_status
  dt_manually_attributed :: bool
  dt_underlying :: "string option"
  dt_security_id :: "string option"
  dt_strategy_type :: "string option"
  dt_leg_count :: nat
  dt_total_premium :: "decimal option"
  dt_quantity :: "decimal option"
  dt_total_fees :: "decimal option"
  dt_status :: string
  dt_realized_pnl :: "decimal option"
  dt_unrealized_pnl :: "decimal option"
  dt_max_profit :: "decimal option"
  dt_max_loss :: "decimal option"
  dt_order_id :: "nat option"
  dt_strategy_id :: "nat option"
  dt_bot_name :: "string option"
  dt_signal_id :: "string option"
  dt_executed_at :: "datetime option"
  dt_closed_at :: "datetime option"

definition to_trade_dto :: "trade_row \<Rightarrow> trade_dto" where
  "to_trade_dto r =
     \<lparr> dt_group_id = tr_group_id r, dt_account = tr_account r, dt_origin = tr_origin r,
       dt_source_system = tr_source_system r, dt_review_status = tr_review_status r,
       dt_manually_attributed = tr_manually_attributed r, dt_underlying = tr_underlying r,
       dt_security_id = tr_security_id r, dt_strategy_type = tr_strategy_type r, dt_leg_count = tr_leg_count r,
       dt_total_premium = tr_total_premium r, dt_quantity = tr_quantity r, dt_total_fees = tr_total_fees r,
       dt_status = tr_status r, dt_realized_pnl = tr_realized_pnl r, dt_unrealized_pnl = tr_unrealized_pnl r,
       dt_max_profit = tr_max_profit r, dt_max_loss = tr_max_loss r, dt_order_id = tr_order_id r,
       dt_strategy_id = tr_strategy_id r, dt_bot_name = tr_bot_name r, dt_signal_id = tr_signal_id r,
       dt_executed_at = tr_executed_at r, dt_closed_at = tr_closed_at r \<rparr>"

record activity_dto =
  da_tt_transaction_id :: string
  da_account :: string
  da_transaction_type :: "string option"
  da_transaction_sub_type :: "string option"
  da_action :: "string option"
  da_security_id :: "string option"
  da_underlying :: "string option"
  da_quantity :: "decimal option"
  da_price :: "decimal option"
  da_net_value :: "decimal option"
  da_commission :: "decimal option"
  da_clearing_fees :: "decimal option"
  da_regulatory_fees :: "decimal option"
  da_executed_at :: "datetime option"
  da_order_id :: "nat option"
  da_tt_order_id :: "string option"
  da_trade_group_id :: "nat option"
  da_origin :: "origin option"
  da_review_status :: "review_status option"

definition to_activity_dto :: "activity_row \<Rightarrow> activity_dto" where
  "to_activity_dto r =
     \<lparr> da_tt_transaction_id = r_tt_transaction_id r, da_account = r_account r,
       da_transaction_type = r_transaction_type r, da_transaction_sub_type = r_transaction_sub_type r,
       da_action = r_action r, da_security_id = r_security_id r, da_underlying = r_underlying r,
       da_quantity = r_quantity r, da_price = r_price r, da_net_value = r_net_value r,
       da_commission = r_commission r, da_clearing_fees = r_clearing_fees r,
       da_regulatory_fees = r_regulatory_fees r, da_executed_at = r_executed_at r, da_order_id = r_order_id r,
       da_tt_order_id = r_tt_order_id r, da_trade_group_id = r_trade_group_id r, da_origin = a_origin r,
       da_review_status = a_review_status r \<rparr>"

record closed_position_dto =
  dc_account :: string
  dc_security_id :: string
  dc_quantity :: decimal
  dc_quantity_direction :: string
  dc_average_open_price :: "decimal option"
  dc_average_close_price :: "decimal option"
  dc_realized_pnl :: "decimal option"
  dc_opening_order_id :: "nat option"
  dc_closing_order_id :: "nat option"
  dc_trade_group_id :: "nat option"
  dc_opened_at :: "datetime option"
  dc_closed_at :: "datetime option"
  dc_holding_period_days :: "int option"

definition to_closed_position_dto :: "closed_position_row \<Rightarrow> closed_position_dto" where
  "to_closed_position_dto r =
     \<lparr> dc_account = cp_account r, dc_security_id = cp_security_id r, dc_quantity = cp_quantity r,
       dc_quantity_direction = cp_quantity_direction r, dc_average_open_price = cp_average_open_price r,
       dc_average_close_price = cp_average_close_price r, dc_realized_pnl = cp_realized_pnl r,
       dc_opening_order_id = cp_opening_order_id r, dc_closing_order_id = cp_closing_order_id r,
       dc_trade_group_id = cp_trade_group_id r, dc_opened_at = cp_opened_at r, dc_closed_at = cp_closed_at r,
       dc_holding_period_days = cp_holding_period_days r \<rparr>"

datatype body =
    Orders "order_row list"
  | Trades "trade_dto list"
  | Trade trade_dto
  | Trade_Detail trade_dto "order_row list" "activity_dto list"
  | Activities "activity_dto list"
  | Positions "position_row list"
  | A_Position position_row
  | Closed_Positions "closed_position_dto list"
  | Detail string
  | Health string

record http_response =
  hr_status :: nat
  hr_body :: body

definition ok :: "body \<Rightarrow> http_response" where
  "ok b = \<lparr> hr_status = 200, hr_body = b \<rparr>"

definition http_error :: "nat \<Rightarrow> string \<Rightarrow> http_response" where
  "http_error status detail = \<lparr> hr_status = status, hr_body = Detail detail \<rparr>"

text \<open>A ValueError the route does not catch.\<close>

definition server_error :: http_response where
  "server_error = http_error 500 ''Internal Server Error''"

section \<open>Reads\<close>

definition list_orders ::
  "string option \<Rightarrow> string option \<Rightarrow> string option \<Rightarrow> string option \<Rightarrow> date option \<Rightarrow> date option \<Rightarrow> ledger \<Rightarrow> http_response" where
  "list_orders origin_text account status underlying start stop s =
     (case sdk_orders origin_text
         (order_filter0\<lparr> of_account := account, of_status := status, of_underlying := underlying,
                         of_start := start, of_end := stop \<rparr>) s of
        Inl msg \<Rightarrow> server_error
      | Inr rows \<Rightarrow> ok (Orders rows))"

definition list_trades ::
  "string option \<Rightarrow> string option \<Rightarrow> string option \<Rightarrow> string option \<Rightarrow> string option \<Rightarrow> date option \<Rightarrow> date option
     \<Rightarrow> ledger \<Rightarrow> http_response" where
  "list_trades origin_text review_text status account underlying start stop s =
     (case sdk_trades origin_text review_text
         (trade_filter0\<lparr> tf_status := status, tf_account := account, tf_underlying := underlying,
                         tf_start := start, tf_end := stop \<rparr>) s of
        Inl msg \<Rightarrow> server_error
      | Inr rows \<Rightarrow> ok (Trades (map to_trade_dto rows)))"

definition get_trade :: "string \<Rightarrow> ledger \<Rightarrow> http_response" where
  "get_trade group_id s =
     (case sdk_trade group_id s of
        None \<Rightarrow> http_error 404 (group_not_found group_id)
      | Some trade \<Rightarrow>
          (case trade_detail group_id s of
             (orders, transactions) \<Rightarrow> ok (Trade_Detail (to_trade_dto trade) orders (map to_activity_dto transactions))))"

definition list_activity :: "string \<Rightarrow> date option \<Rightarrow> date option \<Rightarrow> bool \<Rightarrow> ledger \<Rightarrow> http_response" where
  "list_activity nickname start stop unreconciled_only s =
     ok (Activities (map to_activity_dto (account_activity s
       \<lparr> af_account = Some nickname, af_start = start, af_end = stop, af_unreconciled_only = unreconciled_only \<rparr>)))"

definition list_positions :: "string \<Rightarrow> bool \<Rightarrow> ledger \<Rightarrow> http_response" where
  "list_positions nickname all_rows s = ok (Positions (sdk_positions nickname (\<not> all_rows) s))"

definition one_position :: "string \<Rightarrow> string \<Rightarrow> ledger \<Rightarrow> http_response" where
  "one_position nickname security_id s =
     (case get_position s nickname security_id of
        None \<Rightarrow> http_error 404 (''no position for '' @ py_repr nickname @ '' / '' @ py_repr security_id)
      | Some row \<Rightarrow> ok (A_Position row))"

definition list_closed_positions :: "string \<Rightarrow> string option \<Rightarrow> ledger \<Rightarrow> http_response" where
  "list_closed_positions nickname security_id s =
     ok (Closed_Positions (map to_closed_position_dto (get_closed_positions s nickname security_id)))"

section \<open>Edits\<close>

text \<open>\<open>except ValueError as exc: raise HTTPException(status_code=404)\<close>.\<close>

definition or_404 :: "('a \<Rightarrow> body) \<Rightarrow> (string + 'a) \<times> ledger \<Rightarrow> http_response \<times> ledger" where
  "or_404 f answer =
     (case answer of (Inl msg, s) \<Rightarrow> (http_error 404 msg, s) | (Inr x, s) \<Rightarrow> (ok (f x), s))"

record remap_request =
  rr_strategy :: "nat option"
  rr_bot :: "string option"
  rr_signal :: "string option"
  rr_strategy_type :: "string option"
  rr_reviewed_by :: string

record regroup_request =
  rg_txn_ids :: "nat list"
  rg_target :: "string option"
  rg_reviewed_by :: string

record link_order_request =
  lk_target :: "string option"
  lk_reviewed_by :: string

definition remap_trade :: "string \<Rightarrow> remap_request \<Rightarrow> ledger \<Rightarrow> http_response \<times> ledger" where
  "remap_trade group_id body s =
     or_404 (Trade \<circ> to_trade_dto)
       (remap_trade_group group_id (rr_strategy body) (rr_bot body) (rr_signal body) (rr_strategy_type body)
         (rr_reviewed_by body) s)"

definition regroup_trade :: "string \<Rightarrow> regroup_request \<Rightarrow> ledger \<Rightarrow> http_response \<times> ledger" where
  "regroup_trade group_id body s =
     or_404 (Trades \<circ> map to_trade_dto) (regroup_transactions (rg_txn_ids body) (rg_target body) (rg_reviewed_by body) s)"

definition dismiss_trade :: "string \<Rightarrow> string \<Rightarrow> ledger \<Rightarrow> http_response \<times> ledger" where
  "dismiss_trade group_id reviewed_by s = or_404 (Trade \<circ> to_trade_dto) (dismiss_trade_group group_id reviewed_by s)"

definition link_order :: "string \<Rightarrow> link_order_request \<Rightarrow> ledger \<Rightarrow> http_response \<times> ledger" where
  "link_order tt_order_id body s =
     or_404 (Trade \<circ> to_trade_dto) (link_order_to_group tt_order_id (lk_target body) (lk_reviewed_by body) s)"

definition ingest_route :: "string \<Rightarrow> http_response" where
  "ingest_route source_system =
     http_error 501 (''POST /ingest/'' @ source_system
       @ '' is reserved for a future non-TastyTrade source and is not implemented yet.'')"

section \<open>The router\<close>

datatype http_request =
    Get_Orders "string option" "string option" "string option" "string option" "date option" "date option"
  | Get_Trades "string option" "string option" "string option" "string option" "string option" "date option" "date option"
  | Get_Trade string
  | Get_Activity string "date option" "date option" bool
  | Get_Positions string bool
  | Get_Position string string
  | Get_Closed_Positions string "string option"
  | Post_Remap string remap_request
  | Post_Regroup string regroup_request
  | Post_Dismiss string string
  | Post_Link string link_order_request
  | Post_Ingest string
  | Get_Health

fun route :: "http_request \<Rightarrow> ledger \<Rightarrow> http_response \<times> ledger" where
  "route (Get_Orders org account status underlying start stop) s =
     (list_orders org account status underlying start stop s, s)"
| "route (Get_Trades org review status account underlying start stop) s =
     (list_trades org review status account underlying start stop s, s)"
| "route (Get_Trade group_id) s = (get_trade group_id s, s)"
| "route (Get_Activity nickname start stop unreconciled_only) s = (list_activity nickname start stop unreconciled_only s, s)"
| "route (Get_Positions nickname all_rows) s = (list_positions nickname all_rows s, s)"
| "route (Get_Position nickname security_id) s = (one_position nickname security_id s, s)"
| "route (Get_Closed_Positions nickname security_id) s = (list_closed_positions nickname security_id s, s)"
| "route (Post_Remap group_id body) s = remap_trade group_id body s"
| "route (Post_Regroup group_id body) s = regroup_trade group_id body s"
| "route (Post_Dismiss group_id reviewed_by) s = dismiss_trade group_id reviewed_by s"
| "route (Post_Link tt_order_id body) s = link_order tt_order_id body s"
| "route (Post_Ingest source_system) s = (ingest_route source_system, s)"
| "route Get_Health s = (ok (Health ''ok''), s)"

section \<open>An edit that is refused changes nothing\<close>

lemma has_group_rolls [has_group_intros]:
  assumes "has_group s pk"
  shows "has_group (link_cross_cluster_rolls exits created s) pk"
  unfolding link_cross_cluster_rolls_def
  by (rule foldl_invariant [where P = "\<lambda>s. has_group s pk"]) (simp_all add: assms link_roll_def split: option.split)

lemma has_group_heal [has_group_intros]:
  assumes "has_group s pk"
  shows "has_group (snd (heal_fully_closed_groups account dry_run s)) pk"
proof -
  have "has_group (heal_group s' g) pk" if "has_group s' pk" for s' g
    using that by (simp add: heal_group_def Let_def has_group_intros split: option.split)
  then have "has_group (foldl heal_group s groups) pk" for groups
    by (rule foldl_invariant [where P = "\<lambda>s. has_group s pk"]) (simp_all add: assms)
  then show ?thesis by (simp add: heal_fully_closed_groups_def Let_def assms)
qed

lemma has_group_reconcile_account:
  assumes "has_group (snd acc) pk"
  shows "has_group (snd (reconcile_account since resolver settle_after dry_run account acc)) pk"
proof -
  obtain r s where acc: "acc = (r, s)" by (cases acc)
  let ?syn = "synthesize_lapsed_settlements account resolver settle_after dry_run (link_edges account s)"
  have "has_group (snd ?syn) pk" using assms acc by (simp add: has_group_intros)
  moreover have "has_group (rs_ledger (run_clusters dry_run account since s2)) pk" if "has_group s2 pk" for s2
    unfolding run_clusters_def by (rule has_group_run_clusters) (simp add: that)
  ultimately show ?thesis
    by (cases ?syn) (auto simp: reconcile_account_def acc Let_def case_prod_beta has_group_intros split: sum.split)
qed

lemma has_group_reconcile:
  "has_group s pk \<Longrightarrow> has_group (snd (reconcile account since resolver settle_after dry_run s)) pk"
  unfolding reconcile_def
  by (rule foldl_invariant [where P = "\<lambda>acc. has_group (snd acc) pk"]) (simp_all add: has_group_reconcile_account)

lemma has_group_new:
  assumes "upsert_trade_group tg s = (pk, s')"
  shows "has_group s' pk"
  using assms
  by (auto simp: has_group_def get_trade_group_by_id_def upsert_trade_group_def table_get_def table_upsert_def
      table_insert_def Let_def split: option.splits prod.splits)

text \<open>The internal error of a link, a target that vanished, cannot occur.\<close>

lemma link_target_refused: "link_target target tt order reviewed_by s = (Inl msg, s1) \<Longrightarrow> s1 = s"
  by (auto simp: link_target_def Let_def split: option.splits prod.splits if_splits)

lemma link_target_has_group: "link_target target tt order reviewed_by s = (Inr pk, s1) \<Longrightarrow> has_group s1 pk"
  by (auto simp: link_target_def Let_def has_group_new split: option.splits prod.splits if_splits)

lemma link_order_refused:
  assumes "link_order_to_group tt target reviewed_by s = (Inl msg, s')"
  shows "s' = s"
proof (cases "get_order s tt")
  case (Some order)
  show ?thesis
  proof (cases "o_trade_group_id order")
    case None
    obtain r s1 where t: "link_target target tt order reviewed_by s = (r, s1)" by (metis surj_pair)
    show ?thesis
    proof (cases r)
      case (Inl m)
      then show ?thesis using assms Some None t link_target_refused by (auto simp: link_order_to_group_def)
    next
      case (Inr pk)
      define s4 where "s4 = snd (reconcile (Some (o_account order)) None None DEFAULT_SETTLE_AFTER False
          (add_trade_group_event (adjustment pk (env_now s) (''order '' @ tt @ '' linked by '' @ reviewed_by))
            (snd (upsert_orders [order\<lparr>o_trade_group_id := Some pk\<rparr>] s1))))"
      have "has_group s1 pk" using link_target_has_group t Inr by simp
      then have "has_group s4 pk" unfolding s4_def
        by (intro has_group_reconcile) (simp only: has_group_frames has_group_orders)
      then obtain tg where "get_trade_group_by_id s4 pk = Some tg" by (auto simp: has_group_def)
      then have "link_order_to_group tt target reviewed_by s = (Inr (trade_group_to_row tg), s4)"
        unfolding link_order_to_group_def Some option.case None t Inr prod.case sum.case Let_def s4_def [symmetric] by simp
      then show ?thesis using assms by simp
    qed
  qed (use assms Some in \<open>simp add: link_order_to_group_def\<close>)
qed (use assms in \<open>simp add: link_order_to_group_def\<close>)

text \<open>The contract of an edit: it does it, or it refuses and writes nothing.\<close>

locale guarded_edit =
  fixes edit :: "ledger \<Rightarrow> (string + 'a) \<times> ledger"
  assumes refused: "edit s = (Inl msg, s') \<Longrightarrow> s' = s"
begin

lemma answered:
  assumes "or_404 f (edit s) = (resp, s')"
  shows "(s' = s \<or> hr_status resp = 200) \<and> hr_status resp \<in> {200, 404}"
proof (cases "edit s")
  case (Pair r s1)
  then show ?thesis using assms refused by (cases r) (auto simp: or_404_def ok_def http_error_def)
qed

end

interpretation remap_edit: guarded_edit "remap_trade_group group_id strategy bot_name signal strategy_type reviewed_by"
  for group_id strategy bot_name signal strategy_type reviewed_by
  by unfold_locales (auto simp: remap_trade_group_def Let_def split: option.splits prod.splits)

interpretation dismiss_edit: guarded_edit "dismiss_trade_group group_id reviewed_by" for group_id reviewed_by
  by unfold_locales (auto simp: dismiss_trade_group_def Let_def split: option.splits prod.splits)

interpretation regroup_edit: guarded_edit "regroup_transactions txn_ids target reviewed_by" for txn_ids target reviewed_by
  by unfold_locales
    (auto simp: regroup_transactions_def target_group_def Let_def split: if_splits option.splits sum.splits prod.splits)

interpretation link_edit: guarded_edit "link_order_to_group tt target reviewed_by" for tt target reviewed_by
  by unfold_locales (rule link_order_refused)

fun is_edit :: "http_request \<Rightarrow> bool" where
  "is_edit (Post_Remap _ _) = True"
| "is_edit (Post_Regroup _ _) = True"
| "is_edit (Post_Dismiss _ _) = True"
| "is_edit (Post_Link _ _) = True"
| "is_edit _ = False"

text \<open>
  C24 (error). Only an edit that is answered with 200 changes the ledger: every read, and every edit the
  ledger refuses, an unknown group, order or target, an order that is linked already, a target of another
  account, leaves it exactly as it was; and an edit is answered with 200 or 404, never with a server error.
\<close>

theorem only_accepted_edits_write:
  assumes "route req s = (resp, s')"
  shows "(s' = s \<or> is_edit req \<and> hr_status resp = 200) \<and> (is_edit req \<longrightarrow> hr_status resp \<in> {200, 404})"
proof (cases "is_edit req")
  case True
  then show ?thesis
    using assms
    by (cases req)
      (auto simp: remap_trade_def regroup_trade_def dismiss_trade_def link_order_def
        dest: remap_edit.answered regroup_edit.answered dismiss_edit.answered link_edit.answered)
next
  case False
  then show ?thesis using assms by (cases req) auto
qed

section \<open>The detail is the listed trade\<close>

definition all_trades :: "ledger \<Rightarrow> trade_dto list" where
  "all_trades s = map (to_trade_dto \<circ> trade_group_to_row) (map snd (table_all (st_trade_groups s)))"

lemma list_all_trades: "list_trades None None None None None None None s = ok (Trades (all_trades s))"
proof -
  have "trade_filter0\<lparr> tf_status := None, tf_account := None, tf_underlying := None, tf_start := None, tf_end := None \<rparr>
      = trade_filter0" by (simp add: trade_filter0_def)
  moreover have "trade_matches trade_filter0 tg" for tg by (simp add: trade_matches_def trade_filter0_def in_range_def split: option.split)
  ultimately show ?thesis by (simp add: list_trades_def sdk_trades_def unified_trades_def all_trades_def comp_def)
qed

text \<open>
  The trade list and the trade detail agree: a trade has a detail exactly when the
  unfiltered list has it, the detail shows the listed trade, and every order and
  transaction it shows belongs to that trade.
\<close>

theorem detail_of_listed_trade:
  assumes "ledger_ok s"
  shows "list_trades None None None None None None None s = ok (Trades (all_trades s))
    \<and> hr_status (get_trade group_id s) = (if group_id \<in> dt_group_id ` set (all_trades s) then 200 else 404)
    \<and> (\<forall>dto orders txns. get_trade group_id s = ok (Trade_Detail dto orders txns) \<longrightarrow>
        dto \<in> set (all_trades s) \<and> dt_group_id dto = group_id
        \<and> (\<exists>pk. get_trade_group_id s group_id = Some pk
            \<and> (\<forall>row \<in> set orders. o_trade_group_id row = Some pk) \<and> (\<forall>row \<in> set txns. da_trade_group_id row = Some pk)))"
proof -
  have tab: "table_ok trade_group_key (st_trade_groups s)" using assms ledger_ok_tables by blast
  have found: "get_trade_group s group_id = Some tg \<longleftrightarrow>
      (\<exists>i. (i, tg) \<in> set (table_all (st_trade_groups s))) \<and> tg_group_id tg = group_id" for tg
    by (auto simp: get_trade_group_def table_get_by_key_ok [OF tab] in_table_all [OF tab] trade_group_key_def)
  have listed: "dto \<in> set (all_trades s) \<longleftrightarrow>
      (\<exists>tg. (\<exists>i. (i, tg) \<in> set (table_all (st_trade_groups s))) \<and> dto = to_trade_dto (trade_group_to_row tg))" for dto
    by (force simp: all_trades_def)
  have gid: "dt_group_id (to_trade_dto (trade_group_to_row tg)) = tg_group_id tg" for tg
    by (simp add: to_trade_dto_def trade_group_to_row_def)
  have known: "\<exists>pk. get_trade_group_id s group_id = Some pk" if "get_trade_group s group_id = Some tg" for tg
    using that by (auto simp: get_trade_group_def get_trade_group_id_def table_get_by_key_def table_id_of_def split: option.splits)
  have members: "(\<forall>row \<in> set (fst (trade_detail group_id s)). o_trade_group_id row = Some pk)
      \<and> (\<forall>row \<in> set (map to_activity_dto (snd (trade_detail group_id s))). da_trade_group_id row = Some pk)"
    if "get_trade_group_id s group_id = Some pk" "get_trade_group s group_id = Some tg" for pk tg
    using that by (auto simp: trade_detail_def to_activity_dto_def query_orders_def query_orders_with_ids_def
        order_matches_def order_filter0_def)
  show ?thesis
  proof (cases "get_trade_group s group_id")
    case None
    then have "group_id \<notin> dt_group_id ` set (all_trades s)"
      using found listed gid by (metis (no_types, lifting) image_iff option.distinct(1))
    with None show ?thesis
      by (simp add: list_all_trades get_trade_def sdk_trade_def http_error_def ok_def)
  next
    case (Some tg)
    obtain pk where pk: "get_trade_group_id s group_id = Some pk" using known [OF Some] by blast
    let ?dto = "to_trade_dto (trade_group_to_row tg)"
    have dto: "?dto \<in> set (all_trades s)" "dt_group_id ?dto = group_id" using Some found listed gid by auto
    have "get_trade group_id s = ok (Trade_Detail ?dto (fst (trade_detail group_id s))
        (map to_activity_dto (snd (trade_detail group_id s))))"
      by (simp add: get_trade_def sdk_trade_def Some case_prod_beta)
    with dto pk members [OF pk Some] show ?thesis
      by (auto simp: list_all_trades ok_def image_iff)
  qed
qed

section \<open>Examples\<close>

definition example_empty :: ledger where
  "example_empty = ledger_empty 0 (\<lambda>_. [])"

lemma only_accepted_edits_write_witness:
  "hr_status (fst (route (Post_Dismiss ''g1'' ''ops'') example_empty)) = 404
    \<and> snd (route (Post_Dismiss ''g1'' ''ops'') example_empty) = example_empty"
proof -
  have "hr_status (fst (route (Post_Dismiss ''g1'' ''ops'') example_empty)) = 404" by code_simp
  then show ?thesis
    using only_accepted_edits_write [of "Post_Dismiss ''g1'' ''ops''" example_empty, OF prod.collapse [symmetric]] by auto
qed

definition example_trades :: ledger where
  "example_trades = snd (upsert_trade_group (trade_group_default ''g1'' ''main'' BROKER) example_empty)"

lemma detail_of_listed_trade_witness:
  "hr_status (get_trade ''g1'' example_trades) = 200 \<and> hr_status (get_trade ''g2'' example_trades) = 404"
proof -
  have ok: "ledger_ok example_trades"
    by (simp add: example_trades_def example_empty_def ledger_ok_intros ledger_ok_empty)
  have "map dt_group_id (all_trades example_trades) = [''g1'']" by code_simp
  then have "dt_group_id ` set (all_trades example_trades) = {''g1''}"
    by (metis image_set list.simps(15) set_empty)
  note listed = detail_of_listed_trade [OF ok, THEN conjunct2, THEN conjunct1, unfolded this]
  show ?thesis unfolding listed by simp
qed

end
