(* ===== verification/Detect.thy ===== *)
theory Detect
  imports Attribution
begin

text \<open>
  The reports over stuck groups (\<^verbatim>\<open>tt_ledger/ingest/reconcile.py\<close>:
  \<open>find_misattributed_open_groups\<close>, \<open>find_orphan_settlement_groups\<close>, \<open>_over_closing_groups\<close>) and
  the futures repair \<open>recompute_futures_group_pnl\<close>. A reported group is a record with the fields
  of the dictionary the code returns. The text of a repair note prints two decimals, whose
  formatting is a parameter.
\<close>

section \<open>Detectors\<close>

record finding =
  fd_group_pk :: nat
  fd_group_id :: "string option"
  fd_securities :: "string list"
  fd_covered_by :: "nat list"

definition account_rows :: "ledger \<Rightarrow> string \<Rightarrow> ledger_row list" where
  "account_rows s account = activity_rows s (activity_filter0\<lparr>af_account := Some account\<rparr>)"

definition rows_by_group :: "ledger_row list \<Rightarrow> (nat, ledger_row list) dict" where
  "rows_by_group rows =
     group_by (\<lambda>r. case r_trade_group_id r of None \<Rightarrow> 0 | Some pk \<Rightarrow> pk)
       (filter (\<lambda>r. r_trade_group_id r \<noteq> None) rows)"

definition rows_of :: "(nat, ledger_row list) dict \<Rightarrow> nat \<Rightarrow> ledger_row list" where
  "rows_of d pk = dict_get_or d pk []"

definition closed_quantities :: "ledger_row list \<Rightarrow> (string, decimal) dict" where
  "closed_quantities rows =
     foldl (\<lambda>d r. if is_closing r \<or> is_bare r
                  then dict_set (str0 (r_security_id r))
                         (dict_get_or d (str0 (r_security_id r)) 0 + \<bar>row_qty r\<bar>) d
                  else d)
       [] (ordered_position_rows rows)"

definition over_closed :: "ledger_row list \<Rightarrow> string list" where
  "over_closed rows =
     map fst (filter (\<lambda>(sid, qty). dict_get_or (peak_exposures rows) sid 0 < qty) (closed_quantities rows))"

definition over_closing_groups :: "(nat, ledger_row list) dict \<Rightarrow> (string, nat list) dict" where
  "over_closing_groups by_group =
     foldl (\<lambda>over (pk, rows). foldl (\<lambda>over sid. dict_append sid pk over) over (over_closed rows)) [] by_group"

definition open_nets :: "ledger_row list \<Rightarrow> (string, decimal) dict" where
  "open_nets rows = filter (\<lambda>(_, n). n \<noteq> 0) (net_quantities rows)"

definition group_id_of :: "ledger \<Rightarrow> nat \<Rightarrow> string option" where
  "group_id_of s pk = map_option tg_group_id (get_trade_group_by_id s pk)"

definition misattributed :: "(string, decimal) dict \<Rightarrow> ledger_row list \<Rightarrow> bool" where
  "misattributed account_nets rows \<longleftrightarrow>
     open_nets rows \<noteq> [] \<and> (\<forall>(sid, _) \<in> set (open_nets rows). dict_get_or account_nets sid 0 = 0)"

definition covering_groups ::
  "(nat, ledger_row list) dict \<Rightarrow> (string, nat list) dict \<Rightarrow> open_group \<Rightarrow> nat list" where
  "covering_groups by_group over g =
     sort (filter (\<lambda>pk. fully_closed (og_rows g @ rows_of by_group pk))
       (remdups (filter (\<lambda>pk. pk \<noteq> og_pk g)
         (concat (map (\<lambda>(sid, _). dict_get_or over sid []) (open_nets (og_rows g)))))))"

definition find_misattributed_open_groups :: "ledger \<Rightarrow> string \<Rightarrow> finding list" where
  "find_misattributed_open_groups s account =
     (let activity = account_rows s account;
          account_nets = net_open_quantities activity;
          by_group = rows_by_group activity;
          over = over_closing_groups by_group
      in sort_key fd_group_pk
           (map (\<lambda>g. \<lparr> fd_group_pk = og_pk g, fd_group_id = group_id_of s (og_pk g),
                       fd_securities = sort (map fst (open_nets (og_rows g))),
                       fd_covered_by = covering_groups by_group over g \<rparr>)
             (filter (\<lambda>g. misattributed account_nets (og_rows g)) (load_open_groups s account))))"

definition orphaned :: "ledger_row list \<Rightarrow> bool" where
  "orphaned rows \<longleftrightarrow>
     ordered_position_rows rows \<noteq> [] \<and> (\<forall>r \<in> set (ordered_position_rows rows). is_closing r)
   \<and> net_quantities rows = []"

definition orphan_securities :: "ledger_row list \<Rightarrow> string list" where
  "orphan_securities rows = sort (remdups (map (\<lambda>r. str0 (r_security_id r)) (ordered_position_rows rows)))"

definition orphan_hosts :: "(nat, ledger_row list) dict \<Rightarrow> open_group \<Rightarrow> nat list" where
  "orphan_hosts by_group g =
     sort (map fst (filter (\<lambda>(pk, host_rows). pk \<noteq> og_pk g
         \<and> (\<exists>sid \<in> set (orphan_securities (og_rows g)). dict_get_or (net_quantities host_rows) sid 0 \<noteq> 0)
         \<and> fully_closed (host_rows @ og_rows g)) by_group))"

definition find_orphan_settlement_groups :: "ledger \<Rightarrow> string \<Rightarrow> finding list" where
  "find_orphan_settlement_groups s account =
     (let by_group = rows_by_group (account_rows s account)
      in sort_key fd_group_pk
           (map (\<lambda>g. \<lparr> fd_group_pk = og_pk g, fd_group_id = group_id_of s (og_pk g),
                       fd_securities = orphan_securities (og_rows g),
                       fd_covered_by = orphan_hosts by_group g \<rparr>)
             (filter (\<lambda>g. orphaned (og_rows g)) (load_open_groups s account))))"

section \<open>The futures repair\<close>

record pnl_change =
  pc_group_pk :: nat
  pc_group_id :: string
  pc_account :: string
  pc_old :: decimal
  pc_new :: decimal

definition has_future :: "ledger \<Rightarrow> ledger_row list \<Rightarrow> bool" where
  "has_future s rows \<longleftrightarrow> (\<exists>r \<in> set rows. is_future (get_security s) r)"

text \<open>The change of one group, when there is one.\<close>

definition pnl_change_of :: "ledger \<Rightarrow> string \<Rightarrow> trade_row \<Rightarrow> pnl_change option" where
  "pnl_change_of s account trade =
     (case (tr_realized_pnl trade, get_trade_group_id s (tr_group_id trade)) of
        (Some old, Some pk) \<Rightarrow>
          let rows = group_rows s pk; recomputed = group_realized (get_security s) rows
          in if has_future s rows \<and> recomputed \<noteq> old
             then Some \<lparr> pc_group_pk = pk, pc_group_id = tr_group_id trade, pc_account = account,
                         pc_old = old, pc_new = recomputed \<rparr>
             else None
      | _ \<Rightarrow> None)"

definition recompute_event :: "(decimal \<Rightarrow> string) \<Rightarrow> trade_group_row \<Rightarrow> pnl_change \<Rightarrow> event_row" where
  "recompute_event show_decimal tg c =
     (event_default (pc_group_pk c) EV_ADJUSTMENT)
       \<lparr> ev_event_at := tg_closed_at tg,
         ev_notes := Some (''recompute: price-based futures realized_pnl ('' @ show_decimal (pc_old c)
           @ '' -> '' @ show_decimal (pc_new c) @ '')'') \<rparr>"

definition apply_pnl_change :: "(decimal \<Rightarrow> string) \<Rightarrow> pnl_change \<Rightarrow> ledger \<Rightarrow> ledger" where
  "apply_pnl_change show_decimal c s =
     (case get_trade_group_by_id s (pc_group_pk c) of
        None \<Rightarrow> s
      | Some tg \<Rightarrow>
          add_trade_group_event (recompute_event show_decimal tg c)
            (snd (upsert_trade_group (tg\<lparr>tg_realized_pnl := Some (pc_new c)\<rparr>) s)))"

definition recompute_step ::
  "(decimal \<Rightarrow> string) \<Rightarrow> bool \<Rightarrow> string \<Rightarrow> pnl_change list \<times> ledger \<Rightarrow> trade_row \<Rightarrow> pnl_change list \<times> ledger" where
  "recompute_step show_decimal dry_run account acc trade =
     (case acc of (changes, s) \<Rightarrow>
      (case pnl_change_of s account trade of
         None \<Rightarrow> (changes, s)
       | Some c \<Rightarrow> (changes @ [c], if dry_run then s else apply_pnl_change show_decimal c s)))"

definition recompute_account ::
  "(decimal \<Rightarrow> string) \<Rightarrow> bool \<Rightarrow> pnl_change list \<times> ledger \<Rightarrow> string \<Rightarrow> pnl_change list \<times> ledger" where
  "recompute_account show_decimal dry_run acc account =
     foldl (recompute_step show_decimal dry_run account) acc
       (unified_trades (snd acc) (trade_filter0\<lparr>tf_account := Some account\<rparr>))"

definition recompute_futures_group_pnl ::
  "(decimal \<Rightarrow> string) \<Rightarrow> string option \<Rightarrow> bool \<Rightarrow> ledger \<Rightarrow> pnl_change list \<times> ledger" where
  "recompute_futures_group_pnl show_decimal account dry_run s =
     foldl (recompute_account show_decimal dry_run) ([], s)
       (case account of Some a \<Rightarrow> [a] | None \<Rightarrow> accounts_with_activity s None)"

section \<open>What the reports promise\<close>

lemma load_open_groups_rows: "g \<in> set (load_open_groups s account) \<Longrightarrow> og_rows g = group_rows s (og_pk g)"
  by (auto simp: load_open_groups_def set_somes eq_commute [of "Some g"])

lemma misattributed_holds_net: "misattributed nets rows \<Longrightarrow> net_quantities rows \<noteq> []"
  by (auto simp: misattributed_def open_nets_def)

lemma in_misattributed:
  "f \<in> set (find_misattributed_open_groups s account) \<Longrightarrow>
     misattributed (net_open_quantities (account_rows s account)) (group_rows s (fd_group_pk f))"
  by (auto simp: find_misattributed_open_groups_def Let_def dest: load_open_groups_rows)

lemma in_orphans:
  "f \<in> set (find_orphan_settlement_groups s account) \<Longrightarrow> orphaned (group_rows s (fd_group_pk f))"
  by (auto simp: find_orphan_settlement_groups_def Let_def dest: load_open_groups_rows)

text \<open>
  The two detectors never report the same group: one needs a net the group still
  holds, the other an empty one.\<close>

theorem detectors_disjoint:
  "fd_group_pk ` set (find_misattributed_open_groups s account)
     \<inter> fd_group_pk ` set (find_orphan_settlement_groups s account) = {}"
proof -
  have False if "f \<in> set (find_misattributed_open_groups s account)"
    and "f' \<in> set (find_orphan_settlement_groups s account)" and "fd_group_pk f = fd_group_pk f'" for f f'
    using misattributed_holds_net [OF in_misattributed [OF that(1)]] in_orphans [OF that(2)] that(3)
    by (simp add: orphaned_def)
  then show ?thesis by blast
qed

lemma orphaned_iff:
  "orphaned rows \<longleftrightarrow> ordered_position_rows rows \<noteq> [] \<and> (\<forall>r \<in> set (ordered_position_rows rows). is_closing r)"
proof -
  have "net_quantities rows = []" if "\<forall>r \<in> set (ordered_position_rows rows). is_closing r"
    using net_walk_closing_flat [OF that, of "[]"] by (simp add: net_quantities_def)
  then show ?thesis by (auto simp: orphaned_def)
qed

text \<open>
  Every open group that holds nothing but closes is reported as an orphan: a
  membership of closes never nets to anything, whatever the quantities, so the extra check of
  the detector for a remaining net never hides one.\<close>

theorem orphan_detector_complete:
  assumes "g \<in> set (load_open_groups s account)" and "ordered_position_rows (og_rows g) \<noteq> []"
    and "\<forall>r \<in> set (og_rows g). str_true (r_security_id r) \<and> r_quantity r \<noteq> None \<longrightarrow> is_closing r"
  shows "og_pk g \<in> fd_group_pk ` set (find_orphan_settlement_groups s account)"
proof -
  have "\<forall>r \<in> set (ordered_position_rows (og_rows g)). is_closing r"
    using assms(3) by (auto simp: ordered_position_rows_def)
  then have "orphaned (og_rows g)" using assms(2) by (simp add: orphaned_iff)
  with assms(1) show ?thesis
    by (force simp: find_orphan_settlement_groups_def Let_def)
qed

text \<open>
  Every entry of \<open>covered_by\<close> is a merge that works: joining the rows of the
  reported group with those of a group it names leaves every security of the two netted to zero,
  and a group is never named as its own counterpart.\<close>

theorem covered_by_closes_both:
  assumes "f \<in> set (find_misattributed_open_groups s account)" and "pk \<in> set (fd_covered_by f)"
  shows "pk \<noteq> fd_group_pk f
    \<and> fully_closed (group_rows s (fd_group_pk f) @ rows_of (rows_by_group (account_rows s account)) pk)"
  using assms
  by (auto simp: find_misattributed_open_groups_def covering_groups_def Let_def dest: load_open_groups_rows)

end
