(* ===== verification/Cli.thy ===== *)
theory Cli
  imports Http_Api Wire Detect
begin

text \<open>
  The command line (\<^verbatim>\<open>tt_ledger/cli.py\<close>): each command as a function of its parsed options, of the accounts
  file and of the ledger behind the connection URL, giving what it prints, its exit code and the
  ledger it leaves. Parsing the options and drawing tables are typer's and rich's. The broker a command builds
  from the credentials, the streamer's messages and the two formats of a decimal are parameters; the
  migration command is the upgrade of the schema theories.
\<close>

section \<open>The environment of a command\<close>

datatype cli_output = Line string | Table_Of string "string list" "string list list"

record cli_env =
  ce_path :: string
  ce_accounts :: "toml option"
  ce_broker :: "login_config \<Rightarrow> string \<Rightarrow> broker_client"
  ce_messages :: "string \<Rightarrow> stream_event list"
  ce_today :: date
  ce_show :: "decimal \<Rightarrow> string"
  ce_show_cents :: "decimal \<Rightarrow> string"

record cli_result =
  cr_output :: "cli_output list"
  cr_exit_code :: nat
  cr_ledger :: ledger

definition PRODUCTION_URL :: string where
  "PRODUCTION_URL = ''https://api.tastyworks.com''"

definition SANDBOX_URL :: string where
  "SANDBOX_URL = ''https://api.cert.tastyworks.com''"

text \<open>The text of an exception of the accounts file; \<open>str\<close> of a KeyError quotes its message.\<close>

fun config_error_text :: "string \<Rightarrow> config_error \<Rightarrow> string" where
  "config_error_text path (Missing_Login login) =
     CHR 0x22 # ''login '' @ py_repr login @ '' not found in '' @ path @ [CHR 0x22]"
| "config_error_text path (Missing_Key key) = py_repr key"
| "config_error_text path (Not_A_Section login) = ''TypeError''"
| "config_error_text path (Paper_Nickname login number nickname) =
     py_repr login @ ''.accounts['' @ py_repr number @ '']: paper account nickname '' @ py_repr nickname
     @ '' must contain '' @ py_repr ''paper''"
| "config_error_text path (Duplicate_Nicknames names) =
     ''duplicate nickname(s) across logins in '' @ path @ '': '' @ concat (map py_repr names)"

section \<open>Opening a client\<close>

definition load_accounts :: "cli_env \<Rightarrow> string + account_mapper" where
  "load_accounts env =
     (case ce_accounts env of
        None \<Rightarrow> Inl (''[Errno 2] No such file or directory: '' @ py_repr (ce_path env))
      | Some data \<Rightarrow> map_sum (config_error_text (ce_path env)) id (from_toml data None))"

definition client_over :: "account_mapper \<Rightarrow> broker_client option \<Rightarrow> ledger_client" where
  "client_over accounts broker =
     \<lparr> lc_accounts = accounts, lc_resolver = passthrough_resolver, lc_client = broker, lc_settlement_price = None \<rparr>"

definition base_url_for :: "account_mapper \<Rightarrow> string \<Rightarrow> string" where
  "base_url_for accounts account = (if env_for accounts account = ''paper'' then SANDBOX_URL else PRODUCTION_URL)"

definition open_client :: "cli_env \<Rightarrow> string + ledger_client" where
  "open_client env = map_sum id (\<lambda>accounts. client_over accounts None) (load_accounts env)"

definition open_client_with_broker :: "cli_env \<Rightarrow> string \<Rightarrow> string + ledger_client" where
  "open_client_with_broker env account =
     (case (load_accounts env, ce_accounts env) of
        (Inl e, _) \<Rightarrow> Inl e
      | (Inr accounts, None) \<Rightarrow> Inl ''unreachable''
      | (Inr accounts, Some data) \<Rightarrow>
          (case login_for accounts account of
             None \<Rightarrow> Inl (''no login section in '' @ ce_path env @ '' owns account '' @ py_repr account)
           | Some login \<Rightarrow>
               (case login_config_from_toml login data of
                  Inl e \<Rightarrow> Inl (config_error_text (ce_path env) e)
                | Inr config \<Rightarrow>
                    Inr (client_over accounts (Some (ce_broker env config (base_url_for accounts account)))))))"

text \<open>\<open>_run\<close>: an exception ends the command with its text and exit code 1.\<close>

definition failed :: "string \<Rightarrow> ledger \<Rightarrow> cli_result" where
  "failed msg s = \<lparr> cr_output = [Line (''Error: '' @ msg)], cr_exit_code = 1, cr_ledger = s \<rparr>"

definition printed :: "cli_output list \<Rightarrow> ledger \<Rightarrow> cli_result" where
  "printed out s = \<lparr> cr_output = out, cr_exit_code = 0, cr_ledger = s \<rparr>"

definition with_client :: "cli_env \<Rightarrow> (ledger_client \<Rightarrow> ledger \<Rightarrow> cli_result) \<Rightarrow> ledger \<Rightarrow> cli_result" where
  "with_client env f s = (case open_client env of Inl e \<Rightarrow> failed e s | Inr lc \<Rightarrow> f lc s)"

section \<open>Tables\<close>

definition dash :: "string option \<Rightarrow> string" where
  "dash v = (case v of None \<Rightarrow> ''-'' | Some x \<Rightarrow> x)"

text \<open>\<open>v or "-"\<close>.\<close>

definition or_dash :: "string option \<Rightarrow> string" where
  "or_dash v = (if str_true v then str0 v else ''-'')"

definition money :: "cli_env \<Rightarrow> decimal option \<Rightarrow> string" where
  "money env value = dash (map_option (ce_show env) value)"

definition matched :: "string \<Rightarrow> string list \<Rightarrow> string list list \<Rightarrow> string \<Rightarrow> cli_output list" where
  "matched title columns rows nothing = Table_Of title columns rows # (if rows = [] then [Line nothing] else [])"

definition sync_result_table :: "sync_result \<Rightarrow> cli_output list" where
  "sync_result_table r =
     Table_Of ''Sync result'' [''Orders'', ''Transactions'', ''Positions'', ''Trade groups'']
       [map show_nat [sr_orders r, sr_transactions r, sr_positions r, sr_trade_groups r]]
     # (if sr_errors r = [] then [] else Line ''Errors:'' # map (\<lambda>e. Line (''  - '' @ e)) (sr_errors r))"

definition trades_table :: "cli_env \<Rightarrow> trade_row list \<Rightarrow> cli_output list" where
  "trades_table env trades =
     matched ''Trades''
       [''Group'', ''Account'', ''Origin'', ''Review'', ''Status'', ''Strategy'', ''Underlying'', ''Legs'', ''Premium'']
       (map (\<lambda>t. [tr_group_id t, tr_account t, origin_value (tr_origin t), review_status_value (tr_review_status t),
                  tr_status t, or_dash (tr_strategy_type t), or_dash (tr_underlying t), show_nat (tr_leg_count t),
                  money env (tr_total_premium t)]) trades)
       ''No trades matched.''"

definition orders_table :: "cli_env \<Rightarrow> order_row list \<Rightarrow> cli_output list" where
  "orders_table env orders =
     matched ''Orders'' [''tt_order_id'', ''Account'', ''Origin'', ''Status'', ''Underlying'', ''Security'', ''Price'']
       (map (\<lambda>r. [or_dash (o_tt_order_id r), o_account r, origin_value (o_origin r), or_dash (o_oms_status r),
                  or_dash (o_underlying r), or_dash (o_security_id r), money env (o_price r)]) orders)
       ''No orders matched.''"

definition activity_table :: "cli_env \<Rightarrow> activity_row list \<Rightarrow> cli_output list" where
  "activity_table env activity =
     matched ''Account activity''
       [''tt_transaction_id'', ''Type'', ''Security'', ''Qty'', ''Net value'', ''Origin'', ''Review'']
       (map (\<lambda>a. [r_tt_transaction_id a, or_dash (r_transaction_type a), or_dash (r_security_id a),
                  money env (r_quantity a), money env (r_net_value a), dash (map_option origin_value (a_origin a)),
                  dash (map_option review_status_value (a_review_status a))]) activity)
       ''No activity matched.''"

definition positions_table :: "cli_env \<Rightarrow> position_row list \<Rightarrow> cli_output list" where
  "positions_table env positions =
     matched ''Positions'' [''Security'', ''Qty'', ''Direction'', ''Avg open'', ''Mark'', ''Unrealized P&L'']
       (map (\<lambda>p. [ps_security_id p, money env (Some (ps_quantity p)), ps_quantity_direction p,
                  money env (ps_average_open_price p), money env (ps_mark_price p), money env (ps_unrealized_pnl p)]) positions)
       ''No positions matched.''"

definition closed_positions_table :: "cli_env \<Rightarrow> closed_position_row list \<Rightarrow> cli_output list" where
  "closed_positions_table env closed_rows =
     matched ''Closed positions''
       [''Security'', ''Qty'', ''Direction'', ''Avg open'', ''Avg close'', ''Realized P&L'', ''Closed at'', ''Held (days)'']
       (map (\<lambda>c. [cp_security_id c, money env (Some (cp_quantity c)), cp_quantity_direction c,
                  money env (cp_average_open_price c), money env (cp_average_close_price c), money env (cp_realized_pnl c),
                  dash (map_option isoformat (cp_closed_at c)), dash (map_option show_int (cp_holding_period_days c))]) closed_rows)
       ''No closed positions matched.''"

section \<open>The commands\<close>

text \<open>An ISO date; the empty string is none.\<close>

definition parse_since :: "string option \<Rightarrow> string + date option" where
  "parse_since value =
     (if \<not> str_true value then Inr None
      else (case iso_date (str0 value) of
              None \<Rightarrow> Inl (''Invalid isoformat string: '' @ py_repr (str0 value)) | Some d \<Rightarrow> Inr (Some d)))"

definition cli_sync :: "cli_env \<Rightarrow> string \<Rightarrow> string option \<Rightarrow> ledger \<Rightarrow> cli_result" where
  "cli_sync env account since s =
     (case open_client_with_broker env account of
        Inl e \<Rightarrow> failed e s
      | Inr lc \<Rightarrow>
          (case parse_since since of
             Inl e \<Rightarrow> failed e s
           | Inr start \<Rightarrow>
               (case sdk_sync lc (ce_today env) start account ([], s) of
                  (Inl e, _, s1) \<Rightarrow> failed e s1
                | (Inr result, _, s1) \<Rightarrow> printed (sync_result_table result) s1)))"

text \<open>The interrupt that ends a listener is a stop of the stream.\<close>

definition cli_listen :: "cli_env \<Rightarrow> string \<Rightarrow> ledger \<Rightarrow> cli_result" where
  "cli_listen env account s =
     (case open_client_with_broker env account of
        Inl e \<Rightarrow> failed e s
      | Inr lc \<Rightarrow>
          (case to_account_number (lc_accounts lc) account of
             Inl e \<Rightarrow> failed e s
           | Inr number \<Rightarrow>
               printed [Line (''Listening for '' @ py_repr account @ '' -- Ctrl+C to stop.'')]
                 (c_ledger (run_consumer (stream_consumer lc False True 60000000) False (ce_messages env number)
                    (consumer_start s)))))"

definition error_lines :: "string list \<Rightarrow> cli_output list" where
  "error_lines errors = (if errors = [] then [] else Line ''Errors:'' # map (\<lambda>e. Line (''  - '' @ e)) errors)"

definition cli_reconcile :: "cli_env \<Rightarrow> string option \<Rightarrow> string option \<Rightarrow> bool \<Rightarrow> ledger \<Rightarrow> cli_result" where
  "cli_reconcile env account since dry_run =
     with_client env (\<lambda>lc s.
       case parse_since since of
         Inl e \<Rightarrow> failed e s
       | Inr start \<Rightarrow>
           (case sdk_reconcile lc account start None dry_run s of
              (result, s1) \<Rightarrow>
                printed (Line (''trade_groups: '' @ show_nat (sr_trade_groups result)) # error_lines (sr_errors result)) s1))"

definition cli_positions :: "cli_env \<Rightarrow> string \<Rightarrow> bool \<Rightarrow> ledger \<Rightarrow> cli_result" where
  "cli_positions env account show_all =
     with_client env (\<lambda>lc s. printed (positions_table env (sdk_positions account (\<not> show_all) s)) s)"

definition cli_closed_positions :: "cli_env \<Rightarrow> string \<Rightarrow> string option \<Rightarrow> ledger \<Rightarrow> cli_result" where
  "cli_closed_positions env account security_id =
     with_client env (\<lambda>lc s. printed (closed_positions_table env (get_closed_positions s account security_id)) s)"

definition change_line :: "cli_env \<Rightarrow> pnl_change \<Rightarrow> cli_output" where
  "change_line env ch =
     Line (''  - group '' @ show_nat (pc_group_pk ch) @ '' ('' @ pc_account ch @ ''): ''
       @ ce_show env (pc_old ch) @ '' -> '' @ ce_show env (pc_new ch))"

definition cli_recompute_futures_pnl :: "cli_env \<Rightarrow> string option \<Rightarrow> bool \<Rightarrow> ledger \<Rightarrow> cli_result" where
  "cli_recompute_futures_pnl env account dry_run =
     with_client env (\<lambda>lc s.
       case recompute_futures_group_pnl (ce_show_cents env) account dry_run s of
         (repaired, s1) \<Rightarrow>
           printed (Line (''groups '' @ (if dry_run then ''would change'' else ''changed'') @ '': '' @ show_nat (length repaired))
             # map (change_line env) repaired) s1)"

definition cli_rebuild_positions :: "cli_env \<Rightarrow> string option \<Rightarrow> ledger \<Rightarrow> cli_result" where
  "cli_rebuild_positions env account =
     with_client env (\<lambda>lc s.
       case rebuild_positions_from_transactions account s of
         (result, s1) \<Rightarrow>
           printed (Line (''positions rebuilt: '' @ show_nat (sr_positions result)) # error_lines (sr_errors result)) s1)"

definition cli_trades_list ::
  "cli_env \<Rightarrow> bool \<Rightarrow> string option \<Rightarrow> string option \<Rightarrow> string option \<Rightarrow> ledger \<Rightarrow> cli_result" where
  "cli_trades_list env needs_review origin_text account underlying =
     with_client env (\<lambda>lc s.
       case sdk_trades origin_text (if needs_review then Some ''needs_review'' else None)
              (trade_filter0\<lparr> tf_account := account, tf_underlying := underlying \<rparr>) s of
         Inl e \<Rightarrow> failed e s
       | Inr trades \<Rightarrow> printed (trades_table env trades) s)"

definition cli_trades_show :: "cli_env \<Rightarrow> string \<Rightarrow> ledger \<Rightarrow> cli_result" where
  "cli_trades_show env group_id =
     with_client env (\<lambda>lc s.
       case sdk_trade group_id s of
         None \<Rightarrow> failed (group_not_found group_id) s
       | Some trade \<Rightarrow>
           (case trade_detail group_id s of
              (orders, transactions) \<Rightarrow>
                printed (trades_table env [trade] @ orders_table env orders @ activity_table env transactions) s))"

text \<open>An edit prints the trades it returns.\<close>

definition edited :: "cli_env \<Rightarrow> ('a \<Rightarrow> trade_row list) \<Rightarrow> (string + 'a) \<times> ledger \<Rightarrow> cli_result" where
  "edited env f answer =
     (case answer of (Inl msg, s) \<Rightarrow> failed msg s | (Inr x, s) \<Rightarrow> printed (trades_table env (f x)) s)"

definition cli_trades_remap :: "cli_env \<Rightarrow> string \<Rightarrow> remap_request \<Rightarrow> ledger \<Rightarrow> cli_result" where
  "cli_trades_remap env group_id opts =
     with_client env (\<lambda>lc s. edited env (\<lambda>t. [t])
       (remap_trade_group group_id (rr_strategy opts) (rr_bot opts) (rr_signal opts) (rr_strategy_type opts)
         (rr_reviewed_by opts) s))"

text \<open>Exactly one of a target and a new group is asked for; an empty target counts as none.\<close>

definition target_choice :: "string option \<Rightarrow> bool \<Rightarrow> string option" where
  "target_choice target new_group =
     (if str_true target \<and> new_group then Some ''specify either --to or --new, not both''
      else if \<not> str_true target \<and> \<not> new_group then Some ''specify --to <group_id> or --new''
      else None)"

definition cli_trades_regroup :: "cli_env \<Rightarrow> regroup_request \<Rightarrow> bool \<Rightarrow> ledger \<Rightarrow> cli_result" where
  "cli_trades_regroup env opts new_group s =
     (case target_choice (rg_target opts) new_group of
        Some msg \<Rightarrow> failed msg s
      | None \<Rightarrow>
          with_client env (\<lambda>lc s. edited env id
            (regroup_transactions (rg_txn_ids opts) (rg_target opts) (rg_reviewed_by opts) s)) s)"

definition cli_trades_link_order :: "cli_env \<Rightarrow> string \<Rightarrow> link_order_request \<Rightarrow> bool \<Rightarrow> ledger \<Rightarrow> cli_result" where
  "cli_trades_link_order env tt_order_id opts new_group s =
     (case target_choice (lk_target opts) new_group of
        Some msg \<Rightarrow> failed msg s
      | None \<Rightarrow>
          with_client env (\<lambda>lc s. edited env (\<lambda>t. [t])
            (link_order_to_group tt_order_id (lk_target opts) (lk_reviewed_by opts) s)) s)"

definition cli_trades_dismiss :: "cli_env \<Rightarrow> string \<Rightarrow> string \<Rightarrow> ledger \<Rightarrow> cli_result" where
  "cli_trades_dismiss env group_id reviewed_by =
     with_client env (\<lambda>lc s. edited env (\<lambda>t. [t]) (dismiss_trade_group group_id reviewed_by s))"

section \<open>The command line\<close>

datatype cli_command =
    Sync string "string option"
  | Listen string
  | Reconcile_Command "string option" "string option" bool
  | Positions_Command string bool
  | Closed_Positions_Command string "string option"
  | Recompute_Futures_Pnl "string option" bool
  | Rebuild_Positions "string option"
  | Trades_List bool "string option" "string option" "string option"
  | Trades_Show string
  | Trades_Remap string remap_request
  | Trades_Regroup regroup_request bool
  | Trades_Link_Order string link_order_request bool
  | Trades_Dismiss string string

fun run_command :: "cli_env \<Rightarrow> cli_command \<Rightarrow> ledger \<Rightarrow> cli_result" where
  "run_command env (Sync account since) s = cli_sync env account since s"
| "run_command env (Listen account) s = cli_listen env account s"
| "run_command env (Reconcile_Command account since dry_run) s = cli_reconcile env account since dry_run s"
| "run_command env (Positions_Command account show_all) s = cli_positions env account show_all s"
| "run_command env (Closed_Positions_Command account sid) s = cli_closed_positions env account sid s"
| "run_command env (Recompute_Futures_Pnl account dry_run) s = cli_recompute_futures_pnl env account dry_run s"
| "run_command env (Rebuild_Positions account) s = cli_rebuild_positions env account s"
| "run_command env (Trades_List needs_review org account underlying) s =
     cli_trades_list env needs_review org account underlying s"
| "run_command env (Trades_Show group_id) s = cli_trades_show env group_id s"
| "run_command env (Trades_Remap group_id opts) s = cli_trades_remap env group_id opts s"
| "run_command env (Trades_Regroup opts new_group) s = cli_trades_regroup env opts new_group s"
| "run_command env (Trades_Link_Order tt_order_id opts new_group) s = cli_trades_link_order env tt_order_id opts new_group s"
| "run_command env (Trades_Dismiss group_id reviewed_by) s = cli_trades_dismiss env group_id reviewed_by s"

section \<open>A command that fails has written nothing\<close>

lemma printed_code [simp]: "cr_exit_code (printed out s) = 0" "cr_ledger (printed out s) = s"
  by (simp_all add: printed_def)

lemma failed_code [simp]: "cr_exit_code (failed msg s) = 1" "cr_ledger (failed msg s) = s"
  by (simp_all add: failed_def)

lemma with_client_result:
  "(\<And>lc. cr_exit_code (f lc s) \<noteq> 0 \<Longrightarrow> cr_ledger (f lc s) = s) \<Longrightarrow>
    cr_exit_code (with_client env f s) \<noteq> 0 \<Longrightarrow> cr_ledger (with_client env f s) = s"
  by (simp add: with_client_def split: sum.splits)

context guarded_edit
begin

lemma failed_command: "cr_exit_code (edited env f (edit s)) \<noteq> 0 \<Longrightarrow> cr_ledger (edited env f (edit s)) = s"
  using refused [of s] by (cases "edit s"; cases "fst (edit s)") (auto simp: edited_def)

end

lemma sync_refused:
  assumes "sdk_sync lc today since account (cache, s) = (Inl msg, cache', s')"
  shows "s' = s"
  using assms
  by (auto simp: sdk_sync_def ensure_account_def Let_def case_prod_beta split: option.splits sum.splits if_splits)


section \<open>The command line and the server make the same edits\<close>

text \<open>
  An operator may edit from either side: with a readable accounts file the command and
  the POST of the same edit leave the same ledger and fail together, exit code 0 going with status 200 and 1 with
  404; for a move or a link the options have to name a target or a new group, not both.
\<close>

theorem command_line_and_server_agree:
  assumes "load_accounts env = Inr accounts"
    and "(edit, command) \<in> {(Post_Remap g remap, Trades_Remap g remap), (Post_Dismiss g by, Trades_Dismiss g by)}
      \<union> {(Post_Regroup g regroup, Trades_Regroup regroup new_group) |new_group. target_choice (rg_target regroup) new_group = None}
      \<union> {(Post_Link tt link, Trades_Link_Order tt link new_group) |new_group. target_choice (lk_target link) new_group = None}"
  shows "cr_ledger (run_command env command s) = snd (route edit s)
    \<and> cr_exit_code (run_command env command s) = (if hr_status (fst (route edit s)) = 200 then 0 else 1)"
proof -
  have opened: "with_client env f s = f (client_over accounts None) s" for f
    by (simp add: with_client_def open_client_def assms(1))
  have edited: "cr_ledger (edited env f answer) = snd answer"
    "cr_exit_code (edited env f answer) = (if isl (fst answer) then 1 else 0)"
    for f :: "'a \<Rightarrow> trade_row list" and answer
    by (cases answer; cases "fst answer"; simp add: edited_def)+
  have answered: "snd (or_404 h answer) = snd answer"
    "hr_status (fst (or_404 h answer)) = (if isl (fst answer) then 404 else 200)"
    for h :: "'a \<Rightarrow> body" and answer
    by (cases answer; cases "fst answer"; simp add: or_404_def ok_def http_error_def)+
  show ?thesis
    using assms(2)
    by (auto simp: opened edited answered cli_trades_remap_def cli_trades_dismiss_def cli_trades_regroup_def
        cli_trades_link_order_def remap_trade_def dismiss_trade_def regroup_trade_def link_order_def split: if_splits)
qed

section \<open>Examples\<close>

definition example_env :: "toml option \<Rightarrow> cli_env" where
  "example_env accounts =
     \<lparr> ce_path = ''accounts.toml'', ce_accounts = accounts,
       ce_broker = \<lambda>config url. mock_broker \<lparr> mc_page_size = 250, mc_orders = [], mc_transactions = [], mc_positions = [], mc_balances = [] \<rparr>,
       ce_messages = \<lambda>_. [], ce_today = 0, ce_show = \<lambda>_. [], ce_show_cents = \<lambda>_. [] \<rparr>"


end
