(* ===== verification/Mock_Broker.thy ===== *)
theory Mock_Broker
  imports Pull
begin

text \<open>
  The rest of the in-memory broker (\<^verbatim>\<open>tt_ledger/ingest/mock_broker.py\<close>), seeding, the call log and the page
  count, over the tables of the client in theory Pull; its message queue; and the securities
  configuration (\<^verbatim>\<open>tt_ledger/config\<close>), whose tables are whatever the parsed file holds.
\<close>

section \<open>Seeding\<close>

definition add_order :: "placed_order \<Rightarrow> mock_client \<Rightarrow> mock_client" where
  "add_order po c = c\<lparr>mc_orders := dict_append (po_account_number po) po (mc_orders c)\<rparr>"

definition add_transaction :: "broker_transaction \<Rightarrow> mock_client \<Rightarrow> mock_client" where
  "add_transaction t c = c\<lparr>mc_transactions := dict_append (bt_account_number t) t (mc_transactions c)\<rparr>"

definition set_positions :: "string \<Rightarrow> broker_position list \<Rightarrow> mock_client \<Rightarrow> mock_client" where
  "set_positions account_number positions c = c\<lparr>mc_positions := dict_set account_number positions (mc_positions c)\<rparr>"

definition set_balance :: "string \<Rightarrow> balance_message \<Rightarrow> mock_client \<Rightarrow> mock_client" where
  "set_balance account_number balance c = c\<lparr>mc_balances := dict_set account_number balance (mc_balances c)\<rparr>"

record mock_fill =
  mf_account_number :: string
  mf_order_id :: string
  mf_symbol :: string
  mf_instrument_type :: string
  mf_action :: string
  mf_quantity :: decimal
  mf_fill_price :: decimal
  mf_filled_at :: datetime
  mf_underlying_symbol :: "string option"
  mf_price :: "decimal option"
  mf_price_effect :: "string option"
  mf_order_type :: string
  mf_status :: string

definition mock_order :: "mock_fill \<Rightarrow> placed_order" where
  "mock_order m =
     \<lparr> po_id = mf_order_id m, po_account_number = mf_account_number m, po_received_at = mf_filled_at m,
       po_legs =
         [\<lparr> pl_instrument_type = mf_instrument_type m, pl_symbol = mf_symbol m, pl_action = mf_action m,
            pl_quantity = mf_quantity m, pl_remaining_quantity = 0,
            pl_fills =
              [\<lparr> pf_fill_id = mf_order_id m @ ''-1'', pf_quantity = mf_quantity m, pf_fill_price = mf_fill_price m,
                 pf_filled_at = mf_filled_at m, pf_destination_venue = None, pf_ext_exec_id = None,
                 pf_ext_group_fill_id = None \<rparr>] \<rparr>],
       po_underlying_symbol = str_or (mf_underlying_symbol m) (Some (mf_symbol m)),
       po_underlying_instrument_type = None, po_order_type = Some (mf_order_type m), po_time_in_force = None,
       po_gtc_date = None, po_price = mf_price m, po_stop_trigger = None, po_price_effect = mf_price_effect m,
       po_status = Some (mf_status m), po_reject_reason = None, po_complex_order_id = None,
       po_complex_order_tag = None, po_updated_at = None, po_terminal_at = Some (mf_filled_at m) \<rparr>"

definition mock_transaction :: "mock_fill \<Rightarrow> broker_transaction" where
  "mock_transaction m =
     \<lparr> bt_id = ''TXN-'' @ mf_order_id m, bt_account_number = mf_account_number m, bt_order_id = Some (mf_order_id m),
       bt_underlying_symbol = str_or (mf_underlying_symbol m) (Some (mf_symbol m)), bt_symbol = Some (mf_symbol m),
       bt_instrument_type = Some (mf_instrument_type m), bt_transaction_type = Some ''Trade'',
       bt_transaction_sub_type = None, bt_action = Some (mf_action m), bt_quantity = Some (mf_quantity m),
       bt_price = Some (mf_fill_price m), bt_value = None, bt_value_effect = None, bt_net_value = None,
       bt_net_value_effect = None, bt_commission = None, bt_clearing_fees = None, bt_regulatory_fees = None,
       bt_proprietary_index_option_fees = None, bt_is_estimated_fee = None, bt_description = None,
       bt_executed_at = Some (mf_filled_at m), bt_transaction_date = Some (date_of (mf_filled_at m)) \<rparr>"

definition add_fill :: "mock_fill \<Rightarrow> mock_client \<Rightarrow> placed_order \<times> mock_client" where
  "add_fill m c = (mock_order m, add_transaction (mock_transaction m) (add_order (mock_order m) c))"

section \<open>The call log\<close>

text \<open>The name of the call, the account number and the window.\<close>

type_synonym mock_call = "string \<times> string \<times> date option \<times> date option"

record mock_log =
  ml_calls :: "mock_call list"
  ml_last_page_count :: nat

definition page_count :: "nat \<Rightarrow> nat \<Rightarrow> nat" where
  "page_count page_size n = max ((n + page_size - 1) div page_size) 1"

definition logged_orders ::
  "mock_client \<Rightarrow> string \<Rightarrow> date \<Rightarrow> date \<Rightarrow> mock_log \<Rightarrow> placed_order list \<times> mock_log" where
  "logged_orders c number start stop l =
     (let found = mock_order_history c number start stop in
      (found, \<lparr> ml_calls = ml_calls l @ [(''get_order_history'', number, Some start, Some stop)],
                ml_last_page_count = page_count (mc_page_size c) (length found) \<rparr>))"

definition logged_transactions ::
  "mock_client \<Rightarrow> string \<Rightarrow> date \<Rightarrow> date \<Rightarrow> mock_log \<Rightarrow> broker_transaction list \<times> mock_log" where
  "logged_transactions c number start stop l =
     (let found = mock_transaction_history c number start stop in
      (found, \<lparr> ml_calls = ml_calls l @ [(''get_transaction_history'', number, Some start, Some stop)],
                ml_last_page_count = page_count (mc_page_size c) (length found) \<rparr>))"

definition logged_positions :: "mock_client \<Rightarrow> string \<Rightarrow> mock_log \<Rightarrow> broker_position list \<times> mock_log" where
  "logged_positions c number l =
     (dict_get_or (mc_positions c) number [], l\<lparr>ml_calls := ml_calls l @ [(''get_positions'', number, None, None)]\<rparr>)"

definition logged_balances :: "mock_client \<Rightarrow> string \<Rightarrow> mock_log \<Rightarrow> balance_message \<times> mock_log" where
  "logged_balances c number l =
     (dict_get_or (mc_balances c) number (empty_balance number),
      l\<lparr>ml_calls := ml_calls l @ [(''get_balances'', number, None, None)]\<rparr>)"

lemma appended: "x \<in> set (dict_get_or (dict_append k x d) k [])"
  by (induction k x d rule: dict_append.induct) (auto simp: dict_get_or_def)

text \<open>A seeded fill is found by every window that contains its day, as one fully filled order with the
  aggregates of its single fill.\<close>

lemma filled_order_found:
  assumes "0 < mc_page_size c" "start \<le> date_of (mf_filled_at m)" "date_of (mf_filled_at m) \<le> stop"
  shows "mock_order m \<in> set (mock_order_history (snd (add_fill m c)) (mf_account_number m) start stop)
    \<and> mock_transaction m \<in> set (mock_transaction_history (snd (add_fill m c)) (mf_account_number m) start stop)"
proof -
  have "po_account_number (mock_order m) = mf_account_number m" "bt_account_number (mock_transaction m) = mf_account_number m"
    "po_received_at (mock_order m) = mf_filled_at m" "bt_executed_at (mock_transaction m) = Some (mf_filled_at m)"
    by (simp_all add: mock_order_def mock_transaction_def)
  then show ?thesis
    using assms
    by (simp add: appended mock_order_history_def mock_transaction_history_def paginate_id add_fill_def add_order_def
        add_transaction_def)
qed

lemma filled_order_aggregates:
  "mf_quantity m \<noteq> 0 \<Longrightarrow>
    order_level_fill_fields (po_legs (mock_order m)) (po_price_effect (mock_order m)) =
      (Some (mf_fill_price m), Some (mf_quantity m), Some 0)"
  by (simp add: order_level_fill_fields_def mock_order_def vwap_def fill_total_def)

section \<open>The securities configuration\<close>

record 'a security_rules =
  rules_index_option_roots :: "(string, string list) dict"
  rules_futures :: "(string, 'a) dict"
  rules_universes :: "(string, string list) dict"

definition load_securities ::
  "(string, string list) dict option \<Rightarrow> (string, 'a) dict option \<Rightarrow> (string, string list) dict option \<Rightarrow> 'a security_rules" where
  "load_securities roots futures universes =
     \<lparr> rules_index_option_roots = (case roots of None \<Rightarrow> [] | Some d \<Rightarrow> d),
       rules_futures = (case futures of None \<Rightarrow> [] | Some d \<Rightarrow> d),
       rules_universes = (case universes of None \<Rightarrow> [] | Some d \<Rightarrow> d) \<rparr>"

end
