(* ===== verification/Universe_Resolver.thy ===== *)
theory Universe_Resolver
  imports Symbology
begin

text \<open>
  \<open>SecurityUniverseResolver\<close> of \<^verbatim>\<open>tt_ledger/identity/securities.py\<close>, the adapter over the
  \<open>security-universe\<close> package. The package is a parameter: absent, or the values of its
  \<open>SecurityType\<close>, the resolvers it offers, and for each what it answers for a symbol and a type.
\<close>

section \<open>The package\<close>

datatype su_right = SU_Call | SU_Put

record su_security =
  su_symbol :: string
  su_type :: string
  su_security_id :: "string option"
  su_underlying :: "string option"
  su_expiry :: "date option"
  su_strike :: "decimal option"
  su_option_type :: "su_right option"

type_synonym su_delegate = "string \<Rightarrow> string \<Rightarrow> string + su_security"

record su_library =
  su_types :: "string list"
  su_chain :: "su_delegate option"
  su_occ :: "su_delegate option"

section \<open>The adapter\<close>

definition TT_TO_SU_TYPE :: "(string, string) dict" where
  "TT_TO_SU_TYPE =
     [(''equity'', ''stock''), (''equity option'', ''option''), (''future'', ''future''),
      (''future option'', ''option''), (''cryptocurrency'', ''crypto''), (''crypto'', ''crypto'')]"

definition SU_TYPE_TO_PRODUCT :: "(string, string) dict" where
  "SU_TYPE_TO_PRODUCT =
     [(''stock'', ''S''), (''etf'', ''S''), (''future'', ''F''), (''option'', ''OS''), (''crypto'', ''CR'')]"

definition needs_extra :: string where
  "needs_extra = ''SecurityUniverseResolver needs the [securities] extra: pip install -e '' @ py_repr ''.[securities]''"

definition no_module :: string where
  "no_module = ''No module named '' @ py_repr ''security_universe''"

text \<open>The resolver passed in, else the composite one, else the one for options.\<close>

definition su_delegate_of :: "su_delegate option \<Rightarrow> su_library \<Rightarrow> string + su_delegate" where
  "su_delegate_of given lib =
     (case given of
        Some d \<Rightarrow> Inr d
      | None \<Rightarrow>
          (case su_chain lib of
             Some d \<Rightarrow> Inr d
           | None \<Rightarrow> (case su_occ lib of Some d \<Rightarrow> Inr d | None \<Rightarrow> Inl needs_extra)))"

definition su_type_of :: "string option \<Rightarrow> string" where
  "su_type_of instrument_type = dict_get_or TT_TO_SU_TYPE (py_lower (py_strip (str0 instrument_type))) ''unknown''"

definition resolved_of_su :: "su_security \<Rightarrow> resolved_security" where
  "resolved_of_su r =
     \<lparr> rs_security_id = (if str_true (su_security_id r) then str0 (su_security_id r) else su_symbol r),
       rs_product_type = dict_get SU_TYPE_TO_PRODUCT (su_type r),
       rs_underlying = su_underlying r, rs_expiry = su_expiry r, rs_strike = su_strike r,
       rs_option_type = map_option (\<lambda>x. case x of SU_Call \<Rightarrow> ''C'' | SU_Put \<Rightarrow> ''P'') (su_option_type r),
       rs_multiplier = None \<rparr>"

definition security_universe_resolver :: "su_library option \<Rightarrow> su_delegate option \<Rightarrow> resolver" where
  "security_universe_resolver package given vendor_symbol instrument_type =
     (case package of
        None \<Rightarrow> Inl no_module
      | Some lib \<Rightarrow>
          let ty = su_type_of instrument_type in
          if ty \<notin> set (su_types lib) then Inl (py_repr ty @ '' is not a valid SecurityType'')
          else
            (case su_delegate_of given lib of
               Inl msg \<Rightarrow> Inl msg
             | Inr d \<Rightarrow>
                 (case d vendor_symbol ty of Inl msg \<Rightarrow> Inl msg | Inr r \<Rightarrow> Inr (resolved_of_su r))))"

section \<open>What it answers\<close>

text \<open>
  Without the package the import of \<open>resolve\<close> itself fails, so the hint to install the extra is
  reached only by a package that lacks both resolvers. A symbol the delegate leaves unclassified is
  its own security id; the contract multiplier is never known; and an option on an index or a future
  is reported as one on a stock, or, for an index, asked for as a security of unknown type.\<close>

theorem security_universe_results:
  "security_universe_resolver None given symbol ty = Inl no_module"
  "d symbol (su_type_of ty) = Inr r \<Longrightarrow> su_type_of ty \<in> set (su_types lib) \<Longrightarrow>
     security_universe_resolver (Some lib) (Some d) symbol ty = Inr (resolved_of_su r)"
  "\<not> str_true (su_security_id r) \<Longrightarrow> su_symbol r = symbol \<Longrightarrow> rs_security_id (resolved_of_su r) = symbol"
  "rs_multiplier (resolved_of_su r) = None"
  "su_type_of (Some ''Future Option'') = ''option''" "su_type_of (Some ''Index Option'') = ''unknown''"
  "dict_get SU_TYPE_TO_PRODUCT ''option'' = Some ''OS''"
proof -
  show "su_type_of (Some ''Future Option'') = ''option''" "su_type_of (Some ''Index Option'') = ''unknown''"
    "dict_get SU_TYPE_TO_PRODUCT ''option'' = Some ''OS''"
    by code_simp+
qed (simp_all add: security_universe_resolver_def su_delegate_of_def resolved_of_su_def)

end
