(* ===== verification/Client_Session.thy ===== *)
theory Client_Session
  imports Sdk_Laws Remap Detect
begin

text \<open>
  The client as a whole (\<^verbatim>\<open>tt_ledger/sdk.py\<close>): the methods that pass their arguments on to the store and to the
  ingest functions, and sessions, sequences of the calls that write, each with the broker, the
  resolver and the price source it happens to meet. Every call is made of store writes, so what
  every write keeps a session keeps: well-formedness and every record; and the trade group of a
  transaction changes by a regroup only.
\<close>

section \<open>Imports, positions and edits\<close>

context store_closed
begin

lemma closed_resolve_once: "P (snd acc) \<Longrightarrow> P (snd (snd (resolve_once resolver symbol ty acc)))"
  by (cases acc) (simp add: resolve_once_def write_closed split: sum.split)

lemma closed_resolve_legs: "P (snd acc) \<Longrightarrow> P (snd (snd (resolve_legs resolver legs acc)))"
  by (induction legs arbitrary: acc)
    (auto simp: case_prod_beta closed_resolve_once split: sum.split prod.split)

lemma closed_resolve_orders: "P (snd acc) \<Longrightarrow> P (snd (snd (resolve_orders resolver placed acc)))"
  by (induction placed arbitrary: acc)
    (auto simp: case_prod_beta closed_resolve_legs split: sum.split prod.split)

lemma closed_history [write_closed]: "P s \<Longrightarrow> P (snd (upsert_from_history resolver account placed s))"
  using closed_resolve_orders [of "([], s)" resolver placed]
  by (auto simp: upsert_from_history_def Let_def case_prod_beta write_closed split: sum.split prod.split)

lemma closed_txn_rows: "P (snd acc) \<Longrightarrow> P (snd (snd (txn_rows resolver account source ts acc)))"
  by (induction ts arbitrary: acc)
    (auto simp: case_prod_beta closed_resolve_once split: sum.split prod.split)

lemma closed_import [write_closed]: "P s \<Longrightarrow> P (snd (upsert_broker_transactions resolver account source ts s))"
  using closed_txn_rows [of "([], s)" resolver account source ts]
  by (auto simp: upsert_broker_transactions_def case_prod_beta write_closed split: sum.split prod.split)

lemma closed_position_rows: "P (snd acc) \<Longrightarrow> P (snd (snd (position_rows resolver account page acc)))"
  by (induction page arbitrary: acc)
    (auto simp: case_prod_beta closed_resolve_once split: sum.split prod.split)

lemma closed_positions [write_closed]: "P s \<Longrightarrow> P (snd (upsert_broker_positions resolver account page s))"
  using closed_position_rows [of "([], s)" resolver account page]
  by (auto simp: upsert_broker_positions_def case_prod_beta write_closed split: sum.split prod.split)

lemma closed_record_balance [write_closed]: "P s \<Longrightarrow> P (record_balance msg account source s)"
  by (simp add: record_balance_def write_closed)

lemma closed_fill_event [write_closed]: "P s \<Longrightarrow> P (snd (apply_fill_event evt s))"
  by (simp add: apply_fill_event_def Let_def write_closed del: upsert_orders.simps split: option.split)

lemma closed_ensure_account [write_closed]:
  "P (snd acc) \<Longrightarrow> P (snd (snd (ensure_account m nickname acc)))"
  by (cases acc) (simp add: ensure_account_def write_closed split: sum.split)

lemma closed_sync_step: "(\<And>s. P s \<Longrightarrow> P (snd (feed s))) \<Longrightarrow> P (snd acc) \<Longrightarrow> P (snd (sync_step name store_count feed acc))"
  by (auto simp: sync_step_def case_prod_beta split: sum.split prod.split)

lemma closed_sync_feeds [write_closed]: "P s \<Longrightarrow> P (snd (sync_feeds client m resolver today since account s))"
  unfolding sync_feeds_def
  by (intro closed_sync_step)
    (auto simp: sync_orders_def sync_transactions_def sync_positions_def sync_balances_def write_closed split: sum.split)

lemma closed_sync_all [write_closed]:
  "P s \<Longrightarrow> P (snd (sync_all client m resolver settlement_price today since account s))"
  by (simp add: sync_all_ledger write_closed)

lemma closed_write_plan: "P s \<Longrightarrow> P (snd (write_plan position_id plan s))"
proof (induction position_id plan s rule: write_plan.induct)
  case (2 position_id tid marks_open closed_opt plan s)
  then show ?case
    by (cases closed_opt) (auto simp: case_prod_beta Let_def write_closed)
qed simp

lemma closed_rebuild_security: "P s \<Longrightarrow> P (rebuild_security account last_activity entry s)"
  by (simp add: rebuild_security_def Let_def case_prod_beta write_closed closed_write_plan del: upsert_positions.simps)

lemma closed_rebuild [write_closed]: "P s \<Longrightarrow> P (snd (rebuild_positions_from_transactions account s))"
  unfolding rebuild_positions_from_transactions_def
  by (rule foldl_invariant [where P = "\<lambda>acc. P (snd acc)"])
    (auto simp: rebuild_for_account_def Let_def case_prod_beta
      intro!: foldl_invariant [where P = P] closed_rebuild_security)

lemma closed_recompute_futures [write_closed]:
  "P s \<Longrightarrow> P (snd (recompute_futures_group_pnl show_decimal account dry_run s))"
proof -
  have step: "P (snd (recompute_step show_decimal dry_run acct acc trade))" if "P (snd acc)" for acc acct trade
    using that by (auto simp: recompute_step_def apply_pnl_change_def case_prod_beta write_closed split: option.split)
  assume "P s"
  then show ?thesis
    unfolding recompute_futures_group_pnl_def recompute_account_def
    by (intro foldl_invariant [where P = "\<lambda>acc. P (snd acc)"] step) simp_all
qed

lemma closed_remap [write_closed]:
  "P s \<Longrightarrow> P (snd (remap_trade_group group_id strategy bot_name signal strategy_type reviewed_by s))"
  by (auto simp: remap_trade_group_def cascade_orders_def cascade_position_def Let_def case_prod_beta write_closed
      simp del: upsert_positions.simps split: option.split)

lemma closed_regroup [write_closed]: "P s \<Longrightarrow> P (snd (regroup_transactions txn_ids target reviewed_by s))"
proof -
  have step: "P (snd (regroup_step now reviewed_by acc pk))" if "P (snd acc)" for now acc pk
    using that by (auto simp: regroup_step_def recompute_group_def Let_def case_prod_beta write_closed split: option.split)
  have steps: "P (snd (foldl (regroup_step now reviewed_by) acc pks))" if "P (snd acc)" for now acc pks
    by (rule foldl_invariant [where P = "\<lambda>acc. P (snd acc)", OF step]) (use that in auto)
  have target: "P (snd (target_group target account reviewed_by s))" if "P s" for account
    using that by (auto simp: target_group_def Let_def case_prod_beta write_closed split: option.split)
  assume "P s"
  then show ?thesis
    using target [of "r_account (hd (get_transactions_by_id s txn_ids))"]
    by (auto simp: regroup_transactions_def Let_def case_prod_beta write_closed
        intro!: step steps split: sum.split prod.split)
qed

lemma closed_link_order [write_closed]: "P s \<Longrightarrow> P (snd (link_order_to_group tt target reviewed_by s))"
proof -
  have target: "P (snd (link_target target tt order reviewed_by s))" if "P s" for order
    using that by (auto simp: link_target_def Let_def case_prod_beta write_closed split: option.split)
  assume "P s"
  from target [OF this] this show ?thesis
    by (auto simp: link_order_to_group_def Let_def case_prod_beta write_closed simp del: upsert_orders.simps
        split: option.split sum.split prod.split)
qed

lemma closed_mark_unfilled [write_closed]:
  "P s \<Longrightarrow> P (snd (mark_trade_group_unfilled group_id reviewed_by reason s))"
  by (simp add: mark_trade_group_unfilled_def Let_def case_prod_beta write_closed split: option.split)

lemma closed_dismiss [write_closed]: "P s \<Longrightarrow> P (snd (dismiss_trade_group group_id reviewed_by s))"
  by (simp add: dismiss_trade_group_def Let_def case_prod_beta write_closed split: option.split)

end

section \<open>The client, its other methods\<close>

definition sdk_apply_fill :: "fill_event \<Rightarrow> sdk_state \<Rightarrow> sdk_state" where
  "sdk_apply_fill evt st = (fst st, snd (apply_fill_event evt (snd st)))"

definition sdk_rebuild_positions :: "string option \<Rightarrow> ledger \<Rightarrow> sync_result \<times> ledger" where
  "sdk_rebuild_positions account s = rebuild_positions_from_transactions account s"

definition sdk_recompute_futures_pnl ::
  "(decimal \<Rightarrow> string) \<Rightarrow> string option \<Rightarrow> bool \<Rightarrow> ledger \<Rightarrow> pnl_change list \<times> ledger" where
  "sdk_recompute_futures_pnl show_decimal account dry_run s = recompute_futures_group_pnl show_decimal account dry_run s"

definition sdk_misattributed_open_groups :: "string \<Rightarrow> ledger \<Rightarrow> finding list" where
  "sdk_misattributed_open_groups account s = find_misattributed_open_groups s account"

definition sdk_orphan_settlement_groups :: "string \<Rightarrow> ledger \<Rightarrow> finding list" where
  "sdk_orphan_settlement_groups account s = find_orphan_settlement_groups s account"

definition sdk_remap_trade ::
  "string \<Rightarrow> nat option \<Rightarrow> string option \<Rightarrow> string option \<Rightarrow> string option \<Rightarrow> string \<Rightarrow> ledger
     \<Rightarrow> (string + trade_row) \<times> ledger" where
  "sdk_remap_trade group_id strategy bot_name signal strategy_type reviewed_by s =
     remap_trade_group group_id strategy bot_name signal strategy_type reviewed_by s"

definition sdk_regroup ::
  "nat list \<Rightarrow> string option \<Rightarrow> string \<Rightarrow> ledger \<Rightarrow> (string + trade_row list) \<times> ledger" where
  "sdk_regroup txn_ids target reviewed_by s = regroup_transactions txn_ids target reviewed_by s"

definition sdk_link_order :: "string \<Rightarrow> string option \<Rightarrow> string \<Rightarrow> ledger \<Rightarrow> (string + trade_row) \<times> ledger" where
  "sdk_link_order tt_order_id target reviewed_by s = link_order_to_group tt_order_id target reviewed_by s"

definition sdk_dismiss_trade :: "string \<Rightarrow> string \<Rightarrow> ledger \<Rightarrow> (string + trade_row) \<times> ledger" where
  "sdk_dismiss_trade group_id reviewed_by s = dismiss_trade_group group_id reviewed_by s"

definition sdk_mark_unfilled :: "string \<Rightarrow> string \<Rightarrow> string \<Rightarrow> ledger \<Rightarrow> (string + trade_row) \<times> ledger" where
  "sdk_mark_unfilled group_id reviewed_by reason s = mark_trade_group_unfilled group_id reviewed_by reason s"

definition sdk_account_activity :: "string \<Rightarrow> activity_filter \<Rightarrow> ledger \<Rightarrow> activity_row list" where
  "sdk_account_activity account f s = account_activity s (f\<lparr>af_account := Some account\<rparr>)"

definition sdk_transactions :: "transaction_query \<Rightarrow> ledger \<Rightarrow> transaction_detail list \<times> nat" where
  "sdk_transactions q s = query_transactions s q"

definition sdk_transaction_bands :: "transaction_query \<Rightarrow> ledger \<Rightarrow> transaction_band_page" where
  "sdk_transaction_bands q s = query_transaction_bands s q"

definition sdk_transaction_value_total :: "string \<Rightarrow> ledger \<Rightarrow> decimal" where
  "sdk_transaction_value_total account s = transaction_value_total s account"

definition sdk_net_open_by_group :: "nat list \<Rightarrow> ledger \<Rightarrow> (nat \<times> string, int) dict" where
  "sdk_net_open_by_group trade_group_ids s = net_open_by_group s trade_group_ids"

definition sdk_position :: "string \<Rightarrow> string \<Rightarrow> ledger \<Rightarrow> position_row option" where
  "sdk_position account security_id s = get_position s account security_id"

definition sdk_closed_positions :: "string \<Rightarrow> string option \<Rightarrow> ledger \<Rightarrow> closed_position_row list" where
  "sdk_closed_positions account security_id s = get_closed_positions s account security_id"

definition sdk_latest_balance :: "string \<Rightarrow> ledger \<Rightarrow> balance_row option" where
  "sdk_latest_balance account s = get_latest_balance s account"

definition sdk_balances :: "string \<Rightarrow> date option \<Rightarrow> date option \<Rightarrow> ledger \<Rightarrow> balance_row list" where
  "sdk_balances account since until s = get_balances s account since until"

section \<open>A session\<close>

text \<open>The calls that write, and time passing between them.\<close>

datatype client_call =
  Call_Sync date "date option" string
| Call_Record_Order order_input
| Call_Apply_Fill fill_event
| Call_Open_Trade_Group string trade_plan
| Call_Import string "broker_transaction list" string bool
| Call_Stream bool bool timedelta "stream_event list"
| Call_Reconcile "string option" "date option" "timedelta option" bool
| Call_Rebuild "string option"
| Call_Recompute_Futures "string option" bool
| Call_Remap string "nat option" "string option" "string option" "string option" string
| Call_Regroup "nat list" "string option" string
| Call_Link_Order string "string option" string
| Call_Dismiss string string
| Call_Mark_Unfilled string string string
| Call_Wait datetime

fun run_call :: "(decimal \<Rightarrow> string) \<Rightarrow> ledger_client \<Rightarrow> client_call \<Rightarrow> sdk_state \<Rightarrow> sdk_state" where
  "run_call show_decimal lc (Call_Sync today since account) st = snd (sdk_sync lc today since account st)"
| "run_call show_decimal lc (Call_Record_Order oi) st = snd (record_order lc oi st)"
| "run_call show_decimal lc (Call_Apply_Fill evt) st = sdk_apply_fill evt st"
| "run_call show_decimal lc (Call_Open_Trade_Group account plan) st = snd (open_trade_group lc account plan st)"
| "run_call show_decimal lc (Call_Import account txns source reconcile_after) st =
     snd (import_transactions lc account txns source reconcile_after st)"
| "run_call show_decimal lc (Call_Stream has_hook persist interval events) (cache, s) =
     (cache, c_ledger (run_consumer (stream_consumer lc has_hook persist interval) False events (consumer_start s)))"
| "run_call show_decimal lc (Call_Reconcile account since settle_after dry_run) (cache, s) =
     (cache, snd (sdk_reconcile lc account since settle_after dry_run s))"
| "run_call show_decimal lc (Call_Rebuild account) (cache, s) = (cache, snd (sdk_rebuild_positions account s))"
| "run_call show_decimal lc (Call_Recompute_Futures account dry_run) (cache, s) =
     (cache, snd (sdk_recompute_futures_pnl show_decimal account dry_run s))"
| "run_call show_decimal lc (Call_Remap group_id strategy bot_name signal strategy_type reviewed_by) (cache, s) =
     (cache, snd (sdk_remap_trade group_id strategy bot_name signal strategy_type reviewed_by s))"
| "run_call show_decimal lc (Call_Regroup txn_ids target reviewed_by) (cache, s) =
     (cache, snd (sdk_regroup txn_ids target reviewed_by s))"
| "run_call show_decimal lc (Call_Link_Order tt target reviewed_by) (cache, s) =
     (cache, snd (sdk_link_order tt target reviewed_by s))"
| "run_call show_decimal lc (Call_Dismiss group_id reviewed_by) (cache, s) =
     (cache, snd (sdk_dismiss_trade group_id reviewed_by s))"
| "run_call show_decimal lc (Call_Mark_Unfilled group_id reviewed_by reason) (cache, s) =
     (cache, snd (sdk_mark_unfilled group_id reviewed_by reason s))"
| "run_call show_decimal lc (Call_Wait t) (cache, s) = (cache, s\<lparr>env_now := t\<rparr>)"

text \<open>Every call may meet another broker, resolver or price source.\<close>

definition run_session ::
  "(decimal \<Rightarrow> string) \<Rightarrow> (ledger_client \<times> client_call) list \<Rightarrow> sdk_state \<Rightarrow> sdk_state" where
  "run_session show_decimal calls st = foldl (\<lambda>st (lc, call). run_call show_decimal lc call st) st calls"

context store_closed
begin

lemma closed_sdk_sync [write_closed]: "P (snd st) \<Longrightarrow> P (snd (snd (sdk_sync lc today since account st)))"
  using closed_ensure_account [of st "lc_accounts lc" account]
  by (auto simp: sdk_sync_def case_prod_beta write_closed split: option.split sum.split prod.split)

lemma closed_submitted_legs: "P (snd acc) \<Longrightarrow> P (snd (snd (submitted_legs resolver order_id n legs acc)))"
  by (induction legs arbitrary: acc n)
    (auto simp: case_prod_beta closed_resolve_once split: sum.split prod.split)

lemma closed_record_order [write_closed]: "P (snd st) \<Longrightarrow> P (snd (snd (record_order lc oi st)))"
  using closed_ensure_account [of st "lc_accounts lc" "oi_account oi"]
  by (auto simp: record_order_def Let_def case_prod_beta write_closed closed_submitted_legs split: sum.split prod.split)

lemma closed_open_trade_group [write_closed]: "P (snd st) \<Longrightarrow> P (snd (snd (open_trade_group lc account plan st)))"
  using closed_ensure_account [of st "lc_accounts lc" account]
  by (auto simp: open_trade_group_def Let_def case_prod_beta write_closed split: sum.split prod.split)

lemma closed_import_transactions [write_closed]:
  "P (snd st) \<Longrightarrow> P (snd (snd (import_transactions lc account txns source reconcile_after st)))"
  using closed_ensure_account [of st "lc_accounts lc" account]
  by (auto simp: import_transactions_def Let_def case_prod_beta write_closed split: sum.split prod.split)

end

context store_closed
begin

lemma closed_account_of_message:
  "P (c_ledger st) \<Longrightarrow> P (c_ledger (snd (account_of_message cfg number st)))"
  using closed_ensure_account [of "(c_ensured st, c_ledger st)" "cc_accounts cfg"]
  by (auto simp: account_of_message_def split: sum.split prod.split) (metis snd_conv)+

lemma closed_handle_message:
  assumes "P (c_ledger st)"
  shows "P (c_ledger (handle_message cfg clock msg st))"
proof -
  have "P (c_ledger (tick clock st))" using assms by (simp add: tick_def write_closed)
  then show ?thesis
    using closed_account_of_message [of "tick clock st" cfg]
    by (cases msg)
      (auto simp: handle_message_def apply_fill_def apply_position_def apply_balance_def forward_balance_def
        persist_balance_def Let_def case_prod_beta write_closed split: sum.split prod.split)
qed

lemma closed_run_consumer: "P (c_ledger st) \<Longrightarrow> P (c_ledger (run_consumer cfg stopped events st))"
  by (induction cfg stopped events st rule: run_consumer.induct) (simp_all add: closed_handle_message)

lemmas closed_client =
  sdk_rebuild_positions_def sdk_recompute_futures_pnl_def sdk_remap_trade_def sdk_regroup_def
  sdk_link_order_def sdk_dismiss_trade_def sdk_mark_unfilled_def sdk_apply_fill_def sdk_reconcile_def

lemma closed_run_call: "P (snd st) \<Longrightarrow> P (snd (run_call show_decimal lc call st))"
  using closed_run_consumer [of "consumer_start (snd st)"]
  by (cases st; cases call) (simp_all add: write_closed closed_client consumer_start_def)

lemma closed_run_session: "P (snd st) \<Longrightarrow> P (snd (run_session show_decimal calls st))"
  unfolding run_session_def
  by (rule foldl_invariant [where P = "\<lambda>st. P (snd st)"]) (auto simp: closed_run_call)

end

section \<open>Nothing is lost\<close>

text \<open>Every row stays in its table, under its surrogate id and its natural key; an event stays as it is.\<close>

definition retained :: "('v \<Rightarrow> 'l) \<Rightarrow> ('k, 'v) ptable \<Rightarrow> ('k, 'v) ptable \<Rightarrow> bool" where
  "retained key_of t t' \<longleftrightarrow>
     (\<forall>i r. table_get t i = Some r \<longrightarrow> (\<exists>r'. table_get t' i = Some r' \<and> key_of r' = key_of r))"

definition retains :: "ledger \<Rightarrow> ledger \<Rightarrow> bool" where
  "retains s s' \<longleftrightarrow>
     retained (\<lambda>r. Some (acct_nickname r)) (st_accounts s) (st_accounts s')
   \<and> retained order_key (st_orders s) (st_orders s')
   \<and> retained leg_row_key (st_legs s) (st_legs s')
   \<and> retained (\<lambda>r. Some (fl_fill_id r)) (st_fills s) (st_fills s')
   \<and> retained txn_key (st_transactions s) (st_transactions s')
   \<and> retained security_key (st_securities s) (st_securities s')
   \<and> retained position_key (st_positions s) (st_positions s')
   \<and> retained closed_position_key (st_closed_positions s) (st_closed_positions s')
   \<and> retained trade_group_key (st_trade_groups s) (st_trade_groups s')
   \<and> retained id (st_events s) (st_events s')
   \<and> retained balance_key (st_balance_snapshots s) (st_balance_snapshots s')"

lemma retained_refl [simp]: "retained key_of t t"
  by (simp add: retained_def)

lemma retained_trans: "retained key_of t t' \<Longrightarrow> retained key_of t' t'' \<Longrightarrow> retained key_of t t''"
  unfolding retained_def by metis

lemma retained_upsert:
  assumes ok: "table_ok key_of t"
  shows "retained key_of t (snd (table_upsert key_of row t))"
proof -
  have "key_of r = key_of row" if "table_get t (fst (table_upsert key_of row t)) = Some r" for r
    using that table_ok_next_fresh [OF ok] table_ok_index [OF ok]
    by (auto simp: table_upsert_def table_get_def Let_def split: option.splits)
  then show ?thesis by (auto simp: retained_def table_upsert_get [OF ok])
qed

lemma retained_modify: "(\<And>i r. key_of (f i r) = key_of r) \<Longrightarrow> retained key_of t (table_modify f t)"
  by (auto simp: retained_def)

lemma retained_id_of:
  assumes "table_ok key_of t" "table_ok key_of t'" "retained key_of t t'" "table_id_of t k = Some i"
  shows "table_id_of t' k = Some i"
  using assms(3,4) table_ok_index [OF assms(1), of k i] table_ok_index [OF assms(2), of k i]
  by (auto simp: retained_def table_id_of_def table_get_def) metis

lemma retained_insert:
  assumes "table_ok (\<lambda>_. None) t"
  shows "retained key_of t (snd (table_insert row t))"
  using table_ok_next_fresh [OF assms]
  by (auto simp: retained_def table_insert_def table_get_def)

lemma retains_refl [simp]: "retains s s"
  by (simp add: retains_def)

lemma retains_trans: "retains s s' \<Longrightarrow> retains s' s'' \<Longrightarrow> retains s s''"
  unfolding retains_def by (meson retained_trans)


lemma retains_rows:
  assumes "ledger_ok s"
  shows "retains s (upsert_account account_row s)"
    and "retains s (snd (upsert_order order_row s))"
    and "retains s (s\<lparr>st_legs := snd (table_upsert leg_row_key leg_row (st_legs s))\<rparr>)"
    and "retains s (s\<lparr>st_fills := snd (table_upsert (\<lambda>r. Some (fl_fill_id r)) fill_row (st_fills s))\<rparr>)"
    and "retains s (upsert_transaction txn s)"
    and "retains s (upsert_security sec s)"
    and "retains s (s\<lparr>st_positions := snd (table_upsert position_key position (st_positions s))\<rparr>)"
    and "retains s (snd (upsert_closed_position cp s))"
    and "retains s (upsert_balance_snapshot snapshot s)"
    and "retains s (snd (upsert_trade_group tg s))"
    and "retains s (add_trade_group_event ev s)"
  using assms
  by (simp_all add: retains_def ledger_ok_def upsert_account_def upsert_order_alt upsert_transaction_def
      upsert_security_def upsert_closed_position_def upsert_balance_snapshot_def upsert_trade_group_def
      add_trade_group_event_def Let_def case_prod_beta retained_upsert retained_insert)

lemma retains_list:
  assumes "ledger_ok s"
  shows "retains s (snd (upsert_orders order_rows s))"
    and "retains s (snd (upsert_legs leg_rows s))"
    and "retains s (upsert_fills fill_rows s)"
    and "retains s (upsert_transactions txns s)"
    and "retains s (upsert_positions positions s)"
proof -
  have 1: "ledger_ok (s\<lparr>st_legs := snd (table_upsert leg_row_key leg_row (st_legs s))\<rparr>)"
    and 2: "ledger_ok (s\<lparr>st_fills := snd (table_upsert (\<lambda>r. Some (fl_fill_id r)) fill_row (st_fills s))\<rparr>)"
    and 3: "ledger_ok (s\<lparr>st_positions := snd (table_upsert position_key position (st_positions s))\<rparr>)"
    if "ledger_ok s" for s leg_row fill_row position
    using that by (simp_all add: ledger_ok_def table_ok_upsert)
  show "retains s (snd (upsert_orders order_rows s))"
    using assms
  proof (induction order_rows arbitrary: s)
    case (Cons row rows)
    from retains_trans [OF retains_rows(2) Cons.IH [OF ledger_ok_upsert_order]] Cons.prems show ?case by (simp add: case_prod_beta)
  qed simp
  show "retains s (snd (upsert_legs leg_rows s))"
    using assms
  proof (induction leg_rows arbitrary: s)
    case (Cons row rows)
    from retains_trans [OF retains_rows(3) Cons.IH [OF 1]] Cons.prems show ?case by (simp add: case_prod_beta Let_def)
  qed simp
  show "retains s (upsert_fills fill_rows s)"
    using assms
  proof (induction fill_rows arbitrary: s)
    case (Cons row rows)
    from retains_trans [OF retains_rows(4) Cons.IH [OF 2]] Cons.prems show ?case by simp
  qed simp
  show "retains s (upsert_transactions txns s)"
    using assms
  proof (induction txns arbitrary: s)
    case (Cons row rows)
    from retains_trans [OF retains_rows(5) Cons.IH [OF ledger_ok_upsert_transaction]] Cons.prems show ?case by simp
  qed simp
  show "retains s (upsert_positions positions s)"
    using assms
  proof (induction positions arbitrary: s)
    case (Cons row rows)
    from retains_trans [OF retains_rows(7) Cons.IH [OF 3]] Cons.prems show ?case by simp
  qed simp
qed

lemma retains_links:
  "retains s (snd (link_transactions_to_orders account s))"
  "retains s (snd (link_orders_to_groups account s))"
  "retains s (snd (link_closed_positions_to_groups account s))"
  "retains s (snd (link_transactions_to_positions links s))"
  "retains s (attach_transactions_to_trade_group ids pk s)"
  "retains s (move_transactions_to_group txn_ids pk' s)"
  by (auto simp: retains_def link_transactions_to_orders_def link_orders_to_groups_def
      link_closed_positions_to_groups_def link_transactions_to_positions_def
      attach_transactions_to_trade_group_def move_transactions_to_group_def Let_def
      txn_key_def order_key_def closed_position_key_def
      intro!: retained_modify split: option.splits)

lemma retains_write: "ledger_write s s' \<Longrightarrow> ledger_ok s \<Longrightarrow> retains s s'"
  by (induction rule: ledger_write.induct) (simp_all add: retains_rows retains_list retains_links)

interpretation history: store_closed "\<lambda>s. ledger_ok s \<and> retains s0 s" for s0
proof unfold_locales
  fix s s' assume "ledger_write s s'" "ledger_ok s \<and> retains s0 s"
  then show "ledger_ok s' \<and> retains s0 s'" by (blast intro: ledger_ok_write retains_write retains_trans)
qed (auto simp: retains_def ledger_ok_def fresh_uuid_def)


section \<open>Attribution over a session\<close>

lemma st_transactions_upsert_account [simp]: "st_transactions (upsert_account row s) = st_transactions s"
  by (simp add: upsert_account_def)

lemma st_transactions_ensure [simp]:
  "st_transactions (snd (snd (ensure_account m nickname acc))) = st_transactions (snd acc)"
  by (cases acc) (simp add: ensure_account_def split: sum.split)

lemma st_transactions_record_order [simp]:
  "st_transactions (snd (snd (record_order lc oi st))) = st_transactions (snd st)"
proof -
  have legs: "st_transactions (snd (snd (submitted_legs resolver order_id n legs acc))) = st_transactions (snd acc)"
    for resolver order_id n legs acc
    using only_securities_input_legs only_securitiesD(1) by blast
  obtain r cache s where e: "ensure_account (lc_accounts lc) (oi_account oi) st = (r, cache, s)" by (metis prod_cases3)
  have "st_transactions s = st_transactions (snd st)"
    using st_transactions_ensure [of "lc_accounts lc" "oi_account oi" st] by (simp add: e)
  then show ?thesis
    by (auto simp: record_order_def e Let_def case_prod_beta legs split: sum.split prod.split)
qed

lemma st_transactions_open_trade_group [simp]:
  "st_transactions (snd (snd (open_trade_group lc account plan st))) = st_transactions (snd st)"
  using st_transactions_ensure [of "lc_accounts lc" account st]
  by (auto simp: open_trade_group_def Let_def case_prod_beta simp del: st_transactions_ensure split: sum.split prod.split)

lemma st_transactions_fill_event [simp]: "st_transactions (snd (apply_fill_event evt s)) = st_transactions s"
  by (simp add: apply_fill_event_def Let_def del: upsert_orders.simps split: option.split)

lemma st_transactions_recompute_futures [simp]:
  "st_transactions (snd (recompute_futures_group_pnl show_decimal account dry_run s)) = st_transactions s"
proof -
  have step: "st_transactions (snd (recompute_step show_decimal dry_run acct acc trade)) = st_transactions (snd acc)"
    for acct acc trade
    by (auto simp: recompute_step_def apply_pnl_change_def case_prod_beta split: option.split)
  show ?thesis
    unfolding recompute_futures_group_pnl_def recompute_account_def
    by (rule foldl_invariant [where P = "\<lambda>acc. st_transactions (snd acc) = st_transactions s"]
        | simp add: step)+
qed

lemma st_transactions_account_of_message [simp]:
  "st_transactions (c_ledger (snd (account_of_message cfg number st))) = st_transactions (c_ledger st)"
  using st_transactions_ensure [of "cc_accounts cfg" _ "(c_ensured st, c_ledger st)"]
  by (auto simp: account_of_message_def simp del: st_transactions_ensure split: sum.split prod.split)
    (metis snd_conv)+

lemma st_transactions_message [simp]:
  "st_transactions (c_ledger (handle_message cfg clock msg st)) = st_transactions (c_ledger st)"
proof -
  have tick: "st_transactions (c_ledger (tick clock st)) = st_transactions (c_ledger st)"
    by (simp add: tick_def)
  then show ?thesis
    by (cases msg)
      (auto simp: handle_message_def apply_fill_def apply_position_def apply_balance_def forward_balance_def
        persist_balance_def Let_def case_prod_beta positions_keep balance_keeps split: sum.split prod.split)
qed

lemma st_transactions_run_consumer [simp]:
  "st_transactions (c_ledger (run_consumer cfg stopped events st)) = st_transactions (c_ledger st)"
  by (induction cfg stopped events st rule: run_consumer.induct) simp_all

text \<open>A rebuild links transactions to positions and touches nothing else of them.\<close>

lemma txn_group_of_link_positions [simp]:
  "txn_group_of (snd (link_transactions_to_positions links s)) tid = txn_group_of s tid"
  by (simp add: txn_group_of_def link_transactions_to_positions_def Let_def bind_get_by_key_modify split: option.split)

lemma st_transactions_write_plan [simp]: "st_transactions (snd (write_plan position_id plan s)) = st_transactions s"
proof (induction position_id plan s rule: write_plan.induct)
  case (2 position_id tid marks_open closed_opt plan s)
  then show ?case
    by (cases closed_opt) (auto simp: case_prod_beta Let_def upsert_closed_position_def)
qed simp

lemma txn_group_of_rebuild [simp]:
  "txn_group_of (snd (rebuild_positions_from_transactions account s)) tid = txn_group_of s tid"
proof -
  have one: "txn_group_of (rebuild_security acct last_activity entry s) tid = txn_group_of s tid"
    for acct last_activity entry s
    by (simp add: rebuild_security_def Let_def case_prod_beta)
      (simp add: txn_group_of_def)
  have acct: "txn_group_of (snd (rebuild_for_account acct s)) tid = txn_group_of s tid" for acct s
    unfolding rebuild_for_account_def Let_def snd_conv
    by (rule foldl_invariant [where P = "\<lambda>s'. txn_group_of s' tid = txn_group_of s tid"]) (simp_all add: one)
  show ?thesis
    unfolding rebuild_positions_from_transactions_def
    by (rule foldl_invariant [where P = "\<lambda>acc. txn_group_of (snd acc) tid = txn_group_of s tid"])
      (auto simp: case_prod_beta Let_def acct)
qed

lemma regroup_transactions_cases:
  "st_transactions (snd (regroup_transactions txn_ids target reviewed_by s)) = st_transactions s
   \<or> (\<exists>pk. st_transactions (snd (regroup_transactions txn_ids target reviewed_by s)) = table_modify
        (\<lambda>i t. if i \<in> set txn_ids then t\<lparr>r_trade_group_id := pk\<rparr> else t) (st_transactions s))"
proof -
  let ?account = "r_account (hd (get_transactions_by_id s txn_ids))"
  obtain res s1 where t: "target_group target ?account reviewed_by s = (res, s1)" by fastforce
  show ?thesis
    using target_group_transactions [OF t]
    by (cases res)
      (auto simp: regroup_transactions_def t Let_def case_prod_beta move_transactions_to_group_def)
qed

lemma txn_group_of_regroup:
  assumes "table_id_of (st_transactions s) tid = Some i" "i \<notin> set txn_ids"
  shows "txn_group_of (snd (regroup_transactions txn_ids target reviewed_by s)) tid = txn_group_of s tid"
proof -
  have by_id: "table_get_by_key (st_transactions s) tid = table_get (st_transactions s) i"
    using assms(1) by (simp add: table_get_by_key_def table_id_of_def table_get_def)
  have "table_get_by_key (table_modify f (st_transactions s)) tid = map_option (f i) (table_get (st_transactions s) i)" for f
    using assms(1) by (simp add: table_get_by_key_modify)
  with regroup_transactions_cases [of txn_ids target reviewed_by s] assms(2) show ?thesis
    by (auto simp: txn_group_of_def by_id option.map_ident)
qed

lemma txn_group_of_link_order:
  assumes "ledger_ok s" "txn_group_of s tid = Some g" "\<not> is_lapse_id tid"
  shows "txn_group_of (snd (link_order_to_group tt target reviewed_by s)) tid = Some g"
proof -
  have target: "st_transactions (snd (link_target target tt order reviewed_by s)) = st_transactions s"
    "ledger_ok (snd (link_target target tt order reviewed_by s))" for order
    using assms(1) by (auto simp: link_target_def Let_def case_prod_beta ledger_ok_intros split: option.split)
  have "txn_group_of (snd (reconcile account None None DEFAULT_SETTLE_AFTER False
      (add_trade_group_event ev (snd (upsert_orders [row] (snd (link_target target tt order reviewed_by s))))))) tid = Some g"
    for account ev row order
    by (rule reconcile_keeps_group)
      (use assms target in \<open>simp_all add: ledger_ok_intros txn_group_of_def del: upsert_orders.simps\<close>)
  then show ?thesis
    using assms(2) target
    by (auto simp: link_order_to_group_def Let_def case_prod_beta txn_group_of_def simp del: upsert_orders.simps
        split: option.split sum.split prod.split)
qed

text \<open>The surrogate ids a call moves by hand.\<close>

fun moved_by :: "client_call \<Rightarrow> nat list" where
  "moved_by (Call_Regroup txn_ids target reviewed_by) = txn_ids"
| "moved_by _ = []"

lemma txn_group_of_import:
  assumes "ledger_ok (snd st)" "txn_group_of (snd st) tid = Some g" "\<not> is_lapse_id tid"
  shows "txn_group_of (snd (snd (import_transactions lc account txns source reconcile_after st))) tid = Some g"
proof -
  obtain r cache s where e: "ensure_account (lc_accounts lc) account st = (r, cache, s)" by (metis prod_cases3)
  have ok: "ledger_ok s" using ok.closed_ensure_account [OF assms(1), of "lc_accounts lc" account] by (simp add: e)
  have g: "txn_group_of s tid = Some g"
    using st_transactions_ensure [of "lc_accounts lc" account st] assms(2) by (simp add: e txn_group_of_def)
  note import = import_keeps_group [OF ok g, of "lc_resolver lc" account source txns]
    import_ok [OF ok, of "lc_resolver lc" account source txns]
  from reconcile_keeps_group [OF import(2,1) assms(3)] import(1) g show ?thesis
    by (auto simp: import_transactions_def e Let_def case_prod_beta split: sum.split prod.split)
qed

lemma txn_group_of_sync:
  assumes "ledger_ok (snd st)" "txn_group_of (snd st) tid = Some g" "\<not> is_lapse_id tid"
  shows "txn_group_of (snd (snd (sdk_sync lc today since account st))) tid = Some g"
proof -
  obtain r cache s where e: "ensure_account (lc_accounts lc) account st = (r, cache, s)" by (metis prod_cases3)
  have ok: "ledger_ok s" using ok.closed_ensure_account [OF assms(1), of "lc_accounts lc" account] by (simp add: e)
  have g: "txn_group_of s tid = Some g"
    using st_transactions_ensure [of "lc_accounts lc" account st] assms(2) by (simp add: e txn_group_of_def)
  show ?thesis
    using sync_never_reattributes [OF ok g assms(3)] g assms(2)
    by (auto simp: sdk_sync_def e Let_def case_prod_beta split: option.split sum.split prod.split)
qed

lemma run_call_keeps_group:
  assumes "ledger_ok (snd st)" "txn_group_of (snd st) tid = Some g" "\<not> is_lapse_id tid"
    and "table_id_of (st_transactions (snd st)) tid = Some i" "i \<notin> set (moved_by call)"
  shows "txn_group_of (snd (run_call show_decimal lc call st)) tid = Some g"
  using assms
proof (cases call)
  case (Call_Regroup txn_ids target reviewed_by)
  then show ?thesis
    using assms txn_group_of_regroup [of "snd st" tid i txn_ids] by (cases st) (simp add: sdk_regroup_def)
qed (cases st; simp add: txn_group_of_sync txn_group_of_import txn_group_of_link_order sdk_link_order_def
    sdk_rebuild_positions_def sdk_recompute_futures_pnl_def sdk_remap_trade_def sdk_dismiss_trade_def sdk_mark_unfilled_def
    sdk_reconcile_def reconcile_keeps_group; simp add: txn_group_of_def sdk_apply_fill_def consumer_start_def
    attribution_edits_keep_membership)+


section \<open>What a session promises\<close>

text \<open>
  C20 (invariant). Nothing the program does loses a record. Whatever calls a client makes, with
  whatever brokers, resolvers and messages, failing or not, the ledger stays well formed and every
  row it held (account, order, leg, fill, transaction, security, position, closed position, group,
  balance) is still in its table under the same surrogate id and the same natural key, and every
  event is unchanged.\<close>

theorem session_keeps_history:
  assumes "ledger_ok s"
  shows "ledger_ok (snd (run_session show_decimal calls (cache, s)))
    \<and> retains s (snd (run_session show_decimal calls (cache, s)))"
  using history.closed_run_session [where st = "(cache, s)" and ?s0.0 = s] assms by simp

definition example_calls :: "(ledger_client \<times> client_call) list" where
  "example_calls = map (\<lambda>call. (example_client, call))
     [Call_Reconcile (Some ''acct'') None None False, Call_Rebuild None, Call_Sync 20000 None ''acct'',
      Call_Wait 5, Call_Regroup [7] None ''op'', Call_Dismiss ''g9'' ''op'']"

theorem session_keeps_history_witness:
  "\<exists>t. table_get (st_transactions (snd (run_session (\<lambda>_. []) example_calls ([], example_pending)))) 1 = Some t
     \<and> txn_key t = Some ''1''"
proof -
  have "ledger_ok example_pending"
    unfolding example_pending_def by (simp add: ledger_ok_upsert_transaction ledger_ok_empty)
  from session_keeps_history [OF this, of "\<lambda>_. []" example_calls "[]"]
  have kept: "retained txn_key (st_transactions example_pending)
      (st_transactions (snd (run_session (\<lambda>_. []) example_calls ([], example_pending))))"
    unfolding retains_def by blast
  have "map_option txn_key (table_get (st_transactions example_pending) 1) = Some (Some ''1'')" by code_simp
  then obtain t where "table_get (st_transactions example_pending) 1 = Some t" "txn_key t = Some ''1''"
    by (cases "table_get (st_transactions example_pending) 1") simp_all
  with kept show ?thesis unfolding retained_def by metis
qed

text \<open>
  C27 (safety). The trade group of a transaction changes by an operator's regroup only. Over any
  sequence of client calls in which no regroup names the row, a transaction keeps the group it has,
  through syncs, imports, stream messages, reconciles, links and the other edits; the settlements
  the program synthesizes itself, whose ids start with \<open>lapse-\<close>, are the one exception.\<close>

theorem only_regroup_reattributes:
  assumes "ledger_ok s" and "table_id_of (st_transactions s) tid = Some i"
    and "txn_group_of s tid = Some g" and "\<not> is_lapse_id tid"
    and "\<forall>(lc, call) \<in> set calls. i \<notin> set (moved_by call)"
  shows "txn_group_of (snd (run_session show_decimal calls (cache, s))) tid = Some g"
proof -
  let ?held = "\<lambda>s. ledger_ok s \<and> table_id_of (st_transactions s) tid = Some i \<and> txn_group_of s tid = Some g"
  have call: "?held (snd (run_call show_decimal lc call st))"
    if "?held (snd st)" "i \<notin> set (moved_by call)" for lc call st
  proof -
    from that(1) have "ledger_ok (snd st) \<and> retains (snd st) (snd st)" by simp
    note kept = history.closed_run_call [OF this, of show_decimal lc call]
    have "table_id_of (st_transactions (snd (run_call show_decimal lc call st))) tid = Some i"
      using kept that(1) retained_id_of [OF ledger_ok_tables(2) ledger_ok_tables(2)] by (auto simp: retains_def)
    then show ?thesis using kept that run_call_keeps_group assms(4) by blast
  qed
  have "?held (snd (run_session show_decimal calls st))" if "?held (snd st)" for st
    using that assms(5) unfolding run_session_def
  proof (induction calls arbitrary: st)
    case (Cons c calls)
    obtain lc call where c: "c = (lc, call)" by (cases c)
    have "?held (snd (run_call show_decimal lc call st))" using Cons.prems c by (intro call) auto
    from Cons.IH [OF this] Cons.prems(2) show ?case by (simp add: c)
  qed simp
  then show ?thesis using assms by simp
qed

theorem only_regroup_reattributes_witness:
  "txn_group_of (snd (run_session (\<lambda>_. []) example_calls
      ([], upsert_transaction (example_txn ''1'' (Some 4) 5) (ledger_empty 0 show_nat)))) ''1'' = Some 4"
proof (rule only_regroup_reattributes)
  let ?s = "upsert_transaction (example_txn ''1'' (Some 4) 5) (ledger_empty 0 show_nat)"
  show "ledger_ok ?s" by (simp add: ledger_ok_upsert_transaction ledger_ok_empty)
  show "table_id_of (st_transactions ?s) ''1'' = Some 1" "txn_group_of ?s ''1'' = Some 4" by code_simp+
  show "\<not> is_lapse_id ''1''" by code_simp
  show "\<forall>(lc, call) \<in> set example_calls. 1 \<notin> set (moved_by call)" by (simp add: example_calls_def)
qed

end
