(* ===== verification/Spec2Isabelle.thy ===== *)
theory Spec2Isabelle
  imports Schema_Laws Sql_Reads Stream_Source Rest_Client Cli Mock_Broker Universe_Resolver Client_Session
begin

text \<open>
  A model of tt-ledger (\<^verbatim>\<open>src/tt_ledger\<close>). The program keeps a ledger of broker orders, fills,
  transactions, positions and balances, and derives positions, closed positions and trade groups from it.

  \<^bold>\<open>The program.\<close> Three ways lead into the ledger: pull ingestion asks the broker's REST interface for orders,
  transactions, positions and a balance; push ingestion consumes messages (fills, positions, balances)
  from the broker's account streamer, from a host's Redis pub/sub channels or from a durable Redis stream; and
  the in-process client records orders and trade groups at submit time. Broker symbols pass a symbology
  resolver and account numbers the nickname map on the way in. Two passes work on what is stored: the
  replay walks the transactions of each security and rebuilds positions and closed positions; reconcile
  clusters ungrouped transactions by time, routes closing rows to the open trade groups they close,
  creates groups from the rest, synthesizes missing settlements and stamps groups that are fully closed.
  Operators correct the attribution by remapping, regrouping, linking and dismissing. Everything is
  stored through one protocol with two implementations, in memory and SQL. The HTTP server and the command
  line are wrappers of the client.

  \<^bold>\<open>Theories.\<close> Each opens with what it holds. In the order of their dependencies:

  \<^item> \<^verbatim>\<open>Ledger_Prelude\<close>: decimals, instants, dates, Python's string and dictionary operations, stable sorting,
    grouping. \<^verbatim>\<open>Enums\<close>, \<^verbatim>\<open>Rows\<close>, \<^verbatim>\<open>Row_Functions\<close>: \<^verbatim>\<open>enums.py\<close> and \<^verbatim>\<open>rows.py\<close>, a record per dataclass.
  \<^item> \<^verbatim>\<open>Table\<close>, \<^verbatim>\<open>Memory_Store\<close>, \<^verbatim>\<open>Store_Laws\<close>: \<^verbatim>\<open>store/memory.py\<close>. The ledger is the record of its eleven
    tables, the clock and the supply of identifiers; a method is a function of it.
  \<^item> \<^verbatim>\<open>Replay\<close>: \<^verbatim>\<open>ingest/replay.py\<close>. A lot per security is folded over its rows.
  \<^item> \<^verbatim>\<open>Group_Net\<close>, \<^verbatim>\<open>Strategy\<close>, \<^verbatim>\<open>Routing\<close>, \<^verbatim>\<open>Reconcile\<close>, \<^verbatim>\<open>Reconcile_Run\<close>, \<^verbatim>\<open>Detect\<close>: \<^verbatim>\<open>ingest/reconcile.py\<close>, the
    arithmetic of a group, the classification of its legs, clusters and the draw-down, the operations on
    groups, the passes, the reports. \<^verbatim>\<open>Reconcile_Laws\<close>, \<^verbatim>\<open>Attribution\<close>, \<^verbatim>\<open>Passes\<close>, \<^verbatim>\<open>Intent\<close>: what a run promises.
  \<^item> \<^verbatim>\<open>Remap\<close>: \<^verbatim>\<open>ingest/remap.py\<close>, the edits of an operator.
  \<^item> \<^verbatim>\<open>Symbology\<close>, \<^verbatim>\<open>Universe_Resolver\<close>, \<^verbatim>\<open>Accounts\<close>, \<^verbatim>\<open>Money\<close>: \<^verbatim>\<open>identity/canonical.py\<close>,
    \<^verbatim>\<open>identity/securities.py\<close>, \<^verbatim>\<open>identity/accounts.py\<close>, \<^verbatim>\<open>money.py\<close>.
  \<^item> \<^verbatim>\<open>Repositories\<close>, \<^verbatim>\<open>Repository_Laws\<close>, \<^verbatim>\<open>Pull\<close>, \<^verbatim>\<open>Push\<close>, \<^verbatim>\<open>Mock_Broker\<close>: \<^verbatim>\<open>repositories\<close>, \<^verbatim>\<open>ingest/broker.py\<close>,
    \<^verbatim>\<open>ingest/pull.py\<close>, \<^verbatim>\<open>ingest/push.py\<close>, \<^verbatim>\<open>ingest/mock_broker.py\<close>, \<^verbatim>\<open>config\<close>.
  \<^item> \<^verbatim>\<open>Sdk\<close>, \<^verbatim>\<open>Sdk_Laws\<close>, \<^verbatim>\<open>Client_Session\<close>: \<^verbatim>\<open>sdk.py\<close>. The state of a client is the cache of accounts it has
    seeded and the ledger; a session is a list of its calls.
  \<^item> \<^verbatim>\<open>Schema\<close>, \<^verbatim>\<open>Schema_Runs\<close>, \<^verbatim>\<open>Schema_Laws\<close>: \<^verbatim>\<open>schema/models.py\<close> and the migrations, as data.
  \<^item> \<^verbatim>\<open>Sql_Engine\<close>, \<^verbatim>\<open>Sql_Store\<close>, \<^verbatim>\<open>Sql_Laws\<close>, \<^verbatim>\<open>Sql_Reads\<close>: \<^verbatim>\<open>store/sql.py\<close>, the meaning of its statements on
    SQLite, against the in-memory store.
  \<^item> \<^verbatim>\<open>Wire\<close>, \<^verbatim>\<open>Broker_Json\<close>, \<^verbatim>\<open>Rest_Client\<close>, \<^verbatim>\<open>Redis_Source\<close>, \<^verbatim>\<open>Stream_Source\<close>: the adapters, from
    \<^verbatim>\<open>ingest/tastytrade_client.py\<close>, \<^verbatim>\<open>tastytrade_stream.py\<close>, \<^verbatim>\<open>redis_source.py\<close> and \<^verbatim>\<open>redis_stream_source.py\<close>.
  \<^item> \<^verbatim>\<open>Http_Api\<close>, \<^verbatim>\<open>Cli\<close>: \<^verbatim>\<open>api\<close> and \<^verbatim>\<open>cli.py\<close>.
\<close>

text \<open>
  \<^bold>\<open>Correspondence.\<close> A definition has the name of the Python function it translates, with a prefix or suffix
  where the name is taken; the fields of a record have a prefix per record. A mutable object is a value
  passed along: an operation takes the ledger and returns what it answers with the ledger it leaves, and
  what it wrote before it failed stays written. A raised exception is \<^verbatim>\<open>Inl\<close> with its text. A decimal is a
  rational, an instant the microseconds since the epoch in UTC, a date a number of days, a string a list of
  ASCII characters, a dictionary an association list in insertion order, a surrogate id a natural number.
  What the program receives from outside is an argument: the broker, the symbology resolver, the settlement
  prices, the clock, fresh identifiers, the replies of servers and what connections deliver.

  \<^bold>\<open>What is shown.\<close>

  \<^item> Store: a natural key names one row under one id, an upsert keeps the id, a resync keeps the links it
    does not know. The SQL store refines the in-memory one: every sequence of writes the database accepts
    answers alike and leaves corresponding tables, and so do the reads. The migrations build the models.
  \<^item> Replay: the walk conserves quantity, cash and fees; the two reductions reconcile uses are the walk.
  \<^item> Reconcile: an error-free run leaves no candidate without a group and no closed group open, a second run
    opens nothing, a row is never taken from its group, an exit applies once, the draw-down takes exactly
    the closing quantity, synthesized settlements are the account's exposure.
  \<^item> Imports and streams: an import is idempotent and keeps what is the host's; the balance series is the
    throttled series; a stream entry is acknowledged after it was handled; a live fill agrees with history.
  \<^item> Client, server and command line: a session loses no record and moves no transaction unless told to;
    recorded intent wins; pages never split a band; a refused edit or failed command writes nothing.
  \<^item> Where the code departs from what it means to do, a theorem states what it does: the order of rows of
    one instant decides whether a group is closed, a lapse drops the partial results of its lot, the contract
    months of a future share an id, an entry that raises blocks its batch.

  \<^bold>\<open>Interfaces.\<close> \<^verbatim>\<open>keyed_table\<close> and its extension \<^verbatim>\<open>preserving_table\<close> (theory Table) are the contract of a
  natural-key table, interpreted for the tables of the store, for orders and for transactions.
  \<^verbatim>\<open>store_closed\<close> (Store_Laws) is a property of ledgers that every write keeps; the operations of reconcile, of
  the imports and of the client keep it, as they are made of writes; it is interpreted for well-formedness
  and, in Client_Session, for holding every earlier row. \<^verbatim>\<open>guarded_edit\<close> (Http_Api) is an edit that writes
  nothing when it refuses, interpreted for the edits of Remap and used by the command line.

  \<^bold>\<open>Bounds and fuel.\<close> The loop over migrations has as fuel the number of revisions, which every chain of
  distinct revisions fits. Reading pages is \<^verbatim>\<open>partial_function (option)\<close>: None is a loop that never ends, and
  against a server that serves a finite list it is shown to end. Printing a fraction stops at 28
  digits, the precision of Python's decimals. The stream sources run over arbitrary finite lists of
  replies. Every other recursion is structural or has a termination proof.

  \<^bold>\<open>Not modelled.\<close>

  \<^item> Rounding of decimals to 28 digits; decimals that are no numbers; ISO week dates; text outside ASCII.
  \<^item> Engines, pools, \<^verbatim>\<open>create_all\<close>, foreign keys (SQLite does not enforce them), the Postgres dialect of the
    store and its schema namespace: configuration of the database, not logic of the ledger.
  \<^item> \<^verbatim>\<open>migrations/env.py\<close>, the package \<^verbatim>\<open>__init__\<close> files, the protocols of \<^verbatim>\<open>store/base.py\<close> and \<^verbatim>\<open>ingest/push.py\<close>:
    wiring and signatures. The command that upgrades a database is the upgrade of theory Schema.
  \<^item> Parsing TOML and JSON text, HTTP, WebSocket and Redis clients, FastAPI, pydantic, typer and rich: libraries.
    The parsed document, the validated request, the replies and the printed tables are values of the model.
  \<^item> Interleaving inside one asynchronous operation: operations are atomic, their order is arbitrary.
  \<^item> The order of a \<^verbatim>\<open>SELECT\<close> without \<^verbatim>\<open>ORDER BY\<close>, taken as rowid order, and of a walk over a Python set.
  \<^item> Fields of broker messages whose type departs from the broker's documentation.
\<close>

end
